(* ===== verification/Prelude.thy ===== *)
theory Prelude
  imports
    Complex_Main
    "HOL-Library.AList"
    "HOL-Library.Char_ord"
    "HOL-Library.List_Lexorder"
    "HOL-Library.Product_Lexorder"
begin

text \<open>
  The shared vocabulary of the development: the model's number and time types, Python's
  truthiness and \<open>x or y\<close>, the first-minimum rule of \<open>min(xs, key=f)\<close> and its twin for
  \<open>max\<close>, the string operations the program uses, truncation and rounding of floats, and the
  laws of the insertion-ordered dictionary.

  A Python \<open>float\<close> is modelled by the exact rational \<^typ>\<open>rat\<close>: rounding error, infinities and
  NaN are outside the model. A \<open>datetime\<close> (naive UTC, as the program stores it) is the number of
  microseconds since the epoch, an \<^typ>\<open>int\<close>; a \<open>time.time()\<close> or \<open>time.monotonic()\<close> reading is
  a \<^typ>\<open>rat\<close> number of seconds. A \<open>str\<close> is a \<^typ>\<open>string\<close> whose characters are the code
  points below 256. Every operation that reads the clock takes the reading as an argument, and
  reads it once.
\<close>

section \<open>Types and named collections\<close>

type_synonym seconds = rat
type_synonym percent = rat
type_synonym credits = rat
type_synonym datetime = int
type_synonym ident = string

named_theorems py_simps \<open>definitions of the Python vocabulary, for evaluating closed terms\<close>

section \<open>Truthiness\<close>

text \<open>
  \<open>if x\<close> for an optional number: both \<open>None\<close> and zero are false. \<open>x or d\<close> is \<^term>\<open>or_num x d\<close>.
  The string versions treat the empty string as false.
\<close>

definition truthy :: "'a::zero option \<Rightarrow> bool" where
  "truthy x = (case x of None \<Rightarrow> False | Some v \<Rightarrow> v \<noteq> 0)"

definition or_num :: "'a::zero option \<Rightarrow> 'a \<Rightarrow> 'a" where
  "or_num x d = (case x of None \<Rightarrow> d | Some v \<Rightarrow> if v = 0 then d else v)"

definition truthy_str :: "string option \<Rightarrow> bool" where
  "truthy_str x = (case x of None \<Rightarrow> False | Some s \<Rightarrow> s \<noteq> [])"

definition or_str :: "string option \<Rightarrow> string \<Rightarrow> string" where
  "or_str x d = (case x of None \<Rightarrow> d | Some s \<Rightarrow> if s = [] then d else s)"

lemma truthy_simps [simp]:
  "truthy None = False"
  "truthy (Some v) = (v \<noteq> 0)"
  by (simp_all add: truthy_def)

lemma truthyE [elim]:
  assumes "truthy x"
  obtains v where "x = Some v" and "v \<noteq> 0"
  using assms by (cases x) auto

lemma or_num_simps [simp]:
  "or_num None d = d"
  "or_num (Some v) d = (if v = 0 then d else v)"
  by (simp_all add: or_num_def)

lemma truthy_str_simps [simp]:
  "truthy_str None = False"
  "truthy_str (Some s) = (s \<noteq> [])"
  by (simp_all add: truthy_str_def)

lemma or_str_simps [simp]:
  "or_str None d = d"
  "or_str (Some s) d = (if s = [] then d else s)"
  by (simp_all add: or_str_def)

section \<open>First minimum and first maximum\<close>

text \<open>
  \<open>min(xs, key=f)\<close> returns the first element whose key is least and raises on an empty sequence,
  which is \<^const>\<open>None\<close> here; \<open>max(xs, key=f)\<close> returns the first element whose key is greatest.
\<close>

fun min_from :: "('a \<Rightarrow> 'k::linorder) \<Rightarrow> 'a \<Rightarrow> 'a list \<Rightarrow> 'a" where
  "min_from f b [] = b"
| "min_from f b (y # ys) = min_from f (if f y < f b then y else b) ys"

fun min_by :: "('a \<Rightarrow> 'k::linorder) \<Rightarrow> 'a list \<Rightarrow> 'a option" where
  "min_by f [] = None"
| "min_by f (x # xs) = Some (min_from f x xs)"

fun max_from :: "('a \<Rightarrow> 'k::linorder) \<Rightarrow> 'a \<Rightarrow> 'a list \<Rightarrow> 'a" where
  "max_from f b [] = b"
| "max_from f b (y # ys) = max_from f (if f b < f y then y else b) ys"

fun max_by :: "('a \<Rightarrow> 'k::linorder) \<Rightarrow> 'a list \<Rightarrow> 'a option" where
  "max_by f [] = None"
| "max_by f (x # xs) = Some (max_from f x xs)"

lemma min_from_in: "min_from f b xs \<in> insert b (set xs)"
  by (induction f b xs rule: min_from.induct) auto

lemma min_from_le: "x \<in> insert b (set xs) \<Longrightarrow> f (min_from f b xs) \<le> f x"
proof (induction f b xs arbitrary: x rule: min_from.induct)
  case (1 f b)
  then show ?case by simp
next
  case (2 f b y ys)
  let ?b = "if f y < f b then y else b"
  have *: "f (min_from f ?b ys) \<le> f z" if "z \<in> insert ?b (set ys)" for z
    using that by (rule "2.IH")
  have "f ?b \<le> f b" "f ?b \<le> f y" by auto
  with * [of ?b] * [of x] "2.prems" show ?case by (auto intro: order_trans)
qed

lemma min_by_eq_None [simp]: "min_by f xs = None \<longleftrightarrow> xs = []"
  by (cases xs) auto

lemma min_by_in [dest]: "min_by f xs = Some x \<Longrightarrow> x \<in> set xs"
proof (cases xs)
  case (Cons a as)
  assume "min_by f xs = Some x"
  with Cons min_from_in [of f a as] show ?thesis by auto
qed simp

lemma min_by_le: "min_by f xs = Some x \<Longrightarrow> y \<in> set xs \<Longrightarrow> f x \<le> f y"
  by (cases xs) (auto simp: min_from_le)

lemma min_by_Some: "xs \<noteq> [] \<Longrightarrow> \<exists>x. min_by f xs = Some x"
  by (cases xs) auto

lemma min_by_ex [simp]: "(\<exists>x. min_by f xs = Some x) \<longleftrightarrow> xs \<noteq> []"
  by (cases xs) auto

lemma max_from_in: "max_from f b xs \<in> insert b (set xs)"
  by (induction f b xs rule: max_from.induct) auto

lemma max_from_ge: "x \<in> insert b (set xs) \<Longrightarrow> f x \<le> f (max_from f b xs)"
proof (induction f b xs arbitrary: x rule: max_from.induct)
  case (1 f b)
  then show ?case by simp
next
  case (2 f b y ys)
  let ?b = "if f b < f y then y else b"
  have *: "f z \<le> f (max_from f ?b ys)" if "z \<in> insert ?b (set ys)" for z
    using that by (rule "2.IH")
  have "f b \<le> f ?b" "f y \<le> f ?b" by auto
  with * [of ?b] * [of x] "2.prems" show ?case by (auto intro: order_trans)
qed

lemma max_by_eq_None [simp]: "max_by f xs = None \<longleftrightarrow> xs = []"
  by (cases xs) auto

lemma max_by_in [dest]: "max_by f xs = Some x \<Longrightarrow> x \<in> set xs"
proof (cases xs)
  case (Cons a as)
  assume "max_by f xs = Some x"
  with Cons max_from_in [of f a as] show ?thesis by auto
qed simp

lemma max_by_ge: "max_by f xs = Some x \<Longrightarrow> y \<in> set xs \<Longrightarrow> f y \<le> f x"
  by (cases xs) (auto simp: max_from_ge)

lemma max_from_inj_unique:
  assumes "inj_on f (insert b (set xs))" "x \<in> insert b (set xs)"
    and "\<And>y. y \<in> insert b (set xs) \<Longrightarrow> f y \<le> f x"
  shows "max_from f b xs = x"
proof -
  let ?m = "max_from f b xs"
  have "?m \<in> insert b (set xs)" by (rule max_from_in)
  moreover have "f x \<le> f ?m" using assms(2) by (rule max_from_ge)
  ultimately have "f ?m = f x" using assms(3) by (meson order_antisym)
  with assms(1,2) \<open>?m \<in> insert b (set xs)\<close> show ?thesis by (meson inj_onD)
qed

lemma max_by_inj_unique:
  assumes "inj_on f (set xs)" "x \<in> set xs" "\<And>y. y \<in> set xs \<Longrightarrow> f y \<le> f x"
  shows "max_by f xs = Some x"
  using assms by (cases xs) (auto intro!: max_from_inj_unique simp: insert_iff)

text \<open>The first maximum is the element that beats everything before it and is not beaten after it.\<close>

lemma max_from_split:
  "\<exists>pre post. b # xs = pre @ max_from f b xs # post \<and>
     (\<forall>y \<in> set pre. f y < f (max_from f b xs)) \<and> (\<forall>y \<in> set post. f y \<le> f (max_from f b xs))"
proof (induction f b xs rule: max_from.induct)
  case (1 f b)
  show ?case by (rule exI [of _ "[]"]) simp
next
  case (2 f b y ys)
  show ?case
  proof (cases "f b < f y")
    case True
    define m where "m = max_from f y ys"
    with "2.IH" True obtain pre post where *: "y # ys = pre @ m # post"
      "\<forall>z \<in> set pre. f z < f m" "\<forall>z \<in> set post. f z \<le> f m"
      by auto
    have "f y \<le> f m" unfolding m_def by (rule max_from_ge) simp
    with True have "f b < f m" by simp
    moreover have "max_from f b (y # ys) = m" using True by (simp add: m_def)
    ultimately show ?thesis using *
      by (intro exI [of _ "b # pre"] exI [of _ post]) (simp del: max_from.simps)
  next
    case False
    define m where "m = max_from f b ys"
    from "2.IH" False obtain pre post where *: "b # ys = pre @ m # post"
      "\<forall>z \<in> set pre. f z < f m" "\<forall>z \<in> set post. f z \<le> f m"
      by (auto simp: m_def)
    have m: "max_from f b (y # ys) = m" using False by (simp add: m_def)
    show ?thesis
    proof (cases pre)
      case Nil
      with * False m show ?thesis
        by (intro exI [of _ "[]"] exI [of _ "y # post"]) (simp del: max_from.simps)
    next
      case (Cons a pre')
      with * False m show ?thesis
        by (intro exI [of _ "b # y # pre'"] exI [of _ post]) (auto simp del: max_from.simps)
    qed
  qed
qed

lemma max_by_split:
  assumes "max_by f xs = Some x"
  obtains pre post where "xs = pre @ x # post"
    and "\<forall>y \<in> set pre. f y < f x" and "\<forall>y \<in> set post. f y \<le> f x"
proof (cases xs)
  case (Cons b ys)
  with assms max_from_split [of b ys f] that show ?thesis by auto
qed (use assms in simp)

lemma max_from_append_le:
  assumes "\<forall>y \<in> set post. f y \<le> f b"
  shows "max_from f b post = b"
  using assms by (induction post) auto

lemma max_from_first:
  assumes "f b < f x" "\<forall>y \<in> set pre. f y < f x" "\<forall>y \<in> set post. f y \<le> f x"
  shows "max_from f b (pre @ x # post) = x"
  using assms
proof (induction pre arbitrary: b)
  case Nil
  then show ?case by (simp add: max_from_append_le)
next
  case (Cons a pre)
  then show ?case by auto
qed

lemma max_by_first:
  assumes "\<forall>y \<in> set pre. f y < f x" "\<forall>y \<in> set post. f y \<le> f x"
  shows "max_by f (pre @ x # post) = Some x"
  using assms by (cases pre) (auto simp: max_from_append_le max_from_first)

section \<open>Truncation and rounding\<close>

text \<open>
  \<open>int(x)\<close> truncates towards zero; \<open>round(x, n)\<close> and the format \<open>:.0f\<close> round to nearest, ties to
  the even neighbour.
\<close>

definition py_int :: "rat \<Rightarrow> int" where
  "py_int x = (if 0 \<le> x then \<lfloor>x\<rfloor> else \<lceil>x\<rceil>)"

definition round_half_even :: "rat \<Rightarrow> int" where
  "round_half_even x =
     (let n = \<lfloor>x\<rfloor>; d = x - of_int n
      in if d < 1 / 2 then n else if 1 / 2 < d then n + 1 else if even n then n else n + 1)"

definition py_round :: "nat \<Rightarrow> rat \<Rightarrow> rat" where
  "py_round k x = of_int (round_half_even (x * 10 ^ k)) / 10 ^ k"

lemma py_int_of_int [simp]: "py_int (of_int n) = n"
  by (simp add: py_int_def)

lemma py_int_nonneg: "0 \<le> x \<Longrightarrow> 0 \<le> py_int x"
  by (simp add: py_int_def)

lemma py_int_le: "0 \<le> x \<Longrightarrow> of_int (py_int x) \<le> x"
  by (simp add: py_int_def)

lemma py_int_gt: "0 \<le> x \<Longrightarrow> x < of_int (py_int x) + 1"
  by (simp add: py_int_def) linarith

lemma py_int_mono: "0 \<le> x \<Longrightarrow> x \<le> y \<Longrightarrow> py_int x \<le> py_int y"
  by (auto simp: py_int_def floor_mono)

lemma round_half_even_bounds:
  "of_int (round_half_even x) - 1 / 2 \<le> x" "x \<le> of_int (round_half_even x) + 1 / 2"
  unfolding round_half_even_def Let_def by (auto; linarith)+

lemma round_half_even_mono_int: "x \<le> of_int n \<Longrightarrow> round_half_even x \<le> n"
proof -
  assume "x \<le> of_int n"
  then have le: "\<lfloor>x\<rfloor> \<le> n" by linarith
  show ?thesis
  proof (cases "\<lfloor>x\<rfloor> = n")
    case True
    with \<open>x \<le> of_int n\<close> have "x = of_int n" by linarith
    then show ?thesis by (simp add: round_half_even_def)
  next
    case False
    with le show ?thesis by (auto simp: round_half_even_def Let_def)
  qed
qed

lemma round_half_even_nonneg: "0 \<le> x \<Longrightarrow> 0 \<le> round_half_even x"
  by (auto simp: round_half_even_def Let_def)

lemma round_half_even_of_int [simp]: "round_half_even (of_int n) = n"
  by (simp add: round_half_even_def)

section \<open>Strings\<close>

text \<open>
  \<open>str.strip\<close> removes the characters Python calls white space on both sides, \<open>str.lower\<close> maps
  the upper-case letters among the first 256 code points, \<open>startswith\<close> and \<open>endswith\<close> compare an
  end of the string, \<open>removeprefix\<close> cuts a leading part off, \<open>py_in\<close> is the operator \<open>in\<close> on
  strings, and \<open>py_join\<close> and \<open>py_split\<close> are \<open>sep.join(parts)\<close> and \<open>s.split(c)\<close> for a single
  character \<open>c\<close>.
\<close>

definition is_space :: "char \<Rightarrow> bool" where
  "is_space c =
     (let n = (of_char c :: nat)
      in (9 \<le> n \<and> n \<le> 13) \<or> (28 \<le> n \<and> n \<le> 32) \<or> n = 133 \<or> n = 160)"

definition is_digit :: "char \<Rightarrow> bool" where
  "is_digit c = (let n = (of_char c :: nat) in 48 \<le> n \<and> n \<le> 57)"

definition lower_char :: "char \<Rightarrow> char" where
  "lower_char c =
     (let n = (of_char c :: nat)
      in if (65 \<le> n \<and> n \<le> 90) \<or> (192 \<le> n \<and> n \<le> 222 \<and> n \<noteq> 215) then char_of (n + 32) else c)"

definition py_lower :: "string \<Rightarrow> string" where
  "py_lower s = map lower_char s"

definition lstrip_by :: "(char \<Rightarrow> bool) \<Rightarrow> string \<Rightarrow> string" where
  "lstrip_by p s = dropWhile p s"

definition rstrip_by :: "(char \<Rightarrow> bool) \<Rightarrow> string \<Rightarrow> string" where
  "rstrip_by p s = rev (dropWhile p (rev s))"

definition py_strip :: "string \<Rightarrow> string" where
  "py_strip s = rstrip_by is_space (lstrip_by is_space s)"

definition startswith :: "string \<Rightarrow> string \<Rightarrow> bool" where
  "startswith s p = (take (length p) s = p)"

definition endswith :: "string \<Rightarrow> string \<Rightarrow> bool" where
  "endswith s p = (length p \<le> length s \<and> drop (length s - length p) s = p)"

definition py_in :: "string \<Rightarrow> string \<Rightarrow> bool" where
  "py_in needle s \<longleftrightarrow> list_ex (\<lambda>k. startswith (drop k s) needle) [0..<Suc (length s)]"

definition removeprefix :: "string \<Rightarrow> string \<Rightarrow> string" where
  "removeprefix s p = (if startswith s p then drop (length p) s else s)"

fun py_join :: "string \<Rightarrow> string list \<Rightarrow> string" where
  "py_join sep [] = []"
| "py_join sep [x] = x"
| "py_join sep (x # y # xs) = x @ sep @ py_join sep (y # xs)"

fun py_split :: "char \<Rightarrow> string \<Rightarrow> string list" where
  "py_split c [] = [[]]"
| "py_split c (x # xs) =
     (if x = c then [] # py_split c xs
      else case py_split c xs of [] \<Rightarrow> [[x]] | w # ws \<Rightarrow> (x # w) # ws)"

lemmas [py_simps] =
  is_space_def is_digit_def lower_char_def py_lower_def lstrip_by_def rstrip_by_def py_strip_def
  startswith_def endswith_def char_of_def bit_Suc_0_iff Let_def

lemma lower_char_idem [simp]: "lower_char (lower_char c) = lower_char c"
proof -
  have "(of_char c :: nat) < 256" by (metis nat_of_char_less_256)
  then show ?thesis
    by (auto simp: lower_char_def Let_def)
qed

lemma py_lower_idem [simp]: "py_lower (py_lower s) = py_lower s"
  by (simp add: py_lower_def)

lemma py_lower_append [simp]: "py_lower (s @ t) = py_lower s @ py_lower t"
  by (simp add: py_lower_def)

lemma py_lower_eq_Nil [simp]: "py_lower s = [] \<longleftrightarrow> s = []"
  by (simp add: py_lower_def)

lemma dropWhile_rev_dropWhile:
  "dropWhile p (rev (dropWhile p (rev (dropWhile p xs)))) = rev (dropWhile p (rev (dropWhile p xs)))"
proof (cases "rev (dropWhile p (rev (dropWhile p xs)))")
  case (Cons a as)
  let ?ys = "dropWhile p xs"
  obtain zs where zs: "rev ?ys = zs @ dropWhile p (rev ?ys)"
    by (metis takeWhile_dropWhile_id)
  then have "?ys = rev (dropWhile p (rev ?ys)) @ rev zs"
    by (metis rev_append rev_rev_ident)
  with Cons have "?ys = a # as @ rev zs" by simp
  then have "\<not> p a" by (metis hd_dropWhile list.distinct(1) list.sel(1))
  with Cons show ?thesis by simp
next
  case Nil
  then show ?thesis by (simp only: dropWhile.simps)
qed

lemma startswith_append [simp]: "startswith (p @ s) p"
  by (simp add: startswith_def)

lemma startswith_iff: "startswith s p \<longleftrightarrow> (\<exists>t. s = p @ t)"
  by (metis append_take_drop_id startswith_append startswith_def)

lemma removeprefix_append [simp]: "removeprefix (p @ s) p = s"
  by (simp add: removeprefix_def)

lemma py_split_not_Nil [simp]: "py_split c s \<noteq> []"
  by (induction s) (auto split: list.splits)

lemma py_join_split [simp]: "py_join [c] (py_split c s) = s"
proof (induction s)
  case (Cons x s)
  obtain w ws where w: "py_split c s = w # ws" by (cases "py_split c s") auto
  with Cons show ?case by (cases ws) auto
qed simp

lemma py_strip_idem [simp]: "py_strip (py_strip s) = py_strip s"
  unfolding py_strip_def rstrip_by_def lstrip_by_def
  by (simp add: dropWhile_rev_dropWhile)

lemma py_strip_pad:
  assumes "\<forall>c \<in> set a. is_space c" "\<forall>c \<in> set b. is_space c"
  shows "py_strip (a @ s @ b) = py_strip s"
proof (cases "dropWhile is_space s = []")
  case True
  then have "\<forall>c \<in> set s. is_space c" by simp
  with assms have "dropWhile is_space (a @ s @ b) = []" by simp
  with True show ?thesis by (simp only: py_strip_def lstrip_by_def)
next
  case False
  then obtain x where "x \<in> set s" "\<not> is_space x" by (meson dropWhile_eq_Nil_conv)
  with assms have "dropWhile is_space (a @ s @ b) = dropWhile is_space s @ b"
    by (simp add: dropWhile_append1 dropWhile_append2)
  moreover have "dropWhile is_space (rev b @ t) = dropWhile is_space t" for t
    using assms(2) by (intro dropWhile_append2) simp
  ultimately show ?thesis
    by (simp add: py_strip_def lstrip_by_def rstrip_by_def)
qed

end
