(* ===== verification/Db_Models.thy ===== *)
theory Db_Models
  imports Prelude
begin

text \<open>
  The persisted data the modelled components share, from \<open>app/db/models.py\<close>, and the naive/aware
  \<open>datetime\<close> conversions of \<open>app/core/utils/time.py\<close>. A table row is a record whose fields carry the
  table's prefix; columns holding encrypted tokens are kept as opaque strings.
\<close>

section \<open>Enumerations\<close>

datatype account_status = ACTIVE | RATE_LIMITED | QUOTA_EXCEEDED | PAUSED | DEACTIVATED

datatype sticky_session_kind = CODEX_SESSION | STICKY_THREAD | PROMPT_CACHE

section \<open>Rows\<close>

record account =
  acc_id :: string
  acc_chatgpt_account_id :: "string option"
  acc_email :: string
  acc_plan_type :: string
  acc_access_token_encrypted :: string
  acc_refresh_token_encrypted :: string
  acc_id_token_encrypted :: string
  acc_last_refresh :: datetime
  acc_created_at :: datetime
  acc_status :: account_status
  acc_deactivation_reason :: "string option"
  acc_reset_at :: "int option"
  acc_blocked_at :: "int option"

record usage_history =
  uh_account_id :: string
  uh_recorded_at :: datetime
  uh_window :: "string option"
  uh_used_percent :: percent
  uh_reset_at :: "int option"
  uh_window_minutes :: "int option"

section \<open>Datetimes\<close>

text \<open>
  A Python \<open>datetime\<close> without a zone is \<^term>\<open>Naive t\<close>; with one it is \<open>Aware t off\<close>, the wall
  clock reading \<open>t\<close> in a zone \<open>off\<close> microseconds east of UTC.
\<close>

datatype pydatetime = Naive datetime | Aware datetime int

fun to_utc_naive :: "pydatetime \<Rightarrow> datetime" where
  "to_utc_naive (Naive t) = t"
| "to_utc_naive (Aware t off) = t - off"

definition naive_utc_to_epoch :: "datetime \<Rightarrow> int" where
  "naive_utc_to_epoch t = py_int (of_int t / 1000000)"

definition from_epoch_seconds :: "int option \<Rightarrow> pydatetime option" where
  "from_epoch_seconds v = (case v of None \<Rightarrow> None | Some e \<Rightarrow> Some (Aware (e * 1000000) 0))"

text \<open>The zone in which an instant is written does not matter, and epoch seconds round-trip.\<close>

lemma to_utc_naive_shift: "to_utc_naive (Aware (t + d) (off + d)) = to_utc_naive (Aware t off)"
  by simp

lemma epoch_roundtrip:
  "map_option (naive_utc_to_epoch \<circ> to_utc_naive) (from_epoch_seconds (Some e)) = Some e"
proof -
  have "(rat_of_int (e * 1000000)) / 1000000 = of_int e" by simp
  then show ?thesis by (simp add: from_epoch_seconds_def naive_utc_to_epoch_def)
qed

text \<open>A row of the request log.\<close>

record request_log =
  rl_id :: int
  rl_account_id :: "string option"
  rl_api_key_id :: "string option"
  rl_session_id :: "string option"
  rl_request_id :: string
  rl_requested_at :: datetime
  rl_deleted_at :: "datetime option"
  rl_model :: string
  rl_plan_type :: "string option"
  rl_transport :: "string option"
  rl_service_tier :: "string option"
  rl_requested_service_tier :: "string option"
  rl_actual_service_tier :: "string option"
  rl_input_tokens :: "int option"
  rl_output_tokens :: "int option"
  rl_cached_input_tokens :: "int option"
  rl_reasoning_tokens :: "int option"
  rl_cost_usd :: "rat option"
  rl_reasoning_effort :: "string option"
  rl_latency_ms :: "int option"
  rl_latency_first_token_ms :: "int option"
  rl_status :: string
  rl_error_code :: "string option"
  rl_error_message :: "string option"

end
