(* ===== verification/Plan_Types.thy ===== *)
theory Plan_Types
  imports Prelude
begin

text \<open>
  Plan names, \<open>app/core/plan_types.py\<close>: cleaning, normalisation to the known plans, and the check of
  a plan against an allow list with its equivalences.
\<close>

section \<open>Tables\<close>

definition ACCOUNT_PLAN_TYPES :: "string list" where
  "ACCOUNT_PLAN_TYPES =
     [''free'', ''plus'', ''pro'', ''prolite'', ''team'', ''business'', ''enterprise'', ''edu'']"

definition RATE_LIMIT_PLAN_TYPES :: "string list" where
  "RATE_LIMIT_PLAN_TYPES =
     ACCOUNT_PLAN_TYPES @
     [''guest'', ''go'', ''free_workspace'', ''education'', ''quorum'', ''k12'']"

definition ACCOUNT_PLAN_EQUIVALENTS :: "(string \<times> string list) list" where
  "ACCOUNT_PLAN_EQUIVALENTS = [(''prolite'', [''pro''])]"

section \<open>Operations\<close>

definition clean_plan_type :: "string option \<Rightarrow> string option" where
  "clean_plan_type v =
     (case v of None \<Rightarrow> None
      | Some s \<Rightarrow> (let cleaned = py_strip s in if cleaned = [] then None else Some cleaned))"

definition normalize_account_plan_type :: "string option \<Rightarrow> string option" where
  "normalize_account_plan_type v =
     (case clean_plan_type v of None \<Rightarrow> None
      | Some cleaned \<Rightarrow>
          (let normalized = py_lower cleaned
           in if normalized \<in> set ACCOUNT_PLAN_TYPES then Some normalized else None))"

definition canonicalize_account_plan_type :: "string option \<Rightarrow> string option" where
  "canonicalize_account_plan_type v =
     (case clean_plan_type v of None \<Rightarrow> None
      | Some cleaned \<Rightarrow>
          (let normalized = py_lower cleaned
           in if normalized \<in> set ACCOUNT_PLAN_TYPES then Some normalized else Some cleaned))"

definition coerce_account_plan_type :: "string option \<Rightarrow> string \<Rightarrow> string" where
  "coerce_account_plan_type v dflt =
     (case clean_plan_type v of None \<Rightarrow> dflt
      | Some cleaned \<Rightarrow>
          (case canonicalize_account_plan_type (Some cleaned) of Some c \<Rightarrow> c | None \<Rightarrow> dflt))"

definition normalize_rate_limit_plan_type :: "string option \<Rightarrow> string option" where
  "normalize_rate_limit_plan_type v =
     (case clean_plan_type v of None \<Rightarrow> None
      | Some cleaned \<Rightarrow>
          (let normalized = py_lower cleaned
           in if normalized \<in> set RATE_LIMIT_PLAN_TYPES then Some normalized else None))"

definition account_plan_matches_allowed :: "string option \<Rightarrow> string list \<Rightarrow> bool" where
  "account_plan_matches_allowed v allowed =
     (case clean_plan_type v of None \<Rightarrow> False
      | Some cleaned \<Rightarrow>
          (let normalized_allowed = map py_lower allowed;
               normalized = normalize_account_plan_type (Some cleaned);
               candidate = or_str normalized (py_lower cleaned)
           in if candidate \<in> set normalized_allowed then True
              else case normalized of None \<Rightarrow> False
                   | Some n \<Rightarrow>
                       (case map_of ACCOUNT_PLAN_EQUIVALENTS n of None \<Rightarrow> False
                        | Some eqs \<Rightarrow> (\<exists>e \<in> set eqs. e \<in> set normalized_allowed))))"

section \<open>Laws\<close>

lemma clean_plan_type_nonempty: "clean_plan_type v = Some c \<Longrightarrow> c \<noteq> [] \<and> py_strip c = c"
  by (auto simp: clean_plan_type_def Let_def split: option.splits if_splits)

lemma clean_plan_type_idem [simp]: "clean_plan_type (clean_plan_type v) = clean_plan_type v"
  by (auto simp: clean_plan_type_def Let_def split: option.splits)

lemma known_plan_fixed:
  assumes "p \<in> set RATE_LIMIT_PLAN_TYPES"
  shows "clean_plan_type (Some p) = Some p" and "py_lower p = p"
  using assms
  by (auto simp: RATE_LIMIT_PLAN_TYPES_def ACCOUNT_PLAN_TYPES_def clean_plan_type_def py_simps)

lemma account_plan_fixed:
  assumes "p \<in> set ACCOUNT_PLAN_TYPES"
  shows "clean_plan_type (Some p) = Some p" and "py_lower p = p"
  using assms known_plan_fixed by (auto simp: RATE_LIMIT_PLAN_TYPES_def)

lemma normalize_account_plan_type_known:
  "normalize_account_plan_type v = Some p \<Longrightarrow> p \<in> set ACCOUNT_PLAN_TYPES"
  by (auto simp: normalize_account_plan_type_def Let_def split: option.splits if_splits)

lemma normalize_account_plan_type_idem:
  "normalize_account_plan_type v = Some p \<Longrightarrow> normalize_account_plan_type (Some p) = Some p"
  by (frule normalize_account_plan_type_known)
     (simp add: normalize_account_plan_type_def account_plan_fixed)

lemma canonicalize_account_plan_type_idem:
  "canonicalize_account_plan_type (canonicalize_account_plan_type v) = canonicalize_account_plan_type v"
proof (cases "clean_plan_type v")
  case (Some c)
  then have "clean_plan_type (Some c) = Some c" using clean_plan_type_idem [of v] by simp
  with Some show ?thesis
    by (auto simp: canonicalize_account_plan_type_def Let_def account_plan_fixed)
qed (simp add: canonicalize_account_plan_type_def clean_plan_type_def)

lemma normalize_ignores_case_and_padding:
  assumes "\<forall>c \<in> set a. is_space c" "\<forall>c \<in> set b. is_space c"
  shows "normalize_account_plan_type (Some (a @ s @ b)) = normalize_account_plan_type (Some s)"
  using assms by (simp add: normalize_account_plan_type_def clean_plan_type_def py_strip_pad)

text \<open>
  A \<open>prolite\<close> account is admitted wherever \<open>pro\<close> is allowed, and the equivalence is one way: a
  \<open>pro\<close> account is admitted only where \<open>pro\<close> itself is listed.
\<close>

lemma prolite_matches_pro:
  "account_plan_matches_allowed (Some ''prolite'') allowed \<longleftrightarrow>
     ''prolite'' \<in> set (map py_lower allowed) \<or> ''pro'' \<in> set (map py_lower allowed)"
proof -
  have n: "normalize_account_plan_type (Some ''prolite'') = Some ''prolite''"
    by (rule normalize_account_plan_type_idem [of "Some ''prolite''"])
       (simp add: normalize_account_plan_type_def clean_plan_type_def ACCOUNT_PLAN_TYPES_def py_simps)
  have "clean_plan_type (Some ''prolite'') = Some ''prolite''"
    by (simp add: clean_plan_type_def py_simps)
  with n show ?thesis
    by (auto simp: account_plan_matches_allowed_def ACCOUNT_PLAN_EQUIVALENTS_def Let_def)
qed

end
