(* ===== verification/Usage_Core.thy ===== *)
theory Usage_Core
  imports Db_Models Plan_Types
begin

text \<open>
  Usage windows, \<open>app/core/usage/__init__.py\<close> and \<open>app/core/usage/types.py\<close>: plan capacities, the
  conversions between percentages and credits, the summary of a window over all accounts, and the
  remapping of weekly windows reported in the primary slot.
\<close>

section \<open>Data\<close>

record usage_window_row =
  ur_account_id :: string
  ur_used_percent :: "percent option"
  ur_reset_at :: "int option"
  ur_window_minutes :: "int option"
  ur_recorded_at :: "pydatetime option"

record usage_window_summary =
  us_used_percent :: "percent option"
  us_capacity_credits :: credits
  us_used_credits :: credits
  us_reset_at :: "int option"
  us_window_minutes :: "int option"

record usage_window_snapshot =
  un_used_percent :: percent
  un_capacity_credits :: credits
  un_used_credits :: credits
  un_reset_at :: "int option"
  un_window_minutes :: "int option"

definition PLAN_CAPACITY_CREDITS_PRIMARY :: "(string \<times> credits) list" where
  "PLAN_CAPACITY_CREDITS_PRIMARY =
     [(''free'', 0), (''plus'', 225), (''business'', 225), (''team'', 225), (''edu'', 225),
      (''pro'', 1500), (''prolite'', 1125), (''enterprise'', 1500)]"

definition PLAN_CAPACITY_CREDITS_SECONDARY :: "(string \<times> credits) list" where
  "PLAN_CAPACITY_CREDITS_SECONDARY =
     [(''free'', 1134), (''plus'', 7560), (''business'', 7560), (''team'', 7560), (''edu'', 7560),
      (''pro'', 50400), (''prolite'', 37800), (''enterprise'', 50400)]"

definition DEFAULT_WINDOW_MINUTES_PRIMARY :: int where
  "DEFAULT_WINDOW_MINUTES_PRIMARY = 300"

definition DEFAULT_WINDOW_MINUTES_SECONDARY :: int where
  "DEFAULT_WINDOW_MINUTES_SECONDARY = 10080"

section \<open>Windows and capacities\<close>

definition normalize_window_key :: "string option \<Rightarrow> string" where
  "normalize_window_key window =
     (let normalized = py_lower (or_str window [])
      in if normalized \<in> {''primary'', ''5h''} then ''primary''
         else if normalized \<in> {''secondary'', ''7d''} then ''secondary''
         else normalized)"

definition capacity_for_plan :: "string option \<Rightarrow> string \<Rightarrow> credits option" where
  "capacity_for_plan plan_type window =
     (case normalize_account_plan_type plan_type of None \<Rightarrow> None
      | Some normalized \<Rightarrow>
          (let window_key = normalize_window_key (Some window)
           in if window_key = ''primary'' then map_of PLAN_CAPACITY_CREDITS_PRIMARY normalized
              else if window_key = ''secondary'' then map_of PLAN_CAPACITY_CREDITS_SECONDARY normalized
              else None))"

definition default_window_minutes :: "string \<Rightarrow> int option" where
  "default_window_minutes window =
     (let window_key = normalize_window_key (Some window)
      in if window_key = ''primary'' then Some DEFAULT_WINDOW_MINUTES_PRIMARY
         else if window_key = ''secondary'' then Some DEFAULT_WINDOW_MINUTES_SECONDARY
         else None)"

definition used_credits_from_percent :: "percent option \<Rightarrow> credits option \<Rightarrow> credits option" where
  "used_credits_from_percent used_percent capacity =
     (case (used_percent, capacity) of
        (Some u, Some c) \<Rightarrow> Some ((c * u) / 100)
      | _ \<Rightarrow> None)"

definition remaining_percent_from_used :: "percent option \<Rightarrow> percent option" where
  "remaining_percent_from_used used_percent =
     (case used_percent of None \<Rightarrow> None | Some u \<Rightarrow> Some (max 0 (100 - u)))"

definition remaining_credits_from_used :: "credits option \<Rightarrow> credits option \<Rightarrow> credits option" where
  "remaining_credits_from_used used_credits capacity =
     (case (used_credits, capacity) of
        (Some u, Some c) \<Rightarrow> Some (max 0 (c - u))
      | _ \<Rightarrow> None)"

definition remaining_credits_from_percent :: "percent option \<Rightarrow> credits option \<Rightarrow> credits option" where
  "remaining_credits_from_percent used_percent capacity =
     remaining_credits_from_used (used_credits_from_percent used_percent capacity) capacity"

definition resolve_window_minutes_values :: "string \<Rightarrow> int list \<Rightarrow> int option" where
  "resolve_window_minutes_values window vals =
     (if vals = [] then default_window_minutes window
      else if length (remdups vals) = 1 then Some (hd (remdups vals))
      else case default_window_minutes window of
             Some d \<Rightarrow> Some d
           | None \<Rightarrow> min_by id vals)"

definition positive_window_minutes :: "usage_window_row list \<Rightarrow> int list" where
  "positive_window_minutes rows =
     concat (map (\<lambda>row. case ur_window_minutes row of
                           Some m \<Rightarrow> if 0 < m then [m] else []
                         | None \<Rightarrow> []) rows)"

definition resolve_window_minutes :: "string \<Rightarrow> usage_window_row list \<Rightarrow> int option" where
  "resolve_window_minutes window rows =
     resolve_window_minutes_values window (positive_window_minutes rows)"

definition normalize_usage_window :: "usage_window_summary \<Rightarrow> usage_window_snapshot" where
  "normalize_usage_window s =
     \<lparr> un_used_percent = or_num (us_used_percent s) 0,
       un_capacity_credits = us_capacity_credits s,
       un_used_credits = us_used_credits s,
       un_reset_at = us_reset_at s,
       un_window_minutes = us_window_minutes s \<rparr>"

text \<open>
  The loop of \<open>summarize_usage_window\<close> over the rows, with its two accumulators; the lists of reset
  times and window lengths it collects do not depend on the accounts.
\<close>

fun sum_usage_rows ::
  "(string \<Rightarrow> account option) \<Rightarrow> string \<Rightarrow> usage_window_row list \<Rightarrow> credits \<Rightarrow> credits \<Rightarrow> credits \<times> credits"
where
  "sum_usage_rows account_map window [] total_capacity total_used = (total_capacity, total_used)"
| "sum_usage_rows account_map window (row # rows) total_capacity total_used =
     (let capacity = capacity_for_plan (map_option acc_plan_type (account_map (ur_account_id row))) window
      in case (ur_used_percent row, capacity) of
           (Some u, Some c) \<Rightarrow>
             sum_usage_rows account_map window rows (total_capacity + c) (total_used + (c * u) / 100)
         | _ \<Rightarrow> sum_usage_rows account_map window rows total_capacity total_used)"

definition summarize_usage_window ::
  "usage_window_row list \<Rightarrow> (string \<Rightarrow> account option) \<Rightarrow> string \<Rightarrow> usage_window_summary"
where
  "summarize_usage_window rows account_map window =
     (let (total_capacity, total_used) = sum_usage_rows account_map window rows 0 0;
          reset_candidates = List.map_filter ur_reset_at rows
      in \<lparr> us_used_percent =
             (if 0 < total_capacity then Some ((total_used / total_capacity) * 100) else None),
           us_capacity_credits = total_capacity,
           us_used_credits = total_used,
           us_reset_at = min_by id reset_candidates,
           us_window_minutes = resolve_window_minutes_values window (positive_window_minutes rows) \<rparr>)"

section \<open>Weekly windows in the primary slot\<close>

definition is_weekly_window_minutes :: "int option \<Rightarrow> bool" where
  "is_weekly_window_minutes window_minutes =
     (case window_minutes of None \<Rightarrow> False
      | Some m \<Rightarrow> (case default_window_minutes ''secondary'' of None \<Rightarrow> False | Some d \<Rightarrow> m = d))"

definition should_prefer_primary_row :: "usage_window_row \<Rightarrow> usage_window_row \<Rightarrow> bool" where
  "should_prefer_primary_row primary_row secondary_row =
     (let by_reset =
        (case (ur_reset_at primary_row, ur_reset_at secondary_row) of
           (Some p, Some s) \<Rightarrow> if p \<noteq> s then s < p else True
         | (Some _, None) \<Rightarrow> True
         | (None, Some _) \<Rightarrow> False
         | (None, None) \<Rightarrow> True)
      in case (map_option to_utc_naive (ur_recorded_at primary_row),
               map_option to_utc_naive (ur_recorded_at secondary_row)) of
           (Some p, Some s) \<Rightarrow> if p \<noteq> s then s < p else by_reset
         | (Some _, None) \<Rightarrow> True
         | (None, Some _) \<Rightarrow> False
         | (None, None) \<Rightarrow> by_reset)"

definition should_use_weekly_primary :: "usage_window_row \<Rightarrow> usage_window_row option \<Rightarrow> bool" where
  "should_use_weekly_primary primary_row secondary_row =
     (if \<not> is_weekly_window_minutes (ur_window_minutes primary_row) then False
      else case secondary_row of None \<Rightarrow> True
           | Some s \<Rightarrow> should_prefer_primary_row primary_row s)"

definition rows_by_account :: "usage_window_row list \<Rightarrow> (string \<times> usage_window_row) list" where
  "rows_by_account rows = fold (\<lambda>row d. AList.update (ur_account_id row) row d) rows []"

fun remap_weekly ::
  "(string \<times> usage_window_row) list \<Rightarrow> (string \<times> usage_window_row) list \<Rightarrow>
   usage_window_row list \<times> (string \<times> usage_window_row) list"
where
  "remap_weekly [] secondary = ([], secondary)"
| "remap_weekly ((account_id, primary_row) # items) secondary =
     (if is_weekly_window_minutes (ur_window_minutes primary_row) then
        remap_weekly items
          (if should_use_weekly_primary primary_row (map_of secondary account_id)
           then AList.update account_id primary_row secondary else secondary)
      else let (prims, secs) = remap_weekly items secondary in (primary_row # prims, secs))"

definition normalize_weekly_only_rows ::
  "usage_window_row list \<Rightarrow> usage_window_row list \<Rightarrow> usage_window_row list \<times> usage_window_row list"
where
  "normalize_weekly_only_rows primary_rows secondary_rows =
     (let (prims, secs) = remap_weekly (rows_by_account primary_rows) (rows_by_account secondary_rows)
      in (prims, map snd secs))"

section \<open>Laws of the conversions\<close>

lemma default_window_minutes_values [simp]:
  "default_window_minutes ''primary'' = Some 300"
  "default_window_minutes ''secondary'' = Some 10080"
  by (simp_all add: default_window_minutes_def normalize_window_key_def
      DEFAULT_WINDOW_MINUTES_PRIMARY_def DEFAULT_WINDOW_MINUTES_SECONDARY_def py_simps)

lemma is_weekly_iff [simp]: "is_weekly_window_minutes w \<longleftrightarrow> w = Some 10080"
  by (cases w) (auto simp: is_weekly_window_minutes_def)

lemma capacity_for_plan_nonneg: "capacity_for_plan p w = Some c \<Longrightarrow> 0 \<le> c"
  by (auto simp: capacity_for_plan_def PLAN_CAPACITY_CREDITS_PRIMARY_def
      PLAN_CAPACITY_CREDITS_SECONDARY_def Let_def split: option.splits if_splits)

lemma capacity_tables_total:
  assumes "p \<in> set ACCOUNT_PLAN_TYPES"
  shows "map_of PLAN_CAPACITY_CREDITS_PRIMARY p \<noteq> None"
    and "map_of PLAN_CAPACITY_CREDITS_SECONDARY p \<noteq> None"
  using assms
  by (auto simp: ACCOUNT_PLAN_TYPES_def PLAN_CAPACITY_CREDITS_PRIMARY_def
      PLAN_CAPACITY_CREDITS_SECONDARY_def)

lemma used_plus_remaining:
  assumes "0 \<le> u" "u \<le> 100" "0 \<le> c"
  shows "\<exists>used rem. used_credits_from_percent (Some u) (Some c) = Some used \<and>
           remaining_credits_from_percent (Some u) (Some c) = Some rem \<and>
           used + rem = c \<and> 0 \<le> used \<and> 0 \<le> rem"
proof -
  have "c * u \<le> c * 100" using assms by (intro mult_left_mono) auto
  then have "(c * u) / 100 \<le> c" by simp
  then have "used_credits_from_percent (Some u) (Some c) = Some ((c * u) / 100) \<and>
      remaining_credits_from_percent (Some u) (Some c) = Some (c - (c * u) / 100)"
    by (simp add: remaining_credits_from_percent_def used_credits_from_percent_def
        remaining_credits_from_used_def max_def)
  moreover have "0 \<le> (c * u) / 100" using assms by simp
  ultimately show ?thesis using \<open>(c * u) / 100 \<le> c\<close>
    by (intro exI [of _ "(c * u) / 100"] exI [of _ "c - (c * u) / 100"]) simp
qed

lemma resolve_window_minutes_values_member:
  "resolve_window_minutes_values window vals = Some m \<Longrightarrow>
     m \<in> set vals \<or> default_window_minutes window = Some m"
  by (auto simp: resolve_window_minutes_values_def length_Suc_conv split: if_splits option.splits
      dest!: min_by_in) (metis list.set_intros(1) set_remdups)

section \<open>Laws of the window summary\<close>

lemma sum_usage_rows_bounds:
  assumes "\<And>row u. row \<in> set rows \<Longrightarrow> ur_used_percent row = Some u \<Longrightarrow> 0 \<le> u \<and> u \<le> 100"
    and "0 \<le> tu" "tu \<le> tc"
    and "sum_usage_rows account_map window rows tc tu = (tc', tu')"
  shows "0 \<le> tu' \<and> tu' \<le> tc' \<and> tc \<le> tc'"
  using assms
proof (induction rows arbitrary: tc tu)
  case (Cons row rows)
  let ?cap = "capacity_for_plan (map_option acc_plan_type (account_map (ur_account_id row))) window"
  have rows: "\<And>r u. r \<in> set rows \<Longrightarrow> ur_used_percent r = Some u \<Longrightarrow> 0 \<le> u \<and> u \<le> 100"
    using Cons.prems(1) by auto
  show ?case
  proof (cases "\<exists>u c. ur_used_percent row = Some u \<and> ?cap = Some c")
    case True
    then obtain u c where uc: "ur_used_percent row = Some u" "?cap = Some c" by blast
    have c: "0 \<le> c" using uc(2) by (rule capacity_for_plan_nonneg)
    have u: "0 \<le> u" "u \<le> 100" using Cons.prems(1) uc(1) by auto
    have "c * u \<le> c * 100" using c u by (intro mult_left_mono) auto
    then have le: "tu + (c * u) / 100 \<le> tc + c" using Cons.prems(3) by simp
    have nn: "0 \<le> tu + (c * u) / 100" using c u Cons.prems(2) by simp
    have "sum_usage_rows account_map window rows (tc + c) (tu + (c * u) / 100) = (tc', tu')"
      using Cons.prems(4) uc by simp
    with Cons.IH [of "tu + (c * u) / 100" "tc + c"] rows nn le c show ?thesis by fastforce
  next
    case False
    then have "sum_usage_rows account_map window rows tc tu = (tc', tu')"
      using Cons.prems(4) by (auto simp: Let_def split: option.splits)
    with Cons.IH [of tu tc] rows Cons.prems(2,3) show ?thesis by blast
  qed
qed simp

text \<open>The overall percentage of a window lies between 0 and 100 when every row does.\<close>

lemma summarize_used_percent_range:
  assumes "\<And>row u. row \<in> set rows \<Longrightarrow> ur_used_percent row = Some u \<Longrightarrow> 0 \<le> u \<and> u \<le> 100"
    and "us_used_percent (summarize_usage_window rows account_map window) = Some p"
  shows "0 \<le> p \<and> p \<le> 100"
proof -
  obtain tc tu where t: "sum_usage_rows account_map window rows 0 0 = (tc, tu)" by fastforce
  have b: "0 \<le> tu \<and> tu \<le> tc \<and> 0 \<le> tc"
    using sum_usage_rows_bounds [OF assms(1) order_refl order_refl t] by simp
  from assms(2) t have "0 < tc" "p = tu / tc * 100"
    by (auto simp: summarize_usage_window_def Let_def split: if_splits)
  with b show ?thesis by (auto simp: divide_le_eq)
qed

section \<open>Laws of the weekly remapping\<close>

lemma fold_update_keys:
  "set (map fst (fold (\<lambda>row d. AList.update (k row) row d) rows d)) = k ` set rows \<union> set (map fst d)"
  by (induction rows arbitrary: d) (auto simp: dom_update)

lemma fold_update_keyed:
  assumes "\<forall>p \<in> set d. fst p = k (snd p)"
  shows "\<forall>p \<in> set (fold (\<lambda>row d. AList.update (k row) row d) rows d). fst p = k (snd p)"
  using assms
proof (induction rows arbitrary: d)
  case (Cons row rows)
  have "\<forall>p \<in> set (AList.update (k row) row d). fst p = k (snd p)"
    using Cons.prems by (induction d) (auto split: if_splits)
  with Cons.IH show ?case by simp
qed simp

lemma rows_by_account_keys:
  "fst ` set (rows_by_account rows) = ur_account_id ` set rows"
  "\<forall>p \<in> set (rows_by_account rows). fst p = ur_account_id (snd p)"
  using fold_update_keys [of ur_account_id rows "[]"] fold_update_keyed [of "[]" ur_account_id rows]
  by (simp_all add: rows_by_account_def)

lemma remap_weekly_primary:
  "remap_weekly items secondary = (prims, secs) \<Longrightarrow>
     prims = filter (\<lambda>r. ur_window_minutes r \<noteq> Some 10080) (map snd items)"
  by (induction items secondary arbitrary: prims secs rule: remap_weekly.induct)
     (auto simp: Let_def split: prod.splits if_splits)

lemma AList_update_values:
  "set (map snd (AList.update k v d)) \<subseteq> insert v (set (map snd d))"
  by (induction d) auto

lemma remap_weekly_keys:
  "remap_weekly items secondary = (prims, secs) \<Longrightarrow>
     set (map fst secs) =
       set (map fst secondary) \<union>
       fst ` {p \<in> set items. ur_window_minutes (snd p) = Some 10080}"
proof (induction items secondary arbitrary: prims secs rule: remap_weekly.induct)
  case (2 account_id primary_row items secondary)
  show ?case
  proof (cases "ur_window_minutes primary_row = Some 10080")
    case True
    let ?upd = "should_use_weekly_primary primary_row (map_of secondary account_id)"
    have known: "account_id \<in> set (map fst secondary)" if "\<not> ?upd"
      using that True
      by (auto simp: should_use_weekly_primary_def split: option.splits dest: map_of_SomeD)
         (force dest: map_of_SomeD)
    have "set (map fst (if ?upd then AList.update account_id primary_row secondary else secondary))
        = insert account_id (set (map fst secondary))"
      using known by (auto simp: dom_update)
    with "2.IH"(1) [of prims secs] "2.prems" True show ?thesis
      by (auto simp: image_iff)
  next
    case False
    with "2.prems" obtain prims' where "remap_weekly items secondary = (prims', secs)"
      by (auto simp: Let_def split: prod.splits)
    with "2.IH"(2) False show ?thesis by auto
  qed
qed simp

end
