(* ===== verification/Retry.thy ===== *)
theory Retry
  imports Prelude
begin

text \<open>
  Retry delays, \<open>app/core/utils/retry.py\<close>: reading a delay out of an upstream message and the
  jittered exponential backoff. The regular expression
  \<open>(?i)try again in\s*(\d+(?:\.\d+)?)\s*(s|ms|seconds?)\<close> is matched greedily: giving back a digit, a
  fraction or a space leaves a character that the rest of the pattern cannot start with, so the
  greedy match is the only one at a position, and the alternative \<open>s\<close> is tried before the others.
\<close>

section \<open>Decimal numerals\<close>

definition digit_value :: "char \<Rightarrow> nat" where
  "digit_value c = of_char c - 48"

definition digits_value :: "string \<Rightarrow> nat" where
  "digits_value ds = fold (\<lambda>c n. 10 * n + digit_value c) ds 0"

fun decimal :: "nat \<Rightarrow> string" where
  "decimal n = (if n < 10 then [char_of (48 + n)] else decimal (n div 10) @ [char_of (48 + n mod 10)])"

declare decimal.simps [simp del]

lemma digit_char: "d < 10 \<Longrightarrow> is_digit (char_of (48 + d)) \<and> digit_value (char_of (48 + d)) = d"
  by (auto simp: is_digit_def digit_value_def Let_def)

lemma digits_value_snoc: "digits_value (ds @ [c]) = 10 * digits_value ds + digit_value c"
  by (simp add: digits_value_def)

lemma decimal_digits: "decimal n \<noteq> [] \<and> (\<forall>c \<in> set (decimal n). is_digit c)"
proof (induction n rule: decimal.induct)
  case (1 n)
  then show ?case using digit_char by (subst (1 2) decimal.simps) auto
qed

lemma digits_value_decimal [simp]: "digits_value (decimal n) = n"
proof (induction n rule: decimal.induct)
  case (1 n)
  show ?case
  proof (cases "n < 10")
    case True
    then show ?thesis by (subst decimal.simps) (simp add: digits_value_def digit_char)
  next
    case False
    with 1 have "digits_value (decimal (n div 10)) = n div 10" by simp
    with False show ?thesis
      by (subst decimal.simps) (simp add: digits_value_snoc digit_char)
  qed
qed

section \<open>Retry hints in messages\<close>

definition retry_value :: "string \<Rightarrow> string \<Rightarrow> rat" where
  "retry_value ds fs = of_nat (digits_value ds) + of_nat (digits_value fs) / 10 ^ length fs"

definition match_retry_at :: "string \<Rightarrow> seconds option" where
  "match_retry_at s =
     (if py_lower (take 12 s) \<noteq> ''try again in'' then None
      else
        let r = dropWhile is_space (drop 12 s);
            ds = takeWhile is_digit r;
            r1 = dropWhile is_digit r
        in if ds = [] then None
           else
             let fs = (if startswith r1 ''.'' then takeWhile is_digit (drop 1 r1) else []);
                 r2 = (if fs = [] then r1 else dropWhile is_digit (drop 1 r1));
                 r3 = py_lower (dropWhile is_space r2);
                 amount = retry_value ds fs
             in if startswith r3 ''s'' then Some amount
                else if startswith r3 ''ms'' then Some (amount / 1000)
                else None)"

fun search_retry :: "string \<Rightarrow> seconds option" where
  "search_retry [] = match_retry_at []"
| "search_retry (c # cs) =
     (case match_retry_at (c # cs) of Some v \<Rightarrow> Some v | None \<Rightarrow> search_retry cs)"

definition parse_retry_after :: "string \<Rightarrow> seconds option" where
  "parse_retry_after message = search_retry message"

section \<open>Backoff\<close>

definition BACKOFF_INITIAL_DELAY_MS :: rat where "BACKOFF_INITIAL_DELAY_MS = 200"
definition BACKOFF_FACTOR :: rat where "BACKOFF_FACTOR = 2"
definition BACKOFF_JITTER_MIN :: rat where "BACKOFF_JITTER_MIN = 9 / 10"
definition BACKOFF_JITTER_MAX :: rat where "BACKOFF_JITTER_MAX = 11 / 10"

text \<open>The draw of \<open>random.uniform\<close> is the argument \<open>jitter\<close>.\<close>

definition backoff_seconds :: "rat \<Rightarrow> int \<Rightarrow> seconds" where
  "backoff_seconds jitter attempt =
     (let attempt' = (if attempt < 1 then 1 else attempt);
          exponent = BACKOFF_FACTOR ^ nat (attempt' - 1);
          base_ms = BACKOFF_INITIAL_DELAY_MS * exponent
      in (base_ms * jitter) / 1000)"

section \<open>Laws\<close>

lemma retry_value_nonneg: "0 \<le> retry_value ds fs"
  by (simp add: retry_value_def)

lemma match_retry_at_nonneg: "match_retry_at s = Some v \<Longrightarrow> 0 \<le> v"
  by (auto simp: match_retry_at_def Let_def split: if_splits
      intro!: retry_value_nonneg divide_nonneg_pos simp del: divide_eq_eq_numeral1 eq_divide_eq_numeral1)

lemma search_retry_nonneg: "search_retry s = Some v \<Longrightarrow> 0 \<le> v"
  by (induction s rule: search_retry.induct) (auto dest: match_retry_at_nonneg split: option.splits)

lemma parse_retry_after_nonneg: "parse_retry_after s = Some v \<Longrightarrow> 0 \<le> v"
  by (simp add: parse_retry_after_def search_retry_nonneg)

lemma digit_not_space: "is_digit c \<Longrightarrow> \<not> is_space c"
  by (auto simp: is_digit_def is_space_def Let_def)

lemma takeWhile_digits:
  assumes "\<forall>c \<in> set ds. is_digit c" "\<not> is_digit d"
  shows "takeWhile is_digit (ds @ d # r) = ds" and "dropWhile is_digit (ds @ d # r) = d # r"
  using assms by (simp_all add: takeWhile_append dropWhile_append)

lemma match_retry_at_seconds:
  "match_retry_at (''Try again in '' @ decimal n @ ''s'') = Some (of_nat n)"
proof -
  let ?ds = "decimal n"
  have ds: "?ds \<noteq> []" "\<forall>c \<in> set ?ds. is_digit c" using decimal_digits by auto
  then obtain d r where dr: "?ds = d # r" "\<not> is_space d"
    by (metis digit_not_space list.exhaust list.set_intros(1))
  have nd: "\<not> is_digit CHR ''s''" by (simp add: is_digit_def)
  have lower: "py_lower (take 12 (''Try again in '' @ ?ds @ ''s'')) = ''try again in''"
    by (simp add: py_simps)
  have sp: "is_space CHR '' ''" "\<not> is_space CHR ''s''" by (simp_all add: is_space_def)
  have rest: "dropWhile is_space (drop 12 (''Try again in '' @ ?ds @ ''s'')) = ?ds @ ''s''"
    using dr sp by simp
  have unit: "startswith (py_lower ''s'') ''s''" by (simp add: py_simps)
  show ?thesis
    unfolding match_retry_at_def Let_def rest takeWhile_digits [OF ds(2) nd]
    using lower ds(1) sp unit
    by (simp add: startswith_def retry_value_def) (simp add: digits_value_def)
qed

end
