(* ===== verification/Balancer.thy ===== *)
theory Balancer
  imports Usage_Core Retry
begin

text \<open>
  The balancing core, \<open>app/core/balancer/logic.py\<close>, with the rendezvous hash of
  \<open>app/core/balancer/rendezvous_hash.py\<close>: which accounts may serve a request now, which of them is
  chosen by each routing strategy, how upstream failures change an account's state, and the health
  tiers. The code mutates the account states it is given; here the updated states are returned. The
  clock reading, the uniform draw of \<open>random.choices\<close>, the backoff jitter and the SHA-256 digest are
  arguments.
\<close>

section \<open>Data\<close>

datatype routing_strategy = Usage_Weighted | Round_Robin | Capacity_Weighted

datatype failure_class = Rate_Limit | Quota | Retryable_Transient | Non_Retryable

datatype failover_action = Failover_Next | Surface

record upstream_error =
  ue_message :: "string option"
  ue_resets_at :: "rat option"
  ue_resets_in_seconds :: "rat option"

record account_state =
  st_account_id :: string
  st_status :: account_status
  st_used_percent :: "percent option"
  st_reset_at :: "seconds option"
  st_blocked_at :: "seconds option"
  st_cooldown_until :: "seconds option"
  st_secondary_used_percent :: "percent option"
  st_secondary_reset_at :: "int option"
  st_last_error_at :: "seconds option"
  st_last_selected_at :: "seconds option"
  st_error_count :: int
  st_deactivation_reason :: "string option"
  st_plan_type :: "string option"
  st_capacity_credits :: "credits option"
  st_health_tier :: int

record selection_result =
  sr_account :: "account_state option"
  sr_error_message :: "string option"

record selection_options =
  so_prefer_earlier_reset :: bool
  so_routing_strategy :: routing_strategy
  so_allow_backoff_fallback :: bool
  so_deterministic_probe :: bool
  so_primary_first_usage_weighted :: bool

definition PERMANENT_FAILURE_CODES :: "(string \<times> string) list" where
  "PERMANENT_FAILURE_CODES =
     [(''refresh_token_expired'', ''Refresh token expired - re-login required''),
      (''refresh_token_reused'', ''Refresh token was reused - re-login required''),
      (''refresh_token_invalidated'', ''Refresh token was revoked - re-login required''),
      (''token_expired'', ''Authentication token expired - re-login required''),
      (''account_deactivated'', ''Account has been deactivated''),
      (''account_suspended'', ''Account has been suspended''),
      (''account_deleted'', ''Account has been deleted'')]"

definition CAPACITY_PLAN_ALIASES :: "(string \<times> string) list" where
  "CAPACITY_PLAN_ALIASES =
     [(''education'', ''edu''), (''k12'', ''edu''), (''guest'', ''free''), (''go'', ''free''),
      (''free_workspace'', ''free''), (''quorum'', ''free''), (''unknown'', ''free'')]"

definition UNKNOWN_PLAN_FALLBACK :: string where "UNKNOWN_PLAN_FALLBACK = ''free''"
definition SECONDS_PER_DAY :: rat where "SECONDS_PER_DAY = 60 * 60 * 24"
definition UNKNOWN_RESET_BUCKET_DAYS :: int where "UNKNOWN_RESET_BUCKET_DAYS = 10000"
definition HEALTH_TIER_HEALTHY :: int where "HEALTH_TIER_HEALTHY = 0"
definition HEALTH_TIER_DRAINING :: int where "HEALTH_TIER_DRAINING = 1"
definition HEALTH_TIER_PROBING :: int where "HEALTH_TIER_PROBING = 2"
definition QUOTA_EXCEEDED_COOLDOWN_SECONDS :: rat where "QUOTA_EXCEEDED_COOLDOWN_SECONDS = 120"
definition SELECTOR_RETRY_HINT_MAX_SECONDS :: rat where "SELECTOR_RETRY_HINT_MAX_SECONDS = 300"

lemmas health_tier_defs [simp] =
  HEALTH_TIER_HEALTHY_def HEALTH_TIER_DRAINING_def HEALTH_TIER_PROBING_def

section \<open>Sort keys\<close>

definition usage_sort_key :: "account_state \<Rightarrow> rat \<times> rat \<times> rat \<times> string" where
  "usage_sort_key s =
     (let primary_used = (case st_used_percent s of Some u \<Rightarrow> u | None \<Rightarrow> 0);
          secondary_used = (case st_secondary_used_percent s of Some u \<Rightarrow> u | None \<Rightarrow> primary_used);
          last_selected = or_num (st_last_selected_at s) 0
      in (secondary_used, primary_used, last_selected, st_account_id s))"

definition primary_usage_sort_key :: "account_state \<Rightarrow> rat \<times> rat \<times> rat \<times> string" where
  "primary_usage_sort_key s =
     (let primary_used = (case st_used_percent s of Some u \<Rightarrow> u | None \<Rightarrow> 0);
          secondary_used = (case st_secondary_used_percent s of Some u \<Rightarrow> u | None \<Rightarrow> primary_used);
          last_selected = or_num (st_last_selected_at s) 0
      in (primary_used, secondary_used, last_selected, st_account_id s))"

definition reset_bucket_days :: "seconds \<Rightarrow> account_state \<Rightarrow> int" where
  "reset_bucket_days current s =
     (case st_secondary_reset_at s of
        None \<Rightarrow> UNKNOWN_RESET_BUCKET_DAYS
      | Some r \<Rightarrow> max 0 \<lfloor>(of_int r - current) / SECONDS_PER_DAY\<rfloor>)"

definition prefer_earlier_reset_candidates :: "seconds \<Rightarrow> account_state list \<Rightarrow> account_state list" where
  "prefer_earlier_reset_candidates current available =
     (case min_by id (map (reset_bucket_days current) available) of
        None \<Rightarrow> []
      | Some earliest \<Rightarrow> filter (\<lambda>s. reset_bucket_days current s = earliest) available)"

definition reset_first_sort_key :: "seconds \<Rightarrow> account_state \<Rightarrow> int \<times> rat \<times> rat \<times> rat \<times> string" where
  "reset_first_sort_key current s = (reset_bucket_days current s, usage_sort_key s)"

definition round_robin_sort_key :: "account_state \<Rightarrow> rat \<times> string" where
  "round_robin_sort_key s = (or_num (st_last_selected_at s) 0, st_account_id s)"

definition fallback_secondary_capacity_credits :: "string option \<Rightarrow> credits" where
  "fallback_secondary_capacity_credits plan_type =
     (let normalized = py_lower (py_strip (or_str plan_type []));
          resolved_plan =
            (case map_of CAPACITY_PLAN_ALIASES normalized of
               Some p \<Rightarrow> p
             | None \<Rightarrow> if normalized = [] then UNKNOWN_PLAN_FALLBACK else normalized)
      in case map_of PLAN_CAPACITY_CREDITS_SECONDARY resolved_plan of
           Some c \<Rightarrow> c
         | None \<Rightarrow> the (map_of PLAN_CAPACITY_CREDITS_SECONDARY UNKNOWN_PLAN_FALLBACK))"

definition remaining_secondary_credits :: "account_state \<Rightarrow> credits" where
  "remaining_secondary_credits s =
     (let used_pct =
            (case st_secondary_used_percent s of Some u \<Rightarrow> u
             | None \<Rightarrow> (case st_used_percent s of Some u \<Rightarrow> u | None \<Rightarrow> 0));
          remaining = (\<lambda>capacity. max 0 (capacity * (1 - min used_pct 100 / 100)))
      in case st_capacity_credits s of
           None \<Rightarrow> remaining (fallback_secondary_capacity_credits (st_plan_type s))
         | Some capacity \<Rightarrow> if capacity \<le> 0 then 0 else remaining capacity)"

definition capacity_probe_sort_key :: "account_state \<Rightarrow> rat \<times> rat \<times> rat \<times> rat \<times> string" where
  "capacity_probe_sort_key s = (- remaining_secondary_credits s, usage_sort_key s)"

section \<open>Weighted choice\<close>

text \<open>
  \<open>random.choices(population, weights, k=1)\<close> accumulates the weights, draws \<open>u\<close> in \<open>[0, 1)\<close> and
  takes the first index whose cumulated weight exceeds \<open>u * total\<close>, at most the last index.
\<close>

fun pick_index :: "rat \<Rightarrow> rat \<Rightarrow> rat list \<Rightarrow> nat" where
  "pick_index x acc [] = 0"
| "pick_index x acc [w] = 0"
| "pick_index x acc (w # v # ws) = (if x < acc + w then 0 else Suc (pick_index x (acc + w) (v # ws)))"

definition random_choice :: "rat \<Rightarrow> 'a list \<Rightarrow> rat list \<Rightarrow> 'a" where
  "random_choice u population weights = population ! pick_index (u * sum_list weights) 0 weights"

definition select_capacity_weighted :: "rat \<Rightarrow> account_state list \<Rightarrow> account_state option" where
  "select_capacity_weighted u available =
     (let weights = map remaining_secondary_credits available;
          total = sum_list weights
      in if total \<le> 0 then min_by usage_sort_key available
         else Some (random_choice u available weights))"

section \<open>Availability\<close>

datatype verdict = Skipped | In_Error_Backoff | Available

definition error_backoff :: "account_state \<Rightarrow> rat" where
  "error_backoff s = of_int (min 300 (30 * 2 ^ nat (st_error_count s - 3)))"

definition reset_passed :: "seconds \<Rightarrow> account_state \<Rightarrow> bool" where
  "reset_passed current s \<longleftrightarrow> truthy (st_reset_at s) \<and> the (st_reset_at s) \<le> current"

definition recover_limited :: "seconds \<Rightarrow> account_state \<Rightarrow> account_state option" where
  "recover_limited current s =
     (if st_status s = RATE_LIMITED then
        if reset_passed current s
        then Some (s\<lparr> st_status := ACTIVE, st_error_count := 0, st_reset_at := None \<rparr>)
        else None
      else if st_status s = QUOTA_EXCEEDED then
        if reset_passed current s
        then Some (s\<lparr> st_status := ACTIVE, st_used_percent := Some 0, st_reset_at := None \<rparr>)
        else None
      else Some s)"

definition clear_cooldown :: "seconds \<Rightarrow> account_state \<Rightarrow> account_state" where
  "clear_cooldown current s =
     (if truthy (st_cooldown_until s) \<and> the (st_cooldown_until s) \<le> current
      then s\<lparr> st_cooldown_until := None, st_last_error_at := None, st_error_count := 0 \<rparr>
      else s)"

definition in_cooldown :: "seconds \<Rightarrow> account_state \<Rightarrow> bool" where
  "in_cooldown current s \<longleftrightarrow>
     truthy (st_cooldown_until s) \<and> current < the (st_cooldown_until s)"

definition in_error_backoff :: "seconds \<Rightarrow> account_state \<Rightarrow> bool" where
  "in_error_backoff current s \<longleftrightarrow>
     3 \<le> st_error_count s \<and> truthy (st_last_error_at s) \<and>
     current - the (st_last_error_at s) < error_backoff s"

definition step_state :: "seconds \<Rightarrow> account_state \<Rightarrow> account_state \<times> verdict" where
  "step_state current s =
     (if st_status s = DEACTIVATED then (s, Skipped)
      else if st_status s = PAUSED then (s, Skipped)
      else case recover_limited current s of
             None \<Rightarrow> (s, Skipped)
           | Some s1 \<Rightarrow>
               (let s2 = clear_cooldown current s1
                in if in_cooldown current s2 then (s2, Skipped)
                   else if 3 \<le> st_error_count s2 then
                     if in_error_backoff current s2 then (s2, In_Error_Backoff)
                     else (s2\<lparr> st_error_count := 0, st_last_error_at := None \<rparr>, Available)
                   else (s2, Available)))"

definition updated_states :: "seconds \<Rightarrow> account_state list \<Rightarrow> account_state list" where
  "updated_states current states = map (\<lambda>s. fst (step_state current s)) states"

definition states_with :: "verdict \<Rightarrow> seconds \<Rightarrow> account_state list \<Rightarrow> account_state list" where
  "states_with v current states = map fst (filter (\<lambda>p. snd p = v) (map (step_state current) states))"

section \<open>Messages\<close>

definition format_retry_hint :: "seconds \<Rightarrow> string" where
  "format_retry_hint wait_seconds =
     (let capped = min (max 0 wait_seconds) SELECTOR_RETRY_HINT_MAX_SECONDS
      in ''Rate limit exceeded. Try again in '' @ decimal (nat (round_half_even capped)) @ ''s'')"

definition truthy_values :: "seconds option list \<Rightarrow> seconds list" where
  "truthy_values xs = map the (filter truthy xs)"

definition unavailable_message :: "seconds \<Rightarrow> account_state list \<Rightarrow> string" where
  "unavailable_message current all_states =
     (let deactivated = filter (\<lambda>s. st_status s = DEACTIVATED) all_states;
          paused = filter (\<lambda>s. st_status s = PAUSED) all_states;
          rate_limited = filter (\<lambda>s. st_status s = RATE_LIMITED) all_states;
          quota_exceeded = filter (\<lambda>s. st_status s = QUOTA_EXCEEDED) all_states;
          cooldown_message =
            (case min_by id (filter (\<lambda>t. current < t) (truthy_values (map st_cooldown_until all_states))) of
               Some t \<Rightarrow> format_retry_hint (max 0 (t - current))
             | None \<Rightarrow> ''No available accounts'')
      in if paused \<noteq> [] \<and> deactivated \<noteq> [] \<and> rate_limited = [] \<and> quota_exceeded = []
         then ''All accounts are paused or require re-authentication''
         else if paused \<noteq> [] \<and> rate_limited = [] \<and> quota_exceeded = []
         then ''All accounts are paused''
         else if deactivated \<noteq> [] \<and> rate_limited = [] \<and> quota_exceeded = []
         then ''All accounts require re-authentication''
         else if quota_exceeded \<noteq> [] then
           case min_by id (truthy_values (map st_reset_at quota_exceeded)) of
             Some t \<Rightarrow> format_retry_hint (max 0 (t - of_int (py_int current)))
           | None \<Rightarrow> cooldown_message
         else cooldown_message)"

section \<open>Selection\<close>

definition hard_blocked :: "account_state \<Rightarrow> bool" where
  "hard_blocked s \<longleftrightarrow> st_status s \<in> {PAUSED, DEACTIVATED, RATE_LIMITED, QUOTA_EXCEEDED}"

definition backoff_expires_at :: "account_state \<Rightarrow> rat" where
  "backoff_expires_at s = or_num (st_last_error_at s) 0 + error_backoff s"

definition candidate_states ::
  "selection_options \<Rightarrow> seconds \<Rightarrow> account_state list \<Rightarrow> account_state list"
where
  "candidate_states opts current states =
     (let available = states_with Available current states;
          backoff = states_with In_Error_Backoff current states;
          hard_blocked_exists = list_ex hard_blocked (updated_states current states)
      in if available \<noteq> [] then available
         else if so_allow_backoff_fallback opts \<and>
                 (1 < length backoff \<or> (backoff \<noteq> [] \<and> hard_blocked_exists))
         then (case min_by backoff_expires_at backoff of Some s \<Rightarrow> [s] | None \<Rightarrow> [])
         else [])"

definition effective_pool :: "account_state list \<Rightarrow> account_state list" where
  "effective_pool available =
     (let healthy = filter (\<lambda>s. st_health_tier s = HEALTH_TIER_HEALTHY) available;
          probing = filter (\<lambda>s. st_health_tier s = HEALTH_TIER_PROBING) available;
          draining = filter (\<lambda>s. st_health_tier s = HEALTH_TIER_DRAINING) available
      in if healthy \<noteq> [] then healthy
         else if probing \<noteq> [] then probing
         else if draining \<noteq> [] then draining
         else available)"

definition choose_from_pool ::
  "selection_options \<Rightarrow> seconds \<Rightarrow> rat \<Rightarrow> account_state list \<Rightarrow> account_state option"
where
  "choose_from_pool opts current u pool =
     (case so_routing_strategy opts of
        Round_Robin \<Rightarrow> min_by round_robin_sort_key pool
      | Capacity_Weighted \<Rightarrow>
          (let candidate_pool =
                 (if so_prefer_earlier_reset opts
                  then prefer_earlier_reset_candidates current pool else pool)
           in if so_deterministic_probe opts then min_by capacity_probe_sort_key candidate_pool
              else select_capacity_weighted u candidate_pool)
      | Usage_Weighted \<Rightarrow>
          if so_primary_first_usage_weighted opts then min_by primary_usage_sort_key pool
          else if so_prefer_earlier_reset opts then min_by (reset_first_sort_key current) pool
          else min_by usage_sort_key pool)"

definition select_account ::
  "selection_options \<Rightarrow> seconds \<Rightarrow> rat \<Rightarrow> account_state list \<Rightarrow>
   selection_result \<times> account_state list"
where
  "select_account opts current u states =
     (let all_states = updated_states current states;
          available = candidate_states opts current states
      in if available = []
         then (\<lparr> sr_account = None,
                 sr_error_message = Some (unavailable_message current all_states) \<rparr>, all_states)
         else (\<lparr> sr_account = choose_from_pool opts current u (effective_pool available),
                 sr_error_message = None \<rparr>, all_states))"

section \<open>Failure handlers\<close>

definition extract_reset_at :: "seconds \<Rightarrow> upstream_error \<Rightarrow> int option" where
  "extract_reset_at now e =
     (case ue_resets_at e of
        Some r \<Rightarrow> Some (py_int r)
      | None \<Rightarrow> (case ue_resets_in_seconds e of
                   Some r \<Rightarrow> Some (py_int (now + r))
                 | None \<Rightarrow> None))"

definition handle_rate_limit :: "seconds \<Rightarrow> rat \<Rightarrow> upstream_error \<Rightarrow> account_state \<Rightarrow> account_state" where
  "handle_rate_limit now jitter e s =
     (let n = st_error_count s + 1;
          reset = (case extract_reset_at now e of Some r \<Rightarrow> Some (of_int r) | None \<Rightarrow> st_reset_at s);
          parsed = (if truthy_str (ue_message e) then parse_retry_after (the (ue_message e)) else None);
          delay = (case parsed of Some d \<Rightarrow> d | None \<Rightarrow> backoff_seconds jitter n)
      in s\<lparr> st_status := RATE_LIMITED, st_error_count := n, st_last_error_at := Some now,
            st_blocked_at := Some now, st_reset_at := reset,
            st_cooldown_until := Some (now + delay) \<rparr>)"

definition handle_quota_exceeded :: "seconds \<Rightarrow> upstream_error \<Rightarrow> account_state \<Rightarrow> account_state" where
  "handle_quota_exceeded now e s =
     s\<lparr> st_status := QUOTA_EXCEEDED, st_used_percent := Some 100, st_blocked_at := Some now,
        st_cooldown_until := Some (now + QUOTA_EXCEEDED_COOLDOWN_SECONDS),
        st_reset_at := Some (of_int (case extract_reset_at now e of
                                       Some r \<Rightarrow> r
                                     | None \<Rightarrow> py_int (now + 3600))) \<rparr>"

definition handle_permanent_failure :: "string \<Rightarrow> account_state \<Rightarrow> account_state" where
  "handle_permanent_failure error_code s =
     s\<lparr> st_status := DEACTIVATED,
        st_deactivation_reason :=
          Some (case map_of PERMANENT_FAILURE_CODES error_code of
                  Some reason \<Rightarrow> reason
                | None \<Rightarrow> ''Authentication failed: '' @ error_code),
        st_blocked_at := None \<rparr>"

definition failover_decision :: "failure_class \<Rightarrow> bool \<Rightarrow> int \<Rightarrow> failover_action" where
  "failover_decision failure_class downstream_visible candidates_remaining =
     (if downstream_visible then Surface
      else if candidates_remaining \<le> 0 then Surface
      else if failure_class \<in> {Rate_Limit, Quota, Retryable_Transient} then Failover_Next
      else Surface)"

section \<open>Health tiers\<close>

record health_params =
  hp_drain_primary_threshold_pct :: rat
  hp_drain_secondary_threshold_pct :: rat
  hp_drain_error_window_seconds :: rat
  hp_drain_error_count_threshold :: int
  hp_probe_quiet_seconds :: rat
  hp_probe_success_streak_required :: int

definition default_health_params :: health_params where
  "default_health_params =
     \<lparr> hp_drain_primary_threshold_pct = 85, hp_drain_secondary_threshold_pct = 90,
       hp_drain_error_window_seconds = 60, hp_drain_error_count_threshold = 2,
       hp_probe_quiet_seconds = 60, hp_probe_success_streak_required = 3 \<rparr>"

definition should_drain :: "health_params \<Rightarrow> seconds \<Rightarrow> account_state \<Rightarrow> bool" where
  "should_drain p current s \<longleftrightarrow>
     (case st_used_percent s of Some u \<Rightarrow> hp_drain_primary_threshold_pct p \<le> u | None \<Rightarrow> False) \<or>
     (case st_secondary_used_percent s of
        Some u \<Rightarrow> hp_drain_secondary_threshold_pct p \<le> u | None \<Rightarrow> False) \<or>
     (hp_drain_error_count_threshold p \<le> st_error_count s \<and>
      (case st_last_error_at s of
         Some t \<Rightarrow> current - t < hp_drain_error_window_seconds p | None \<Rightarrow> False))"

definition evaluate_health_tier ::
  "health_params \<Rightarrow> seconds \<Rightarrow> seconds option \<Rightarrow> int \<Rightarrow> account_state \<Rightarrow> int"
where
  "evaluate_health_tier p current drain_entered_at probe_success_streak s =
     (if hard_blocked s then st_health_tier s
      else if st_health_tier s = HEALTH_TIER_HEALTHY then
        if should_drain p current s then HEALTH_TIER_DRAINING else HEALTH_TIER_HEALTHY
      else if st_health_tier s = HEALTH_TIER_DRAINING then
        if should_drain p current s then HEALTH_TIER_DRAINING
        else (case drain_entered_at of
                Some t \<Rightarrow> if hp_probe_quiet_seconds p \<le> current - t
                          then HEALTH_TIER_PROBING else HEALTH_TIER_DRAINING
              | None \<Rightarrow> HEALTH_TIER_DRAINING)
      else if st_health_tier s = HEALTH_TIER_PROBING then
        if should_drain p current s then HEALTH_TIER_DRAINING
        else if hp_probe_success_streak_required p \<le> probe_success_streak
        then HEALTH_TIER_HEALTHY else HEALTH_TIER_PROBING
      else HEALTH_TIER_HEALTHY)"

section \<open>Rendezvous hashing\<close>

definition select_node :: "(string \<Rightarrow> nat list) \<Rightarrow> string \<Rightarrow> string list \<Rightarrow> string option" where
  "select_node sha256 key nodes =
     (if nodes = [] then None
      else if length nodes = 1 then Some (hd nodes)
      else max_by (\<lambda>node. sha256 (key @ '':'' @ node)) nodes)"

end
