(* ===== verification/Balancer_Laws.thy ===== *)
theory Balancer_Laws
  imports Balancer
begin

text \<open>
  The laws of the balancing core: exactly which accounts are available at an instant, that a
  selection is always one of them and fails only when there is none, the preference order of the
  health tiers, the minimality of the deterministic strategies, the distribution of the weighted
  one, the retry hint, and the effect of the failure handlers on later selections.
\<close>

section \<open>Availability, read off the stored state\<close>

text \<open>
  \<^term>\<open>usable\<close> and \<^term>\<open>backing_off\<close> say of a stored state, before any recovery is applied, what
  the loop of \<open>select_account\<close> decides about it. The error count that matters is the one left after
  a passed rate-limit reset or a passed cooldown has cleared it.
\<close>

definition usable :: "seconds \<Rightarrow> account_state \<Rightarrow> bool" where
  "usable current s \<longleftrightarrow>
     (st_status s = ACTIVE \<or>
      (st_status s \<in> {RATE_LIMITED, QUOTA_EXCEEDED} \<and> reset_passed current s)) \<and>
     \<not> in_cooldown current s"

definition backing_off :: "seconds \<Rightarrow> account_state \<Rightarrow> bool" where
  "backing_off current s \<longleftrightarrow>
     st_status s \<noteq> RATE_LIMITED \<and> \<not> truthy (st_cooldown_until s) \<and> in_error_backoff current s"

lemmas step_defs =
  step_state_def recover_limited_def clear_cooldown_def in_cooldown_def in_error_backoff_def
  usable_def backing_off_def reset_passed_def error_backoff_def

lemma step_Available_iff:
  "snd (step_state current s) = Available \<longleftrightarrow> usable current s \<and> \<not> backing_off current s"
  by (cases "st_status s") (auto simp: step_defs Let_def)

lemma step_Backoff_iff:
  "snd (step_state current s) = In_Error_Backoff \<longleftrightarrow> usable current s \<and> backing_off current s"
  by (cases "st_status s") (auto simp: step_defs Let_def)

lemma step_state_usable:
  assumes "snd (step_state current s) \<noteq> Skipped"
  shows "st_status (fst (step_state current s)) = ACTIVE"
    and "\<not> in_cooldown current (fst (step_state current s))"
  using assms
  by (cases "st_status s"; auto simp: step_state_def recover_limited_def clear_cooldown_def
      in_cooldown_def Let_def split: if_splits)+

lemma step_state_account_id [simp]:
  "st_account_id (fst (step_state current s)) = st_account_id s"
  "st_health_tier (fst (step_state current s)) = st_health_tier s"
  "st_secondary_used_percent (fst (step_state current s)) = st_secondary_used_percent s"
  "st_last_selected_at (fst (step_state current s)) = st_last_selected_at s"
  by (auto simp: step_state_def recover_limited_def clear_cooldown_def Let_def split: if_splits)

lemma step_Available_no_errors:
  "snd (step_state current s) = Available \<Longrightarrow> st_error_count (fst (step_state current s)) < 3"
  by (auto simp: step_state_def Let_def split: if_splits option.splits)

lemma set_states_with:
  "set (states_with v current states) =
     {fst (step_state current s) | s. s \<in> set states \<and> snd (step_state current s) = v}"
  by (auto simp: states_with_def)

lemma updated_states_ids [simp]:
  "map st_account_id (updated_states current states) = map st_account_id states"
  by (simp add: updated_states_def)

lemma states_with_subset: "set (states_with v current states) \<subseteq> set (updated_states current states)"
  by (auto simp: set_states_with updated_states_def)

section \<open>Choosing from a pool\<close>

text \<open>
  What a client of a chooser relies on: it picks a member, and it picks something from every
  non-empty pool.
\<close>

locale pool_chooser =
  fixes pick :: "'a list \<Rightarrow> 'a option"
  assumes pick_member: "pick xs = Some x \<Longrightarrow> x \<in> set xs"
    and pick_total: "xs \<noteq> [] \<Longrightarrow> pick xs \<noteq> None"
begin

lemma pick_some:
  assumes "xs \<noteq> []"
  obtains x where "pick xs = Some x" and "x \<in> set xs"
  using pick_total [OF assms] pick_member by blast

lemma pick_within: "set xs \<subseteq> A \<Longrightarrow> pick xs = Some x \<Longrightarrow> x \<in> A"
  using pick_member by blast

lemma pick_filter: "pick (filter P xs) = Some x \<Longrightarrow> P x \<and> x \<in> set xs"
  using pick_member by fastforce

lemma pick_none_iff: "pick xs = None \<Longrightarrow> xs = []"
  using pick_total by blast

end

lemma pick_index_less: "ws \<noteq> [] \<Longrightarrow> pick_index x acc ws < length ws"
  by (induction x acc ws rule: pick_index.induct) auto

lemma random_choice_in:
  assumes "xs \<noteq> []" "length ws = length xs"
  shows "random_choice u xs ws \<in> set xs"
proof -
  have "pick_index (u * sum_list ws) 0 ws < length xs"
    using pick_index_less [of ws] assms by (metis length_0_conv)
  then show ?thesis by (simp add: random_choice_def)
qed

lemma prefer_earlier_subset:
  "set (prefer_earlier_reset_candidates current xs) \<subseteq> set xs"
  by (auto simp: prefer_earlier_reset_candidates_def split: option.splits)

lemma prefer_earlier_nonempty:
  assumes "xs \<noteq> []"
  shows "prefer_earlier_reset_candidates current xs \<noteq> []"
proof -
  from assms obtain e where e: "min_by id (map (reset_bucket_days current) xs) = Some e"
    by (metis Nil_is_map_conv min_by_Some)
  then have "e \<in> reset_bucket_days current ` set xs" using min_by_in by fastforce
  with e show ?thesis
    by (auto simp: prefer_earlier_reset_candidates_def filter_empty_conv)
qed

lemma select_capacity_weighted_member:
  "select_capacity_weighted u xs = Some x \<Longrightarrow> x \<in> set xs"
  by (cases "xs = []")
     (auto simp: select_capacity_weighted_def Let_def random_choice_in split: if_splits)

lemma select_capacity_weighted_total: "xs \<noteq> [] \<Longrightarrow> select_capacity_weighted u xs \<noteq> None"
  by (simp add: select_capacity_weighted_def Let_def)

lemma choose_from_pool_member: "choose_from_pool opts current u xs = Some x \<Longrightarrow> x \<in> set xs"
  using prefer_earlier_subset [of current xs]
  by (auto simp: choose_from_pool_def Let_def split: routing_strategy.splits if_splits
      dest!: min_by_in select_capacity_weighted_member)

lemma choose_from_pool_total: "xs \<noteq> [] \<Longrightarrow> choose_from_pool opts current u xs \<noteq> None"
  using prefer_earlier_nonempty [of xs current] select_capacity_weighted_total
  by (auto simp: choose_from_pool_def Let_def split: routing_strategy.splits)

interpretation routing: pool_chooser "choose_from_pool opts current u" for opts current u
  by unfold_locales (auto dest: choose_from_pool_member choose_from_pool_total)

section \<open>The candidates and the pool\<close>

definition waiting :: "seconds \<Rightarrow> account_state list \<Rightarrow> account_state list" where
  "waiting current states = filter (\<lambda>s. usable current s \<and> backing_off current s) states"

definition stays_blocked :: "seconds \<Rightarrow> account_state \<Rightarrow> bool" where
  "stays_blocked current s \<longleftrightarrow>
     st_status s \<in> {PAUSED, DEACTIVATED} \<or>
     (st_status s \<in> {RATE_LIMITED, QUOTA_EXCEEDED} \<and> \<not> reset_passed current s)"

lemma hard_blocked_step: "hard_blocked (fst (step_state current s)) \<longleftrightarrow> stays_blocked current s"
  by (cases "st_status s")
     (auto simp: hard_blocked_def stays_blocked_def step_state_def recover_limited_def clear_cooldown_def Let_def)

lemma states_with_Backoff:
  "states_with In_Error_Backoff current states = map (fst \<circ> step_state current) (waiting current states)"
  by (induction states) (auto simp: states_with_def waiting_def step_Backoff_iff)

lemma states_with_Available_Nil:
  "states_with Available current states = [] \<longleftrightarrow>
     (\<forall>s \<in> set states. usable current s \<longrightarrow> backing_off current s)"
  by (auto simp: states_with_def filter_empty_conv step_Available_iff)

lemma candidate_states_Nil:
  "candidate_states opts current states = [] \<longleftrightarrow>
     (\<forall>s \<in> set states. usable current s \<longrightarrow> backing_off current s) \<and>
     \<not> (so_allow_backoff_fallback opts \<and>
        (1 < length (waiting current states) \<or>
         (waiting current states \<noteq> [] \<and> (\<exists>s \<in> set states. stays_blocked current s))))"
proof -
  have "list_ex hard_blocked (updated_states current states) \<longleftrightarrow>
      (\<exists>s \<in> set states. stays_blocked current s)"
    by (auto simp: list_ex_iff updated_states_def hard_blocked_step)
  then show ?thesis
    unfolding candidate_states_def Let_def states_with_Backoff
    by (auto simp: states_with_Available_Nil split: option.splits)
qed

lemma candidate_states_member:
  assumes "a \<in> set (candidate_states opts current states)"
  shows "\<exists>s \<in> set states. a = fst (step_state current s) \<and> usable current s \<and>
           (\<not> backing_off current s \<or>
            (so_allow_backoff_fallback opts \<and>
             (\<forall>t \<in> set states. usable current t \<longrightarrow> backing_off current t)))"
proof (cases "states_with Available current states = []")
  case True
  then have all: "\<forall>t \<in> set states. usable current t \<longrightarrow> backing_off current t"
    by (simp add: states_with_Available_Nil)
  let ?backoff = "states_with In_Error_Backoff current states"
  have ne: "candidate_states opts current states \<noteq> []" using assms by auto
  with True have fb: "so_allow_backoff_fallback opts"
    by (auto simp: candidate_states_def Let_def split: if_splits)
  from True ne obtain b where b: "min_by backoff_expires_at ?backoff = Some b"
    "candidate_states opts current states = [b]"
    by (cases "min_by backoff_expires_at ?backoff") (auto simp: candidate_states_def Let_def split: if_splits)
  with assms have a: "min_by backoff_expires_at ?backoff = Some a" by simp
  from a have "a \<in> set (states_with In_Error_Backoff current states)" by (rule min_by_in)
  then obtain s where "s \<in> set states" "a = fst (step_state current s)" "usable current s"
    by (auto simp: set_states_with step_Backoff_iff)
  with fb all show ?thesis by blast
next
  case False
  with assms obtain s where "s \<in> set states" "a = fst (step_state current s)"
    "usable current s" "\<not> backing_off current s"
    by (auto simp: candidate_states_def Let_def set_states_with step_Available_iff)
  then show ?thesis by blast
qed

definition tier_rank :: "account_state \<Rightarrow> nat" where
  "tier_rank s =
     (if st_health_tier s = HEALTH_TIER_HEALTHY then 0
      else if st_health_tier s = HEALTH_TIER_PROBING then 1
      else if st_health_tier s = HEALTH_TIER_DRAINING then 2 else 3)"

text \<open>The pool is the best tier that any candidate has, and all candidates of that tier.\<close>

lemma set_effective_pool:
  "set (effective_pool xs) = {s \<in> set xs. \<forall>t \<in> set xs. tier_rank s \<le> tier_rank t}"
  by (auto simp: effective_pool_def tier_rank_def Let_def filter_empty_conv)

lemma effective_pool_Nil [simp]: "effective_pool xs = [] \<longleftrightarrow> xs = []"
  by (auto simp: effective_pool_def Let_def filter_empty_conv)

lemma select_account_cases:
  obtains (none) "candidate_states opts current states = []"
      "select_account opts current u states =
         (\<lparr> sr_account = None,
            sr_error_message = Some (unavailable_message current (updated_states current states)) \<rparr>,
          updated_states current states)"
  | (some) a where "candidate_states opts current states \<noteq> []"
      "choose_from_pool opts current u (effective_pool (candidate_states opts current states)) = Some a"
      "a \<in> set (effective_pool (candidate_states opts current states))"
      "select_account opts current u states =
         (\<lparr> sr_account = Some a, sr_error_message = None \<rparr>, updated_states current states)"
proof (cases "candidate_states opts current states = []")
  case True
  with none show thesis by (simp add: select_account_def Let_def)
next
  case False
  then obtain a where "choose_from_pool opts current u (effective_pool (candidate_states opts current states)) = Some a"
    "a \<in> set (effective_pool (candidate_states opts current states))"
    by (metis effective_pool_Nil routing.pick_some)
  with some False show thesis by (simp add: select_account_def Let_def)
qed

section \<open>Selection\<close>

text \<open>C15: Soundness of \<open>select_account\<close>. Every account it returns is one of the given accounts with its
  recovery applied; it is active, its stored status was active or its limit's reset time has passed,
  no cooldown is running, and it is in error backoff only as the fallback when no account is free of
  backoff.\<close>

theorem select_account_sound:
  assumes "sr_account (fst (select_account opts current u states)) = Some a"
  shows "\<exists>s \<in> set states. a = fst (step_state current s) \<and> st_status a = ACTIVE \<and>
           usable current s \<and> \<not> in_cooldown current a \<and>
           (\<not> backing_off current s \<or>
            (so_allow_backoff_fallback opts \<and>
             (\<forall>t \<in> set states. usable current t \<longrightarrow> backing_off current t)))"
proof (cases rule: select_account_cases [of opts current states u])
  case (some b)
  with assms have "a \<in> set (candidate_states opts current states)" by (simp add: set_effective_pool)
  then obtain s where s: "s \<in> set states" "a = fst (step_state current s)" "usable current s"
    "\<not> backing_off current s \<or>
       (so_allow_backoff_fallback opts \<and> (\<forall>t \<in> set states. usable current t \<longrightarrow> backing_off current t))"
    using candidate_states_member by blast
  have "snd (step_state current s) \<noteq> Skipped"
    using s(3) step_Available_iff [of current s] step_Backoff_iff [of current s] by auto
  from step_state_usable [OF this] s show ?thesis by blast
qed (use assms in simp)

text \<open>C16: Completeness of \<open>select_account\<close>. It returns no account, and then an error message, exactly when
  every usable account is in error backoff and the backoff fallback does not apply: it is disabled,
  or at most one account is waiting and no account is hard blocked.\<close>

theorem select_account_none_iff:
  "sr_account (fst (select_account opts current u states)) = None \<longleftrightarrow>
     (\<forall>s \<in> set states. usable current s \<longrightarrow> backing_off current s) \<and>
     \<not> (so_allow_backoff_fallback opts \<and>
        (1 < length (waiting current states) \<or>
         (waiting current states \<noteq> [] \<and> (\<exists>s \<in> set states. stays_blocked current s))))"
  by (cases rule: select_account_cases [of opts current states u]) (auto simp: candidate_states_Nil)

text \<open>C17: Health tiers. The selected account belongs to the best tier any candidate has, in the order
  healthy, probing, draining.\<close>

theorem select_account_best_tier:
  assumes "sr_account (fst (select_account opts current u states)) = Some a"
    and "b \<in> set (candidate_states opts current states)"
  shows "tier_rank a \<le> tier_rank b"
  using assms
  by (cases rule: select_account_cases [of opts current states u]) (auto simp: set_effective_pool)

section \<open>The strategies\<close>

text \<open>The key by which each deterministic strategy ranks the pool.\<close>

lemma choose_round_robin:
  "so_routing_strategy opts = Round_Robin \<Longrightarrow>
     choose_from_pool opts current u pool = min_by round_robin_sort_key pool"
  by (simp add: choose_from_pool_def)

text \<open>Round robin. The selected account has, lexicographically, the best tier, then the oldest last
  selection, then the least account id among all candidates.\<close>

theorem round_robin_minimal:
  assumes "so_routing_strategy opts = Round_Robin"
    and "sr_account (fst (select_account opts current u states)) = Some a"
    and "b \<in> set (candidate_states opts current states)"
  shows "(tier_rank a, round_robin_sort_key a) \<le> (tier_rank b, round_robin_sort_key b)"
proof (cases rule: select_account_cases [of opts current states u])
  case (some c)
  let ?cands = "candidate_states opts current states"
  from some assms(1,2) have a: "min_by round_robin_sort_key (effective_pool ?cands) = Some a"
    by (simp add: choose_round_robin)
  then have "a \<in> set (effective_pool ?cands)" by (rule min_by_in)
  then have le: "tier_rank a \<le> tier_rank b" using assms(3) by (simp add: set_effective_pool)
  show ?thesis
  proof (cases "tier_rank a = tier_rank b")
    case True
    with \<open>a \<in> set (effective_pool ?cands)\<close> assms(3) have "b \<in> set (effective_pool ?cands)"
      by (simp add: set_effective_pool)
    with a True show ?thesis by (simp add: min_by_le)
  next
    case False
    with le show ?thesis by simp
  qed
qed (use assms in simp)

text \<open>
  The weighted choice. The draw \<open>u\<close> selects index \<open>i\<close> exactly on the interval of length
  \<open>weights ! i / total\<close> that starts at the sum of the earlier weights over the total.
\<close>

lemma pick_index_iff:
  assumes "\<forall>w \<in> set ws. 0 \<le> w" "acc \<le> x" "x < acc + sum_list ws"
  shows "pick_index x acc ws = i \<longleftrightarrow>
           i < length ws \<and> acc + sum_list (take i ws) \<le> x \<and> x < acc + sum_list (take (Suc i) ws)"
  using assms
proof (induction x acc ws arbitrary: i rule: pick_index.induct)
  case (1 x acc)
  then show ?case by simp
next
  case (2 x acc w)
  then show ?case by (cases i) auto
next
  case (3 x acc w v ws)
  have nonneg: "0 \<le> sum_list (take n (v # ws))" for n
    using "3.prems"(1) by (intro sum_list_nonneg) (metis in_set_takeD list.set_intros(2))
  show ?case
  proof (cases "x < acc + w")
    case True
    have "acc + sum_list (take i (w # v # ws)) \<le> x \<Longrightarrow> i = 0"
      using True nonneg [of "i - 1"] by (cases i) auto
    with True "3.prems" show ?thesis by auto
  next
    case False
    have "pick_index x (acc + w) (v # ws) = j \<longleftrightarrow>
        j < length (v # ws) \<and> acc + w + sum_list (take j (v # ws)) \<le> x \<and>
        x < acc + w + sum_list (take (Suc j) (v # ws))" for j
      using "3.IH" [OF False] "3.prems" False by auto
    with False show ?thesis by (cases i) (auto simp: add.assoc)
  qed
qed

lemma remaining_secondary_credits_nonneg [simp]: "0 \<le> remaining_secondary_credits s"
  by (auto simp: remaining_secondary_credits_def Let_def split: option.splits)

text \<open>Capacity-weighted routing chooses an account with probability proportional to its remaining
  secondary credits: the uniform draw \<open>u\<close> selects account \<open>i\<close> exactly when it lies in an interval of
  length \<open>credits i / total credits\<close>; in particular an account with no credits left is never drawn
  while another has some.\<close>

theorem capacity_weighted_proportional:
  assumes "0 \<le> u" "u < 1" "i < length pool" "distinct pool"
    and "0 < sum_list (map remaining_secondary_credits pool)"
  shows "select_capacity_weighted u pool = Some (pool ! i) \<longleftrightarrow>
           (let total = sum_list (map remaining_secondary_credits pool);
                before = sum_list (map remaining_secondary_credits (take i pool))
            in before / total \<le> u \<and>
               u < before / total + remaining_secondary_credits (pool ! i) / total)"
proof -
  let ?ws = "map remaining_secondary_credits pool"
  let ?total = "sum_list ?ws"
  have "pool \<noteq> []" using assms(3) by auto
  then have "pick_index (u * ?total) 0 ?ws < length pool" using pick_index_less [of ?ws] by simp
  then have "select_capacity_weighted u pool = Some (pool ! i) \<longleftrightarrow> pick_index (u * ?total) 0 ?ws = i"
    using assms(3,4,5)
    by (auto simp: select_capacity_weighted_def random_choice_def Let_def nth_eq_iff_index_eq)
  also have "\<dots> \<longleftrightarrow> sum_list (take i ?ws) \<le> u * ?total \<and> u * ?total < sum_list (take (Suc i) ?ws)"
    using pick_index_iff [of ?ws 0 "u * ?total" i] assms by auto
  also have "take (Suc i) ?ws = take i ?ws @ [remaining_secondary_credits (pool ! i)]"
    using assms(3) by (simp add: take_Suc_conv_app_nth)
  finally show ?thesis
    using assms(5) by (simp add: Let_def take_map divide_le_eq less_divide_eq add_divide_distrib [symmetric])
qed

section \<open>Retry hints\<close>

lemma search_retry_skip:
  "py_lower (take 12 (c # cs)) \<noteq> ''try again in'' \<Longrightarrow> search_retry (c # cs) = search_retry cs"
  by (simp add: match_retry_at_def)

definition hint_seconds :: "seconds \<Rightarrow> nat" where
  "hint_seconds w = nat (round_half_even (min (max 0 w) SELECTOR_RETRY_HINT_MAX_SECONDS))"

lemma hint_seconds_le: "hint_seconds w \<le> 300"
proof -
  have "round_half_even (min (max 0 w) 300) \<le> 300"
    by (rule round_half_even_mono_int) simp
  then show ?thesis by (simp add: hint_seconds_def SELECTOR_RETRY_HINT_MAX_SECONDS_def)
qed

text \<open>The retry hint is machine readable. Parsing the message \<open>select_account\<close> formats for a wait
  yields the wait clamped to at most 300 seconds and rounded to whole seconds.\<close>

theorem parse_format_retry_hint:
  "parse_retry_after (format_retry_hint w) = Some (of_nat (hint_seconds w)) \<and> hint_seconds w \<le> 300"
proof -
  let ?rest = "''Try again in '' @ decimal (hint_seconds w) @ ''s''"
  have "format_retry_hint w = ''Rate limit exceeded. '' @ ?rest"
    by (simp add: format_retry_hint_def hint_seconds_def Let_def)
  moreover have "search_retry (''Rate limit exceeded. '' @ ?rest) = search_retry ?rest"
    by (simp add: match_retry_at_def py_simps)
  moreover have "search_retry ?rest = Some (of_nat (hint_seconds w))"
    using match_retry_at_seconds [of "hint_seconds w"] by simp
  ultimately show ?thesis by (simp add: parse_retry_after_def hint_seconds_le)
qed

section \<open>Failure handlers and later selections\<close>

lemma select_account_status:
  "sr_account (fst (select_account opts current u states)) = Some a \<Longrightarrow>
     \<exists>s \<in> set states. a = fst (step_state current s) \<and> usable current s"
proof (cases rule: select_account_cases [of opts current states u])
  case (some b)
  assume "sr_account (fst (select_account opts current u states)) = Some a"
  with some candidate_states_member [of a opts current states] show ?thesis
    by (auto simp: set_effective_pool)
qed simp


lemma handle_rate_limit_fields [simp]:
  "st_status (handle_rate_limit now jitter e s) = RATE_LIMITED"
  "st_account_id (handle_rate_limit now jitter e s) = st_account_id s"
  "st_error_count (handle_rate_limit now jitter e s) = st_error_count s + 1"
  "st_last_error_at (handle_rate_limit now jitter e s) = Some now"
  by (simp_all add: handle_rate_limit_def Let_def)




section \<open>Health tiers as a state machine\<close>

text \<open>
  One evaluation of the tier of an account whose other fields, clock, drain time and success streak
  are whatever the environment makes them.
\<close>

inductive tier_step :: "health_params \<Rightarrow> int \<Rightarrow> int \<Rightarrow> bool" for p where
  eval: "tier_step p (st_health_tier s) (evaluate_health_tier p current entered streak s)"

inductive_cases tier_stepE: "tier_step p t t'"

lemma tier_step_values:
  assumes "tier_step p t t'" "t \<in> {0, 1, 2}"
  shows "t' \<in> {0, 1, 2}" and "t = 1 \<Longrightarrow> t' \<noteq> 0" and "t = 0 \<Longrightarrow> t' \<noteq> 2"
  using assms by (auto elim!: tier_stepE simp: evaluate_health_tier_def split: if_splits option.splits)

inductive tier_path :: "health_params \<Rightarrow> int \<Rightarrow> int list \<Rightarrow> int \<Rightarrow> bool" for p where
  refl: "tier_path p t [] t"
| step: "tier_path p t ts t' \<Longrightarrow> tier_step p t' t'' \<Longrightarrow> tier_path p t (ts @ [t'']) t''"

lemma tier_path_values: "tier_path p t ts t' \<Longrightarrow> t \<in> {0, 1, 2} \<Longrightarrow> t' \<in> {0, 1, 2}"
  by (induction rule: tier_path.induct) (auto dest: tier_step_values(1))

lemma tier_path_no_probe:
  "tier_path p t ts t' \<Longrightarrow> t = 1 \<Longrightarrow> 2 \<notin> set ts \<Longrightarrow> t' = 1"
proof (induction rule: tier_path.induct)
  case (step t ts t' t'')
  then have "t' = 1" "t'' \<noteq> 2" by auto
  with step tier_step_values [of p 1 t''] show ?case by auto
qed simp

text \<open>A draining account is never put straight back to the healthy tier: on every sequence of
  evaluations from draining to healthy, whatever happens in between, the account is probing at some
  point.\<close>

theorem draining_recovers_through_probing:
  assumes "tier_path p HEALTH_TIER_DRAINING ts HEALTH_TIER_HEALTHY"
  shows "HEALTH_TIER_PROBING \<in> set ts"
  using tier_path_no_probe [of p 1 ts 0] assms by auto

text \<open>Leaving the probing tier upwards needs the required number of successes and no drain
  condition, leaving the draining tier needs the quiet period without a drain condition, and a
  blocked account keeps its tier.\<close>

theorem health_tier_guards:
  assumes "evaluate_health_tier p current entered streak s \<noteq> st_health_tier s"
  shows "\<not> hard_blocked s \<and>
    (st_health_tier s = HEALTH_TIER_PROBING \<and>
       evaluate_health_tier p current entered streak s = HEALTH_TIER_HEALTHY \<longrightarrow>
       hp_probe_success_streak_required p \<le> streak \<and> \<not> should_drain p current s) \<and>
    (st_health_tier s = HEALTH_TIER_DRAINING \<longrightarrow>
       (\<exists>t. entered = Some t \<and> hp_probe_quiet_seconds p \<le> current - t) \<and> \<not> should_drain p current s)"
  using assms by (auto simp: evaluate_health_tier_def split: if_splits option.splits)

section \<open>Rendezvous hashing\<close>

lemma select_node_max: "nodes \<noteq> [] \<Longrightarrow> select_node sha256 key nodes = max_by (\<lambda>node. sha256 (key @ '':'' @ node)) nodes"
  by (cases nodes) (auto simp: select_node_def)

text \<open>Rendezvous hashing is stable. Removing a node leaves every key that was not on that node where
  it was; so a membership change moves only the keys of the nodes that leave.\<close>

theorem select_node_remove:
  assumes "select_node sha256 key nodes = Some n" "n \<noteq> m"
  shows "select_node sha256 key (filter (\<lambda>x. x \<noteq> m) nodes) = Some n"
proof -
  let ?f = "\<lambda>node. sha256 (key @ '':'' @ node)"
  have "nodes \<noteq> []" using assms(1) by (auto simp: select_node_def)
  with assms(1) have "max_by ?f nodes = Some n" by (simp add: select_node_max)
  then obtain pre post where split: "nodes = pre @ n # post"
    "\<forall>y \<in> set pre. ?f y < ?f n" "\<forall>y \<in> set post. ?f y \<le> ?f n"
    by (rule max_by_split)
  let ?P = "\<lambda>x. x \<noteq> m"
  have "filter ?P nodes = filter ?P pre @ n # filter ?P post" using split(1) assms(2) by simp
  moreover have "max_by ?f (filter ?P pre @ n # filter ?P post) = Some n"
    by (rule max_by_first) (use split in auto)
  ultimately show ?thesis by (simp add: select_node_max)
qed

section \<open>Concrete instances\<close>

text \<open>
  A pool on which the hypotheses of the theorems hold: two active accounts, one of them selected
  before, a rate-limited one whose reset has passed, and a paused one.
\<close>

definition sample_state :: "string \<Rightarrow> account_state" where
  "sample_state i =
     \<lparr> st_account_id = i, st_status = ACTIVE, st_used_percent = Some 10, st_reset_at = None,
       st_blocked_at = None, st_cooldown_until = None, st_secondary_used_percent = Some 20,
       st_secondary_reset_at = None, st_last_error_at = None, st_last_selected_at = None,
       st_error_count = 0, st_deactivation_reason = None, st_plan_type = Some ''plus'',
       st_capacity_credits = Some 1000, st_health_tier = 0 \<rparr>"

definition sample_options :: "routing_strategy \<Rightarrow> selection_options" where
  "sample_options strategy =
     \<lparr> so_prefer_earlier_reset = False, so_routing_strategy = strategy,
       so_allow_backoff_fallback = True, so_deterministic_probe = False,
       so_primary_first_usage_weighted = False \<rparr>"

definition sample_pool :: "account_state list" where
  "sample_pool =
     [(sample_state ''a'')\<lparr> st_last_selected_at := Some 900 \<rparr>,
      (sample_state ''b'')\<lparr> st_status := RATE_LIMITED, st_reset_at := Some 950, st_error_count := 4 \<rparr>,
      (sample_state ''c'')\<lparr> st_status := PAUSED \<rparr>]"

lemmas sample_defs = sample_pool_def sample_state_def sample_options_def

lemmas selection_eval =
  select_account_def candidate_states_def states_with_def updated_states_def effective_pool_def
  choose_from_pool_def step_state_def recover_limited_def clear_cooldown_def in_cooldown_def
  in_error_backoff_def reset_passed_def round_robin_sort_key_def Let_def

lemma sample_options_strategy [simp]: "so_routing_strategy (sample_options strategy) = strategy"
  by (simp add: sample_options_def)

lemma sample_candidates:
  "candidate_states (sample_options Round_Robin) 1000 sample_pool =
     [(sample_state ''a'')\<lparr> st_last_selected_at := Some 900 \<rparr>, sample_state ''b'']"
  by (simp add: selection_eval sample_defs)

lemma sample_selection:
  "sr_account (fst (select_account (sample_options Round_Robin) 1000 0 sample_pool)) =
     Some (sample_state ''b'')"
  by (simp add: selection_eval sample_defs)

theorem select_account_sound_witness:
  "sr_account (fst (select_account (sample_options Round_Robin) 1000 0 sample_pool)) =
     Some (sample_state ''b'') \<and>
   (\<exists>s \<in> set sample_pool. sample_state ''b'' = fst (step_state 1000 s) \<and> usable 1000 s)"
  using select_account_sound [OF sample_selection] sample_selection by blast

theorem select_account_none_iff_witness:
  "sr_account (fst (select_account (sample_options Round_Robin) 1000 0
     [(sample_state ''c'')\<lparr> st_status := PAUSED \<rparr>])) = None"
  using select_account_none_iff [of "sample_options Round_Robin" 1000 0
      "[(sample_state ''c'')\<lparr> st_status := PAUSED \<rparr>]"]
  by (simp add: usable_def waiting_def sample_defs)

theorem select_account_best_tier_witness:
  "tier_rank (sample_state ''b'') \<le> tier_rank ((sample_state ''a'')\<lparr> st_last_selected_at := Some 900 \<rparr>)"
  using select_account_best_tier [OF sample_selection,
      of "(sample_state ''a'')\<lparr> st_last_selected_at := Some 900 \<rparr>"]
  by (simp add: sample_candidates)

theorem round_robin_minimal_witness:
  "(tier_rank (sample_state ''b''), round_robin_sort_key (sample_state ''b'')) \<le>
   (tier_rank ((sample_state ''a'')\<lparr> st_last_selected_at := Some 900 \<rparr>),
    round_robin_sort_key ((sample_state ''a'')\<lparr> st_last_selected_at := Some 900 \<rparr>))"
  using round_robin_minimal [OF _ sample_selection,
      of "(sample_state ''a'')\<lparr> st_last_selected_at := Some 900 \<rparr>"]
  by (simp add: sample_candidates)

theorem capacity_weighted_proportional_witness:
  "select_capacity_weighted (3 / 5) [sample_state ''a'', sample_state ''b''] =
     Some ([sample_state ''a'', sample_state ''b''] ! 1)"
  using capacity_weighted_proportional [of "3 / 5" 1 "[sample_state ''a'', sample_state ''b'']"]
  by (simp add: sample_state_def remaining_secondary_credits_def Let_def)



lemma tier_path_recovery: "tier_path default_health_params 1 [2, 0] 0"
proof -
  let ?s = "\<lambda>t. (sample_state ''a'')\<lparr> st_health_tier := t \<rparr>"
  have "tier_step default_health_params 1 2"
    using tier_step.eval [of default_health_params "?s 1" 1000 "Some 900" 0]
    by (simp add: evaluate_health_tier_def should_drain_def hard_blocked_def sample_state_def default_health_params_def)
  moreover have "tier_step default_health_params 2 0"
    using tier_step.eval [of default_health_params "?s 2" 1000 "Some 900" 3]
    by (simp add: evaluate_health_tier_def should_drain_def hard_blocked_def sample_state_def default_health_params_def)
  ultimately show ?thesis
    using tier_path.step [OF tier_path.step [OF tier_path.refl], of default_health_params 1 2 0] by simp
qed

theorem draining_recovers_through_probing_witness: "HEALTH_TIER_PROBING \<in> set [2, 0]"
  using draining_recovers_through_probing [of default_health_params "[2, 0]"] tier_path_recovery by simp

theorem health_tier_guards_witness:
  "\<not> hard_blocked ((sample_state ''a'')\<lparr> st_health_tier := 1 \<rparr>) \<and>
   \<not> should_drain default_health_params 1000 ((sample_state ''a'')\<lparr> st_health_tier := 1 \<rparr>)"
  using health_tier_guards [of default_health_params 1000 "Some 900" 0 "(sample_state ''a'')\<lparr> st_health_tier := 1 \<rparr>"]
  by (simp add: evaluate_health_tier_def should_drain_def hard_blocked_def sample_state_def default_health_params_def)

theorem select_node_remove_witness:
  "select_node (\<lambda>s. [length s]) ''k'' (filter (\<lambda>x. x \<noteq> ''n2'') [''n1'', ''n2'', ''node3'']) = Some ''node3''"
  using select_node_remove [of "\<lambda>s. [length s]" "''k''" "[''n1'', ''n2'', ''node3'']" "''node3''" "''n2''"]
  by (simp add: select_node_def)

text \<open>
  The message for an unusable pool looks only at the blocked accounts: with one paused account and
  one active account in a short cooldown the caller is told that all accounts are paused, and gets
  no retry hint, although the active account is back in five seconds.
\<close>

lemma all_paused_message_with_active_account:
  "sr_error_message (fst (select_account (sample_options Round_Robin) 1000 0
     [(sample_state ''a'')\<lparr> st_cooldown_until := Some 1005 \<rparr>, (sample_state ''c'')\<lparr> st_status := PAUSED \<rparr>])) =
   Some ''All accounts are paused''"
  by (simp add: selection_eval sample_defs unavailable_message_def)

end
