(* ===== verification/Quota.thy ===== *)
theory Quota
  imports Balancer
begin

text \<open>
  Deriving an account's status from its usage windows, \<open>app/core/usage/quota.py\<close>. The secondary
  (weekly) window is checked before the primary one; a full window blocks the account, a window
  with room releases it unless a recorded reset time still lies ahead.
\<close>

section \<open>Operations\<close>

definition fallback_primary_reset :: "seconds \<Rightarrow> int option \<Rightarrow> seconds option" where
  "fallback_primary_reset now primary_window_minutes =
     (let window_minutes =
            (if truthy primary_window_minutes then primary_window_minutes
             else default_window_minutes ''primary'')
      in if truthy window_minutes then Some (now + of_int (the window_minutes) * 60) else None)"

definition runtime_reset_ahead :: "seconds \<Rightarrow> seconds option \<Rightarrow> bool" where
  "runtime_reset_ahead now runtime_reset \<longleftrightarrow>
     truthy runtime_reset \<and> now < the runtime_reset"

definition apply_secondary ::
  "seconds \<Rightarrow> account_status \<Rightarrow> seconds option \<Rightarrow> percent option \<Rightarrow> int option \<Rightarrow>
   account_status \<times> seconds option"
where
  "apply_secondary now status runtime_reset secondary_used secondary_reset =
     (case secondary_used of
        Some u \<Rightarrow>
          if status = QUOTA_EXCEEDED then
            if runtime_reset_ahead now runtime_reset then (status, runtime_reset) else (ACTIVE, None)
          else (status, runtime_reset)
      | None \<Rightarrow>
          if status = QUOTA_EXCEEDED \<and> secondary_reset \<noteq> None
          then (status, map_option of_int secondary_reset)
          else (status, runtime_reset))"

definition apply_usage_quota ::
  "seconds \<Rightarrow> account_status \<Rightarrow> percent option \<Rightarrow> int option \<Rightarrow> int option \<Rightarrow> seconds option \<Rightarrow>
   percent option \<Rightarrow> int option \<Rightarrow> account_status \<times> percent option \<times> seconds option"
where
  "apply_usage_quota now status primary_used primary_reset primary_window_minutes runtime_reset
     secondary_used secondary_reset =
     (if status \<in> {DEACTIVATED, PAUSED} then (status, primary_used, runtime_reset)
      else if (case secondary_used of Some u \<Rightarrow> 100 \<le> u | None \<Rightarrow> False) then
        (QUOTA_EXCEEDED, Some 100,
         case secondary_reset of Some r \<Rightarrow> Some (of_int r) | None \<Rightarrow> runtime_reset)
      else
        (let (status1, reset1) = apply_secondary now status runtime_reset secondary_used secondary_reset
         in case primary_used of
              None \<Rightarrow> (status1, primary_used, reset1)
            | Some u \<Rightarrow>
                if 100 \<le> u then
                  (RATE_LIMITED, Some 100,
                   case primary_reset of
                     Some r \<Rightarrow> Some (of_int r)
                   | None \<Rightarrow>
                       (let fb = fallback_primary_reset now primary_window_minutes
                        in if truthy fb then fb else reset1))
                else if status1 = RATE_LIMITED then
                  if runtime_reset_ahead now runtime_reset then (status1, primary_used, runtime_reset)
                  else (ACTIVE, primary_used, None)
                else (status1, primary_used, reset1)))"

section \<open>Laws\<close>

lemma fallback_primary_reset_ahead:
  assumes "0 \<le> now" "case m of Some v \<Rightarrow> 0 \<le> v | None \<Rightarrow> True"
  shows "\<exists>t. fallback_primary_reset now m = Some t \<and> now < t"
  using assms by (cases m) (auto simp: fallback_primary_reset_def Let_def)

text \<open>Usage-derived status. A paused or deactivated account keeps its status. Otherwise a full
  weekly window makes the account quota exceeded, whatever the primary window says; a full primary
  window alone makes it rate limited; and when both windows are known and have room, the account is
  active, or still in the limited status it had with its own recorded reset time still ahead.\<close>

theorem apply_usage_quota_status:
  assumes "apply_usage_quota now status pu pr pm rr su sr = (status', pu', reset')"
  shows "(status \<in> {PAUSED, DEACTIVATED} \<longrightarrow> status' = status) \<and>
    (status \<notin> {PAUSED, DEACTIVATED} \<and> (\<exists>u. su = Some u \<and> 100 \<le> u) \<longrightarrow>
       status' = QUOTA_EXCEEDED \<and> pu' = Some 100) \<and>
    (status \<notin> {PAUSED, DEACTIVATED} \<and> (\<nexists>u. su = Some u \<and> 100 \<le> u) \<and> (\<exists>u. pu = Some u \<and> 100 \<le> u) \<longrightarrow>
       status' = RATE_LIMITED \<and> pu' = Some 100) \<and>
    (status \<notin> {PAUSED, DEACTIVATED} \<and> (\<exists>u. su = Some u \<and> u < 100) \<and> (\<exists>u. pu = Some u \<and> u < 100) \<longrightarrow>
       pu' = pu \<and>
       (status' = ACTIVE \<or> status' = status \<and> reset' = rr \<and> runtime_reset_ahead now rr))"
  using assms
  by (cases status)
     (auto simp: apply_usage_quota_def apply_secondary_def Let_def split: option.splits if_splits)

theorem apply_usage_quota_status_witness:
  "apply_usage_quota 1000 ACTIVE (Some 100) None None None (Some 50) None =
     (RATE_LIMITED, Some 100, Some 19000)"
  using apply_usage_quota_status [of 1000 ACTIVE "Some 100" None None None "Some 50" None]
  by (simp add: apply_usage_quota_def apply_secondary_def fallback_primary_reset_def Let_def)

text \<open>
  A blocked status derived from a full primary window always carries a reset time in the future when
  the upstream did not send one, so the account cannot be blocked for ever.
\<close>

lemma rate_limited_has_reset:
  assumes "0 \<le> now" "case pm of Some v \<Rightarrow> 0 \<le> v | None \<Rightarrow> True"
    and "status \<notin> {PAUSED, DEACTIVATED}" "100 \<le> u" "\<nexists>v. su = Some v \<and> 100 \<le> v"
  shows "\<exists>t. apply_usage_quota now status (Some u) None pm rr su sr = (RATE_LIMITED, Some 100, Some t) \<and> now < t"
proof -
  obtain t where t: "fallback_primary_reset now pm = Some t" "now < t"
    using fallback_primary_reset_ahead [OF assms(1,2)] by blast
  then have "t \<noteq> 0" using assms(1) by auto
  with t assms(3,4,5) show ?thesis
    by (auto simp: apply_usage_quota_def Let_def split: prod.splits option.splits)
qed

end
