(* ===== verification/Account_Repo.thy ===== *)
theory Account_Repo
  imports Db_Models Retry
begin

text \<open>
  The accounts table, \<open>app/modules/accounts/repository.py\<close>: status updates, the compare-and-set
  update that guards against concurrent writers, import with and without merging by e-mail address,
  token updates and deletion. The table is the list of its rows; an \<open>UPDATE ... WHERE ... RETURNING\<close>
  changes the rows that match and reports whether there was one. The locks the code takes make each
  operation atomic, so an operation is one function on the table.
\<close>

section \<open>The compare-and-set interface\<close>

text \<open>
  A store whose values are replaced only by a writer that knows the current value. Two writers that
  started from the same value cannot both win, and a failed write changes nothing.
\<close>

locale cas_store =
  fixes ok :: "'db \<Rightarrow> bool"
    and val :: "'db \<Rightarrow> 'k \<Rightarrow> 'v option"
    and cas :: "'k \<Rightarrow> 'v \<Rightarrow> 'v \<Rightarrow> 'db \<Rightarrow> 'db \<times> bool"
  assumes cas_ok: "ok db \<Longrightarrow> ok (fst (cas k e n db))"
    and cas_succeeds: "ok db \<Longrightarrow> snd (cas k e n db) \<longleftrightarrow> val db k = Some e"
    and cas_fails: "ok db \<Longrightarrow> \<not> snd (cas k e n db) \<Longrightarrow> fst (cas k e n db) = db"
    and cas_writes: "ok db \<Longrightarrow> snd (cas k e n db) \<Longrightarrow> val (fst (cas k e n db)) k = Some n"
    and cas_frame: "ok db \<Longrightarrow> k' \<noteq> k \<Longrightarrow> val (fst (cas k e n db)) k' = val db k'"
begin

lemma one_winner:
  assumes "ok db" "snd (cas k e n db)" "n \<noteq> e"
  shows "\<not> snd (cas k e m (fst (cas k e n db)))"
  using assms cas_writes [of db k e n] by (simp add: cas_succeeds cas_ok)

lemma val_cas:
  assumes "ok db"
  shows "val (fst (cas k e n db)) k = (if val db k = Some e then Some n else val db k)"
  using assms cas_succeeds [of db k e n] cas_writes [of db k e n] cas_fails [of db k e n] by auto

text \<open>
  Writers that run one after another, each with the value it started from: the stored value is
  moved by exactly those whose starting value is the current one.
\<close>

lemma cas_fold:
  assumes "ok db"
  shows "val (fold (\<lambda>(e, n) db. fst (cas k e n db)) ops db) k =
     fold (\<lambda>(e, n) v. if v = Some e then Some n else v) ops (val db k)"
  using assms
proof (induction ops arbitrary: db)
  case (Cons op ops)
  obtain e n where "op = (e, n)" by (cases op)
  with Cons.prems Cons.IH [of "fst (cas k e n db)"] show ?case by (simp add: cas_ok val_cas)
qed simp

end

section \<open>Rows and queries\<close>

definition get_by_id :: "string \<Rightarrow> account list \<Rightarrow> account option" where
  "get_by_id account_id accounts = find (\<lambda>a. acc_id a = account_id) accounts"

definition list_accounts :: "account list \<Rightarrow> account list" where
  "list_accounts accounts = sort_key acc_email accounts"

definition exists_active_chatgpt_account_id :: "string \<Rightarrow> account list \<Rightarrow> bool" where
  "exists_active_chatgpt_account_id chatgpt_account_id accounts \<longleftrightarrow>
     list_ex (\<lambda>a. acc_chatgpt_account_id a = Some chatgpt_account_id \<and>
                  acc_status a \<notin> {DEACTIVATED, PAUSED}) accounts"

definition update_where :: "('r \<Rightarrow> bool) \<Rightarrow> ('r \<Rightarrow> 'r) \<Rightarrow> 'r list \<Rightarrow> 'r list \<times> bool" where
  "update_where p f rows = (map (\<lambda>r. if p r then f r else r) rows, list_ex p rows)"

section \<open>Status updates\<close>

text \<open>The columns a status update writes; \<open>blocked_at\<close> is left alone when the argument is unset.\<close>

definition set_status ::
  "account_status \<Rightarrow> string option \<Rightarrow> int option \<Rightarrow> int option option \<Rightarrow> account \<Rightarrow> account"
where
  "set_status status reason reset_at blocked_at a =
     a\<lparr> acc_status := status, acc_deactivation_reason := reason, acc_reset_at := reset_at,
        acc_blocked_at := (case blocked_at of None \<Rightarrow> acc_blocked_at a | Some b \<Rightarrow> b) \<rparr>"

definition update_status ::
  "string \<Rightarrow> account_status \<Rightarrow> string option \<Rightarrow> int option \<Rightarrow> int option option \<Rightarrow>
   account list \<Rightarrow> account list \<times> bool"
where
  "update_status account_id status reason reset_at blocked_at accounts =
     update_where (\<lambda>a. acc_id a = account_id) (set_status status reason reset_at blocked_at) accounts"

type_synonym status_columns = "account_status \<times> string option \<times> int option \<times> int option"

definition status_columns_of :: "account \<Rightarrow> status_columns" where
  "status_columns_of a = (acc_status a, acc_deactivation_reason a, acc_reset_at a, acc_blocked_at a)"

definition update_status_if_current ::
  "string \<Rightarrow> status_columns \<Rightarrow> status_columns \<Rightarrow> account list \<Rightarrow> account list \<times> bool"
where
  "update_status_if_current account_id expected new accounts =
     (case new of (status, reason, reset_at, blocked_at) \<Rightarrow>
        update_where (\<lambda>a. acc_id a = account_id \<and> status_columns_of a = expected)
          (set_status status reason reset_at (Some blocked_at)) accounts)"

section \<open>Import\<close>

datatype account_error = Account_Identity_Conflict string

definition apply_account_updates :: "account \<Rightarrow> account \<Rightarrow> account" where
  "apply_account_updates source target =
     target\<lparr> acc_chatgpt_account_id := acc_chatgpt_account_id source,
             acc_email := acc_email source,
             acc_plan_type := acc_plan_type source,
             acc_access_token_encrypted := acc_access_token_encrypted source,
             acc_refresh_token_encrypted := acc_refresh_token_encrypted source,
             acc_id_token_encrypted := acc_id_token_encrypted source,
             acc_last_refresh := acc_last_refresh source,
             acc_status := acc_status source,
             acc_deactivation_reason := acc_deactivation_reason source,
             acc_reset_at := acc_reset_at source,
             acc_blocked_at := acc_blocked_at source \<rparr>"

definition copy_id :: "string \<Rightarrow> nat \<Rightarrow> string" where
  "copy_id base_id sequence = base_id @ ''__copy'' @ decimal sequence"

lemma copy_id_inj [simp]: "copy_id b i = copy_id b j \<longleftrightarrow> i = j"
  by (auto simp: copy_id_def dest: arg_cong [of _ _ digits_value])

text \<open>
  The loop of \<open>_next_available_account_id\<close>: it ends because the candidates are distinct and the
  table is finite.
\<close>

function next_copy_id :: "string set \<Rightarrow> string \<Rightarrow> nat \<Rightarrow> string" where
  "next_copy_id ids base_id sequence =
     (if finite ids \<and> copy_id base_id sequence \<in> ids then next_copy_id ids base_id (Suc sequence)
      else copy_id base_id sequence)"
  by pat_completeness auto

termination
proof (relation "measure (\<lambda>(ids, b, i). card {j. i \<le> j \<and> copy_id b j \<in> ids})")
  fix ids :: "string set" and b i
  assume a: "finite ids \<and> copy_id b i \<in> ids"
  have "finite {j. i \<le> j \<and> copy_id b j \<in> ids}"
  proof (rule finite_subset)
    show "{j. i \<le> j \<and> copy_id b j \<in> ids} \<subseteq> copy_id b -` ids" by auto
    show "finite (copy_id b -` ids)" using a by (intro finite_vimageI) (auto simp: inj_def)
  qed
  moreover have "i \<in> {j. i \<le> j \<and> copy_id b j \<in> ids}" "i \<notin> {j. Suc i \<le> j \<and> copy_id b j \<in> ids}"
    using a by auto
  then have "{j. Suc i \<le> j \<and> copy_id b j \<in> ids} \<noteq> {j. i \<le> j \<and> copy_id b j \<in> ids}" by metis
  then have "{j. Suc i \<le> j \<and> copy_id b j \<in> ids} \<subset> {j. i \<le> j \<and> copy_id b j \<in> ids}" by auto
  ultimately show "((ids, b, Suc i), (ids, b, i)) \<in> measure (\<lambda>(ids, b, i). card {j. i \<le> j \<and> copy_id b j \<in> ids})"
    by (simp add: psubset_card_mono)
qed simp

declare next_copy_id.simps [simp del]

definition next_available_account_id :: "account list \<Rightarrow> string \<Rightarrow> string" where
  "next_available_account_id accounts base_id =
     (if get_by_id base_id accounts = None then base_id
      else next_copy_id (set (map acc_id accounts)) base_id 2)"

definition single_account_by_email :: "account list \<Rightarrow> string \<Rightarrow> account_error + account option" where
  "single_account_by_email accounts email =
     (case filter (\<lambda>a. acc_email a = email) accounts of
        [] \<Rightarrow> Inr None
      | [a] \<Rightarrow> Inr (Some a)
      | _ \<Rightarrow> Inl (Account_Identity_Conflict email))"

definition replace_row :: "string \<Rightarrow> (account \<Rightarrow> account) \<Rightarrow> account list \<Rightarrow> account list" where
  "replace_row account_id f accounts = map (\<lambda>a. if acc_id a = account_id then f a else a) accounts"

definition account_upsert ::
  "bool \<Rightarrow> account \<Rightarrow> account list \<Rightarrow> account_error + account list"
where
  "account_upsert merge_by_email account accounts =
     (if get_by_id (acc_id account) accounts \<noteq> None \<and> merge_by_email then
        Inr (replace_row (acc_id account) (apply_account_updates account) accounts)
      else
        let account' = account\<lparr> acc_id := next_available_account_id accounts (acc_id account) \<rparr>
        in if merge_by_email then
             case single_account_by_email accounts (acc_email account') of
               Inl e \<Rightarrow> Inl e
             | Inr (Some existing) \<Rightarrow>
                 Inr (replace_row (acc_id existing) (apply_account_updates account') accounts)
             | Inr None \<Rightarrow> Inr (accounts @ [account'])
           else Inr (accounts @ [account']))"

section \<open>Tokens and deletion\<close>

definition update_tokens ::
  "string \<Rightarrow> string \<Rightarrow> string \<Rightarrow> string \<Rightarrow> datetime \<Rightarrow> string option \<Rightarrow> string option \<Rightarrow> string option \<Rightarrow>
   account list \<Rightarrow> account list \<times> bool"
where
  "update_tokens account_id access refresh id_token last_refresh plan_type email chatgpt_account_id accounts =
     update_where (\<lambda>a. acc_id a = account_id)
       (\<lambda>a. a\<lparr> acc_access_token_encrypted := access,
               acc_refresh_token_encrypted := refresh,
               acc_id_token_encrypted := id_token,
               acc_last_refresh := last_refresh,
               acc_plan_type := (case plan_type of Some p \<Rightarrow> p | None \<Rightarrow> acc_plan_type a),
               acc_email := (case email of Some e \<Rightarrow> e | None \<Rightarrow> acc_email a),
               acc_chatgpt_account_id :=
                 (case chatgpt_account_id of Some c \<Rightarrow> Some c | None \<Rightarrow> acc_chatgpt_account_id a) \<rparr>)
       accounts"

section \<open>Laws\<close>

definition accounts_ok :: "account list \<Rightarrow> bool" where
  "accounts_ok accounts \<longleftrightarrow> distinct (map acc_id accounts)"

lemma get_by_id_None: "get_by_id i accounts = None \<longleftrightarrow> i \<notin> acc_id ` set accounts"
  by (auto simp: get_by_id_def find_None_iff)

lemma get_by_id_Some_iff:
  assumes "accounts_ok accounts"
  shows "get_by_id i accounts = Some a \<longleftrightarrow> a \<in> set accounts \<and> acc_id a = i"
  using assms unfolding accounts_ok_def get_by_id_def
  by (induction accounts) (auto simp: image_iff)

lemma next_copy_id_fresh: "finite ids \<Longrightarrow> next_copy_id ids b i \<notin> ids"
  by (induction ids b i rule: next_copy_id.induct) (subst next_copy_id.simps, auto)

lemma next_available_fresh: "next_available_account_id accounts b \<notin> acc_id ` set accounts"
  using next_copy_id_fresh [of "set (map acc_id accounts)" b 2]
  by (auto simp: next_available_account_id_def get_by_id_None)

lemma set_status_simps [simp]:
  "acc_id (set_status s r t b a) = acc_id a"
  "acc_email (set_status s r t b a) = acc_email a"
  by (simp_all add: set_status_def)

lemma apply_account_updates_id [simp]: "acc_id (apply_account_updates s t) = acc_id t"
  by (simp add: apply_account_updates_def)

lemma replace_row_ids:
  "(\<And>a. acc_id (f a) = acc_id a) \<Longrightarrow> map acc_id (replace_row i f accounts) = map acc_id accounts"
  by (auto simp: replace_row_def)

lemma update_where_ids:
  "(\<And>a. acc_id (f a) = acc_id a) \<Longrightarrow> map acc_id (fst (update_where p f accounts)) = map acc_id accounts"
  by (auto simp: update_where_def)

text \<open>Every operation keeps the primary key unique.\<close>

lemma update_status_ok: "accounts_ok accounts \<Longrightarrow> accounts_ok (fst (update_status i s r t b accounts))"
  by (simp add: accounts_ok_def update_status_def update_where_ids)

lemma update_status_if_current_ok:
  "accounts_ok accounts \<Longrightarrow> accounts_ok (fst (update_status_if_current i e n accounts))"
  by (cases n) (simp add: accounts_ok_def update_status_if_current_def update_where_ids)

lemma update_tokens_ok: "accounts_ok accounts \<Longrightarrow> accounts_ok (fst (update_tokens i a r t l p e c accounts))"
  by (simp add: accounts_ok_def update_tokens_def update_where_ids)

lemma account_upsert_ok:
  assumes "accounts_ok accounts" "account_upsert merge account accounts = Inr accounts'"
  shows "accounts_ok accounts'"
  using assms next_available_fresh [of accounts "acc_id account"]
  by (auto simp: account_upsert_def accounts_ok_def Let_def replace_row_ids
      split: if_splits sum.splits option.splits)

definition sample_account :: "string \<Rightarrow> string \<Rightarrow> account" where
  "sample_account i email =
     \<lparr> acc_id = i, acc_chatgpt_account_id = None, acc_email = email, acc_plan_type = ''plus'',
       acc_access_token_encrypted = [], acc_refresh_token_encrypted = [], acc_id_token_encrypted = [],
       acc_last_refresh = 0, acc_created_at = 0, acc_status = ACTIVE, acc_deactivation_reason = None,
       acc_reset_at = None, acc_blocked_at = None \<rparr>"

text \<open>Importing without overwriting never touches an existing account: the import adds exactly one row
  at the end, under an id no other row has, with all other columns of the imported account, and the
  rows before it are unchanged.\<close>

theorem upsert_without_merge_preserves:
  "\<exists>fresh. fresh \<notin> acc_id ` set accounts \<and>
     account_upsert False account accounts = Inr (accounts @ [account\<lparr> acc_id := fresh \<rparr>])"
  using next_available_fresh [of accounts "acc_id account"]
  by (auto simp: account_upsert_def Let_def)

text \<open>Importing with merging by e-mail. When more than one account has the e-mail address and none has
  the id, the import is refused with a conflict; when exactly one has it, that row keeps its id and
  creation time and takes the imported columns and no row is added; otherwise the account is added.\<close>

theorem upsert_with_merge:
  assumes "accounts_ok accounts" "acc_id account \<notin> acc_id ` set accounts"
  shows "case filter (\<lambda>a. acc_email a = acc_email account) accounts of
           [] \<Rightarrow> account_upsert True account accounts = Inr (accounts @ [account])
         | [old] \<Rightarrow> account_upsert True account accounts =
             Inr (map (\<lambda>a. if a = old then apply_account_updates account old else a) accounts)
         | _ \<Rightarrow> account_upsert True account accounts = Inl (Account_Identity_Conflict (acc_email account))"
proof -
  have none: "get_by_id (acc_id account) accounts = None"
    using assms(2) by (simp add: get_by_id_None)
  then have id: "account\<lparr> acc_id := next_available_account_id accounts (acc_id account) \<rparr> = account"
    by (simp add: next_available_account_id_def)
  have one: "replace_row (acc_id old) (apply_account_updates account) accounts =
      map (\<lambda>a. if a = old then apply_account_updates account old else a) accounts"
    if "old \<in> set accounts" for old
    using that assms(1) by (auto simp: replace_row_def accounts_ok_def dest: inj_onD [OF distinct_map [THEN iffD1, THEN conjunct2]])
  have "old \<in> set accounts" if "filter (\<lambda>a. acc_email a = acc_email account) accounts = [old]" for old
    using that by (metis filter_is_subset list.set_intros(1) subsetD)
  with none id one show ?thesis
    by (auto simp: account_upsert_def single_account_by_email_def Let_def split: list.splits)
qed

theorem upsert_with_merge_witness:
  "account_upsert True (sample_account ''n'' ''x@y'') [sample_account ''a'' ''x@y'', sample_account ''b'' ''x@y''] =
     Inl (Account_Identity_Conflict ''x@y'')"
  using upsert_with_merge [of "[sample_account ''a'' ''x@y'', sample_account ''b'' ''x@y'']" "sample_account ''n'' ''x@y''"]
  by (simp add: accounts_ok_def sample_account_def)

section \<open>The status update as compare-and-set\<close>

definition status_value :: "account list \<Rightarrow> string \<Rightarrow> status_columns option" where
  "status_value accounts i = map_option status_columns_of (get_by_id i accounts)"

lemma status_columns_set [simp]:
  "status_columns_of (set_status s r t (Some b) a) = (s, r, t, b)"
  by (simp add: status_columns_of_def set_status_def)

lemma find_update_where:
  assumes "\<And>a. acc_id (f a) = acc_id a"
  shows "get_by_id i (fst (update_where p f accounts)) =
           map_option (\<lambda>a. if p a then f a else a) (get_by_id i accounts)"
  unfolding get_by_id_def update_where_def using assms by (induction accounts) auto

lemma update_status_if_current_succeeds:
  assumes "accounts_ok accounts"
  shows "snd (update_status_if_current i e n accounts) \<longleftrightarrow> status_value accounts i = Some e"
proof -
  have "snd (update_status_if_current i e n accounts) \<longleftrightarrow>
      (\<exists>a \<in> set accounts. acc_id a = i \<and> status_columns_of a = e)"
    by (cases n) (auto simp: update_status_if_current_def update_where_def list_ex_iff)
  also have "\<dots> \<longleftrightarrow> status_value accounts i = Some e"
    using get_by_id_Some_iff [OF assms] by (auto simp: status_value_def)
  finally show ?thesis .
qed

lemma status_value_update:
  "status_value (fst (update_status_if_current i e n accounts)) j =
     (if i = j \<and> status_value accounts i = Some e then Some n else status_value accounts j)"
proof -
  obtain s r t b where n: "n = (s, r, t, b)" by (cases n)
  have "acc_id a = j" if "get_by_id j accounts = Some a" for a
    using that by (auto simp: get_by_id_def find_Some_iff)
  then show ?thesis
    by (cases "get_by_id j accounts")
       (auto simp: n status_value_def update_status_if_current_def find_update_where)
qed

interpretation account_status: cas_store accounts_ok status_value update_status_if_current
proof
  fix accounts :: "account list" and i :: string and e n
  assume ok: "accounts_ok accounts"
  show "accounts_ok (fst (update_status_if_current i e n accounts))"
    using ok by (rule update_status_if_current_ok)
  show suc: "snd (update_status_if_current i e n accounts) \<longleftrightarrow> status_value accounts i = Some e"
    using ok by (rule update_status_if_current_succeeds)
  show "fst (update_status_if_current i e n accounts) = accounts"
    if "\<not> snd (update_status_if_current i e n accounts)"
    using that by (cases n)
      (auto simp: update_status_if_current_def update_where_def list_ex_iff intro!: map_idI)
  show "status_value (fst (update_status_if_current i e n accounts)) i = Some n"
    if "snd (update_status_if_current i e n accounts)"
    using that suc by (simp add: status_value_update)
  show "status_value (fst (update_status_if_current i e n accounts)) k' = status_value accounts k'"
    if "k' \<noteq> i" for k' using that by (simp add: status_value_update)
qed

text \<open>C29: Concurrent status writers. Of two workers that derived a new status from the same snapshot of an
  account, the second to write is refused, provided the first one changed the row; a refused write
  leaves the table exactly as it is; and a write never touches another account's status.\<close>

theorem status_update_one_winner:
  assumes "accounts_ok accounts" "snd (update_status_if_current i snapshot new accounts)" "new \<noteq> snapshot"
  shows "\<not> snd (update_status_if_current i snapshot other (fst (update_status_if_current i snapshot new accounts))) \<and>
    fst (update_status_if_current i snapshot other (fst (update_status_if_current i snapshot new accounts))) =
      fst (update_status_if_current i snapshot new accounts) \<and>
    (j \<noteq> i \<longrightarrow>
      status_value (fst (update_status_if_current i snapshot new accounts)) j = status_value accounts j)"
  using account_status.one_winner [OF assms] account_status.cas_fails account_status.cas_ok [OF assms(1)]
    account_status.cas_frame [OF assms(1)] by blast

theorem status_update_one_winner_witness:
  "\<not> snd (update_status_if_current ''a'' (ACTIVE, None, None, None) (PAUSED, None, None, None)
     (fst (update_status_if_current ''a'' (ACTIVE, None, None, None) (RATE_LIMITED, None, Some 9, Some 1)
       [sample_account ''a'' ''x@y''])))"
  using status_update_one_winner [of "[sample_account ''a'' ''x@y'']" "''a''" "(ACTIVE, None, None, None)"
      "(RATE_LIMITED, None, Some 9, Some 1)" "(PAUSED, None, None, None)" "''b''"]
  by (simp add: accounts_ok_def update_status_if_current_def update_where_def status_columns_of_def sample_account_def)

end
