(* ===== verification/Sticky.thy ===== *)
theory Sticky
  imports Db_Models
begin

text \<open>
  Sticky sessions, \<open>app/modules/proxy/sticky_repository.py\<close>: the table that binds a session key of a
  given kind to an account. The table is the list of its rows; \<open>(key, kind)\<close> is its primary key.
  The database clock of \<open>func.now()\<close> is an argument. The listing queries for the dashboard (filters,
  ordering, paging) are not modelled.
\<close>

section \<open>Operations\<close>

record sticky_session =
  ss_key :: string
  ss_kind :: sticky_session_kind
  ss_account_id :: string
  ss_created_at :: datetime
  ss_updated_at :: datetime

definition is_entry :: "string \<Rightarrow> sticky_session_kind \<Rightarrow> sticky_session \<Rightarrow> bool" where
  "is_entry key kind row \<longleftrightarrow> ss_key row = key \<and> ss_kind row = kind"

definition sticky_get_entry ::
  "string \<Rightarrow> sticky_session_kind \<Rightarrow> sticky_session list \<Rightarrow> sticky_session option"
where
  "sticky_get_entry key kind table = (if key = [] then None else find (is_entry key kind) table)"

definition sticky_delete ::
  "string \<Rightarrow> sticky_session_kind \<Rightarrow> sticky_session list \<Rightarrow> sticky_session list \<times> bool"
where
  "sticky_delete key kind table =
     (if key = [] then (table, False)
      else (filter (\<lambda>row. \<not> is_entry key kind row) table, list_ex (is_entry key kind) table))"

definition sticky_get_account_id ::
  "datetime \<Rightarrow> string \<Rightarrow> sticky_session_kind \<Rightarrow> int option \<Rightarrow> sticky_session list \<Rightarrow>
   string option \<times> sticky_session list"
where
  "sticky_get_account_id now key kind max_age_seconds table =
     (if key = [] then (None, table)
      else case sticky_get_entry key kind table of
             None \<Rightarrow> (None, table)
           | Some row \<Rightarrow>
               (case max_age_seconds of
                  Some age \<Rightarrow>
                    if ss_updated_at row < now - age * 1000000
                    then (None, fst (sticky_delete key kind table))
                    else (Some (ss_account_id row), table)
                | None \<Rightarrow> (Some (ss_account_id row), table)))"

definition sticky_upsert ::
  "datetime \<Rightarrow> string \<Rightarrow> string \<Rightarrow> sticky_session_kind \<Rightarrow> sticky_session list \<Rightarrow> sticky_session list"
where
  "sticky_upsert now key account_id kind table =
     (if list_ex (is_entry key kind) table then
        map (\<lambda>row. if is_entry key kind row
                   then row\<lparr> ss_account_id := account_id, ss_updated_at := now \<rparr> else row) table
      else table @ [\<lparr> ss_key = key, ss_kind = kind, ss_account_id = account_id,
                      ss_created_at = now, ss_updated_at = now \<rparr>])"

definition sticky_delete_entries ::
  "(string \<times> sticky_session_kind) list \<Rightarrow> sticky_session list \<Rightarrow>
   sticky_session list \<times> (string \<times> sticky_session_kind) list"
where
  "sticky_delete_entries entries table =
     (let targets = filter (\<lambda>(key, kind). key \<noteq> []) entries;
          hit = (\<lambda>row. (ss_key row, ss_kind row) \<in> set targets)
      in if targets = [] then (table, [])
         else (filter (\<lambda>row. \<not> hit row) table,
               map (\<lambda>row. (ss_key row, ss_kind row)) (filter hit table)))"

definition sticky_purge_before ::
  "pydatetime \<Rightarrow> sticky_session_kind option \<Rightarrow> sticky_session list \<Rightarrow> sticky_session list \<times> nat"
where
  "sticky_purge_before cutoff kind table =
     (let old = (\<lambda>row. ss_updated_at row < to_utc_naive cutoff \<and>
                       (case kind of None \<Rightarrow> True | Some k \<Rightarrow> ss_kind row = k))
      in (filter (\<lambda>row. \<not> old row) table, length (filter old table)))"

definition sticky_purge_prompt_cache_before ::
  "pydatetime \<Rightarrow> sticky_session list \<Rightarrow> sticky_session list \<times> nat"
where
  "sticky_purge_prompt_cache_before cutoff table = sticky_purge_before cutoff (Some PROMPT_CACHE) table"

section \<open>Laws\<close>

definition sticky_ok :: "sticky_session list \<Rightarrow> bool" where
  "sticky_ok table \<longleftrightarrow> distinct (map (\<lambda>row. (ss_key row, ss_kind row)) table)"

definition binding :: "string \<Rightarrow> sticky_session_kind \<Rightarrow> sticky_session list \<Rightarrow> string option" where
  "binding key kind table = map_option ss_account_id (sticky_get_entry key kind table)"

lemma is_entry_upd [simp]:
  "is_entry key kind (row\<lparr> ss_account_id := a, ss_updated_at := t \<rparr>) = is_entry key kind row"
  by (simp add: is_entry_def)

lemma find_map_same:
  assumes "\<And>x. P (f x) = P x"
  shows "find P (map f xs) = map_option f (find P xs)"
  using assms by (induction xs) auto

lemma find_append_None: "find P xs = None \<Longrightarrow> find P (xs @ ys) = find P ys"
  by (induction xs) (auto split: if_splits)

lemma find_append_Some: "find P xs = Some x \<Longrightarrow> find P (xs @ ys) = Some x"
  by (induction xs) (auto split: if_splits)

lemma find_filter_other: "(\<And>x. P x \<Longrightarrow> Q x) \<Longrightarrow> find P (filter Q xs) = find P xs"
  by (induction xs) auto

lemma find_SomeD: "find P xs = Some x \<Longrightarrow> x \<in> set xs \<and> P x"
  by (induction xs) (auto split: if_splits)

lemma is_entry_other:
  "(k, kd) \<noteq> (k', kd') \<Longrightarrow> is_entry k kd row \<Longrightarrow> \<not> is_entry k' kd' row"
  by (auto simp: is_entry_def)

lemma binding_upsert:
  assumes "key' \<noteq> []"
  shows "binding key' kind' (sticky_upsert now key a kind table) =
           (if key' = key \<and> kind' = kind then Some a else binding key' kind' table)"
proof -
  let ?f = "\<lambda>row. if is_entry key kind row then row\<lparr> ss_account_id := a, ss_updated_at := now \<rparr> else row"
  have same: "find (is_entry k kd) (map ?f table) = map_option ?f (find (is_entry k kd) table)" for k kd
    by (rule find_map_same) auto
  show ?thesis
  proof (cases "list_ex (is_entry key kind) table")
    case True
    then obtain row where row: "find (is_entry key kind) table = Some row" "is_entry key kind row"
      by (metis find_None_iff find_Some_iff list_ex_iff not_None_eq)
    have "\<not> is_entry key kind r" if "find (is_entry key' kind') table = Some r" "(key', kind') \<noteq> (key, kind)" for r
      using that by (auto simp: find_Some_iff is_entry_def)
    with True row assms same [of key' kind'] show ?thesis
      by (cases "find (is_entry key' kind') table")
         (auto simp: binding_def sticky_get_entry_def sticky_upsert_def)
  next
    case False
    then have none: "find (is_entry key kind) table = None" by (auto simp: find_None_iff list_ex_iff)
    with False assms show ?thesis
      by (cases "find (is_entry key' kind') table")
         (auto simp: binding_def sticky_get_entry_def sticky_upsert_def find_append_None find_append_Some is_entry_def)
  qed
qed

lemma binding_delete:
  "binding key' kind' (fst (sticky_delete key kind table)) =
     (if key' = key \<and> kind' = kind then None else binding key' kind' table)"
proof (cases "key' = key \<and> kind' = kind")
  case True
  then show ?thesis
    by (auto simp: binding_def sticky_get_entry_def sticky_delete_def find_None_iff)
next
  case False
  then have "find (is_entry key' kind') (filter (\<lambda>row. \<not> is_entry key kind row) table) =
      find (is_entry key' kind') table"
    by (intro find_filter_other) (auto simp: is_entry_def)
  with False show ?thesis by (auto simp: binding_def sticky_get_entry_def sticky_delete_def)
qed

lemma binding_get:
  "fst (sticky_get_account_id now key kind age table) = Some a \<Longrightarrow> binding key kind table = Some a"
  "fst (sticky_get_account_id now key kind age table) = Some a \<Longrightarrow>
     snd (sticky_get_account_id now key kind age table) = table"
  by (auto simp: sticky_get_account_id_def binding_def split: if_splits option.splits)

lemma sticky_get_fresh:
  assumes "fst (sticky_get_account_id now key kind (Some age) table) = Some a"
  shows "\<exists>row \<in> set table. is_entry key kind row \<and> now - age * 1000000 \<le> ss_updated_at row"
  using assms
  by (auto simp: sticky_get_account_id_def sticky_get_entry_def dest!: find_SomeD split: if_splits option.splits)

lemma sticky_upsert_ok: "sticky_ok table \<Longrightarrow> sticky_ok (sticky_upsert now key a kind table)"
proof -
  assume ok: "sticky_ok table"
  have "map (\<lambda>row. (ss_key row, ss_kind row))
      (map (\<lambda>row. if is_entry key kind row then row\<lparr> ss_account_id := a, ss_updated_at := now \<rparr> else row) table)
      = map (\<lambda>row. (ss_key row, ss_kind row)) table" by auto
  moreover have "(key, kind) \<notin> (\<lambda>row. (ss_key row, ss_kind row)) ` set table"
    if "\<not> list_ex (is_entry key kind) table"
    using that by (auto simp: list_ex_iff is_entry_def)
  ultimately show ?thesis using ok by (auto simp: sticky_ok_def sticky_upsert_def simp del: map_map)
qed

lemma distinct_map_filter_keep: "distinct (map f xs) \<Longrightarrow> distinct (map f (filter P xs))"
  by (rule distinct_map_filter)

lemma sticky_delete_ok: "sticky_ok table \<Longrightarrow> sticky_ok (fst (sticky_delete key kind table))"
  by (auto simp: sticky_ok_def sticky_delete_def distinct_map_filter_keep)

lemma sticky_purge_ok: "sticky_ok table \<Longrightarrow> sticky_ok (fst (sticky_purge_before cutoff kind table))"
  by (auto simp: sticky_ok_def sticky_purge_before_def Let_def distinct_map_filter_keep)

text \<open>A purge of one kind leaves the bindings of every other kind alone and counts what it removed.\<close>

lemma purge_other_kind:
  assumes "kind' \<noteq> kind"
  shows "binding key' kind' (fst (sticky_purge_before cutoff (Some kind) table)) = binding key' kind' table"
proof -
  have "find (is_entry key' kind') (filter (\<lambda>row. \<not> (ss_updated_at row < to_utc_naive cutoff \<and> ss_kind row = kind)) table) =
      find (is_entry key' kind') table"
    using assms by (intro find_filter_other) (auto simp: is_entry_def)
  then show ?thesis by (simp add: binding_def sticky_get_entry_def sticky_purge_before_def Let_def)
qed

lemma purge_count:
  "length (fst (sticky_purge_before cutoff kind table)) + snd (sticky_purge_before cutoff kind table) = length table"
proof -
  let ?old = "\<lambda>row. ss_updated_at row < to_utc_naive cutoff \<and>
                    (case kind of None \<Rightarrow> True | Some k \<Rightarrow> ss_kind row = k)"
  show ?thesis
    unfolding sticky_purge_before_def Let_def fst_conv snd_conv
    using sum_length_filter_compl [of ?old table] by (simp only: add.commute)
qed

end
