(* ===== verification/Caches.thy ===== *)
theory Caches
  imports Prelude "HOL-Library.Transitive_Closure_Table"
begin

text \<open>
  The in-process caches: \<open>AccountSelectionCache\<close> of \<open>app/modules/proxy/account_cache.py\<close>,
  \<open>FirewallIPCache\<close> of \<open>app/core/middleware/firewall_cache.py\<close>, \<open>ApiKeyCache\<close> of
  \<open>app/core/auth/api_key_cache.py\<close>, and the cross-process invalidation poller of
  \<open>app/core/cache/invalidation.py\<close>. The three caches share one contract, a time-to-live store with a
  version number that an invalidation increments and that a conditional store checks; the locale
  below states it and derives from it that a reader which loads a value and stores it later can
  never bring a value from before an invalidation back.
\<close>

section \<open>The interface\<close>

locale versioned_cache =
  fixes lookup :: "seconds \<Rightarrow> 'k \<Rightarrow> 'c \<Rightarrow> 'v option"
    and store :: "seconds \<Rightarrow> int option \<Rightarrow> 'k \<Rightarrow> 'v \<Rightarrow> 'c \<Rightarrow> 'c"
    and flush :: "'c \<Rightarrow> 'c"
    and version :: "'c \<Rightarrow> int"
  assumes lookup_flush: "lookup t k (flush c) = None"
    and version_flush: "version (flush c) = version c + 1"
    and version_store: "version (store t iv k v c) = version c"
    and store_stale: "g \<noteq> version c \<Longrightarrow> store t (Some g) k v c = c"
    and lookup_store: "lookup t' k' (store t iv k v c) = Some w \<Longrightarrow>
                         (k' = k \<and> w = v) \<or> lookup t' k' c = Some w"

text \<open>
  The cache in use. The first component is what the database holds, the second the loads in flight,
  each with the version read before the load, the third whether the database has changed since the
  last invalidation, the last the cache. A change and the invalidation that follows it are separate
  steps, because the program commits first and invalidates afterwards.
\<close>

inductive cache_step ::
  "(seconds \<Rightarrow> int option \<Rightarrow> 'k \<Rightarrow> 'v \<Rightarrow> 'c \<Rightarrow> 'c) \<Rightarrow> ('c \<Rightarrow> 'c) \<Rightarrow> ('c \<Rightarrow> int) \<Rightarrow>
   ('k \<Rightarrow> 'v) \<times> ('k \<times> 'v \<times> int) list \<times> bool \<times> 'c \<Rightarrow>
   ('k \<Rightarrow> 'v) \<times> ('k \<times> 'v \<times> int) list \<times> bool \<times> 'c \<Rightarrow> bool"
  for store flush version
where
  begin_load: "cache_step store flush version (db, loads, dirty, c)
                 (db, (k, db k, version c) # loads, dirty, c)"
| finish_load: "(k, v, g) \<in> set loads \<Longrightarrow>
               cache_step store flush version (db, loads, dirty, c)
                 (db, loads, dirty, store t (Some g) k v c)"
| change: "cache_step store flush version (db, loads, dirty, c) (db', loads, True, c)"
| invalidate: "cache_step store flush version (db, loads, dirty, c) (db, loads, False, flush c)"

context versioned_cache
begin

definition coherent :: "('k \<Rightarrow> 'v) \<times> ('k \<times> 'v \<times> int) list \<times> bool \<times> 'c \<Rightarrow> bool" where
  "coherent s \<longleftrightarrow>
     (case s of (db, loads, dirty, c) \<Rightarrow>
        (\<forall>(k, v, g) \<in> set loads. g \<le> version c \<and> (\<not> dirty \<and> g = version c \<longrightarrow> v = db k)) \<and>
        (\<not> dirty \<longrightarrow> (\<forall>t k w. lookup t k c = Some w \<longrightarrow> w = db k)))"

lemma coherent_step:
  assumes "cache_step store flush version s s'" "coherent s"
  shows "coherent s'"
  using assms
proof (induction rule: cache_step.induct)
  case (begin_load db loads dirty c k)
  then show ?case by (auto simp: coherent_def)
next
  case (finish_load k v g loads db dirty c t)
  have "lookup t' k' (store t (Some g) k v c) = Some w \<Longrightarrow> w = db k'" if "\<not> dirty" for t' k' w
  proof (cases "g = version c")
    case True
    then have "v = db k" using finish_load that by (auto simp: coherent_def)
    moreover assume "lookup t' k' (store t (Some g) k v c) = Some w"
    ultimately show ?thesis using lookup_store [of t' k' t "Some g" k v c w] finish_load that
      by (auto simp: coherent_def)
  next
    case False
    moreover assume "lookup t' k' (store t (Some g) k v c) = Some w"
    ultimately show ?thesis using finish_load that by (auto simp: coherent_def store_stale)
  qed
  with finish_load show ?case by (auto simp: coherent_def version_store)
next
  case (change db loads dirty c db')
  then show ?case by (auto simp: coherent_def)
next
  case (invalidate db loads dirty c)
  then show ?case by (fastforce simp: coherent_def lookup_flush version_flush)
qed

lemma no_stale_read:
  assumes "(cache_step store flush version)\<^sup>*\<^sup>* (db0, [], False, c0) (db, loads, False, c)"
    and "\<And>t k. lookup t k c0 = None"
    and "lookup t k c = Some w"
  shows "w = db k"
proof -
  have "coherent (db0, [], False, c0)" using assms(2) by (simp add: coherent_def)
  with assms(1) have "coherent (db, loads, False, c)"
    by (induction rule: rtranclp_induct) (auto intro: coherent_step)
  with assms(3) show ?thesis by (auto simp: coherent_def)
qed

end

section \<open>The account selection cache\<close>

record ('k, 'v) selection_cache =
  sc_ttl_seconds :: int
  sc_cache :: "'k \<rightharpoonup> 'v \<times> seconds"
  sc_generation :: int

definition selection_cache_init :: "int \<Rightarrow> ('k, 'v) selection_cache option" where
  "selection_cache_init ttl_seconds =
     (if ttl_seconds < 0 then None
      else Some \<lparr> sc_ttl_seconds = ttl_seconds, sc_cache = Map.empty, sc_generation = 0 \<rparr>)"

definition selection_cache_get :: "seconds \<Rightarrow> 'k \<Rightarrow> ('k, 'v) selection_cache \<Rightarrow> 'v option" where
  "selection_cache_get now key c =
     (if sc_ttl_seconds c = 0 then None
      else case sc_cache c key of
             None \<Rightarrow> None
           | Some (data, expires_at) \<Rightarrow> if expires_at \<le> now then None else Some data)"

definition selection_cache_set ::
  "seconds \<Rightarrow> int option \<Rightarrow> 'k \<Rightarrow> 'v \<Rightarrow> ('k, 'v) selection_cache \<Rightarrow> ('k, 'v) selection_cache"
where
  "selection_cache_set now generation key data c =
     (if (case generation of Some g \<Rightarrow> g \<noteq> sc_generation c | None \<Rightarrow> False) then c
      else c\<lparr> sc_cache := (sc_cache c)(key \<mapsto> (data, now + of_int (sc_ttl_seconds c))) \<rparr>)"

definition selection_cache_invalidate :: "('k, 'v) selection_cache \<Rightarrow> ('k, 'v) selection_cache" where
  "selection_cache_invalidate c = c\<lparr> sc_generation := sc_generation c + 1, sc_cache := Map.empty \<rparr>"

lemmas selection_cache_defs =
  selection_cache_get_def selection_cache_set_def selection_cache_invalidate_def

interpretation selection_cache:
  versioned_cache selection_cache_get selection_cache_set selection_cache_invalidate sc_generation
  by unfold_locales (auto simp: selection_cache_defs split: option.splits if_splits prod.splits)

lemma selection_cache_get_set:
  assumes "0 < sc_ttl_seconds c" "now' < now + of_int (sc_ttl_seconds c)"
  shows "selection_cache_get now' key (selection_cache_set now None key data c) = Some data"
  using assms by (simp add: selection_cache_defs)

text \<open>C28: The account selection cache never serves stale inputs. However loads, changes of the database
  and invalidations interleave, once the last change has been invalidated, every cached entry that is
  read equals what the database holds now, even when a load that began before the invalidation is
  stored after it.\<close>

theorem account_cache_no_stale_read:
  assumes "selection_cache_init ttl = Some c0"
    and "(cache_step selection_cache_set selection_cache_invalidate sc_generation)\<^sup>*\<^sup>*
           (db0, [], False, c0) (db, loads, False, c)"
    and "selection_cache_get now key c = Some data"
  shows "data = db key"
proof -
  have "selection_cache_get t k c0 = None" for t k
    using assms(1) by (auto simp: selection_cache_init_def selection_cache_get_def split: if_splits)
  with selection_cache.no_stale_read [OF assms(2) _ assms(3)] show ?thesis by simp
qed

lemma account_cache_run:
  fixes db0 db1 :: "nat \<Rightarrow> nat"
  assumes "selection_cache_init 5 = Some c0"
  defines "c1 \<equiv> selection_cache_invalidate (selection_cache_set 1 (Some 0) 7 (db0 7) c0)"
  shows "(cache_step selection_cache_set selection_cache_invalidate sc_generation)\<^sup>*\<^sup>*
           (db0, [], False, c0)
           (db1, [(7, db1 7, 1), (7, db0 7, 0)], False, selection_cache_set 3 (Some 1) 7 (db1 7) c1)"
proof -
  let ?step = "cache_step selection_cache_set selection_cache_invalidate sc_generation"
  let ?c = "selection_cache_set 1 (Some 0) 7 (db0 7) c0"
  have g: "sc_generation c0 = 0" using assms(1) by (auto simp: selection_cache_init_def)
  have g1: "sc_generation c1 = 1"
    using g by (simp add: c1_def selection_cache_invalidate_def selection_cache.version_store)
  have "?step (db0, [], False, c0) (db0, [(7, db0 7, 0)], False, c0)"
    using cache_step.begin_load [of selection_cache_set selection_cache_invalidate sc_generation db0 "[]" False c0 7] g
    by simp
  moreover have "?step (db0, [(7, db0 7, 0)], False, c0) (db0, [(7, db0 7, 0)], False, ?c)"
    by (rule cache_step.finish_load) simp
  moreover have "?step (db0, [(7, db0 7, 0)], False, ?c) (db1, [(7, db0 7, 0)], True, ?c)"
    by (rule cache_step.change)
  moreover have "?step (db1, [(7, db0 7, 0)], True, ?c) (db1, [(7, db0 7, 0)], False, c1)"
    unfolding c1_def by (rule cache_step.invalidate)
  moreover have "?step (db1, [(7, db0 7, 0)], False, c1) (db1, [(7, db1 7, 1), (7, db0 7, 0)], False, c1)"
    using cache_step.begin_load [of selection_cache_set selection_cache_invalidate sc_generation db1 "[(7, db0 7, 0)]" False c1 7] g1
    by simp
  moreover have "?step (db1, [(7, db1 7, 1), (7, db0 7, 0)], False, c1)
      (db1, [(7, db1 7, 1), (7, db0 7, 0)], False, selection_cache_set 3 (Some 1) 7 (db1 7) c1)"
    by (rule cache_step.finish_load) simp
  ultimately show ?thesis by (meson converse_rtranclp_into_rtranclp rtranclp.rtrancl_refl)
qed

definition sample_selection_cache :: "(nat, nat) selection_cache" where
  "sample_selection_cache = \<lparr> sc_ttl_seconds = 5, sc_cache = Map.empty, sc_generation = 0 \<rparr>"

theorem account_cache_no_stale_read_witness:
  "selection_cache_get 4 7
     (selection_cache_set 3 (Some 1) 7 ((\<lambda>_. 20) 7)
        (selection_cache_invalidate (selection_cache_set 1 (Some 0) 7 ((\<lambda>_. 10) 7) sample_selection_cache))) =
   Some (20 :: nat)"
proof -
  let ?c = "selection_cache_set 3 (Some 1) 7 ((\<lambda>_. 20 :: nat) 7)
        (selection_cache_invalidate (selection_cache_set 1 (Some 0) 7 ((\<lambda>_. 10) 7) sample_selection_cache))"
  have init: "selection_cache_init 5 = Some sample_selection_cache"
    by (simp add: selection_cache_init_def sample_selection_cache_def)
  obtain d where d: "selection_cache_get 4 (7 :: nat) ?c = Some d"
    by (simp add: selection_cache_defs sample_selection_cache_def)
  have "d = (\<lambda>_. 20) (7 :: nat)"
    by (rule account_cache_no_stale_read [OF init account_cache_run [OF init] d])
  with d show ?thesis by simp
qed

section \<open>The firewall decision cache\<close>

record firewall_cache =
  fc_ttl_seconds :: int
  fc_cache :: "string \<rightharpoonup> bool \<times> seconds"
  fc_version :: int

definition firewall_cache_init :: "int \<Rightarrow> firewall_cache option" where
  "firewall_cache_init ttl_seconds =
     (if ttl_seconds \<le> 0 then None
      else Some \<lparr> fc_ttl_seconds = ttl_seconds, fc_cache = Map.empty, fc_version = 0 \<rparr>)"

definition firewall_cache_is_allowed :: "seconds \<Rightarrow> string \<Rightarrow> firewall_cache \<Rightarrow> bool option" where
  "firewall_cache_is_allowed now ip c =
     (case fc_cache c ip of
        None \<Rightarrow> None
      | Some (allowed, expires_at) \<Rightarrow> if expires_at \<le> now then None else Some allowed)"

definition firewall_cache_set ::
  "seconds \<Rightarrow> int option \<Rightarrow> string \<Rightarrow> bool \<Rightarrow> firewall_cache \<Rightarrow> firewall_cache"
where
  "firewall_cache_set now if_version ip allowed c =
     (if (case if_version of Some v \<Rightarrow> v \<noteq> fc_version c | None \<Rightarrow> False) then c
      else c\<lparr> fc_cache := (fc_cache c)(ip \<mapsto> (allowed, now + of_int (fc_ttl_seconds c))) \<rparr>)"

definition firewall_cache_invalidate_all :: "firewall_cache \<Rightarrow> firewall_cache" where
  "firewall_cache_invalidate_all c = c\<lparr> fc_cache := Map.empty, fc_version := fc_version c + 1 \<rparr>"

lemmas firewall_cache_defs =
  firewall_cache_is_allowed_def firewall_cache_set_def firewall_cache_invalidate_all_def

interpretation firewall_cache:
  versioned_cache firewall_cache_is_allowed firewall_cache_set firewall_cache_invalidate_all fc_version
  by unfold_locales (auto simp: firewall_cache_defs split: option.splits if_splits prod.splits)

section \<open>The API key cache\<close>

record 'v api_key_cache =
  kc_cache :: "(string \<times> 'v \<times> seconds) list"
  kc_ttl :: int
  kc_max_entries :: nat
  kc_version :: int

definition api_key_cache_get :: "seconds \<Rightarrow> string \<Rightarrow> 'v api_key_cache \<Rightarrow> 'v option" where
  "api_key_cache_get now key_hash c =
     (case map_of (kc_cache c) key_hash of
        Some (data, expires_at) \<Rightarrow> if now < expires_at then Some data else None
      | None \<Rightarrow> None)"

text \<open>
  When the cache is full the entry that expires first is dropped before the new one is stored; with a
  capacity of zero there is none to drop and \<open>min\<close> raises, which leaves the cache as it was.
\<close>

definition api_key_cache_set ::
  "seconds \<Rightarrow> int option \<Rightarrow> string \<Rightarrow> 'v \<Rightarrow> 'v api_key_cache \<Rightarrow> 'v api_key_cache"
where
  "api_key_cache_set now if_version key_hash data c =
     (let put = (\<lambda>entries. c\<lparr> kc_cache :=
                   AList.update key_hash (data, now + of_int (kc_ttl c)) entries \<rparr>)
      in if (case if_version of Some v \<Rightarrow> v \<noteq> kc_version c | None \<Rightarrow> False) then c
         else if kc_max_entries c \<le> length (kc_cache c) then
           (case min_by (\<lambda>e. snd (snd e)) (kc_cache c) of
              None \<Rightarrow> c
            | Some oldest \<Rightarrow> put (AList.delete (fst oldest) (kc_cache c)))
         else put (kc_cache c))"

definition api_key_cache_invalidate :: "string \<Rightarrow> 'v api_key_cache \<Rightarrow> 'v api_key_cache" where
  "api_key_cache_invalidate key_hash c =
     c\<lparr> kc_cache := AList.delete key_hash (kc_cache c), kc_version := kc_version c + 1 \<rparr>"

definition api_key_cache_clear :: "'v api_key_cache \<Rightarrow> 'v api_key_cache" where
  "api_key_cache_clear c = c\<lparr> kc_cache := [], kc_version := kc_version c + 1 \<rparr>"

lemmas api_key_cache_defs =
  api_key_cache_get_def api_key_cache_set_def api_key_cache_invalidate_def api_key_cache_clear_def

interpretation api_key_cache:
  versioned_cache api_key_cache_get api_key_cache_set api_key_cache_clear kc_version
  by unfold_locales
     (auto simp: api_key_cache_defs Let_def update_conv' delete_conv' split: option.splits if_splits prod.splits)

lemma api_key_cache_invalidate_get:
  "api_key_cache_get now k (api_key_cache_invalidate k' c) =
     (if k = k' then None else api_key_cache_get now k c)"
  by (simp add: api_key_cache_defs delete_conv')

text \<open>An invalidated key is not revived by a store whose version was read before the invalidation.\<close>

lemma api_key_cache_invalidate_drops_inflight:
  "api_key_cache_set now (Some (kc_version c)) k v (api_key_cache_invalidate k c) = api_key_cache_invalidate k c"
  by (simp add: api_key_cache_defs Let_def)

lemma length_delete_member:
  assumes "distinct (map fst xs)" "x \<in> set xs"
  shows "length (AList.delete (fst x) xs) < length xs"
  using length_filter_less [of x xs "\<lambda>(k', _). fst x \<noteq> k'"] assms(2) by (auto simp: AList.delete_eq case_prod_beta)

lemma length_update_le: "length (AList.update k v xs) \<le> Suc (length xs)"
  by (induction xs) auto

definition api_key_cache_ok :: "'v api_key_cache \<Rightarrow> bool" where
  "api_key_cache_ok c \<longleftrightarrow> distinct (map fst (kc_cache c)) \<and> length (kc_cache c) \<le> kc_max_entries c"

lemma api_key_cache_set_ok:
  assumes "api_key_cache_ok c"
  shows "api_key_cache_ok (api_key_cache_set now iv k v c)"
proof -
  have full: "length (AList.update k e (AList.delete (fst x) (kc_cache c))) \<le> kc_max_entries c"
    if "x \<in> set (kc_cache c)" for e x
    using length_update_le [of k e "AList.delete (fst x) (kc_cache c)"]
      length_delete_member [of "kc_cache c" x] that assms by (auto simp: api_key_cache_ok_def)
  have room: "length (AList.update k e (kc_cache c)) \<le> kc_max_entries c"
    if "length (kc_cache c) < kc_max_entries c" for e
    using length_update_le [of k e "kc_cache c"] that by simp
  show ?thesis
    using assms full room
    by (auto simp: api_key_cache_set_def api_key_cache_ok_def Let_def distinct_update distinct_delete
        not_le split: option.splits)
qed

lemma api_key_cache_invalidate_ok:
  "api_key_cache_ok c \<Longrightarrow> api_key_cache_ok (api_key_cache_invalidate k c)"
  by (auto simp: api_key_cache_ok_def api_key_cache_invalidate_def distinct_delete
      intro: order_trans [OF length_delete_le])

text \<open>
  Refreshing a key that is already cached in a full cache drops another, unrelated key, although no
  room was needed.
\<close>

lemma api_key_cache_refresh_evicts:
  "api_key_cache_get 5 ''a''
     (api_key_cache_set 5 None ''b'' (2 :: nat)
        \<lparr> kc_cache = [(''a'', 1, 6), (''b'', 1, 7)], kc_ttl = 2, kc_max_entries = 2, kc_version = 0 \<rparr>) = None"
  by (simp add: api_key_cache_defs Let_def)

section \<open>Cross-process invalidation\<close>

text \<open>
  The poller compares the version column of every namespace with the version it saw last and runs
  the namespace's callbacks when it moved. The state is the known versions and whether a poll has
  completed; a poll returns the namespaces whose callbacks it runs, in row order.
\<close>

record poller =
  po_known_versions :: "string \<rightharpoonup> int"
  po_initialized :: bool

definition bump :: "string \<Rightarrow> (string \<rightharpoonup> int) \<Rightarrow> (string \<rightharpoonup> int)" where
  "bump namespace table =
     (case table namespace of
        None \<Rightarrow> table(namespace \<mapsto> 1)
      | Some v \<Rightarrow> table(namespace \<mapsto> v + 1))"

fun poll_rows :: "(string \<times> int) list \<Rightarrow> poller \<Rightarrow> string list \<times> poller" where
  "poll_rows [] p = ([], p)"
| "poll_rows ((namespace, version) # rows) p =
     (let fire =
        (case po_known_versions p namespace of
           Some prev \<Rightarrow> version \<noteq> prev
         | None \<Rightarrow> po_initialized p \<and> 0 < version);
          (fired, p') = poll_rows rows
             (p\<lparr> po_known_versions := (po_known_versions p)(namespace \<mapsto> version) \<rparr>)
      in (if fire then namespace # fired else fired, p'))"

definition poll_once :: "(string \<times> int) list \<Rightarrow> poller \<Rightarrow> string list \<times> poller" where
  "poll_once rows p = (let (fired, p') = poll_rows rows p in (fired, p'\<lparr> po_initialized := True \<rparr>))"

lemma poll_rows_initialized: "po_initialized (snd (poll_rows rows p)) = po_initialized p"
  by (induction rows p rule: poll_rows.induct) (auto simp: Let_def split: prod.splits)

lemma poll_rows_known:
  assumes "distinct (map fst rows)"
  shows "po_known_versions (snd (poll_rows rows p)) = po_known_versions p ++ map_of rows"
  using assms
proof (induction rows p rule: poll_rows.induct)
  case (2 namespace version rows p)
  then have "namespace \<notin> dom (map_of rows)" by (simp add: dom_map_of_conv_image_fst)
  then have "(po_known_versions p)(namespace \<mapsto> version) ++ map_of rows =
      po_known_versions p ++ map_of ((namespace, version) # rows)"
    by (simp add: map_add_upd_left)
  with 2 show ?case by (auto simp: Let_def split: prod.splits simp del: fun_upd_apply)
qed simp

lemma poll_rows_fired:
  assumes "distinct (map fst rows)" "(n, v) \<in> set rows"
  shows "n \<in> set (fst (poll_rows rows p)) \<longleftrightarrow>
           (case po_known_versions p n of Some prev \<Rightarrow> v \<noteq> prev | None \<Rightarrow> po_initialized p \<and> 0 < v)"
  using assms
proof (induction rows p rule: poll_rows.induct)
  case (2 namespace version rows p)
  let ?p = "p\<lparr> po_known_versions := (po_known_versions p)(namespace \<mapsto> version) \<rparr>"
  have fst_only: "set (fst (poll_rows rs q)) \<subseteq> fst ` set rs" for rs q
    by (induction rs q rule: poll_rows.induct) (auto simp: Let_def split: prod.splits)
  show ?case
  proof (cases "n = namespace")
    case True
    with "2.prems" have "v = version" by (auto simp: image_iff)
    moreover have "n \<notin> set (fst (poll_rows rows ?p))" using fst_only [of rows ?p] True "2.prems" by auto
    ultimately show ?thesis using True by (auto simp: Let_def split: prod.splits option.splits)
  next
    case False
    with "2.prems" have "(n, v) \<in> set rows" by auto
    with False "2.IH" [OF refl] "2.prems" show ?thesis
      by (auto simp: Let_def split: prod.splits option.splits)
  qed
qed simp

lemma poll_once_fired [simp]: "fst (poll_once rows p) = fst (poll_rows rows p)"
  by (simp add: poll_once_def Let_def split: prod.splits)

lemma bump_iter:
  "(bump n ^^ Suc k) table n =
     Some (case table n of None \<Rightarrow> 1 + int k | Some v \<Rightarrow> v + 1 + int k)"
  by (induction k) (auto simp: bump_def split: option.splits)

text \<open>No invalidation is missed. When a namespace is bumped at least once, by any process, after one
  poll and before the next, the next poll runs that namespace's callbacks, whether or not the
  namespace existed at the first poll and however many bumps fall between the two.\<close>

theorem poll_detects_bump:
  assumes "distinct (map fst rows1)" "map_of rows1 = table"
    and "dom (po_known_versions p) \<subseteq> dom table"
    and "distinct (map fst rows2)" "map_of rows2 = (bump n ^^ Suc k) table"
  shows "n \<in> set (fst (poll_once rows2 (snd (poll_once rows1 p))))"
proof -
  let ?p1 = "snd (poll_once rows1 p)"
  obtain v where v: "(bump n ^^ Suc k) table n = Some v"
    and v_def: "v = (case table n of None \<Rightarrow> 1 + int k | Some v \<Rightarrow> v + 1 + int k)"
    using bump_iter by blast
  then have mem: "(n, v) \<in> set rows2" using assms(4,5) by (simp add: map_of_SomeD)
  have init: "po_initialized ?p1" by (auto simp: poll_once_def Let_def split: prod.splits)
  have "po_known_versions ?p1 = po_known_versions p ++ table"
    using poll_rows_known [OF assms(1), of p] assms(2)
    by (auto simp: poll_once_def Let_def split: prod.splits)
  then have known: "po_known_versions ?p1 n = table n"
    using assms(3) by (auto simp: map_add_def domIff split: option.splits)
  have "n \<in> set (fst (poll_rows rows2 ?p1))"
    using poll_rows_fired [OF assms(4) mem, of ?p1] known init v_def by (auto split: option.splits)
  then show ?thesis by simp
qed

theorem poll_detects_bump_witness:
  "''firewall'' \<in> set (fst (poll_once [(''firewall'', 2)]
     (snd (poll_once [] \<lparr> po_known_versions = Map.empty, po_initialized = False \<rparr>))))"
  by (rule poll_detects_bump [where table = Map.empty and k = 1])
     (auto simp: bump_def)

end
