(* ===== verification/Load_Balancer.thy ===== *)
theory Load_Balancer
  imports Balancer_Laws Quota Account_Repo Sticky Caches
begin

text \<open>
  The load balancer, \<open>app/modules/proxy/load_balancer.py\<close>: the inputs of a selection, the per-account
  runtime state, the derivation of the balancing state of an account from its row, its usage and its
  runtime state, writing the outcome back, stickiness, and the bounded selection loop. The model
  registry, the table of gated models and the usage queries are arguments. Every operation reads the
  clock once. \<open>Account\<close> objects that the code clones before use are values here.
\<close>

section \<open>Data\<close>

record runtime_state =
  rt_reset_at :: "seconds option"
  rt_cooldown_until :: "seconds option"
  rt_last_error_at :: "seconds option"
  rt_last_selected_at :: "seconds option"
  rt_error_count :: int
  rt_version :: int
  rt_blocked_at :: "seconds option"
  rt_health_tier :: int
  rt_drain_entered_at :: "seconds option"
  rt_probe_success_streak :: int

definition initial_runtime :: runtime_state where
  "initial_runtime =
     \<lparr> rt_reset_at = None, rt_cooldown_until = None, rt_last_error_at = None,
       rt_last_selected_at = None, rt_error_count = 0, rt_version = 0, rt_blocked_at = None,
       rt_health_tier = 0, rt_drain_entered_at = None, rt_probe_success_streak = 0 \<rparr>"

type_synonym runtime = "string \<rightharpoonup> runtime_state"

definition runtime_of :: "runtime \<Rightarrow> string \<Rightarrow> runtime_state" where
  "runtime_of rt i = (case rt i of Some r \<Rightarrow> r | None \<Rightarrow> initial_runtime)"

record selection_inputs =
  si_accounts :: "account list"
  si_latest_primary :: "string \<rightharpoonup> usage_history"
  si_latest_secondary :: "string \<rightharpoonup> usage_history"
  si_runtime_accounts :: "account list option"
  si_error_message :: "string option"
  si_error_code :: "string option"

record lb_settings =
  ls_soft_drain_enabled :: bool
  ls_health :: health_params
  ls_usage_refresh_interval_seconds :: int

record additional_usage =
  au_used_percent :: "percent option"
  au_reset_at :: "int option"

definition NO_PLAN_SUPPORT_FOR_MODEL :: string where
  "NO_PLAN_SUPPORT_FOR_MODEL = ''no_plan_support_for_model''"
definition ADDITIONAL_QUOTA_DATA_UNAVAILABLE :: string where
  "ADDITIONAL_QUOTA_DATA_UNAVAILABLE = ''additional_quota_data_unavailable''"
definition NO_ADDITIONAL_QUOTA_ELIGIBLE_ACCOUNTS :: string where
  "NO_ADDITIONAL_QUOTA_ELIGIBLE_ACCOUNTS = ''no_additional_quota_eligible_accounts''"
definition MAX_SELECTION_ATTEMPTS :: nat where "MAX_SELECTION_ATTEMPTS = 4"
definition STICKY_GRACE_PERIOD_SECONDS :: rat where "STICKY_GRACE_PERIOD_SECONDS = 10"

section \<open>The balancing state of an account\<close>

definition epoch_of :: "datetime \<Rightarrow> seconds" where
  "epoch_of t = of_int t / 1000000"

definition usage_entry_to_window_row :: "usage_history \<Rightarrow> usage_window_row" where
  "usage_entry_to_window_row e =
     \<lparr> ur_account_id = uh_account_id e, ur_used_percent = Some (uh_used_percent e),
       ur_reset_at = uh_reset_at e, ur_window_minutes = uh_window_minutes e,
       ur_recorded_at = Some (Naive (uh_recorded_at e)) \<rparr>"

definition usage_entry_is_recent_enough :: "lb_settings \<Rightarrow> seconds \<Rightarrow> datetime \<Rightarrow> bool" where
  "usage_entry_is_recent_enough settings now recorded_at \<longleftrightarrow>
     now - of_int (max (ls_usage_refresh_interval_seconds settings * 2) 180) \<le> epoch_of recorded_at"

definition effective_secondary_entry ::
  "usage_history option \<Rightarrow> usage_history option \<Rightarrow> usage_history option"
where
  "effective_secondary_entry primary secondary =
     (case primary of
        Some p \<Rightarrow>
          if should_use_weekly_primary (usage_entry_to_window_row p)
               (map_option usage_entry_to_window_row secondary)
          then Some p else secondary
      | None \<Rightarrow> secondary)"

definition base_runtime_reset :: "account \<Rightarrow> runtime_state \<Rightarrow> seconds option" where
  "base_runtime_reset account runtime =
     (if truthy (acc_reset_at account) then map_option of_int (acc_reset_at account)
      else rt_reset_at runtime)"

definition effective_blocked_at :: "account \<Rightarrow> runtime_state \<Rightarrow> seconds option" where
  "effective_blocked_at account runtime =
     (case acc_blocked_at account of Some b \<Rightarrow> Some (of_int b) | None \<Rightarrow> rt_blocked_at runtime)"

definition quota_reset_superseded ::
  "lb_settings \<Rightarrow> seconds \<Rightarrow> account \<Rightarrow> seconds option \<Rightarrow> seconds option \<Rightarrow> usage_history option \<Rightarrow> bool"
where
  "quota_reset_superseded settings now account reset blocked secondary \<longleftrightarrow>
     acc_status account = QUOTA_EXCEEDED \<and> blocked = None \<and>
     (case (reset, secondary) of
        (Some r, Some e) \<Rightarrow>
          now < r \<and> usage_entry_is_recent_enough settings now (uh_recorded_at e) \<and>
          uh_used_percent e < 100 \<and>
          (case uh_reset_at e of Some er \<Rightarrow> r < of_int er | None \<Rightarrow> False)
      | _ \<Rightarrow> False)"

definition cooldown_ready :: "seconds \<Rightarrow> account \<Rightarrow> runtime_state \<Rightarrow> seconds option \<Rightarrow> bool" where
  "cooldown_ready now account runtime blocked \<longleftrightarrow>
     (if acc_status account = QUOTA_EXCEEDED then
        (case blocked of Some b \<Rightarrow> b + QUOTA_EXCEEDED_COOLDOWN_SECONDS \<le> now | None \<Rightarrow> False)
      else (case rt_cooldown_until runtime of Some c \<Rightarrow> c \<le> now | None \<Rightarrow> False) \<and>
           rt_blocked_at runtime \<noteq> None)"

definition refreshed_after_block ::
  "account \<Rightarrow> seconds option \<Rightarrow> usage_history option \<Rightarrow> usage_history option \<Rightarrow> bool"
where
  "refreshed_after_block account blocked primary secondary \<longleftrightarrow>
     (let freshness_entry =
        (if acc_status account = QUOTA_EXCEEDED then secondary
         else if acc_status account = RATE_LIMITED then primary else None)
      in case (blocked, freshness_entry) of
           (Some b, Some e) \<Rightarrow> b < epoch_of (uh_recorded_at e)
         | _ \<Rightarrow> False)"

definition effective_runtime_reset ::
  "lb_settings \<Rightarrow> seconds \<Rightarrow> account \<Rightarrow> runtime_state \<Rightarrow> usage_history option \<Rightarrow> usage_history option \<Rightarrow>
   seconds option"
where
  "effective_runtime_reset settings now account runtime primary secondary =
     (let reset = base_runtime_reset account runtime;
          blocked = effective_blocked_at account runtime
      in if quota_reset_superseded settings now account reset blocked secondary then None
         else if cooldown_ready now account runtime blocked \<and>
                 refreshed_after_block account blocked primary secondary then None
         else reset)"

definition tier_input ::
  "account_status \<Rightarrow> percent option \<Rightarrow> percent option \<Rightarrow> account \<Rightarrow> runtime_state \<Rightarrow> account_state"
where
  "tier_input status used_percent secondary_used account runtime =
     \<lparr> st_account_id = acc_id account, st_status = status, st_used_percent = used_percent,
       st_reset_at = None, st_blocked_at = None, st_cooldown_until = None,
       st_secondary_used_percent = secondary_used, st_secondary_reset_at = None,
       st_last_error_at = rt_last_error_at runtime, st_last_selected_at = None,
       st_error_count = rt_error_count runtime, st_deactivation_reason = None,
       st_plan_type = None, st_capacity_credits = None, st_health_tier = rt_health_tier runtime \<rparr>"

definition update_tier :: "lb_settings \<Rightarrow> seconds \<Rightarrow> account_state \<Rightarrow> runtime_state \<Rightarrow> runtime_state" where
  "update_tier settings now s runtime =
     (if ls_soft_drain_enabled settings then
        let new_tier = evaluate_health_tier (ls_health settings) now (rt_drain_entered_at runtime)
                         (rt_probe_success_streak runtime) s;
            r1 = (if new_tier = HEALTH_TIER_DRAINING \<and> rt_health_tier runtime \<noteq> HEALTH_TIER_DRAINING
                  then runtime\<lparr> rt_drain_entered_at := Some now, rt_probe_success_streak := 0 \<rparr>
                  else runtime);
            r2 = (if new_tier = HEALTH_TIER_HEALTHY
                  then r1\<lparr> rt_drain_entered_at := None, rt_probe_success_streak := 0 \<rparr> else r1)
        in r2\<lparr> rt_health_tier := new_tier \<rparr>
      else runtime\<lparr> rt_drain_entered_at := None, rt_probe_success_streak := 0,
                    rt_health_tier := HEALTH_TIER_HEALTHY \<rparr>)"

definition state_from_account ::
  "lb_settings \<Rightarrow> seconds \<Rightarrow> account \<Rightarrow> usage_history option \<Rightarrow> usage_history option \<Rightarrow> runtime_state \<Rightarrow>
   account_state \<times> runtime_state"
where
  "state_from_account settings now account primary secondary0 runtime =
     (let secondary = effective_secondary_entry primary secondary0;
          secondary_used = map_option uh_used_percent secondary;
          secondary_reset = (case secondary of Some e \<Rightarrow> uh_reset_at e | None \<Rightarrow> None);
          (status, used_percent, reset_at) =
            apply_usage_quota now (acc_status account) (map_option uh_used_percent primary)
              (case primary of Some e \<Rightarrow> uh_reset_at e | None \<Rightarrow> None)
              (case primary of Some e \<Rightarrow> uh_window_minutes e | None \<Rightarrow> None)
              (effective_runtime_reset settings now account runtime primary secondary)
              secondary_used secondary_reset;
          runtime' = update_tier settings now
                       (tier_input status used_percent secondary_used account runtime) runtime
      in (\<lparr> st_account_id = acc_id account, st_status = status, st_used_percent = used_percent,
            st_reset_at = reset_at,
            st_blocked_at =
              (if status \<in> {QUOTA_EXCEEDED, RATE_LIMITED}
               then effective_blocked_at account runtime else None),
            st_cooldown_until = rt_cooldown_until runtime,
            st_secondary_used_percent = secondary_used, st_secondary_reset_at = secondary_reset,
            st_last_error_at = rt_last_error_at runtime,
            st_last_selected_at = rt_last_selected_at runtime,
            st_error_count = rt_error_count runtime,
            st_deactivation_reason = acc_deactivation_reason account,
            st_plan_type = Some (acc_plan_type account),
            st_capacity_credits = capacity_for_plan (Some (acc_plan_type account)) ''secondary'',
            st_health_tier = rt_health_tier runtime' \<rparr>, runtime'))"

fun build_states ::
  "lb_settings \<Rightarrow> seconds \<Rightarrow> (string \<rightharpoonup> usage_history) \<Rightarrow> (string \<rightharpoonup> usage_history) \<Rightarrow>
   account list \<Rightarrow> runtime \<Rightarrow> account_state list \<times> runtime"
where
  "build_states settings now latest_primary latest_secondary [] rt = ([], rt)"
| "build_states settings now latest_primary latest_secondary (account # accounts) rt =
     (let (state, r) = state_from_account settings now account (latest_primary (acc_id account))
                         (latest_secondary (acc_id account)) (runtime_of rt (acc_id account));
          (states, rt') = build_states settings now latest_primary latest_secondary accounts
                            (rt(acc_id account \<mapsto> r))
      in (state # states, rt'))"

definition account_map :: "account list \<Rightarrow> string \<rightharpoonup> account" where
  "account_map accounts = map_of (rev (map (\<lambda>a. (acc_id a, a)) accounts))"

section \<open>Runtime state\<close>

definition prune_runtime :: "account list \<Rightarrow> runtime \<Rightarrow> runtime" where
  "prune_runtime accounts rt = rt |` (acc_id ` set accounts)"

definition state_for :: "account \<Rightarrow> runtime_state \<Rightarrow> account_state" where
  "state_for account runtime =
     \<lparr> st_account_id = acc_id account, st_status = acc_status account, st_used_percent = None,
       st_reset_at = rt_reset_at runtime, st_blocked_at = effective_blocked_at account runtime,
       st_cooldown_until = rt_cooldown_until runtime, st_secondary_used_percent = None,
       st_secondary_reset_at = None, st_last_error_at = rt_last_error_at runtime,
       st_last_selected_at = rt_last_selected_at runtime, st_error_count = rt_error_count runtime,
       st_deactivation_reason = acc_deactivation_reason account,
       st_plan_type = Some (acc_plan_type account),
       st_capacity_credits = capacity_for_plan (Some (acc_plan_type account)) ''secondary'',
       st_health_tier = 0 \<rparr>"

definition sync_runtime_state ::
  "seconds \<Rightarrow> account \<Rightarrow> account_state \<Rightarrow> bool \<Rightarrow> int option \<Rightarrow> runtime_state \<Rightarrow> runtime_state \<times> bool"
where
  "sync_runtime_state now account s selected expected_version runtime =
     (if (case expected_version of Some v \<Rightarrow> rt_version runtime \<noteq> v | None \<Rightarrow> False) then
        (if selected
         then runtime\<lparr> rt_last_selected_at := Some now, rt_version := rt_version runtime + 1 \<rparr>
         else runtime, False)
      else
        (let dirty =
               rt_reset_at runtime \<noteq> st_reset_at s \<or>
               rt_cooldown_until runtime \<noteq> st_cooldown_until s \<or>
               rt_blocked_at runtime \<noteq> st_blocked_at s \<or>
               rt_last_error_at runtime \<noteq> st_last_error_at s \<or>
               rt_error_count runtime \<noteq> st_error_count s \<or>
               acc_status account \<noteq> st_status s \<or>
               acc_deactivation_reason account \<noteq> st_deactivation_reason s \<or> selected;
             r = runtime\<lparr> rt_reset_at := st_reset_at s, rt_cooldown_until := st_cooldown_until s,
                          rt_blocked_at := st_blocked_at s, rt_last_error_at := st_last_error_at s,
                          rt_error_count := st_error_count s,
                          rt_last_selected_at :=
                            (if selected then Some now else rt_last_selected_at runtime) \<rparr>
         in (if dirty then r\<lparr> rt_version := rt_version runtime + 1 \<rparr> else r, True)))"

section \<open>Persistence\<close>

definition int_or_none :: "seconds option \<Rightarrow> int option" where
  "int_or_none x = (if truthy x then Some (py_int (the x)) else None)"

definition state_columns :: "account_state \<Rightarrow> status_columns" where
  "state_columns s =
     (st_status s, st_deactivation_reason s, int_or_none (st_reset_at s), int_or_none (st_blocked_at s))"

definition with_columns :: "status_columns \<Rightarrow> account \<Rightarrow> account" where
  "with_columns c a =
     (case c of (status, reason, reset_at, blocked_at) \<Rightarrow>
        set_status status reason reset_at (Some blocked_at) a)"

definition persist_state :: "account \<Rightarrow> account_state \<Rightarrow> account list \<Rightarrow> account list \<times> account" where
  "persist_state account s table =
     (if status_columns_of account \<noteq> state_columns s then
        (case state_columns s of (status, reason, reset_at, blocked_at) \<Rightarrow>
           (fst (update_status (acc_id account) status reason reset_at (Some blocked_at) table),
            with_columns (state_columns s) account))
      else (table, account))"

definition persist_state_if_current ::
  "account \<Rightarrow> account_state \<Rightarrow> account list \<Rightarrow> account list \<times> account \<times> bool"
where
  "persist_state_if_current account s table =
     (if status_columns_of account \<noteq> state_columns s then
        let (table', updated) = update_status_if_current (acc_id account) (status_columns_of account)
                                  (state_columns s) table
        in (table', if updated then with_columns (state_columns s) account else account, updated)
      else (table, account, True))"

fun persist_selection_state ::
  "(string \<rightharpoonup> account) \<Rightarrow> account_state list \<Rightarrow> account list \<Rightarrow> account list \<times> string list"
where
  "persist_selection_state amap [] table = (table, [])"
| "persist_selection_state amap (s # ss) table =
     (case amap (st_account_id s) of
        None \<Rightarrow> persist_selection_state amap ss table
      | Some account \<Rightarrow>
          (let (table1, _, persisted) = persist_state_if_current account s table;
               (table2, stale) = persist_selection_state amap ss table1
           in (table2, if persisted then stale else acc_id account # stale)))"

section \<open>Recording outcomes\<close>

record load_balancer =
  lb_runtime :: runtime
  lb_accounts :: "account list"
  lb_cache :: "(string option \<times> string option \<times> string list option, selection_inputs) selection_cache"

definition mark_with ::
  "(account_state \<Rightarrow> account_state) \<Rightarrow> seconds \<Rightarrow> account \<Rightarrow> load_balancer \<Rightarrow> load_balancer \<times> account"
where
  "mark_with handler now account lb =
     (let runtime = runtime_of (lb_runtime lb) (acc_id account);
          s = handler (state_for account runtime);
          (runtime', _) = sync_runtime_state now account s False None runtime;
          (accounts', account') = persist_state account s (lb_accounts lb)
      in (lb\<lparr> lb_runtime := (lb_runtime lb)(acc_id account \<mapsto> runtime'),
              lb_accounts := accounts',
              lb_cache := selection_cache_invalidate (lb_cache lb) \<rparr>, account'))"

definition mark_rate_limit ::
  "seconds \<Rightarrow> rat \<Rightarrow> upstream_error \<Rightarrow> account \<Rightarrow> load_balancer \<Rightarrow> load_balancer \<times> account"
where
  "mark_rate_limit now jitter e account lb = mark_with (handle_rate_limit now jitter e) now account lb"

definition mark_quota_exceeded ::
  "seconds \<Rightarrow> upstream_error \<Rightarrow> account \<Rightarrow> load_balancer \<Rightarrow> load_balancer \<times> account"
where
  "mark_quota_exceeded now e account lb = mark_with (handle_quota_exceeded now e) now account lb"

definition mark_permanent_failure ::
  "seconds \<Rightarrow> string \<Rightarrow> account \<Rightarrow> load_balancer \<Rightarrow> load_balancer \<times> account"
where
  "mark_permanent_failure now error_code account lb =
     mark_with (handle_permanent_failure error_code) now account lb"

definition record_errors :: "seconds \<Rightarrow> account \<Rightarrow> int \<Rightarrow> load_balancer \<Rightarrow> load_balancer" where
  "record_errors now account count lb =
     (if count < 1 then lb
      else
        let runtime = runtime_of (lb_runtime lb) (acc_id account);
            s0 = state_for account runtime;
            s = s0\<lparr> st_error_count := st_error_count s0 + count, st_last_error_at := Some now \<rparr>;
            (runtime1, _) = sync_runtime_state now account s False None runtime;
            runtime2 = (if rt_health_tier runtime1 = HEALTH_TIER_PROBING
                        then runtime1\<lparr> rt_probe_success_streak := 0 \<rparr> else runtime1);
            (accounts', _, _) = persist_state_if_current account s (lb_accounts lb)
        in lb\<lparr> lb_runtime := (lb_runtime lb)(acc_id account \<mapsto> runtime2), lb_accounts := accounts' \<rparr>)"

definition record_error :: "seconds \<Rightarrow> account \<Rightarrow> load_balancer \<Rightarrow> load_balancer" where
  "record_error now account lb = record_errors now account 1 lb"

definition record_success :: "account \<Rightarrow> load_balancer \<Rightarrow> load_balancer" where
  "record_success account lb =
     (case lb_runtime lb (acc_id account) of
        None \<Rightarrow> lb
      | Some r \<Rightarrow>
          (let r1 = (if 0 < rt_error_count r
                     then r\<lparr> rt_error_count := 0, rt_last_error_at := None, rt_version := rt_version r + 1 \<rparr>
                     else r);
               r2 = (if rt_health_tier r1 = HEALTH_TIER_PROBING
                     then r1\<lparr> rt_probe_success_streak := rt_probe_success_streak r1 + 1,
                              rt_version := rt_version r1 + 1 \<rparr>
                     else r1)
           in lb\<lparr> lb_runtime := (lb_runtime lb)(acc_id account \<mapsto> r2) \<rparr>))"

end
