(* ===== verification/Resilience.thy ===== *)
theory Resilience
  imports Prelude
begin

text \<open>
  Protection of the service, \<open>app/core/resilience\<close> and \<open>app/modules/proxy/work_admission.py\<close>: the
  degradation flag, the circuit breaker with its calls in flight, and the admission gates (bulkhead
  lanes, global backpressure, work admission), which share one contract.
\<close>

section \<open>Degradation\<close>

datatype degradation_level = NORMAL | DEGRADED | CRITICAL

record degradation =
  dg_level :: degradation_level
  dg_reason :: "string option"

definition set_degraded :: "string option \<Rightarrow> degradation \<Rightarrow> degradation" where
  "set_degraded reason d = \<lparr> dg_level = DEGRADED, dg_reason = reason \<rparr>"

definition set_normal :: "degradation \<Rightarrow> degradation" where
  "set_normal d = \<lparr> dg_level = NORMAL, dg_reason = None \<rparr>"

definition is_degraded :: "degradation \<Rightarrow> bool" where
  "is_degraded d \<longleftrightarrow> dg_level d \<noteq> NORMAL"

section \<open>Circuit breaker\<close>

datatype circuit_state = CLOSED | OPEN | HALF_OPEN

record circuit_breaker =
  cb_state :: circuit_state
  cb_failure_count :: int
  cb_success_count :: int
  cb_last_failure_time :: "seconds option"
  cb_half_open_probe_in_flight :: bool
  cb_failure_threshold :: int
  cb_recovery_timeout_seconds :: int
  cb_success_threshold :: int

definition circuit_breaker_init :: "int \<Rightarrow> int \<Rightarrow> int \<Rightarrow> circuit_breaker" where
  "circuit_breaker_init failure_threshold recovery_timeout_seconds success_threshold =
     \<lparr> cb_state = CLOSED, cb_failure_count = 0, cb_success_count = 0, cb_last_failure_time = None,
       cb_half_open_probe_in_flight = False, cb_failure_threshold = failure_threshold,
       cb_recovery_timeout_seconds = recovery_timeout_seconds,
       cb_success_threshold = success_threshold \<rparr>"

definition current_state :: "seconds \<Rightarrow> circuit_breaker \<Rightarrow> circuit_state" where
  "current_state now cb =
     (if cb_state cb = OPEN \<and>
         (case cb_last_failure_time cb of
            Some t \<Rightarrow> of_int (cb_recovery_timeout_seconds cb) \<le> now - t
          | None \<Rightarrow> False)
      then HALF_OPEN else cb_state cb)"

datatype breaker_error = Breaker_Open | Breaker_Probe_In_Flight

definition pre_call_check :: "seconds \<Rightarrow> circuit_breaker \<Rightarrow> breaker_error + (bool \<times> circuit_breaker)" where
  "pre_call_check now cb =
     (case current_state now cb of
        OPEN \<Rightarrow> Inl Breaker_Open
      | HALF_OPEN \<Rightarrow>
          if cb_half_open_probe_in_flight cb then Inl Breaker_Probe_In_Flight
          else Inr (True, cb\<lparr> cb_half_open_probe_in_flight := True \<rparr>)
      | CLOSED \<Rightarrow> Inr (False, cb))"

definition release_half_open_probe :: "circuit_breaker \<Rightarrow> circuit_breaker" where
  "release_half_open_probe cb = cb\<lparr> cb_half_open_probe_in_flight := False \<rparr>"

definition record_success_cb :: "seconds \<Rightarrow> circuit_breaker \<Rightarrow> circuit_breaker" where
  "record_success_cb now cb =
     (case current_state now cb of
        HALF_OPEN \<Rightarrow>
          if cb_success_threshold cb \<le> cb_success_count cb + 1
          then cb\<lparr> cb_state := CLOSED, cb_failure_count := 0, cb_success_count := 0 \<rparr>
          else cb\<lparr> cb_success_count := cb_success_count cb + 1 \<rparr>
      | CLOSED \<Rightarrow> if 0 < cb_failure_count cb then cb\<lparr> cb_failure_count := 0 \<rparr> else cb
      | OPEN \<Rightarrow> cb)"

text \<open>
  The exceptions the upstream call can raise, as far as \<open>_is_server_error\<close> looks at them: an HTTP
  error with a status, a timeout, any other exception with or without a \<open>status_code\<close>.
\<close>

datatype call_error = Client_Response int | Timeout | Other_Error "int option"

definition is_server_error :: "call_error \<Rightarrow> bool" where
  "is_server_error e =
     (case e of
        Client_Response status \<Rightarrow> 500 \<le> status
      | Timeout \<Rightarrow> True
      | Other_Error (Some status) \<Rightarrow> 500 \<le> status
      | Other_Error None \<Rightarrow> True)"

definition record_failure_cb :: "seconds \<Rightarrow> call_error \<Rightarrow> circuit_breaker \<Rightarrow> circuit_breaker" where
  "record_failure_cb now e cb =
     (if \<not> is_server_error e then cb
      else
        let cb1 = cb\<lparr> cb_failure_count := cb_failure_count cb + 1, cb_last_failure_time := Some now,
                      cb_success_count := 0 \<rparr>
        in if cb_failure_threshold cb1 \<le> cb_failure_count cb1 then cb1\<lparr> cb_state := OPEN \<rparr> else cb1)"

text \<open>The end of \<open>call\<close>: record the outcome, then release the probe if this call was the probe.\<close>

definition finish_call :: "seconds \<Rightarrow> bool \<Rightarrow> call_error option \<Rightarrow> circuit_breaker \<Rightarrow> circuit_breaker" where
  "finish_call now is_probe outcome cb =
     (let cb1 = (case outcome of None \<Rightarrow> record_success_cb now cb | Some e \<Rightarrow> record_failure_cb now e cb)
      in if is_probe then release_half_open_probe cb1 else cb1)"

definition are_all_account_circuit_breakers_open :: "seconds \<Rightarrow> circuit_breaker list \<Rightarrow> bool" where
  "are_all_account_circuit_breakers_open now breakers =
     (if breakers = [] then False else list_all (\<lambda>cb. current_state now cb = OPEN) breakers)"

text \<open>
  Any number of calls run concurrently; the second component lists the calls in flight, each with
  whether it is the half-open probe.
\<close>

inductive breaker_step ::
  "circuit_breaker \<times> bool list \<Rightarrow> circuit_breaker \<times> bool list \<Rightarrow> bool"
where
  start: "pre_call_check now cb = Inr (is_probe, cb') \<Longrightarrow>
            breaker_step (cb, calls) (cb', is_probe # calls)"
| finish: "calls = pre @ is_probe # post \<Longrightarrow>
             breaker_step (cb, calls) (finish_call now is_probe outcome cb, pre @ post)"

inductive_cases breaker_stepE: "breaker_step s s'"





lemma finish_call_failure:
  assumes "is_server_error e"
  shows "cb_success_count (finish_call now p (Some e) cb) = 0"
    and "cb_state (finish_call now p (Some e) cb) =
           (if cb_failure_threshold cb \<le> cb_failure_count cb + 1 then OPEN else cb_state cb)"
  using assms by (simp_all add: finish_call_def record_failure_cb_def release_half_open_probe_def Let_def)

lemma finish_call_failure_state:
  "cb_state (finish_call now p (Some e) cb) = CLOSED \<Longrightarrow> cb_state cb = CLOSED"
proof (cases "is_server_error e")
  case True
  assume "cb_state (finish_call now p (Some e) cb) = CLOSED"
  with True show ?thesis by (simp add: finish_call_failure split: if_splits)
next
  case False
  assume "cb_state (finish_call now p (Some e) cb) = CLOSED"
  with False show ?thesis
    by (simp add: finish_call_def record_failure_cb_def release_half_open_probe_def split: if_splits)
qed

lemma finish_call_success_state:
  "cb_state (finish_call now p None cb) =
     (if current_state now cb = HALF_OPEN \<and> cb_success_threshold cb \<le> cb_success_count cb + 1
      then CLOSED else cb_state cb)"
  by (simp add: finish_call_def record_success_cb_def release_half_open_probe_def split: circuit_state.splits)

lemma current_state_open: "cb_state cb = OPEN \<Longrightarrow> current_state now cb \<noteq> CLOSED"
  by (simp add: current_state_def)

text \<open>An open breaker protects the upstream and closes only on evidence. Before the recovery timeout
  every call is refused. The breaker returns to closed only from half open, that is after the
  timeout, on a success that completes the required number of successes, of which a server error
  resets the count; and the failure that reaches the threshold opens it.\<close>

theorem breaker_transitions:
  shows "(cb_state cb = OPEN \<and> cb_last_failure_time cb = Some t \<and>
          now - t < of_int (cb_recovery_timeout_seconds cb) \<longrightarrow> pre_call_check now cb = Inl Breaker_Open) \<and>
         (cb_state cb = OPEN \<and> cb_state (finish_call now p outcome cb) = CLOSED \<longrightarrow>
            outcome = None \<and> current_state now cb = HALF_OPEN \<and>
            cb_success_threshold cb \<le> cb_success_count cb + 1) \<and>
         (outcome = Some e \<and> is_server_error e \<longrightarrow>
            cb_success_count (finish_call now p outcome cb) = 0 \<and>
            (cb_failure_threshold cb \<le> cb_failure_count cb + 1 \<longrightarrow>
               cb_state (finish_call now p outcome cb) = OPEN))"
proof (intro conjI impI)
  assume "cb_state cb = OPEN \<and> cb_last_failure_time cb = Some t \<and>
          now - t < of_int (cb_recovery_timeout_seconds cb)"
  then show "pre_call_check now cb = Inl Breaker_Open"
    by (simp add: pre_call_check_def current_state_def)
next
  assume *: "cb_state cb = OPEN \<and> cb_state (finish_call now p outcome cb) = CLOSED"
  then show "outcome = None" using finish_call_failure_state by (cases outcome) auto
  with * show "current_state now cb = HALF_OPEN"
    by (cases "current_state now cb") (auto simp: finish_call_success_state current_state_open)
  with * \<open>outcome = None\<close> show "cb_success_threshold cb \<le> cb_success_count cb + 1"
    by (auto simp: finish_call_success_state split: if_splits)
next
  assume "outcome = Some e \<and> is_server_error e"
  then show "cb_success_count (finish_call now p outcome cb) = 0"
    by (simp add: finish_call_failure)
next
  assume "outcome = Some e \<and> is_server_error e" "cb_failure_threshold cb \<le> cb_failure_count cb + 1"
  then show "cb_state (finish_call now p outcome cb) = OPEN" by (simp add: finish_call_failure)
qed




theorem breaker_transitions_witness:
  "pre_call_check 10 (finish_call 0 False (Some Timeout) (circuit_breaker_init 1 60 2)) = Inl Breaker_Open"
  using breaker_transitions [of "finish_call 0 False (Some Timeout) (circuit_breaker_init 1 60 2)" 0 10 False None Timeout]
  by (simp add: circuit_breaker_init_def finish_call_def record_failure_cb_def is_server_error_def)

section \<open>Admission gates\<close>

text \<open>
  A gate has lanes; a lane is unlimited or has a number of free permits. Entering a lane takes a
  permit or is refused, leaving gives it back.
\<close>

locale lane_gate =
  fixes permits :: "'s \<Rightarrow> 'l \<Rightarrow> nat option"
    and enter :: "'l \<Rightarrow> 's \<Rightarrow> 's option"
    and leave :: "'l \<Rightarrow> 's \<Rightarrow> 's"
  assumes enter_unlimited: "permits s l = None \<Longrightarrow> enter l s = Some s"
    and enter_full: "permits s l = Some 0 \<Longrightarrow> enter l s = None"
    and enter_free: "permits s l = Some (Suc n) \<Longrightarrow>
                       \<exists>s'. enter l s = Some s' \<and> permits s' = (permits s)(l := Some n)"
    and leave_unlimited: "permits s l = None \<Longrightarrow> permits (leave l s) = permits s"
    and leave_limited: "permits s l = Some n \<Longrightarrow> permits (leave l s) = (permits s)(l := Some (Suc n))"

inductive gate_step :: "('l \<Rightarrow> 's \<Rightarrow> 's option) \<Rightarrow> ('l \<Rightarrow> 's \<Rightarrow> 's) \<Rightarrow> 's \<times> 'l list \<Rightarrow> 's \<times> 'l list \<Rightarrow> bool"
  for enter leave
where
  admit: "enter l s = Some s' \<Longrightarrow> gate_step enter leave (s, active) (s', l # active)"
| depart: "active = pre @ l # post \<Longrightarrow> gate_step enter leave (s, active) (leave l s, pre @ post)"

context lane_gate
begin

definition balanced :: "'s \<Rightarrow> 's \<Rightarrow> 'l list \<Rightarrow> bool" where
  "balanced s0 s active \<longleftrightarrow>
     (\<forall>l. case permits s0 l of
            None \<Rightarrow> permits s l = None
          | Some m \<Rightarrow> \<exists>n. permits s l = Some n \<and> n + count_list active l = m)"

lemma balancedI:
  assumes "balanced s0 s active"
    and "\<And>k. permits s0 k = None \<Longrightarrow> permits s k = None \<Longrightarrow> permits s' k = None"
    and "\<And>k n. permits s k = Some n \<Longrightarrow>
           \<exists>n'. permits s' k = Some n' \<and> n' + count_list active' k = n + count_list active k"
  shows "balanced s0 s' active'"
  unfolding balanced_def
proof
  fix k
  have k: "case permits s0 k of None \<Rightarrow> permits s k = None
      | Some m \<Rightarrow> \<exists>n. permits s k = Some n \<and> n + count_list active k = m"
    using assms(1) by (simp add: balanced_def)
  show "case permits s0 k of None \<Rightarrow> permits s' k = None
      | Some m \<Rightarrow> \<exists>n. permits s' k = Some n \<and> n + count_list active' k = m"
  proof (cases "permits s0 k")
    case None
    with k assms(2) [of k] show ?thesis by simp
  next
    case (Some m)
    with k obtain n where "permits s k = Some n" "n + count_list active k = m" by auto
    with assms(3) [of k n] Some show ?thesis by auto
  qed
qed

lemma balanced_step:
  assumes "gate_step enter leave (s, active) (s', active')" "balanced s0 s active"
  shows "balanced s0 s' active'"
  using assms
proof (induction "(s, active)" "(s', active')" rule: gate_step.induct)
  case (admit l)
  show ?case
  proof (cases "permits s l")
    case None
    then have s': "s' = s" using admit(1) enter_unlimited by simp
    show ?thesis
      by (rule balancedI [OF admit(3)]) (use None s' admit(2) [symmetric] in auto)
  next
    case (Some k)
    then obtain n where n: "k = Suc n" using admit(1) enter_full by (cases k) auto
    then have s': "permits s' = (permits s)(l := Some n)" using enter_free [of s l n] Some admit(1) by auto
    show ?thesis
      by (rule balancedI [OF admit(3)]) (use Some n s' admit(2) [symmetric] in auto)
  qed
next
  case (depart pre l post)
  show ?case
  proof (cases "permits s l")
    case None
    show ?thesis
      by (rule balancedI [OF depart(4)]) (use None depart(1) depart(2,3) [symmetric] in \<open>auto simp: leave_unlimited\<close>)
  next
    case (Some n)
    show ?thesis
      by (rule balancedI [OF depart(4)]) (use Some depart(1) depart(2,3) [symmetric] in \<open>auto simp: leave_limited\<close>)
  qed
qed

lemma balanced_reach:
  assumes "(gate_step enter leave)\<^sup>*\<^sup>* (s0, []) (s, active)"
  shows "balanced s0 s active"
  using assms
proof (induction "(s, active)" arbitrary: s active rule: rtranclp_induct)
  case base
  then show ?case by (auto simp: balanced_def split: option.splits)
next
  case (step y)
  then show ?case by (cases y) (auto intro: balanced_step)
qed

lemma gate_bound:
  assumes "(gate_step enter leave)\<^sup>*\<^sup>* (s0, []) (s, active)" "permits s0 l = Some m"
  shows "count_list active l \<le> m \<and> (enter l s = None \<longleftrightarrow> count_list active l = m)"
proof -
  from balanced_reach [OF assms(1)] assms(2) obtain n where n: "permits s l = Some n" "n + count_list active l = m"
    by (auto simp: balanced_def dest!: spec [of _ l])
  have "enter l s = None \<longleftrightarrow> n = 0"
    using n(1) enter_full enter_free by (cases n) fastforce+
  with n(2) show ?thesis by auto
qed

end

section \<open>Bulkhead\<close>


definition permits_of :: "int \<Rightarrow> nat option" where
  "permits_of limit = (if 0 < limit then Some (nat limit) else None)"






definition lane_enter :: "'l \<Rightarrow> ('l \<Rightarrow> nat option) \<Rightarrow> ('l \<Rightarrow> nat option) option" where
  "lane_enter l b =
     (case b l of
        None \<Rightarrow> Some b
      | Some n \<Rightarrow> if n = 0 then None else Some (b(l := Some (n - 1))))"

definition lane_leave :: "'l \<Rightarrow> ('l \<Rightarrow> nat option) \<Rightarrow> ('l \<Rightarrow> nat option)" where
  "lane_leave l b = (case b l of None \<Rightarrow> b | Some n \<Rightarrow> b(l := Some (n + 1)))"



definition is_memory_pressure :: "int \<Rightarrow> int \<Rightarrow> bool" where
  "is_memory_pressure reject_threshold_bytes rss =
     (if reject_threshold_bytes \<le> 0 then False else reject_threshold_bytes \<le> rss)"



section \<open>Backpressure and work admission\<close>

definition backpressure_call :: "string \<Rightarrow> string \<Rightarrow> nat \<Rightarrow> (int + nat) option" where
  "backpressure_call scope_type path free =
     (if scope_type \<notin> {''http'', ''websocket''} \<or> startswith path ''/health'' then None
      else if free = 0 then Some (Inl 429) else Some (Inr (free - 1)))"

datatype work_stage = Token_Refresh | Websocket_Connect | Response_Create | Compact_Response_Create

definition work_admission_init :: "int \<Rightarrow> int \<Rightarrow> int \<Rightarrow> int \<Rightarrow> (work_stage \<Rightarrow> nat option)" where
  "work_admission_init token_refresh_limit websocket_connect_limit response_create_limit
     compact_response_create_limit =
     (\<lambda>stage. permits_of (case stage of
        Token_Refresh \<Rightarrow> token_refresh_limit
      | Websocket_Connect \<Rightarrow> websocket_connect_limit
      | Response_Create \<Rightarrow> response_create_limit
      | Compact_Response_Create \<Rightarrow> compact_response_create_limit))"

text \<open>
  A lease remembers the stage it holds a permit of, or none for an unlimited stage, and whether it
  was released; releasing it again does nothing.
\<close>

record admission_lease =
  al_stage :: "work_stage option"
  al_released :: bool

definition stage_name :: "work_stage \<Rightarrow> string" where
  "stage_name stage =
     (case stage of
        Token_Refresh \<Rightarrow> ''token_refresh''
      | Websocket_Connect \<Rightarrow> ''upstream_websocket_connect''
      | Response_Create \<Rightarrow> ''response_create''
      | Compact_Response_Create \<Rightarrow> ''compact_response_create'')"

text \<open>\<open>w\<close> is the state of the gates when the wait for a permit ends, by a permit or by the timeout.\<close>

definition work_acquire ::
  "work_stage \<Rightarrow> (work_stage \<Rightarrow> nat option) \<Rightarrow> string + (admission_lease \<times> (work_stage \<Rightarrow> nat option))"
where
  "work_acquire stage w =
     (case w stage of
        None \<Rightarrow> Inr (\<lparr> al_stage = None, al_released = False \<rparr>, w)
      | Some n \<Rightarrow>
          (case lane_enter stage w of
             None \<Rightarrow> Inl (''codex-lb is temporarily overloaded during '' @ stage_name stage)
           | Some w' \<Rightarrow> Inr (\<lparr> al_stage = Some stage, al_released = False \<rparr>, w')))"

definition lease_release ::
  "admission_lease \<Rightarrow> (work_stage \<Rightarrow> nat option) \<Rightarrow> admission_lease \<times> (work_stage \<Rightarrow> nat option)"
where
  "lease_release lease w =
     (case al_stage lease of
        None \<Rightarrow> (lease, w)
      | Some stage \<Rightarrow>
          if al_released lease then (lease, w)
          else (lease\<lparr> al_released := True \<rparr>, lane_leave stage w))"

interpretation work_admission: lane_gate "\<lambda>(w :: work_stage \<Rightarrow> nat option). w" lane_enter lane_leave
  by unfold_locales (auto simp: lane_enter_def lane_leave_def)

lemma lease_release_idem:
  "lease_release (fst (lease_release lease w)) w' = (fst (lease_release lease w), w')"
  by (auto simp: lease_release_def split: option.splits)

lemma lease_roundtrip:
  assumes "work_acquire stage w = Inr (lease, w')"
  shows "snd (lease_release lease w') = w"
  using assms
  by (auto simp: work_acquire_def lease_release_def lane_enter_def lane_leave_def fun_upd_idem
      split: option.splits if_splits)



end
