(* ===== verification/Lb_Selection.thy ===== *)
theory Lb_Selection
  imports Load_Balancer Resilience
begin

text \<open>
  The selection path of \<open>app/modules/proxy/load_balancer.py\<close>: loading the inputs through the cache,
  gating by additional quotas, the budget-safe preference, stickiness, one selection attempt and the
  retry loop around it.
\<close>

section \<open>Selection inputs\<close>

text \<open>What the loader reads from outside the class: tables, the model registry and the gated models.\<close>

record lb_sources =
  src_latest_primary :: "string \<rightharpoonup> usage_history"
  src_latest_secondary :: "string \<rightharpoonup> usage_history"
  src_has_registry_entry :: "string \<Rightarrow> bool"
  src_plan_types_for_model :: "string \<Rightarrow> string list option"
  src_gated_limit_name :: "string option \<Rightarrow> string option"
  src_latest_additional :: "string \<Rightarrow> string \<Rightarrow> datetime option \<Rightarrow> (string \<rightharpoonup> additional_usage)"

datatype quota_eligibility = Eligible | Data_Unavailable | Quota_Exhausted

definition additional_usage_is_exhausted :: "seconds \<Rightarrow> additional_usage \<Rightarrow> bool" where
  "additional_usage_is_exhausted now entry =
     (case au_used_percent entry of
        None \<Rightarrow> False
      | Some u \<Rightarrow>
          if (case au_reset_at entry of Some r \<Rightarrow> r \<le> py_int now | None \<Rightarrow> False) then False
          else 100 \<le> u)"

definition additional_quota_eligibility ::
  "seconds \<Rightarrow> string \<Rightarrow> (string \<rightharpoonup> additional_usage) \<Rightarrow> (string \<rightharpoonup> additional_usage) \<Rightarrow>
   (string \<rightharpoonup> additional_usage) \<Rightarrow> (string \<rightharpoonup> additional_usage) \<Rightarrow> quota_eligibility"
where
  "additional_quota_eligibility now i latest_primary latest_secondary fresh_primary fresh_secondary =
     (if latest_primary i = None \<and> latest_secondary i = None then Data_Unavailable
      else if latest_primary i \<noteq> None \<and> fresh_primary i = None then Data_Unavailable
      else if latest_secondary i \<noteq> None \<and> fresh_secondary i = None then Data_Unavailable
      else if (case fresh_primary i of Some e \<Rightarrow> additional_usage_is_exhausted now e | None \<Rightarrow> False)
      then Quota_Exhausted
      else if (case fresh_secondary i of Some e \<Rightarrow> additional_usage_is_exhausted now e | None \<Rightarrow> False)
      then Quota_Exhausted
      else Eligible)"

definition additional_usage_fresh_since :: "lb_settings \<Rightarrow> datetime \<Rightarrow> datetime" where
  "additional_usage_fresh_since settings now =
     now - max (ls_usage_refresh_interval_seconds settings * 2) 180 * 1000000"

definition quoted :: "string option \<Rightarrow> string" where
  "quoted m = CHR 0x27 # (case m of Some s \<Rightarrow> s | None \<Rightarrow> ''None'') @ [CHR 0x27]"

definition filter_accounts_for_additional_limit ::
  "lb_settings \<Rightarrow> lb_sources \<Rightarrow> datetime \<Rightarrow> string option \<Rightarrow> string \<Rightarrow> account list \<Rightarrow>
   account list \<times> string option \<times> string option"
where
  "filter_accounts_for_additional_limit settings src now model limit_name accounts =
     (if accounts = [] then ([], None, None)
      else
        let since = Some (additional_usage_fresh_since settings now);
            eligibility = (\<lambda>a. additional_quota_eligibility (epoch_of now) (acc_id a)
               (src_latest_additional src limit_name ''primary'' None)
               (src_latest_additional src limit_name ''secondary'' None)
               (src_latest_additional src limit_name ''primary'' since)
               (src_latest_additional src limit_name ''secondary'' since));
            eligible = filter (\<lambda>a. eligibility a = Eligible) accounts;
            blocked_by_data = list_ex (\<lambda>a. eligibility a = Data_Unavailable) accounts
        in if eligible = [] then
             if blocked_by_data then
               ([], Some ADDITIONAL_QUOTA_DATA_UNAVAILABLE,
                Some (''No fresh additional quota data available for model '' @ quoted model))
             else
               ([], Some NO_ADDITIONAL_QUOTA_ELIGIBLE_ACCOUNTS,
                Some (''No accounts with available additional quota for model '' @ quoted model))
           else (eligible, None, None))"

definition filter_accounts_for_model :: "lb_sources \<Rightarrow> account list \<Rightarrow> string \<Rightarrow> account list" where
  "filter_accounts_for_model src accounts model =
     (case src_plan_types_for_model src model of
        None \<Rightarrow> accounts
      | Some allowed \<Rightarrow> filter (\<lambda>a. account_plan_matches_allowed (Some (acc_plan_type a)) allowed) accounts)"

definition selectable_accounts :: "account list \<Rightarrow> account list" where
  "selectable_accounts accounts = filter (\<lambda>a. acc_status a \<notin> {DEACTIVATED, PAUSED}) accounts"

definition empty_inputs :: "account list \<Rightarrow> string option \<Rightarrow> string option \<Rightarrow> selection_inputs" where
  "empty_inputs all_accounts error_message error_code =
     \<lparr> si_accounts = [], si_latest_primary = Map.empty, si_latest_secondary = Map.empty,
       si_runtime_accounts = Some all_accounts,
       si_error_message = error_message, si_error_code = error_code \<rparr>"

definition scoped_accounts :: "string list option \<Rightarrow> account list \<Rightarrow> account list" where
  "scoped_accounts account_ids all_accounts =
     (case account_ids of
        None \<Rightarrow> selectable_accounts all_accounts
      | Some ids \<Rightarrow> filter (\<lambda>a. acc_id a \<in> set ids) (selectable_accounts all_accounts))"

definition accounts_for_model :: "lb_sources \<Rightarrow> string option \<Rightarrow> account list \<Rightarrow> account list" where
  "accounts_for_model src model scoped =
     (if truthy_str model \<and> src_has_registry_entry src (the model)
      then filter_accounts_for_model src scoped (the model) else scoped)"

definition full_inputs :: "lb_sources \<Rightarrow> account list \<Rightarrow> account list \<Rightarrow> selection_inputs" where
  "full_inputs src all_accounts accounts =
     \<lparr> si_accounts = accounts, si_latest_primary = src_latest_primary src,
       si_latest_secondary = src_latest_secondary src,
       si_runtime_accounts = Some all_accounts, si_error_message = None, si_error_code = None \<rparr>"

definition read_selection_inputs ::
  "lb_settings \<Rightarrow> lb_sources \<Rightarrow> datetime \<Rightarrow> string option \<Rightarrow> string option \<Rightarrow> string list option \<Rightarrow>
   account list \<Rightarrow> selection_inputs"
where
  "read_selection_inputs settings src now model additional_limit_name account_ids table =
     (let all_accounts = list_accounts table;
          limit_name = (if truthy_str additional_limit_name then additional_limit_name
                        else src_gated_limit_name src model);
          scoped = scoped_accounts account_ids all_accounts;
          accounts = accounts_for_model src model scoped
      in if truthy_str model \<and> accounts = [] then
           if all_accounts = [] then empty_inputs all_accounts None None
           else if scoped = [] then empty_inputs all_accounts None None
           else empty_inputs all_accounts
                  (Some (''No accounts with a plan supporting model '' @ quoted model))
                  (Some NO_PLAN_SUPPORT_FOR_MODEL)
         else if truthy_str limit_name then
           (let (eligible, error_code, error_message) =
                  filter_accounts_for_additional_limit settings src now model (the limit_name) accounts
            in if eligible = [] then empty_inputs all_accounts error_message error_code
               else full_inputs src all_accounts eligible)
         else if accounts = [] then empty_inputs all_accounts None None
         else full_inputs src all_accounts accounts)"

text \<open>
  The loader proper consults the cache first and stores what it read under the generation it saw
  before reading. \<open>mclock\<close> is the monotonic clock of the cache.
\<close>

definition load_selection_inputs ::
  "lb_settings \<Rightarrow> lb_sources \<Rightarrow> datetime \<Rightarrow> seconds \<Rightarrow> string option \<Rightarrow> string option \<Rightarrow> string list option \<Rightarrow>
   load_balancer \<Rightarrow> selection_inputs \<times> load_balancer"
where
  "load_selection_inputs settings src now mclock model additional_limit_name account_ids lb =
     (let key = (model, additional_limit_name, map_option (\<lambda>ids. sort (remdups ids)) account_ids)
      in case selection_cache_get mclock key (lb_cache lb) of
           Some cached \<Rightarrow> (cached, lb)
         | None \<Rightarrow>
             (let inputs = read_selection_inputs settings src now model additional_limit_name account_ids
                             (lb_accounts lb)
              in (inputs, lb\<lparr> lb_cache := selection_cache_set mclock (Some (sc_generation (lb_cache lb)))
                                             key inputs (lb_cache lb) \<rparr>)))"

definition exclude_accounts :: "string list \<Rightarrow> selection_inputs \<Rightarrow> selection_inputs" where
  "exclude_accounts excluded_ids inputs =
     (if excluded_ids \<noteq> [] \<and> si_accounts inputs \<noteq> []
      then inputs\<lparr> si_accounts := filter (\<lambda>a. acc_id a \<notin> set excluded_ids) (si_accounts inputs) \<rparr>
      else inputs)"

section \<open>Budget-safe preference\<close>

definition state_above_budget_threshold :: "percent \<Rightarrow> account_state \<Rightarrow> bool" where
  "state_above_budget_threshold budget s =
     (case st_used_percent s of Some u \<Rightarrow> budget < u | None \<Rightarrow> False)"

definition state_above_sticky_budget_threshold :: "percent \<Rightarrow> account_state \<Rightarrow> bool" where
  "state_above_sticky_budget_threshold budget s =
     ((case st_used_percent s of Some u \<Rightarrow> budget < u | None \<Rightarrow> False) \<or>
      (case st_secondary_used_percent s of Some u \<Rightarrow> budget < u | None \<Rightarrow> False))"

record routing_options =
  ro_prefer_earlier_reset :: bool
  ro_routing_strategy :: routing_strategy
  ro_budget_threshold_pct :: percent

definition selection_options_of ::
  "routing_options \<Rightarrow> bool \<Rightarrow> bool \<Rightarrow> bool \<Rightarrow> selection_options"
where
  "selection_options_of ro allow_backoff_fallback deterministic_probe primary_first =
     \<lparr> so_prefer_earlier_reset = ro_prefer_earlier_reset ro,
       so_routing_strategy = ro_routing_strategy ro,
       so_allow_backoff_fallback = allow_backoff_fallback,
       so_deterministic_probe = deterministic_probe,
       so_primary_first_usage_weighted = primary_first \<rparr>"

text \<open>
  Selecting among some of the states updates those states in place; \<open>select_among p\<close> selects among
  the states satisfying \<open>p\<close> and returns all states with the updates applied.
\<close>

definition select_among ::
  "(account_state \<Rightarrow> bool) \<Rightarrow> selection_options \<Rightarrow> seconds \<Rightarrow> rat \<Rightarrow> account_state list \<Rightarrow>
   selection_result \<times> account_state list"
where
  "select_among p opts now u states =
     (fst (select_account opts now u (filter p states)),
      map (\<lambda>s. if p s then fst (step_state now s) else s) states)"

definition select_account_preferring_budget_safe ::
  "routing_options \<Rightarrow> bool \<Rightarrow> bool \<Rightarrow> seconds \<Rightarrow> rat \<Rightarrow> account_state list \<Rightarrow>
   selection_result \<times> account_state list"
where
  "select_account_preferring_budget_safe ro allow_fallback probe now u states =
     (let safe = (\<lambda>s. \<not> state_above_budget_threshold (ro_budget_threshold_pct ro) s);
          preferred = filter safe states;
          (r1, states1) = (if preferred \<noteq> []
                           then select_among safe (selection_options_of ro allow_fallback probe False) now u states
                           else (\<lparr> sr_account = None, sr_error_message = None \<rparr>, states))
      in if preferred \<noteq> [] \<and> (sr_account r1 \<noteq> None \<or> length preferred = length states) then (r1, states1)
         else if ro_routing_strategy ro = Usage_Weighted \<and> states1 \<noteq> [] then
           select_account (selection_options_of ro allow_fallback probe True) now u states1
         else select_account (selection_options_of ro allow_fallback probe False) now u states1)"

section \<open>Stickiness\<close>

record sticky_request =
  sq_key :: "string option"
  sq_kind :: "sticky_session_kind option"
  sq_reallocate :: bool
  sq_max_age_seconds :: "int option"

definition RECOVERABLE_STATUSES :: "account_status list" where
  "RECOVERABLE_STATUSES = [ACTIVE, RATE_LIMITED, QUOTA_EXCEEDED]"

datatype sticky_error = Sticky_Kind_Required

type_synonym sticky_outcome = "selection_result \<times> account_state list \<times> sticky_session list"

definition select_pinned ::
  "routing_options \<Rightarrow> seconds \<Rightarrow> string \<Rightarrow> account_state list \<Rightarrow> selection_result \<times> account_state list"
where
  "select_pinned ro now i states =
     select_among (\<lambda>s. st_account_id s = i) (selection_options_of ro False False False) now 0 states"

definition touch_sticky ::
  "datetime \<Rightarrow> sticky_request \<Rightarrow> string \<Rightarrow> sticky_session_kind \<Rightarrow> string \<Rightarrow> sticky_session list \<Rightarrow> sticky_session list"
where
  "touch_sticky dbnow req key kind i table =
     (if sq_max_age_seconds req \<noteq> None then sticky_upsert dbnow key i kind table else table)"

definition budget_pressured :: "routing_options \<Rightarrow> account_state \<Rightarrow> bool" where
  "budget_pressured ro pinned \<longleftrightarrow>
     st_status pinned \<noteq> RATE_LIMITED \<and>
     state_above_sticky_budget_threshold (ro_budget_threshold_pct ro) pinned"

definition rate_limit_far_away :: "seconds \<Rightarrow> sticky_session_kind \<Rightarrow> account_state \<Rightarrow> bool" where
  "rate_limit_far_away now kind pinned \<longleftrightarrow>
     kind = PROMPT_CACHE \<and> st_status pinned = RATE_LIMITED \<and>
     (case st_reset_at pinned of Some r \<Rightarrow> 600 \<le> r - now | None \<Rightarrow> False)"

text \<open>
  The pinned account is tried first. The left value is a finished selection; the right one carries
  whether to reallocate, and the states, to the steps that follow.
\<close>

definition try_pinned ::
  "routing_options \<Rightarrow> seconds \<Rightarrow> sticky_request \<Rightarrow> sticky_session_kind \<Rightarrow> account_state \<Rightarrow>
   account_state list \<Rightarrow> (selection_result \<times> account_state list) + (bool \<times> account_state list)"
where
  "try_pinned ro now req kind pinned states =
     (let i = st_account_id pinned
      in if \<not> (budget_pressured ro pinned \<or> rate_limit_far_away now kind pinned) then
           (let (r, states1) = select_pinned ro now i states
            in if sr_account r \<noteq> None then Inl (r, states1) else Inr (sq_reallocate req, states1))
         else if budget_pressured ro pinned then
           (let (best, states1) = select_account_preferring_budget_safe ro True True now 0 states;
                pinned1 = (case find (\<lambda>s. st_account_id s = i) states1 of Some p \<Rightarrow> p | None \<Rightarrow> pinned);
                exhausted = (if state_above_budget_threshold (ro_budget_threshold_pct ro) pinned1
                             then state_above_budget_threshold (ro_budget_threshold_pct ro)
                             else state_above_sticky_budget_threshold (ro_budget_threshold_pct ro))
            in if (case sr_account best of
                     Some b \<Rightarrow> st_account_id b = i \<or> exhausted b
                   | None \<Rightarrow> False)
               then (let (r, states2) = select_pinned ro now i states1
                     in if sr_account r \<noteq> None then Inl (r, states2) else Inr (True, states2))
               else Inr (True, states1))
         else Inr (True, states))"

definition grace_select ::
  "routing_options \<Rightarrow> seconds \<Rightarrow> account_state \<Rightarrow> selection_result"
where
  "grace_select ro now pinned =
     fst (select_account (selection_options_of ro False False False)
            (now + STICKY_GRACE_PERIOD_SECONDS) 0 [pinned])"

text \<open>The fallback selection from the whole pool, bound to the session when \<open>persist\<close> is set.\<close>

definition sticky_fallback ::
  "routing_options \<Rightarrow> seconds \<Rightarrow> datetime \<Rightarrow> rat \<Rightarrow> string \<Rightarrow> sticky_session_kind \<Rightarrow> string set \<Rightarrow> bool \<Rightarrow>
   account_state list \<Rightarrow> sticky_session list \<Rightarrow> sticky_outcome"
where
  "sticky_fallback ro now dbnow u key kind known persist states table =
     (let (chosen, states2) = select_account_preferring_budget_safe ro True False now u states
      in case sr_account chosen of
           Some a \<Rightarrow>
             (chosen, states2,
              if persist \<and> st_account_id a \<in> known
              then sticky_upsert dbnow key (st_account_id a) kind table else table)
         | None \<Rightarrow> (chosen, states2, table))"

text \<open>What follows when the pinned account was not selected: the grace period, then the fallback.\<close>

definition after_pinned ::
  "routing_options \<Rightarrow> seconds \<Rightarrow> datetime \<Rightarrow> rat \<Rightarrow> sticky_request \<Rightarrow> string \<Rightarrow> sticky_session_kind \<Rightarrow> string set \<Rightarrow>
   account_state \<Rightarrow> bool \<Rightarrow> account_state list \<Rightarrow> sticky_session list \<Rightarrow> sticky_outcome"
where
  "after_pinned ro now dbnow u req key kind known pinned reallocate states table =
     (let grace = grace_select ro now pinned
      in if \<not> reallocate \<and> st_status pinned = RATE_LIMITED \<and> sr_account grace \<noteq> None
         then (grace, states, touch_sticky dbnow req key kind (st_account_id pinned) table)
         else if reallocate
         then sticky_fallback ro now dbnow u key kind known True states (fst (sticky_delete key kind table))
         else if st_status pinned \<notin> set RECOVERABLE_STATUSES
         then sticky_fallback ro now dbnow u key kind known True states table
         else sticky_fallback ro now dbnow u key kind known (sq_max_age_seconds req = None) states table)"

definition sticky_selection ::
  "routing_options \<Rightarrow> seconds \<Rightarrow> datetime \<Rightarrow> rat \<Rightarrow> sticky_request \<Rightarrow> string \<Rightarrow> sticky_session_kind \<Rightarrow> string set \<Rightarrow>
   account_state list \<Rightarrow> sticky_session list \<Rightarrow> sticky_outcome"
where
  "sticky_selection ro now dbnow u req key kind known states table =
     (let (existing, table1) = sticky_get_account_id dbnow key kind (sq_max_age_seconds req) table
      in if \<not> truthy_str existing
         then sticky_fallback ro now dbnow u key kind known True states table1
         else case find (\<lambda>s. st_account_id s = the existing) states of
                None \<Rightarrow> sticky_fallback ro now dbnow u key kind known True states
                          (fst (sticky_delete key kind table1))
              | Some pinned \<Rightarrow>
                  (case try_pinned ro now req kind pinned states of
                     Inl (r, states1) \<Rightarrow>
                       (r, states1, touch_sticky dbnow req key kind (st_account_id pinned) table1)
                   | Inr (reallocate, states1) \<Rightarrow>
                       after_pinned ro now dbnow u req key kind known
                         (case find (\<lambda>s. st_account_id s = the existing) states1 of
                            Some q \<Rightarrow> q | None \<Rightarrow> pinned)
                         reallocate states1 table1))"

definition select_with_stickiness ::
  "routing_options \<Rightarrow> seconds \<Rightarrow> datetime \<Rightarrow> rat \<Rightarrow> sticky_request \<Rightarrow> string set \<Rightarrow>
   account_state list \<Rightarrow> sticky_session list \<Rightarrow> sticky_error + sticky_outcome"
where
  "select_with_stickiness ro now dbnow u req known states table =
     (if \<not> truthy_str (sq_key req) then
        (let (r, states') = select_account_preferring_budget_safe ro True False now u states
         in Inr (r, states', table))
      else case sq_kind req of
             None \<Rightarrow> Inl Sticky_Kind_Required
           | Some kind \<Rightarrow>
               Inr (sticky_selection ro now dbnow u req (the (sq_key req)) kind known states table))"

section \<open>One attempt\<close>

definition sync_states ::
  "seconds \<Rightarrow> (string \<rightharpoonup> account) \<Rightarrow> string option \<Rightarrow> account_state list \<Rightarrow> runtime \<Rightarrow> runtime"
where
  "sync_states now amap selected_id states rt =
     fold (\<lambda>s rt. case amap (st_account_id s) of
                    None \<Rightarrow> rt
                  | Some account \<Rightarrow>
                      rt(st_account_id s \<mapsto>
                         fst (sync_runtime_state now account s (selected_id = Some (st_account_id s)) None
                                (runtime_of rt (st_account_id s)))))
       states rt"

definition snapshot_of :: "(string \<rightharpoonup> account) \<Rightarrow> account_state list \<Rightarrow> account_state \<Rightarrow> account option" where
  "snapshot_of amap states a =
     (case amap (st_account_id a) of
        None \<Rightarrow> None
      | Some acc \<Rightarrow>
          (let reset = (case find (\<lambda>s. st_account_id s = st_account_id a) states of
                          Some s \<Rightarrow> int_or_none (st_reset_at s)
                        | None \<Rightarrow> acc_reset_at acc)
           in Some (acc\<lparr> acc_status := st_status a, acc_deactivation_reason := st_deactivation_reason a,
                         acc_reset_at := reset \<rparr>)))"

definition copy_result_status :: "selection_result \<Rightarrow> account_state list \<Rightarrow> account_state list" where
  "copy_result_status r states =
     (case sr_account r of
        None \<Rightarrow> states
      | Some a \<Rightarrow>
          map (\<lambda>s. if st_account_id s = st_account_id a
                   then s\<lparr> st_status := st_status a, st_deactivation_reason := st_deactivation_reason a \<rparr>
                   else s) states)"

record attempt_result =
  ar_snapshot :: "account option"
  ar_error_message :: "string option"
  ar_runtime :: runtime
  ar_accounts :: "account list"
  ar_sticky :: "sticky_session list"
  ar_stale :: "string list"

text \<open>
  \<open>finish_attempt\<close> is the part both loops share after a selection: synchronise the runtime state,
  take the snapshot, persist. The accounts table is read at the moment of writing, so it is an
  argument of its own: other workers may have changed it since the inputs were loaded.
\<close>

definition finish_attempt ::
  "seconds \<Rightarrow> selection_inputs \<Rightarrow> selection_result \<Rightarrow> account_state list \<Rightarrow> runtime \<Rightarrow> account list \<Rightarrow>
   sticky_session list \<Rightarrow> attempt_result"
where
  "finish_attempt now inputs r states rt table sticky =
     (let amap = account_map (si_accounts inputs);
          known = filter (\<lambda>s. amap (st_account_id s) \<noteq> None) states;
          rt' = sync_states now amap (map_option st_account_id (sr_account r)) states rt;
          snapshot = (case sr_account r of Some a \<Rightarrow> snapshot_of amap states a | None \<Rightarrow> None);
          (table', stale) = persist_selection_state amap (copy_result_status r known) table
      in \<lparr> ar_snapshot = snapshot,
           ar_error_message = (if snapshot = None then sr_error_message r else None),
           ar_runtime = rt', ar_accounts = table', ar_sticky = sticky, ar_stale = stale \<rparr>)"

definition tracked_accounts :: "selection_inputs \<Rightarrow> account list" where
  "tracked_accounts inputs =
     (case si_runtime_accounts inputs of
        Some as \<Rightarrow> if as = [] then si_accounts inputs else as
      | None \<Rightarrow> si_accounts inputs)"

definition plain_attempt ::
  "lb_settings \<Rightarrow> routing_options \<Rightarrow> seconds \<Rightarrow> rat \<Rightarrow> selection_inputs \<Rightarrow> runtime \<Rightarrow> account list \<Rightarrow>
   sticky_session list \<Rightarrow> attempt_result"
where
  "plain_attempt settings ro now u inputs rt table sticky =
     (let rt0 = prune_runtime (tracked_accounts inputs) rt;
          (states, rt1) = build_states settings now (si_latest_primary inputs) (si_latest_secondary inputs)
                            (si_accounts inputs) rt0;
          (r, states') = select_account_preferring_budget_safe ro True False now u states
      in finish_attempt now inputs r states' rt1 table sticky)"

definition sticky_attempt ::
  "lb_settings \<Rightarrow> routing_options \<Rightarrow> seconds \<Rightarrow> datetime \<Rightarrow> rat \<Rightarrow> sticky_request \<Rightarrow> selection_inputs \<Rightarrow>
   runtime \<Rightarrow> account list \<Rightarrow> sticky_session list \<Rightarrow> sticky_error + attempt_result"
where
  "sticky_attempt settings ro now dbnow u req inputs rt table sticky =
     (let rt0 = prune_runtime (tracked_accounts inputs) rt;
          (states, rt1) = build_states settings now (si_latest_primary inputs) (si_latest_secondary inputs)
                            (si_accounts inputs) rt0
      in case select_with_stickiness ro now dbnow u req (acc_id ` set (si_accounts inputs)) states sticky of
           Inl e \<Rightarrow> Inl e
         | Inr (r, states', sticky') \<Rightarrow> Inr (finish_attempt now inputs r states' rt1 table sticky'))"

section \<open>The retry loop\<close>

text \<open>
  What happens around the attempts is up to other tasks: the clock, the draw, the inputs a reload
  returns, the tables at the time of writing, whether the cache generation moved while persisting,
  and what other tasks made of the runtime state in the meantime. They are functions of the attempt
  number.
\<close>

record environment =
  en_now :: "nat \<Rightarrow> seconds"
  en_dbnow :: "nat \<Rightarrow> datetime"
  en_draw :: "nat \<Rightarrow> rat"
  en_inputs :: "nat \<Rightarrow> selection_inputs"
  en_table :: "nat \<Rightarrow> account list"
  en_sticky :: "nat \<Rightarrow> sticky_session list"
  en_generation_moved :: "nat \<Rightarrow> bool"
  en_runtime :: "nat \<Rightarrow> runtime \<Rightarrow> runtime"

datatype selection_outcome =
  Selected account attempt_result
| Unavailable "string option" "string option"
| Stale_Give_Up
| Invalid sticky_error

definition inputs_rejected :: "selection_inputs \<Rightarrow> bool" where
  "inputs_rejected inputs \<longleftrightarrow> si_error_code inputs \<noteq> None \<and> si_accounts inputs = []"

definition snapshot_stale :: "attempt_result \<Rightarrow> bool" where
  "snapshot_stale a \<longleftrightarrow> (case ar_snapshot a of Some acc \<Rightarrow> acc_id acc \<in> set (ar_stale a) | None \<Rightarrow> False)"

definition finish_selection :: "attempt_result \<Rightarrow> selection_outcome" where
  "finish_selection a =
     (case ar_snapshot a of
        Some acc \<Rightarrow> Selected acc a
      | None \<Rightarrow> Unavailable (ar_error_message a) None)"

definition runtime_recovered :: "string list \<Rightarrow> runtime \<Rightarrow> runtime \<Rightarrow> bool" where
  "runtime_recovered ids before current \<longleftrightarrow>
     list_ex (\<lambda>i. case before i of
                    None \<Rightarrow> False
                  | Some b \<Rightarrow>
                      rt_reset_at (runtime_of current i) \<noteq> rt_reset_at b \<or>
                      rt_cooldown_until (runtime_of current i) \<noteq> rt_cooldown_until b \<or>
                      rt_error_count (runtime_of current i) \<noteq> rt_error_count b \<or>
                      rt_last_error_at (runtime_of current i) \<noteq> rt_last_error_at b) ids"

function select_loop ::
  "lb_settings \<Rightarrow> routing_options \<Rightarrow> sticky_request \<Rightarrow> environment \<Rightarrow> nat \<Rightarrow> runtime \<Rightarrow> selection_outcome"
where
  "select_loop settings ro req env n rt =
     (if inputs_rejected (en_inputs env n)
      then Unavailable (si_error_message (en_inputs env n)) (si_error_code (en_inputs env n))
      else if sq_key req = None then
        (let a = plain_attempt settings ro (en_now env n) (en_draw env n) (en_inputs env n) rt
                   (en_table env n) (en_sticky env n);
             rt' = en_runtime env n (ar_runtime a)
         in if snapshot_stale a then
              if MAX_SELECTION_ATTEMPTS \<le> Suc n then Stale_Give_Up
              else select_loop settings ro req env (Suc n) rt'
            else if ar_snapshot a \<noteq> None \<and> en_generation_moved env n \<and> Suc n < MAX_SELECTION_ATTEMPTS
            then select_loop settings ro req env (Suc n) rt'
            else if ar_snapshot a = None \<and> ar_error_message a = Some ''No available accounts'' \<and>
                    runtime_recovered (map acc_id (tracked_accounts (en_inputs env n))) (ar_runtime a) rt' \<and>
                    Suc n < MAX_SELECTION_ATTEMPTS
            then select_loop settings ro req env (Suc n) rt'
            else finish_selection a)
      else
        (case sticky_attempt settings ro (en_now env n) (en_dbnow env n) (en_draw env n) req (en_inputs env n) rt
                (en_table env n) (en_sticky env n) of
           Inl e \<Rightarrow> Invalid e
         | Inr a \<Rightarrow>
             if snapshot_stale a then
               if MAX_SELECTION_ATTEMPTS \<le> Suc n then Stale_Give_Up
               else select_loop settings ro req env (Suc n) (en_runtime env n (ar_runtime a))
             else finish_selection a))"
  by pat_completeness auto

termination
  by (relation "measure (\<lambda>(settings, ro, req, env, n, rt). MAX_SELECTION_ATTEMPTS - n)")
     (auto simp: MAX_SELECTION_ATTEMPTS_def)

declare select_loop.simps [simp del]

section \<open>The public operation\<close>

record account_selection =
  as_account :: "account option"
  as_error_message :: "string option"
  as_error_code :: "string option"

definition note_inputs :: "bool \<Rightarrow> selection_inputs \<Rightarrow> degradation \<Rightarrow> degradation" where
  "note_inputs circuit_breaker_open inputs d =
     (if circuit_breaker_open then set_degraded (Some ''upstream circuit breaker is open'') d
      else if si_accounts inputs \<noteq> [] then set_normal d
      else if si_error_code inputs \<noteq> None then set_normal d
      else d)"

definition is_upstream_circuit_breaker_open :: "bool \<Rightarrow> seconds \<Rightarrow> circuit_breaker list \<Rightarrow> bool" where
  "is_upstream_circuit_breaker_open circuit_breaker_enabled now breakers =
     (if \<not> circuit_breaker_enabled then False else are_all_account_circuit_breakers_open now breakers)"

definition format_degraded_error_message :: "degradation \<Rightarrow> string option \<Rightarrow> string" where
  "format_degraded_error_message d message =
     or_str message ''Upstream unavailable'' @ ''. Service is operating in degraded mode: '' @
     or_str (dg_reason d) ''upstream capacity is currently unavailable''"

definition conclude_selection ::
  "selection_outcome \<Rightarrow> degradation \<Rightarrow> sticky_error + (account_selection \<times> degradation)"
where
  "conclude_selection outcome d =
     (case outcome of
        Selected acc _ \<Rightarrow>
          Inr (\<lparr> as_account = Some acc, as_error_message = None, as_error_code = None \<rparr>, d)
      | Unavailable msg (Some code) \<Rightarrow>
          Inr (\<lparr> as_account = None, as_error_message = msg, as_error_code = Some code \<rparr>, d)
      | Unavailable msg None \<Rightarrow>
          if msg = Some ''No available accounts'' then
            (let d' = set_degraded (Some ''all upstream accounts are unavailable'') d
             in Inr (\<lparr> as_account = None, as_error_message = Some (format_degraded_error_message d' msg),
                       as_error_code = None \<rparr>, d'))
          else Inr (\<lparr> as_account = None, as_error_message = msg, as_error_code = None \<rparr>, d)
      | Stale_Give_Up \<Rightarrow>
          Inr (\<lparr> as_account = None, as_error_message = None, as_error_code = None \<rparr>, d)
      | Invalid e \<Rightarrow> Inl e)"

definition lb_select_account ::
  "lb_settings \<Rightarrow> routing_options \<Rightarrow> sticky_request \<Rightarrow> bool \<Rightarrow> environment \<Rightarrow> runtime \<Rightarrow> degradation \<Rightarrow>
   sticky_error + (account_selection \<times> degradation)"
where
  "lb_select_account settings ro req circuit_breaker_open env rt d =
     conclude_selection (select_loop settings ro req env 0 rt)
       (note_inputs circuit_breaker_open (en_inputs env 0) d)"

end
