(* ===== verification/Lb_Laws.thy ===== *)
theory Lb_Laws
  imports Lb_Selection
begin

text \<open>
  The laws of the load balancer: the derived balancing state, versions, the budget-safe preference,
  stickiness, persistence by compare-and-set, the bounded retry loop, and the effect of a recorded
  failure on the inputs of the next selection.
\<close>

section \<open>Budget-safe preference\<close>

lemma select_among_result [simp]:
  "fst (select_among p opts now u states) = fst (select_account opts now u (filter p states))"
  by (simp add: select_among_def)

lemma select_account_available:
  assumes "s \<in> set states" "usable current s" "\<not> backing_off current s"
  shows "\<exists>a. sr_account (fst (select_account opts current u states)) = Some a \<and>
           (\<exists>t \<in> set states. a = fst (step_state current t) \<and> usable current t)"
proof -
  have "candidate_states opts current states \<noteq> []" using assms by (auto simp: candidate_states_Nil)
  then obtain a where a: "sr_account (fst (select_account opts current u states)) = Some a"
    by (cases rule: select_account_cases [of opts current states u]) simp_all
  then show ?thesis using select_account_status [OF a] by simp
qed

text \<open>The budget threshold is respected when it can be. When some account at or under the budget
  threshold is usable and not in error backoff, a selection succeeds and returns an account that was
  at or under the threshold.\<close>

theorem budget_safe_choice:
  assumes "s \<in> set states" "\<not> state_above_budget_threshold (ro_budget_threshold_pct ro) s"
    and "usable now s" "\<not> backing_off now s"
  shows "\<exists>a t. sr_account (fst (select_account_preferring_budget_safe ro fb probe now u states)) = Some a \<and>
           t \<in> set states \<and> \<not> state_above_budget_threshold (ro_budget_threshold_pct ro) t \<and>
           usable now t \<and> a = fst (step_state now t)"
proof -
  let ?safe = "\<lambda>s. \<not> state_above_budget_threshold (ro_budget_threshold_pct ro) s"
  let ?opts = "selection_options_of ro fb probe False"
  have mem: "s \<in> set (filter ?safe states)" using assms by simp
  then obtain a t where a: "sr_account (fst (select_account ?opts now u (filter ?safe states))) = Some a"
    "t \<in> set (filter ?safe states)" "a = fst (step_state now t)" "usable now t"
    using select_account_available [OF mem assms(3,4)] by blast
  have "fst (select_account_preferring_budget_safe ro fb probe now u states) =
      fst (select_account ?opts now u (filter ?safe states))"
    using mem a(1)
    by (auto simp: select_account_preferring_budget_safe_def Let_def split_beta simp del: set_filter)
  with a show ?thesis by auto
qed

definition sample_routing :: routing_options where
  "sample_routing =
     \<lparr> ro_prefer_earlier_reset = False, ro_routing_strategy = Round_Robin, ro_budget_threshold_pct = 95 \<rparr>"

theorem budget_safe_choice_witness:
  "\<exists>a t. sr_account (fst (select_account_preferring_budget_safe sample_routing True False 1000 0
            [(sample_state ''hot'')\<lparr> st_used_percent := Some 99 \<rparr>, sample_state ''cool''])) = Some a \<and>
     a = fst (step_state 1000 t) \<and> \<not> state_above_budget_threshold 95 t"
  using budget_safe_choice [of "sample_state ''cool''"
      "[(sample_state ''hot'')\<lparr> st_used_percent := Some 99 \<rparr>, sample_state ''cool'']" sample_routing 1000 True False 0]
  by (auto simp: sample_routing_def sample_state_def state_above_budget_threshold_def usable_def
      in_cooldown_def backing_off_def in_error_backoff_def)

section \<open>Stickiness\<close>

lemma filter_unique_id:
  assumes "distinct (map st_account_id states)" "find (\<lambda>s. st_account_id s = i) states = Some p"
  shows "filter (\<lambda>s. st_account_id s = i) states = [p]"
  using assms
proof (induction states)
  case (Cons s states)
  show ?case
  proof (cases "st_account_id s = i")
    case True
    then have "filter (\<lambda>s. st_account_id s = i) states = []"
      using Cons.prems(1) by (auto simp: filter_empty_conv image_iff)
    with True Cons.prems(2) show ?thesis by simp
  next
    case False
    with Cons show ?thesis by simp
  qed
qed simp

lemma select_account_singleton:
  assumes "usable now p" "\<not> backing_off now p"
  shows "sr_account (fst (select_account opts now u [p])) = Some (fst (step_state now p))"
  using select_account_available [of p "[p]" now opts u] assms by auto

lemma select_singleton_id:
  assumes "sr_account (fst (select_account opts now u [p])) = Some a"
  shows "st_account_id a = st_account_id p"
  using select_account_status [OF assms] by auto

lemma binding_touch:
  assumes "key \<noteq> []" "binding key kind table = Some i"
  shows "binding key kind (touch_sticky dbnow req key kind i table) = Some i"
  using assms by (simp add: touch_sticky_def binding_upsert)

lemma sticky_get_Some:
  assumes "fst (sticky_get_account_id dbnow key kind age table) = Some i"
  shows "sticky_get_account_id dbnow key kind age table = (Some i, table)"
  using assms binding_get(2) [OF assms] by (metis prod.collapse)

lemma sticky_fallback_unpersisted:
  "snd (snd (sticky_fallback ro now dbnow u key kind known False states table)) = table"
  by (auto simp: sticky_fallback_def Let_def split: prod.splits option.splits)

lemma sticky_fallback_persisted:
  assumes "key \<noteq> []" "sr_account (fst (sticky_fallback ro now dbnow u key kind known True states table)) = Some a"
    and "st_account_id a \<in> known"
  shows "binding key kind (snd (snd (sticky_fallback ro now dbnow u key kind known True states table))) =
           Some (st_account_id a)"
  using assms by (auto simp: sticky_fallback_def Let_def binding_upsert split: prod.splits option.splits)

text \<open>
  A sticky selection whose key is bound to an account of the pool starts with that account.
\<close>

lemma sticky_selection_pinned:
  assumes "fst (sticky_get_account_id dbnow key kind (sq_max_age_seconds req) table) = Some i" "i \<noteq> []"
    and "find (\<lambda>s. st_account_id s = i) states = Some p"
  shows "sticky_selection ro now dbnow u req key kind known states table =
    (case try_pinned ro now req kind p states of
       Inl (r, states1) \<Rightarrow> (r, states1, touch_sticky dbnow req key kind i table)
     | Inr (reallocate, states1) \<Rightarrow>
         after_pinned ro now dbnow u req key kind known
           (case find (\<lambda>s. st_account_id s = i) states1 of Some q \<Rightarrow> q | None \<Rightarrow> p) reallocate states1 table)"
proof -
  have "st_account_id p = i" using find_SomeD [OF assms(3)] by simp
  with assms(2,3) sticky_get_Some [OF assms(1)] show ?thesis
    by (simp add: sticky_selection_def split: sum.split prod.split)
qed

lemma try_pinned_calm:
  assumes "\<not> budget_pressured ro p" "\<not> rate_limit_far_away now kind p"
  shows "try_pinned ro now req kind p states =
    (let pin = select_pinned ro now (st_account_id p) states
     in if sr_account (fst pin) \<noteq> None then Inl pin else Inr (sq_reallocate req, snd pin))"
  using assms by (simp add: try_pinned_def Let_def split_beta)

lemma select_pinned_states:
  "snd (select_pinned ro now i states) =
     map (\<lambda>s. if st_account_id s = i then fst (step_state now s) else s) states"
  by (simp add: select_pinned_def select_among_def)

lemma find_select_pinned:
  assumes "find (\<lambda>s. st_account_id s = i) states = Some p"
  shows "find (\<lambda>s. st_account_id s = i) (snd (select_pinned ro now i states)) = Some (fst (step_state now p))"
proof -
  have "find (\<lambda>s. st_account_id s = i) (map (\<lambda>s. if st_account_id s = i then fst (step_state now s) else s) states) =
      map_option (\<lambda>s. if st_account_id s = i then fst (step_state now s) else s) (find (\<lambda>s. st_account_id s = i) states)"
    by (rule find_map_same) auto
  moreover have "st_account_id p = i" using find_SomeD [OF assms] by simp
  ultimately show ?thesis using assms by (simp add: select_pinned_states)
qed

lemma step_state_recoverable:
  "st_status s \<in> set RECOVERABLE_STATUSES \<Longrightarrow> st_status (fst (step_state now s)) \<in> set RECOVERABLE_STATUSES"
  by (auto simp: RECOVERABLE_STATUSES_def step_state_def recover_limited_def clear_cooldown_def Let_def
      split: if_splits option.splits)

text \<open>Session affinity. When a session key is bound to an account (and the binding has not expired)
  that is in the pool, is usable, not in error backoff and not under budget pressure, the session is
  served by that very account and stays bound to it.\<close>

theorem sticky_hit:
  assumes "sq_key req = Some key" "key \<noteq> []" "sq_kind req = Some kind"
    and "fst (sticky_get_account_id dbnow key kind (sq_max_age_seconds req) table) = Some i" "i \<noteq> []"
    and "distinct (map st_account_id states)" "find (\<lambda>s. st_account_id s = i) states = Some p"
    and "\<not> budget_pressured ro p" "\<not> rate_limit_far_away now kind p"
    and "usable now p" "\<not> backing_off now p"
  shows "\<exists>r states' table'.
    select_with_stickiness ro now dbnow u req known states table = Inr (r, states', table') \<and>
    sr_account r = Some (fst (step_state now p)) \<and> binding key kind table' = Some i"
proof -
  have id: "st_account_id p = i" using find_SomeD [OF assms(7)] by simp
  have "fst (select_pinned ro now i states) =
      fst (select_account (selection_options_of ro False False False) now 0 [p])"
    using filter_unique_id [OF assms(6,7)] by (simp add: select_pinned_def)
  then have pin: "sr_account (fst (select_pinned ro now i states)) = Some (fst (step_state now p))"
    using select_account_singleton [OF assms(10,11)] by simp
  then have "sticky_selection ro now dbnow u req key kind known states table =
      (fst (select_pinned ro now i states), snd (select_pinned ro now i states),
       touch_sticky dbnow req key kind i table)"
    using sticky_selection_pinned [OF assms(4,5,7)] try_pinned_calm [OF assms(8,9)] id
    by (simp add: Let_def split_beta)
  moreover have "binding key kind (touch_sticky dbnow req key kind i table) = Some i"
    using binding_touch [OF assms(2)] binding_get(1) [OF assms(4)] by blast
  ultimately show ?thesis using pin assms(1-3) by (simp add: select_with_stickiness_def)
qed

definition sample_sticky :: "sticky_session list" where
  "sample_sticky =
     [\<lparr> ss_key = ''k'', ss_kind = CODEX_SESSION, ss_account_id = ''b'', ss_created_at = 0, ss_updated_at = 0 \<rparr>]"

definition sample_request :: "sticky_session_kind \<Rightarrow> int option \<Rightarrow> sticky_request" where
  "sample_request kind age =
     \<lparr> sq_key = Some ''k'', sq_kind = Some kind, sq_reallocate = False, sq_max_age_seconds = age \<rparr>"

theorem sticky_hit_witness:
  "\<exists>r states' table'.
    select_with_stickiness sample_routing 1000 1000000000 0 (sample_request CODEX_SESSION None) {''a'', ''b''}
      [sample_state ''a'', sample_state ''b''] sample_sticky = Inr (r, states', table') \<and>
    sr_account r = Some (fst (step_state 1000 (sample_state ''b''))) \<and>
    binding ''k'' CODEX_SESSION table' = Some ''b''"
  by (rule sticky_hit)
     (auto simp: sample_request_def sample_sticky_def sample_state_def sample_routing_def
       sticky_get_account_id_def sticky_get_entry_def is_entry_def budget_pressured_def
       state_above_sticky_budget_threshold_def usable_def in_cooldown_def backing_off_def
       in_error_backoff_def rate_limit_far_away_def)

text \<open>A temporary outage does not break a session's affinity. For a session kind with a maximum age,
  when the bound account is in the pool in a recoverable status and not under budget pressure, and
  reallocation was not requested, then whether or not the account can serve this request, and
  whichever account serves it instead, the session is still bound to its account afterwards.\<close>

theorem sticky_ttl_binding_survives:
  assumes "sq_key req = Some key" "key \<noteq> []" "sq_kind req = Some kind"
    and "sq_max_age_seconds req = Some age" "\<not> sq_reallocate req"
    and "fst (sticky_get_account_id dbnow key kind (Some age) table) = Some i" "i \<noteq> []"
    and "find (\<lambda>s. st_account_id s = i) states = Some p" "st_status p \<in> set RECOVERABLE_STATUSES"
    and "\<not> budget_pressured ro p" "\<not> rate_limit_far_away now kind p"
    and "select_with_stickiness ro now dbnow u req known states table = Inr (r, states', table')"
  shows "binding key kind table' = Some i"
proof -
  have get: "fst (sticky_get_account_id dbnow key kind (sq_max_age_seconds req) table) = Some i"
    using assms(4,6) by simp
  have bind: "binding key kind table = Some i" using binding_get(1) [OF assms(6)] .
  have id: "st_account_id p = i" using find_SomeD [OF assms(8)] by simp
  note touch = binding_touch [OF assms(2) bind]
  let ?pin = "select_pinned ro now i states"
  let ?p1 = "fst (step_state now p)"
  have recoverable: "st_status ?p1 \<in> set RECOVERABLE_STATUSES" using assms(9) by (rule step_state_recoverable)
  have table': "table' = snd (snd (sticky_selection ro now dbnow u req key kind known states table))"
    using assms(1-3,12) by (simp add: select_with_stickiness_def)
  note shape = sticky_selection_pinned [OF get assms(7,8), of ro now u known, unfolded try_pinned_calm [OF assms(10,11)]]
  show ?thesis
  proof (cases "sr_account (fst ?pin) = None")
    case False
    with shape id have "sticky_selection ro now dbnow u req key kind known states table =
        (fst ?pin, snd ?pin, touch_sticky dbnow req key kind i table)"
      by (simp add: Let_def split_beta)
    with table' touch show ?thesis by simp
  next
    case True
    have "sticky_selection ro now dbnow u req key kind known states table =
        after_pinned ro now dbnow u req key kind known ?p1 False (snd ?pin) table"
      using shape True id assms(5) find_select_pinned [OF assms(8), of ro now] by (simp add: Let_def)
    with recoverable assms(4) have "table' \<in> {touch_sticky dbnow req key kind i table, table}"
      using table' id by (simp add: after_pinned_def Let_def sticky_fallback_unpersisted)
    with touch bind show ?thesis by auto
  qed
qed

definition cooling_state :: account_state where
  "cooling_state = (sample_state ''b'')\<lparr> st_cooldown_until := Some 1100 \<rparr>"

definition fresh_sticky :: "sticky_session list" where
  "fresh_sticky =
     [\<lparr> ss_key = ''k'', ss_kind = PROMPT_CACHE, ss_account_id = ''b'', ss_created_at = 0, ss_updated_at = 999000000 \<rparr>]"

theorem sticky_ttl_binding_survives_witness:
  "\<exists>r states' table'.
    select_with_stickiness sample_routing 1000 1000000000 0 (sample_request PROMPT_CACHE (Some 3600)) {''a'', ''b''}
      [sample_state ''a'', cooling_state] fresh_sticky = Inr (r, states', table') \<and>
    binding ''k'' PROMPT_CACHE table' = Some ''b''"
proof -
  let ?req = "sample_request PROMPT_CACHE (Some 3600)"
  obtain r states' table' where run: "select_with_stickiness sample_routing 1000 1000000000 0 ?req {''a'', ''b''}
      [sample_state ''a'', cooling_state] fresh_sticky = Inr (r, states', table')"
    by (cases "sticky_selection sample_routing 1000 1000000000 0 ?req ''k'' PROMPT_CACHE {''a'', ''b''}
          [sample_state ''a'', cooling_state] fresh_sticky")
       (simp add: select_with_stickiness_def sample_request_def)
  have "binding ''k'' PROMPT_CACHE table' = Some ''b''"
    by (rule sticky_ttl_binding_survives [OF _ _ _ _ _ _ _ _ _ _ _ run, where age = 3600 and p = cooling_state])
       (simp_all add: sample_request_def cooling_state_def fresh_sticky_def sample_state_def sample_routing_def
         sticky_get_account_id_def sticky_get_entry_def is_entry_def budget_pressured_def
         state_above_sticky_budget_threshold_def rate_limit_far_away_def RECOVERABLE_STATUSES_def)
  with run show ?thesis by blast
qed

end
