(* ===== verification/Lb_Outcome.thy ===== *)
theory Lb_Outcome
  imports Lb_Laws
begin

text \<open>
  What a whole call of \<open>LoadBalancer.select_account\<close> delivers: the account it returns is active, comes
  from the inputs of one of at most four attempts and was written back under compare-and-set; a
  durable session ends up bound to the account that served it; and an account marked as failed is
  gone from the inputs of the very next selection, whatever the cache held.
\<close>

section \<open>Proper choices\<close>

text \<open>A selection result is proper for some account ids when its account, if any, is active and one of them.\<close>

definition proper :: "string set \<Rightarrow> selection_result \<Rightarrow> bool" where
  "proper ids r \<longleftrightarrow>
     (case sr_account r of Some a \<Rightarrow> st_status a = ACTIVE \<and> st_account_id a \<in> ids | None \<Rightarrow> True)"

abbreviation state_ids :: "account_state list \<Rightarrow> string set" where
  "state_ids states \<equiv> st_account_id ` set states"

lemma proper_mono: "proper ids r \<Longrightarrow> ids \<subseteq> ids' \<Longrightarrow> proper ids' r"
  by (auto simp: proper_def split: option.splits)

lemma usable_step_active: "usable current s \<Longrightarrow> st_status (fst (step_state current s)) = ACTIVE"
  using step_Available_iff [of current s] step_Backoff_iff [of current s] step_state_usable(1) [of current s]
  by fastforce

lemma select_account_proper: "proper (state_ids states) (fst (select_account opts now u states))"
proof (cases "sr_account (fst (select_account opts now u states))")
  case (Some a)
  then show ?thesis using select_account_status [OF Some] usable_step_active
    by (auto simp: proper_def)
qed (simp add: proper_def)

lemma select_account_ids: "map st_account_id (snd (select_account opts now u states)) = map st_account_id states"
  by (simp add: select_account_def Let_def)

lemma select_among_proper: "proper (state_ids states) (fst (select_among p opts now u states))"
proof -
  have "proper (state_ids (filter p states)) (fst (select_account opts now u (filter p states)))"
    by (rule select_account_proper)
  then show ?thesis unfolding select_among_result by (rule proper_mono) auto
qed

lemma select_among_ids: "map st_account_id (snd (select_among p opts now u states)) = map st_account_id states"
  by (simp add: select_among_def)

lemma ids_of_map: "map st_account_id xs = map st_account_id ys \<Longrightarrow> state_ids xs = state_ids ys"
  by (metis list.set_map)

lemma budget_safe_proper:
  "proper (state_ids states) (fst (select_account_preferring_budget_safe ro fb probe now u states))" (is ?P)
  and budget_safe_ids:
  "map st_account_id (snd (select_account_preferring_budget_safe ro fb probe now u states)) =
     map st_account_id states" (is ?I)
proof -
  let ?safe = "\<lambda>s. \<not> state_above_budget_threshold (ro_budget_threshold_pct ro) s"
  let ?among = "select_among ?safe (selection_options_of ro fb probe False) now u states"
  have ids: "state_ids (snd ?among) = state_ids states"
    by (rule ids_of_map) (rule select_among_ids)
  have "proper (state_ids states) (fst (select_account opts now u (snd ?among)))" for opts
    using select_account_proper [of "snd ?among" opts now u] ids by simp
  then show ?P
    by (auto simp: select_account_preferring_budget_safe_def Let_def split_beta select_account_proper
        select_among_proper [unfolded select_among_result])
  show ?I
    by (auto simp: select_account_preferring_budget_safe_def Let_def split_beta select_account_ids
        select_among_ids)
qed

lemma select_pinned_proper: "proper (state_ids states) (fst (select_pinned ro now i states))"
  by (simp only: select_pinned_def select_among_proper)

lemma select_pinned_id:
  assumes "sr_account (fst (select_pinned ro now i states)) = Some a"
  shows "st_account_id a = i"
  using select_account_status [OF assms [unfolded select_pinned_def select_among_result]] by auto

lemma select_pinned_ids: "map st_account_id (snd (select_pinned ro now i states)) = map st_account_id states"
  by (simp only: select_pinned_def select_among_ids)

text \<open>The pinned attempt returns the pinned account or passes the same accounts on.\<close>

lemma try_pinned_done:
  assumes "try_pinned ro now req kind p states = Inl (r, states1)"
  shows "proper (state_ids states) r \<and> map st_account_id states1 = map st_account_id states \<and>
         (\<exists>a. sr_account r = Some a \<and> st_account_id a = st_account_id p)"
proof -
  let ?b = "snd (select_account_preferring_budget_safe ro True True now 0 states)"
  have b: "map st_account_id ?b = map st_account_id states" by (rule budget_safe_ids)
  obtain xs where xs: "map st_account_id xs = map st_account_id states"
    and r: "(r, states1) = select_pinned ro now (st_account_id p) xs" "sr_account r \<noteq> None"
    using assms b
    by (auto simp: try_pinned_def Let_def split_beta split: if_splits option.splits)
  have eq: "r = fst (select_pinned ro now (st_account_id p) xs)"
    "states1 = snd (select_pinned ro now (st_account_id p) xs)"
    using r(1) by (metis fst_conv, metis snd_conv)
  obtain a where a: "sr_account r = Some a" using r(2) by blast
  have "st_account_id a = st_account_id p" using a unfolding eq(1) by (rule select_pinned_id)
  moreover have "proper (state_ids states) r"
    unfolding eq(1) ids_of_map [OF xs, symmetric] by (rule select_pinned_proper)
  moreover have "map st_account_id states1 = map st_account_id states"
    unfolding eq(2) select_pinned_ids by (rule xs)
  ultimately show ?thesis using a by blast
qed

lemma try_pinned_more:
  assumes "try_pinned ro now req kind p states = Inr (re, states1)"
  shows "map st_account_id states1 = map st_account_id states"
  using assms
  by (auto simp: try_pinned_def Let_def split_beta select_pinned_ids budget_safe_ids split: if_splits option.splits)

lemma grace_proper: "proper {st_account_id p} (grace_select ro now p)"
  using select_account_proper [of "[p]"] by (simp add: grace_select_def)

lemma fallback_proper:
  "proper (state_ids states) (fst (sticky_fallback ro now dbnow u key kind known persist states table))"
  and fallback_ids:
  "map st_account_id (fst (snd (sticky_fallback ro now dbnow u key kind known persist states table))) =
     map st_account_id states"
  using budget_safe_proper [of states ro True False now u] budget_safe_ids [of ro True False now u states]
  by (auto simp: sticky_fallback_def Let_def split_beta split: option.splits)

lemma after_pinned_proper:
  assumes "st_account_id p \<in> state_ids states"
  shows "proper (state_ids states) (fst (after_pinned ro now dbnow u req key kind known p re states table))"
  using proper_mono [OF grace_proper [of p ro now], of "state_ids states"] assms
  by (simp add: after_pinned_def Let_def fallback_proper)

lemma after_pinned_ids:
  "map st_account_id (fst (snd (after_pinned ro now dbnow u req key kind known p re states table))) =
     map st_account_id states"
  by (simp add: after_pinned_def Let_def fallback_ids)

text \<open>The account handed on after the pinned attempt still has the pinned id, which is in the pool.\<close>

lemma pinned_again:
  assumes "find (\<lambda>s. st_account_id s = i) states = Some p" "map st_account_id states1 = map st_account_id states"
  shows "st_account_id (case find (\<lambda>s. st_account_id s = i) states1 of Some q \<Rightarrow> q | None \<Rightarrow> p) = i"
    and "i \<in> state_ids states1"
proof -
  show "st_account_id (case find (\<lambda>s. st_account_id s = i) states1 of Some q \<Rightarrow> q | None \<Rightarrow> p) = i"
    using find_SomeD [OF assms(1)] by (auto split: option.split dest: find_SomeD)
  show "i \<in> state_ids states1"
    using find_SomeD [OF assms(1)] ids_of_map [OF assms(2)] by auto
qed

lemma sticky_selection_cases:
  obtains (fresh) t where "sticky_selection ro now dbnow u req key kind known states table =
                sticky_fallback ro now dbnow u key kind known True states t"
  | (hit) i r states1 a where "binding key kind table = Some i"
      "sticky_selection ro now dbnow u req key kind known states table =
         (r, states1, touch_sticky dbnow req key kind i table)"
      "proper (state_ids states) r" "map st_account_id states1 = map st_account_id states"
      "sr_account r = Some a" "st_account_id a = i"
  | (miss) i p re states1 where "binding key kind table = Some i"
      "sticky_selection ro now dbnow u req key kind known states table =
         after_pinned ro now dbnow u req key kind known p re states1 table"
      "st_account_id p = i" "i \<in> state_ids states1" "map st_account_id states1 = map st_account_id states"
proof -
  obtain existing table1 where get: "sticky_get_account_id dbnow key kind (sq_max_age_seconds req) table = (existing, table1)"
    by (cases "sticky_get_account_id dbnow key kind (sq_max_age_seconds req) table")
  show thesis
  proof (cases "truthy_str existing \<and> find (\<lambda>s. st_account_id s = the existing) states \<noteq> None")
    case False
    then have "sticky_selection ro now dbnow u req key kind known states table =
        sticky_fallback ro now dbnow u key kind known True states
          (if truthy_str existing then fst (sticky_delete key kind table1) else table1)"
      using get by (auto simp: sticky_selection_def)
    then show thesis by (rule that(1))
  next
    case True
    then obtain i where i: "existing = Some i" "i \<noteq> []" by (cases existing) auto
    with True obtain p where p: "find (\<lambda>s. st_account_id s = i) states = Some p" by auto
    have g: "fst (sticky_get_account_id dbnow key kind (sq_max_age_seconds req) table) = Some i" using get i by simp
    note shape = sticky_selection_pinned [OF g i(2) p, of ro now u known] and b = binding_get(1) [OF g]
    have pid: "st_account_id p = i" using find_SomeD [OF p] by simp
    show thesis
    proof (cases "try_pinned ro now req kind p states")
      case (Inl res)
      obtain r states1 where res: "res = (r, states1)" by (cases res)
      from try_pinned_done [OF Inl [unfolded res]] pid obtain a where
        "proper (state_ids states) r" "map st_account_id states1 = map st_account_id states"
        "sr_account r = Some a" "st_account_id a = i" by auto
      moreover have "sticky_selection ro now dbnow u req key kind known states table =
          (r, states1, touch_sticky dbnow req key kind i table)" using shape Inl res by simp
      ultimately show thesis using that(2) b by blast
    next
      case (Inr res)
      obtain re states1 where res: "res = (re, states1)" by (cases res)
      have ids: "map st_account_id states1 = map st_account_id states"
        using try_pinned_more [OF Inr [unfolded res]] .
      have "sticky_selection ro now dbnow u req key kind known states table =
          after_pinned ro now dbnow u req key kind known
            (case find (\<lambda>s. st_account_id s = i) states1 of Some q \<Rightarrow> q | None \<Rightarrow> p) re states1 table"
        using shape Inr res by simp
      then show thesis using that(3) [OF b] pinned_again [OF p ids] ids by blast
    qed
  qed
qed

lemma stickiness_proper:
  assumes "select_with_stickiness ro now dbnow u req known states table = Inr (r, states', table')"
  shows "proper (state_ids states) r \<and> map st_account_id states' = map st_account_id states"
proof (cases "truthy_str (sq_key req)")
  case False
  then have "r = fst (select_account_preferring_budget_safe ro True False now u states)"
    "states' = snd (select_account_preferring_budget_safe ro True False now u states)"
    using assms by (auto simp: select_with_stickiness_def split_beta)
  then show ?thesis by (simp add: budget_safe_proper budget_safe_ids)
next
  case True
  with assms obtain kind where
    eq: "sticky_selection ro now dbnow u req (the (sq_key req)) kind known states table = (r, states', table')"
    by (auto simp: select_with_stickiness_def split: option.splits)
  show ?thesis
  proof (cases rule: sticky_selection_cases [of ro now dbnow u req "the (sq_key req)" kind known states table])
    case (fresh t)
    then have "sticky_fallback ro now dbnow u (the (sq_key req)) kind known True states t = (r, states', table')"
      using eq by simp
    then show ?thesis
      using fallback_proper [of states ro now dbnow u "the (sq_key req)" kind known True t]
        fallback_ids [of ro now dbnow u "the (sq_key req)" kind known True states t] by simp
  next
    case (hit i r0 states1 a)
    then show ?thesis using eq by simp
  next
    case (miss i p re states1)
    have out: "after_pinned ro now dbnow u req (the (sq_key req)) kind known p re states1 table = (r, states', table')"
      using miss(2) eq by simp
    have "proper (state_ids states1) r"
      using after_pinned_proper [of p states1 ro now dbnow u req "the (sq_key req)" kind known re table] out miss(3,4)
      by simp
    moreover have "map st_account_id states' = map st_account_id states1"
      using after_pinned_ids [of ro now dbnow u req "the (sq_key req)" kind known p re states1 table] out by simp
    ultimately show ?thesis using miss(5) ids_of_map [OF miss(5)] by simp
  qed
qed




section \<open>Persistence\<close>

lemma persist_frame:
  assumes "i \<noteq> acc_id account"
  shows "status_value (fst (persist_state_if_current account s table)) i = status_value table i"
  using assms by (auto simp: persist_state_if_current_def Let_def split_beta status_value_update)

lemma persist_ok: "accounts_ok table \<Longrightarrow> accounts_ok (fst (persist_state_if_current account s table))"
  by (auto simp: persist_state_if_current_def Let_def split_beta account_status.cas_ok)

lemma persist_written:
  assumes "accounts_ok table" "snd (snd (persist_state_if_current account s table))"
  shows "status_columns_of account = state_columns s \<or>
         status_value (fst (persist_state_if_current account s table)) (acc_id account) = Some (state_columns s)"
  using assms
  by (auto simp: persist_state_if_current_def Let_def split_beta account_status.cas_writes)

lemma persist_refused:
  assumes "accounts_ok table" "\<not> snd (snd (persist_state_if_current account s table))"
  shows "fst (persist_state_if_current account s table) = table"
  using assms
  by (auto simp: persist_state_if_current_def Let_def split_beta account_status.cas_fails split: if_splits)

text \<open>The account map sends an id to an account with that id.\<close>

lemma account_map_Some: "account_map accounts i = Some a \<Longrightarrow> a \<in> set accounts \<and> acc_id a = i"
  by (auto simp: account_map_def dest!: map_of_SomeD)

lemma account_map_None: "account_map accounts i = None \<longleftrightarrow> i \<notin> acc_id ` set accounts"
  by (auto simp: account_map_def map_of_eq_None_iff image_iff)

lemma persist_selection_frame:
  assumes "\<And>j a. amap j = Some a \<Longrightarrow> acc_id a = j" "i \<notin> state_ids ss"
  shows "status_value (fst (persist_selection_state amap ss table)) i = status_value table i"
  using assms(2)
proof (induction ss arbitrary: table)
  case (Cons s ss)
  show ?case
  proof (cases "amap (st_account_id s)")
    case (Some account)
    then have "i \<noteq> acc_id account" using assms(1) Cons.prems by auto
    with Some Cons persist_frame [of i account s table] show ?thesis by (simp add: split_beta Let_def)
  qed (use Cons in simp)
qed simp

lemma persist_selection_written:
  assumes "\<And>j a. amap j = Some a \<Longrightarrow> acc_id a = j"
    and "accounts_ok table" "distinct (map st_account_id ss)"
    and "s \<in> set ss" "amap (st_account_id s) = Some account"
    and "st_account_id s \<notin> set (snd (persist_selection_state amap ss table))"
  shows "status_columns_of account = state_columns s \<or>
         status_value (fst (persist_selection_state amap ss table)) (st_account_id s) = Some (state_columns s)"
  using assms(2-)
proof (induction ss arbitrary: table)
  case (Cons t ss)
  show ?case
  proof (cases "s = t")
    case True
    then have id: "acc_id account = st_account_id t" and notin: "st_account_id t \<notin> state_ids ss"
      using assms(1) Cons.prems by auto
    let ?p = "persist_state_if_current account t table"
    have "snd (snd ?p)" using Cons.prems(5) Cons.prems(4) True id
      by (auto simp: split_beta Let_def split: if_splits)
    with persist_written [OF Cons.prems(1), of account t] persist_selection_frame [OF assms(1) notin, where table = "fst ?p"]
    show ?thesis using True Cons.prems(4) id by (simp add: split_beta Let_def)
  next
    case False
    then have mem: "s \<in> set ss" using Cons.prems(3) by simp
    show ?thesis
    proof (cases "amap (st_account_id t)")
      case None
      then show ?thesis using Cons.IH [OF Cons.prems(1) _ mem Cons.prems(4)] Cons.prems(2,5) by simp
    next
      case (Some b)
      then show ?thesis
        using Cons.IH [OF persist_ok [OF Cons.prems(1), of b t] _ mem Cons.prems(4)] Cons.prems(2,5)
        by (auto simp: split_beta Let_def split: if_splits)
    qed
  qed
qed simp

section \<open>Attempts and the loop\<close>

definition good_selection :: "selection_inputs \<Rightarrow> attempt_result \<Rightarrow> account \<Rightarrow> bool" where
  "good_selection inputs a acc \<longleftrightarrow>
     (\<exists>acc0 \<in> set (si_accounts inputs). \<exists>reason reset.
        acc = acc0\<lparr> acc_status := ACTIVE, acc_deactivation_reason := reason, acc_reset_at := reset \<rparr> \<and>
        (acc_status acc0 = ACTIVE \<or> map_option fst (status_value (ar_accounts a) (acc_id acc)) = Some ACTIVE))"

lemma build_states_ids:
  "map st_account_id (fst (build_states settings now p s accounts rt)) = map acc_id accounts"
  by (induction accounts arbitrary: rt) (auto simp: split_beta Let_def state_from_account_def)

lemma copy_result_status_ids [simp]: "map st_account_id (copy_result_status r states) = map st_account_id states"
  by (auto simp: copy_result_status_def split: option.splits)

lemma finish_attempt_snapshot:
  assumes "ar_snapshot (finish_attempt now inputs r states rt table sticky) = Some acc"
  shows "\<exists>st acc0 reset. sr_account r = Some st \<and> account_map (si_accounts inputs) (st_account_id st) = Some acc0 \<and>
    acc = acc0\<lparr> acc_status := st_status st, acc_deactivation_reason := st_deactivation_reason st,
                acc_reset_at := reset \<rparr>"
proof -
  obtain st where st: "sr_account r = Some st" "snapshot_of (account_map (si_accounts inputs)) states st = Some acc"
    using assms by (auto simp: finish_attempt_def Let_def split_beta split: option.splits)
  then show ?thesis by (auto simp only: snapshot_of_def Let_def split: option.splits)
qed

lemma finish_attempt_good:
  assumes "proper (state_ids states) r" "map st_account_id states = map acc_id (si_accounts inputs)"
    and "accounts_ok (si_accounts inputs)" "accounts_ok table"
    and "ar_snapshot (finish_attempt now inputs r states rt table sticky) = Some acc"
    and "\<not> snapshot_stale (finish_attempt now inputs r states rt table sticky)"
  shows "good_selection inputs (finish_attempt now inputs r states rt table sticky) acc"
proof -
  let ?amap = "account_map (si_accounts inputs)"
  let ?known = "filter (\<lambda>s. ?amap (st_account_id s) \<noteq> None) states"
  let ?ss = "copy_result_status r ?known"
  obtain st acc0 reset where st: "sr_account r = Some st" and acc0: "?amap (st_account_id st) = Some acc0"
    and acc: "acc = acc0\<lparr> acc_status := st_status st, acc_deactivation_reason := st_deactivation_reason st,
                acc_reset_at := reset \<rparr>"
    using finish_attempt_snapshot [OF assms(5)] by blast
  have active: "st_status st = ACTIVE" using assms(1) st by (simp add: proper_def)
  have mem: "acc0 \<in> set (si_accounts inputs)" "acc_id acc0 = st_account_id st"
    using account_map_Some [OF acc0] by auto
  have dist: "distinct (map st_account_id ?ss)"
    unfolding copy_result_status_ids
    using assms(2,3) by (intro distinct_map_filter_keep) (simp add: accounts_ok_def)
  obtain s0 where s0: "s0 \<in> set ?known" "st_account_id s0 = st_account_id st"
    using assms(1) st acc0 by (auto simp: proper_def image_iff)
  let ?s = "s0\<lparr> st_status := st_status st, st_deactivation_reason := st_deactivation_reason st \<rparr>"
  have s: "?s \<in> set ?ss" using s0 st by (force simp: copy_result_status_def)
  have fin: "ar_accounts (finish_attempt now inputs r states rt table sticky) = fst (persist_selection_state ?amap ?ss table)"
    "ar_stale (finish_attempt now inputs r states rt table sticky) = snd (persist_selection_state ?amap ?ss table)"
    by (simp_all add: finish_attempt_def Let_def split_beta)
  have notstale: "st_account_id ?s \<notin> set (snd (persist_selection_state ?amap ?ss table))"
    using assms(5,6) acc mem(2) s0(2) fin(2) by (simp add: snapshot_stale_def)
  have "status_columns_of acc0 = state_columns ?s \<or>
      status_value (fst (persist_selection_state ?amap ?ss table)) (st_account_id ?s) = Some (state_columns ?s)"
    by (rule persist_selection_written [OF _ assms(4) dist s _ notstale])
       (use account_map_Some acc0 s0(2) in auto)
  then have "acc_status acc0 = ACTIVE \<or>
      map_option fst (status_value (ar_accounts (finish_attempt now inputs r states rt table sticky)) (acc_id acc)) = Some ACTIVE"
    using active acc mem(2) s0(2) fin(1) by (auto simp: status_columns_of_def state_columns_def)
  with acc active mem(1) show ?thesis unfolding good_selection_def by auto
qed

lemma plain_attempt_good:
  assumes "accounts_ok (si_accounts inputs)" "accounts_ok table"
    and "ar_snapshot (plain_attempt settings ro now u inputs rt table sticky) = Some acc"
    and "\<not> snapshot_stale (plain_attempt settings ro now u inputs rt table sticky)"
  shows "good_selection inputs (plain_attempt settings ro now u inputs rt table sticky) acc"
proof -
  let ?b = "build_states settings now (si_latest_primary inputs) (si_latest_secondary inputs)
              (si_accounts inputs) (prune_runtime (tracked_accounts inputs) rt)"
  let ?sel = "select_account_preferring_budget_safe ro True False now u (fst ?b)"
  have eq: "plain_attempt settings ro now u inputs rt table sticky =
      finish_attempt now inputs (fst ?sel) (snd ?sel) (snd ?b) table sticky"
    by (simp add: plain_attempt_def Let_def split_beta)
  have ids: "map st_account_id (snd ?sel) = map acc_id (si_accounts inputs)"
    by (simp add: budget_safe_ids build_states_ids)
  have "proper (state_ids (snd ?sel)) (fst ?sel)"
    using budget_safe_proper ids_of_map [OF budget_safe_ids] by metis
  then show ?thesis unfolding eq
    by (rule finish_attempt_good [OF _ ids assms(1,2) assms(3) [unfolded eq] assms(4) [unfolded eq]])
qed

lemma sticky_attempt_good:
  assumes "accounts_ok (si_accounts inputs)" "accounts_ok table"
    and "sticky_attempt settings ro now dbnow u req inputs rt table sticky = Inr a"
    and "ar_snapshot a = Some acc" "\<not> snapshot_stale a"
  shows "good_selection inputs a acc"
proof -
  let ?b = "build_states settings now (si_latest_primary inputs) (si_latest_secondary inputs)
              (si_accounts inputs) (prune_runtime (tracked_accounts inputs) rt)"
  obtain r states' sticky' where
    sel: "select_with_stickiness ro now dbnow u req (acc_id ` set (si_accounts inputs)) (fst ?b) sticky =
            Inr (r, states', sticky')"
    and a: "a = finish_attempt now inputs r states' (snd ?b) table sticky'"
    using assms(3) by (auto simp: sticky_attempt_def Let_def split_beta split: sum.splits)
  note p = stickiness_proper [OF sel]
  have ids: "map st_account_id states' = map acc_id (si_accounts inputs)" using p by (simp add: build_states_ids)
  have "proper (state_ids states') r" using p ids_of_map by metis
  then show ?thesis unfolding a
    by (rule finish_attempt_good [OF _ ids assms(1,2) assms(4) [unfolded a] assms(5) [unfolded a]])
qed

lemma select_loop_step:
  assumes "select_loop settings ro req env n rt = Selected acc a"
    and "accounts_ok (si_accounts (en_inputs env n))" "accounts_ok (en_table env n)"
  shows "good_selection (en_inputs env n) a acc \<or>
         (Suc n < MAX_SELECTION_ATTEMPTS \<and> (\<exists>rt'. select_loop settings ro req env (Suc n) rt' = Selected acc a))"
proof (cases "sq_key req = None")
  case True
  let ?a = "plain_attempt settings ro (en_now env n) (en_draw env n) (en_inputs env n) rt
              (en_table env n) (en_sticky env n)"
  have "(\<not> snapshot_stale ?a \<and> finish_selection ?a = Selected acc a) \<or>
        (Suc n < MAX_SELECTION_ATTEMPTS \<and>
         select_loop settings ro req env (Suc n) (en_runtime env n (ar_runtime ?a)) = Selected acc a)"
    using assms(1) True
    by (subst (asm) select_loop.simps) (auto simp: Let_def not_le split: if_splits)
  then show ?thesis using plain_attempt_good [OF assms(2,3)]
    by (auto simp: finish_selection_def split: option.splits)
next
  case False
  let ?s = "sticky_attempt settings ro (en_now env n) (en_dbnow env n) (en_draw env n) req (en_inputs env n) rt
              (en_table env n) (en_sticky env n)"
  obtain b where b: "?s = Inr b"
    and "(\<not> snapshot_stale b \<and> finish_selection b = Selected acc a) \<or>
         (Suc n < MAX_SELECTION_ATTEMPTS \<and>
          select_loop settings ro req env (Suc n) (en_runtime env n (ar_runtime b)) = Selected acc a)"
    using assms(1) False
    by (subst (asm) select_loop.simps) (auto simp: not_le split: if_splits sum.splits)
  then show ?thesis using sticky_attempt_good [OF assms(2,3) b]
    by (auto simp: finish_selection_def split: option.splits)
qed

text \<open>C1: What a selection returns. Whatever other tasks do between the attempts, when the selection loop
  returns an account, it is an account of the inputs of one of the first four attempts, with only
  its status, reason and reset time set anew; it is active; and either it was already active in
  those inputs, or the accounts table now says that it is, so the write-back was not refused.\<close>

theorem select_loop_sound:
  assumes "select_loop settings ro req env 0 rt = Selected acc a"
    and "\<And>m. accounts_ok (si_accounts (en_inputs env m))" "\<And>m. accounts_ok (en_table env m)"
  shows "\<exists>m < MAX_SELECTION_ATTEMPTS. good_selection (en_inputs env m) a acc"
proof -
  have "\<exists>m < MAX_SELECTION_ATTEMPTS. good_selection (en_inputs env m) a acc"
    if "select_loop settings ro req env n rt = Selected acc a" "n < MAX_SELECTION_ATTEMPTS" for n rt
    using that
  proof (induction "MAX_SELECTION_ATTEMPTS - n" arbitrary: n rt)
    case (Suc k)
    then show ?case using select_loop_step [OF Suc.prems(1) assms(2,3)]
      by (metis Suc_diff_Suc diff_Suc_Suc Suc_inject)
  qed simp
  from this [OF assms(1)] show ?thesis by (simp add: MAX_SELECTION_ATTEMPTS_def)
qed

definition sample_settings :: lb_settings where
  "sample_settings =
     \<lparr> ls_soft_drain_enabled = False, ls_health = default_health_params, ls_usage_refresh_interval_seconds = 60 \<rparr>"

definition sample_inputs :: selection_inputs where
  "sample_inputs =
     \<lparr> si_accounts = [sample_account ''a'' ''x@y''], si_latest_primary = Map.empty,
       si_latest_secondary = Map.empty, si_runtime_accounts = None, si_error_message = None,
       si_error_code = None \<rparr>"

definition sample_environment :: environment where
  "sample_environment =
     \<lparr> en_now = (\<lambda>_. 1000), en_dbnow = (\<lambda>_. 1000000000), en_draw = (\<lambda>_. 0), en_inputs = (\<lambda>_. sample_inputs),
       en_table = (\<lambda>_. [sample_account ''a'' ''x@y'']), en_sticky = (\<lambda>_. []),
       en_generation_moved = (\<lambda>_. False), en_runtime = (\<lambda>_ rt. rt) \<rparr>"

definition plain_request :: sticky_request where
  "plain_request = \<lparr> sq_key = None, sq_kind = None, sq_reallocate = False, sq_max_age_seconds = None \<rparr>"

lemmas attempt_eval =
  plain_attempt_def finish_attempt_def tracked_accounts_def prune_runtime_def state_from_account_def
  effective_secondary_entry_def effective_runtime_reset_def base_runtime_reset_def effective_blocked_at_def
  quota_reset_superseded_def cooldown_ready_def refreshed_after_block_def update_tier_def tier_input_def
  apply_usage_quota_def apply_secondary_def runtime_of_def initial_runtime_def account_map_def
  snapshot_of_def copy_result_status_def persist_state_if_current_def state_columns_def
  status_columns_of_def int_or_none_def snapshot_stale_def finish_selection_def
  select_account_preferring_budget_safe_def select_among_def state_above_budget_threshold_def
  selection_options_of_def sample_routing_def sample_settings_def sample_account_def

lemma sample_loop:
  "\<exists>acc a. select_loop sample_settings sample_routing plain_request sample_environment 0 Map.empty = Selected acc a"
  by (subst select_loop.simps)
     (simp add: sample_environment_def plain_request_def sample_inputs_def inputs_rejected_def
       attempt_eval selection_eval)

theorem select_loop_sound_witness:
  "\<exists>acc a. select_loop sample_settings sample_routing plain_request sample_environment 0 Map.empty = Selected acc a \<and>
     good_selection sample_inputs a acc"
proof -
  obtain acc a where run: "select_loop sample_settings sample_routing plain_request sample_environment 0 Map.empty =
      Selected acc a" using sample_loop by blast
  have "\<exists>m < MAX_SELECTION_ATTEMPTS. good_selection (en_inputs sample_environment m) a acc"
    by (rule select_loop_sound [OF run])
       (simp_all add: sample_environment_def sample_inputs_def accounts_ok_def)
  with run show ?thesis by (auto simp: sample_environment_def)
qed

section \<open>Failures and the next selection\<close>

lemma additional_limit_subset:
  "set (fst (filter_accounts_for_additional_limit settings src now model limit accounts)) \<subseteq> set accounts"
  by (simp add: filter_accounts_for_additional_limit_def Let_def)

lemma additional_limit_Nil [simp]:
  "filter_accounts_for_additional_limit settings src now model limit [] = ([], None, None)"
  by (simp add: filter_accounts_for_additional_limit_def)

lemma accounts_for_model_subset: "set (accounts_for_model src model accounts) \<subseteq> set accounts"
  by (simp add: accounts_for_model_def filter_accounts_for_model_def split: option.split)

lemma scoped_subset: "set (scoped_accounts ids accounts) \<subseteq> set (selectable_accounts accounts)"
  by (auto simp: scoped_accounts_def split: option.split)

lemma inputs_accounts [simp]:
  "si_accounts (empty_inputs as m c) = []" "si_accounts (full_inputs src as bs) = bs"
  by (simp_all add: empty_inputs_def full_inputs_def)

lemma read_inputs_subset:
  "set (si_accounts (read_selection_inputs settings src now model limit ids table)) \<subseteq>
     set (selectable_accounts (list_accounts table))"
proof -
  let ?accounts = "accounts_for_model src model (scoped_accounts ids (list_accounts table))"
  have "set (si_accounts (read_selection_inputs settings src now model limit ids table)) \<subseteq> set ?accounts"
    by (simp add: read_selection_inputs_def Let_def split_beta additional_limit_subset)
  with accounts_for_model_subset scoped_subset show ?thesis by (meson subset_trans)
qed

lemma read_inputs_selectable:
  "a \<in> set (si_accounts (read_selection_inputs settings src now model limit ids table)) \<Longrightarrow>
     a \<in> set table \<and> acc_status a \<noteq> DEACTIVATED"
  using read_inputs_subset [of settings src now model limit ids table]
  by (auto simp: selectable_accounts_def list_accounts_def)

lemma mark_invalidates:
  "selection_cache_get t key (lb_cache (fst (mark_with handler now account lb))) = None"
  by (simp add: mark_with_def Let_def split_beta selection_cache.lookup_flush)

lemma load_after_mark:
  "fst (load_selection_inputs settings src dbnow mclock model limit ids (fst (mark_with handler now account lb))) =
     read_selection_inputs settings src dbnow model limit ids (lb_accounts (fst (mark_with handler now account lb)))"
  by (simp add: load_selection_inputs_def Let_def mark_invalidates)

lemma persist_state_row:
  assumes "accounts_ok table" "status_columns_of account \<noteq> state_columns s"
    and "a \<in> set (fst (persist_state account s table))" "acc_id a = acc_id account"
  shows "acc_status a = st_status s"
  using assms(2-)
  by (auto simp: persist_state_def state_columns_def update_status_def update_where_def set_status_def
      split: if_splits)

text \<open>C27: A permanent failure takes effect at once. After an account that was not deactivated is marked as
  permanently failed, the next selection in this process does not load it, for any model, limit and
  account scope, at any time and whatever the selection cache held before.\<close>

theorem permanent_failure_excluded:
  assumes "accounts_ok (lb_accounts lb)" "acc_status account \<noteq> DEACTIVATED"
    and "a \<in> set (si_accounts (fst (load_selection_inputs settings src dbnow mclock model limit ids
                    (fst (mark_permanent_failure now code account lb)))))"
  shows "acc_id a \<noteq> acc_id account"
proof
  assume id: "acc_id a = acc_id account"
  let ?s = "handle_permanent_failure code (state_for account (runtime_of (lb_runtime lb) (acc_id account)))"
  have table: "lb_accounts (fst (mark_permanent_failure now code account lb)) =
      fst (persist_state account ?s (lb_accounts lb))"
    by (simp add: mark_permanent_failure_def mark_with_def Let_def split_beta)
  have a: "a \<in> set (fst (persist_state account ?s (lb_accounts lb)))" "acc_status a \<noteq> DEACTIVATED"
    using read_inputs_selectable [OF assms(3) [unfolded mark_permanent_failure_def load_after_mark]] table
    by (simp_all add: mark_permanent_failure_def)
  have "status_columns_of account \<noteq> state_columns ?s"
    using assms(2) by (simp add: status_columns_of_def state_columns_def handle_permanent_failure_def)
  from persist_state_row [OF assms(1) this a(1) id] a(2) show False
    by (simp add: handle_permanent_failure_def)
qed

definition sample_sources :: lb_sources where
  "sample_sources =
     \<lparr> src_latest_primary = Map.empty, src_latest_secondary = Map.empty,
       src_has_registry_entry = (\<lambda>_. False), src_plan_types_for_model = (\<lambda>_. None),
       src_gated_limit_name = (\<lambda>_. None), src_latest_additional = (\<lambda>_ _ _. Map.empty) \<rparr>"

definition sample_balancer :: load_balancer where
  "sample_balancer =
     \<lparr> lb_runtime = Map.empty,
       lb_accounts = [sample_account ''a'' ''x@y'', sample_account ''b'' ''z@y''],
       lb_cache = \<lparr> sc_ttl_seconds = 5, sc_cache = [(None, None, None) \<mapsto> (sample_inputs, 2000)], sc_generation = 0 \<rparr> \<rparr>"

theorem permanent_failure_excluded_witness:
  "''a'' \<in> acc_id ` set (si_accounts (fst (load_selection_inputs sample_settings sample_sources 0 1000 None None None
     sample_balancer))) \<and>
   ''a'' \<notin> acc_id ` set (si_accounts (fst (load_selection_inputs sample_settings sample_sources 0 1000 None None None
     (fst (mark_permanent_failure 1000 ''account_deleted'' (sample_account ''a'' ''x@y'') sample_balancer)))))"
proof
  show "''a'' \<in> acc_id ` set (si_accounts (fst (load_selection_inputs sample_settings sample_sources 0 1000 None None None
     sample_balancer)))"
    by (simp add: load_selection_inputs_def sample_balancer_def selection_cache_get_def sample_inputs_def sample_account_def)
  let ?loaded = "si_accounts (fst (load_selection_inputs sample_settings sample_sources 0 1000 None None None
     (fst (mark_permanent_failure 1000 ''account_deleted'' (sample_account ''a'' ''x@y'') sample_balancer))))"
  show "''a'' \<notin> acc_id ` set ?loaded"
  proof (rule notI, erule imageE)
    fix a assume eq: "''a'' = acc_id a" and mem: "a \<in> set ?loaded"
    have "acc_id a \<noteq> acc_id (sample_account ''a'' ''x@y'')"
      by (rule permanent_failure_excluded [OF _ _ mem])
         (simp_all add: sample_balancer_def accounts_ok_def sample_account_def)
    with eq show False by (simp add: sample_account_def)
  qed
qed

end
