(* ===== verification/Rate_Limit.thy ===== *)
theory Rate_Limit
  imports Prelude
begin

text \<open>
  Sliding-window limits: the retry budget of \<open>app/core/resilience/retry_budget.py\<close> and the database
  rate limiter of \<open>app/core/rate_limiter/db_rate_limiter.py\<close>. Both keep the times of what they
  admitted and admit only while fewer than the limit fall into the window that ends now; the locale
  derives from this that no window of that length, wherever it lies, holds more than the limit.
\<close>

section \<open>The interface\<close>

locale window_limiter =
  fixes attempt :: "'t::linordered_idom \<Rightarrow> 's \<Rightarrow> bool \<times> 's"
    and hist :: "'s \<Rightarrow> 't list"
    and window :: 't
    and limit :: int
  assumes accept_room: "fst (attempt t s) \<Longrightarrow> int (length (filter (\<lambda>x. t - window \<le> x) (hist s))) < limit"
    and accept_log: "fst (attempt t s) \<Longrightarrow> t - window \<le> c \<Longrightarrow> c \<le> t \<Longrightarrow>
          filter (\<lambda>x. c \<le> x) (hist (snd (attempt t s))) = filter (\<lambda>x. c \<le> x) (hist s) @ [t]"
    and accept_log_later: "fst (attempt t s) \<Longrightarrow> t < c \<Longrightarrow>
          filter (\<lambda>x. c \<le> x) (hist (snd (attempt t s))) = filter (\<lambda>x. c \<le> x) (hist s)"
    and reject_log: "\<not> fst (attempt t s) \<Longrightarrow> t - window \<le> c \<Longrightarrow>
          filter (\<lambda>x. c \<le> x) (hist (snd (attempt t s))) = filter (\<lambda>x. c \<le> x) (hist s)"
    and window_nonneg: "0 \<le> window"
    and limit_nonneg: "0 \<le> limit"

text \<open>The times admitted out of a sequence of attempts, and the final state.\<close>

fun admitted :: "('t \<Rightarrow> 's \<Rightarrow> bool \<times> 's) \<Rightarrow> 't list \<Rightarrow> 's \<Rightarrow> 't list \<times> 's" where
  "admitted attempt [] s = ([], s)"
| "admitted attempt (t # ts) s =
     (let (ok, s') = attempt t s; (as, s'') = admitted attempt ts s'
      in (if ok then t # as else as, s''))"

definition in_window :: "'t::linordered_idom \<Rightarrow> 't \<Rightarrow> 't list \<Rightarrow> nat" where
  "in_window c w xs = length (filter (\<lambda>x. c \<le> x \<and> x \<le> c + w) xs)"

lemma in_window_append [simp]: "in_window c w (xs @ ys) = in_window c w xs + in_window c w ys"
  by (simp add: in_window_def)

lemma in_window_le_filter: "in_window c w xs \<le> length (filter (\<lambda>x. c \<le> x) xs)"
proof -
  have "filter (\<lambda>x. c \<le> x \<and> x \<le> c + w) xs = filter (\<lambda>x. x \<le> c + w) (filter (\<lambda>x. c \<le> x) xs)"
    by (simp add: conj_commute)
  then show ?thesis unfolding in_window_def by (metis length_filter_le)
qed

lemma filter_ge_mono:
  "a \<le> b \<Longrightarrow> length (filter (\<lambda>x. b \<le> x) xs) \<le> length (filter (\<lambda>x. a \<le> (x::'t::linorder)) xs)"
  by (induction xs) auto

context window_limiter
begin

lemma admitted_bound_gen:
  assumes "sorted ts" "\<forall>t \<in> set ts. b \<le> t" "\<forall>x \<in> set H. x \<le> b"
    and "\<forall>c. b - window \<le> c \<longrightarrow> filter (\<lambda>x. c \<le> x) (hist s) = filter (\<lambda>x. c \<le> x) H"
    and "\<forall>c. int (in_window c window H) \<le> limit"
  shows "int (in_window c window (H @ fst (admitted attempt ts s))) \<le> limit"
  using assms
proof (induction ts arbitrary: b H s)
  case (Cons t ts)
  have bt: "b \<le> t" and later: "\<forall>u \<in> set ts. t \<le> u" and sorted: "sorted ts" using Cons.prems(1,2) by auto
  obtain ok s' where att: "attempt t s = (ok, s')" by fastforce
  have Hb: "\<forall>x \<in> set H. x \<le> t" using Cons.prems(3) bt by auto
  have logH: "filter (\<lambda>x. d \<le> x) (hist s) = filter (\<lambda>x. d \<le> x) H" if "t - window \<le> d" for d
    using Cons.prems(4) that bt by (metis diff_right_mono order_trans)
  show ?case
  proof (cases ok)
    case False
    have "filter (\<lambda>x. d \<le> x) (hist s') = filter (\<lambda>x. d \<le> x) H" if "t - window \<le> d" for d
      using reject_log [of t s d] att False that logH by simp
    with Cons.IH [OF sorted later Hb] Cons.prems(5) att False show ?thesis
      by (simp add: split_beta Let_def)
  next
    case True
    have hist': "filter (\<lambda>x. d \<le> x) (hist s') = filter (\<lambda>x. d \<le> x) (H @ [t])" if "t - window \<le> d" for d
      using accept_log [of t s d] accept_log_later [of t s d] att True that logH by (cases "d \<le> t") auto
    have bound: "int (in_window d window (H @ [t])) \<le> limit" for d
    proof (cases "d \<le> t \<and> t \<le> d + window")
      case True
      then have d: "t - window \<le> d" by (simp add: algebra_simps)
      have "in_window d window H \<le> length (filter (\<lambda>x. d \<le> x) (hist s))"
        using in_window_le_filter [of d window H] logH [OF d] by simp
      also have "\<dots> \<le> length (filter (\<lambda>x. t - window \<le> x) (hist s))" using d by (rule filter_ge_mono)
      finally show ?thesis using accept_room [of t s] att \<open>ok\<close> True by (simp add: in_window_def)
    next
      case False
      then have "in_window d window [t] = 0" by (auto simp: in_window_def)
      with Cons.prems(5) show ?thesis by simp
    qed
    have "int (in_window c window ((H @ [t]) @ fst (admitted attempt ts s'))) \<le> limit"
      using Cons.IH [OF sorted later, of "H @ [t]" s'] Hb hist' bound by simp
    with att True show ?thesis by (simp add: split_beta Let_def)
  qed
qed simp

lemma admitted_bound:
  assumes "sorted ts" "hist s = []"
  shows "int (in_window c window (fst (admitted attempt ts s))) \<le> limit"
proof (cases ts)
  case (Cons t us)
  then show ?thesis
    using admitted_bound_gen [of ts t "[]" s c] assms limit_nonneg by (simp add: in_window_def)
qed (simp add: in_window_def limit_nonneg)

end

section \<open>Retry budget\<close>

record retry_budget =
  rb_max_retries :: int
  rb_window_seconds :: int
  rb_retry_timestamps :: "seconds list"

definition try_acquire :: "seconds \<Rightarrow> retry_budget \<Rightarrow> bool \<times> retry_budget" where
  "try_acquire now b =
     (let cutoff = now - of_int (rb_window_seconds b);
          kept = dropWhile (\<lambda>t. t < cutoff) (rb_retry_timestamps b)
      in if rb_max_retries b \<le> int (length kept)
         then (False, b\<lparr> rb_retry_timestamps := kept \<rparr>)
         else (True, b\<lparr> rb_retry_timestamps := kept @ [now] \<rparr>))"

definition remaining :: "seconds \<Rightarrow> retry_budget \<Rightarrow> int" where
  "remaining now b =
     (let cutoff = now - of_int (rb_window_seconds b)
      in max 0 (rb_max_retries b - int (length (filter (\<lambda>t. cutoff \<le> t) (rb_retry_timestamps b)))))"

lemma filter_dropWhile_less:
  "a \<le> c \<Longrightarrow> filter (\<lambda>x. c \<le> x) (dropWhile (\<lambda>t. t < (a::'t::linorder)) xs) = filter (\<lambda>x. c \<le> x) xs"
  by (induction xs) auto

lemma sorted_dropWhile_filter:
  "sorted xs \<Longrightarrow> dropWhile (\<lambda>t. t < (a::'t::linorder)) xs = filter (\<lambda>x. a \<le> x) xs"
  by (induction xs) (auto intro!: filter_True [symmetric])

text \<open>The budget with fixed limit and window, as a state that is just the list of time stamps.\<close>

definition acquire_log :: "int \<Rightarrow> int \<Rightarrow> seconds \<Rightarrow> seconds list \<Rightarrow> bool \<times> seconds list" where
  "acquire_log m w now ts =
     (let (ok, b) = try_acquire now \<lparr> rb_max_retries = m, rb_window_seconds = w, rb_retry_timestamps = ts \<rparr>
      in (ok, rb_retry_timestamps b))"

lemma acquire_log_simps:
  "acquire_log m w now ts =
     (let kept = dropWhile (\<lambda>t. t < now - of_int w) ts
      in if m \<le> int (length kept) then (False, kept) else (True, kept @ [now]))"
  by (simp add: acquire_log_def try_acquire_def Let_def)

lemma window_limiter_retry_budget:
  assumes "0 \<le> m" "0 \<le> w"
  shows "window_limiter (acquire_log m w) id (of_int w) m"
proof
  fix t :: seconds and s :: "seconds list"
  let ?kept = "dropWhile (\<lambda>x. x < t - of_int w) s"
  have len: "length (filter (\<lambda>x. t - of_int w \<le> x) s) \<le> length ?kept"
    using filter_dropWhile_less [of "t - of_int w" "t - of_int w" s] by (metis length_filter_le order_refl)
  show "int (length (filter (\<lambda>x. t - of_int w \<le> x) (id s))) < m" if "fst (acquire_log m w t s)"
    using that len by (auto simp: acquire_log_simps Let_def split: if_splits)
qed (use assms in \<open>auto simp: acquire_log_simps Let_def filter_dropWhile_less split: if_splits\<close>)

text \<open>The defaults of the program give the concrete budget; every budget with sensible settings is one.\<close>

interpretation retry_budget: window_limiter "acquire_log 100 60" id 60 100
  using window_limiter_retry_budget [of 100 60] by simp

text \<open>The retry budget bounds every window. Out of any sequence of attempts at non-decreasing times,
  starting from a fresh budget, no interval of the window's length contains more admitted retries
  than the budget allows.\<close>

theorem retry_budget_window_bound:
  assumes "0 \<le> m" "0 \<le> w" "sorted ts"
  shows "int (in_window c (of_int w) (fst (admitted (acquire_log m w) ts []))) \<le> m"
  by (rule window_limiter.admitted_bound [OF window_limiter_retry_budget [OF assms(1,2)] assms(3)]) simp

theorem retry_budget_window_bound_witness:
  "int (in_window 0 10 (fst (admitted (acquire_log 2 10) [1, 2, 3, 12] []))) \<le> 2"
  using retry_budget_window_bound [of 2 10 "[1, 2, 3, 12]" 0] by simp

text \<open>A retry is admitted exactly when the remaining budget is positive.\<close>

lemma try_acquire_iff_remaining:
  assumes "sorted (rb_retry_timestamps b)"
  shows "fst (try_acquire now b) \<longleftrightarrow> 0 < remaining now b"
  using assms by (auto simp: try_acquire_def remaining_def sorted_dropWhile_filter Let_def)

section \<open>Database rate limiter\<close>

record rate_limit_attempt =
  ra_key :: string
  ra_type :: string
  ra_attempted_at :: datetime

record rate_limiter =
  rl_max_attempts :: int
  rl_window_seconds :: int
  rl_type :: string

definition rate_limiter_init :: "int \<Rightarrow> int \<Rightarrow> string \<Rightarrow> rate_limiter option" where
  "rate_limiter_init max_attempts window_seconds ty =
     (if max_attempts \<le> 0 then None
      else if window_seconds \<le> 0 then None
      else Some \<lparr> rl_max_attempts = max_attempts, rl_window_seconds = window_seconds, rl_type = ty \<rparr>)"

definition attempts_of :: "rate_limiter \<Rightarrow> string \<Rightarrow> rate_limit_attempt list \<Rightarrow> datetime list" where
  "attempts_of l key table =
     map ra_attempted_at (filter (\<lambda>r. ra_key r = key \<and> ra_type r = rl_type l) table)"

definition window_start :: "datetime \<Rightarrow> rate_limiter \<Rightarrow> datetime" where
  "window_start now l = now - rl_window_seconds l * 1000000"

definition recent_attempts :: "datetime \<Rightarrow> rate_limiter \<Rightarrow> string \<Rightarrow> rate_limit_attempt list \<Rightarrow> datetime list" where
  "recent_attempts now l key table = filter (\<lambda>t. window_start now l \<le> t) (attempts_of l key table)"

text \<open>Seconds to wait, the argument of \<open>DashboardRateLimitError\<close>.\<close>

definition retry_after :: "datetime \<Rightarrow> rate_limiter \<Rightarrow> datetime option \<Rightarrow> int" where
  "retry_after now l oldest =
     (case oldest of
        None \<Rightarrow> rl_window_seconds l
      | Some t \<Rightarrow> max 1 (py_int (of_int (t + rl_window_seconds l * 1000000 - now) / 1000000)))"

definition new_attempt :: "datetime \<Rightarrow> rate_limiter \<Rightarrow> string \<Rightarrow> rate_limit_attempt" where
  "new_attempt now l key = \<lparr> ra_key = key, ra_type = rl_type l, ra_attempted_at = now \<rparr>"

definition check_limit :: "datetime \<Rightarrow> rate_limiter \<Rightarrow> string \<Rightarrow> rate_limit_attempt list \<Rightarrow> int option" where
  "check_limit now l key table =
     (let recent = recent_attempts now l key table
      in if rl_max_attempts l \<le> int (length recent)
         then Some (retry_after now l (min_by id recent)) else None)"

definition check_and_increment ::
  "datetime \<Rightarrow> rate_limiter \<Rightarrow> string \<Rightarrow> rate_limit_attempt list \<Rightarrow> int option \<times> rate_limit_attempt list"
where
  "check_and_increment now l key table =
     (let recent = recent_attempts now l key table
      in if int (length recent) < rl_max_attempts l
         then (None, table @ [new_attempt now l key])
         else (Some (retry_after now l (min_by id recent)), table))"

definition record_failure ::
  "datetime \<Rightarrow> rate_limiter \<Rightarrow> string \<Rightarrow> rate_limit_attempt list \<Rightarrow> int option \<times> rate_limit_attempt list"
where
  "record_failure now l key table =
     (let table' = table @ [new_attempt now l key];
          recent = recent_attempts now l key table'
      in (if rl_max_attempts l < int (length recent)
          then Some (retry_after now l (min_by id recent)) else None, table'))"

definition clear_for_key :: "rate_limiter \<Rightarrow> string \<Rightarrow> rate_limit_attempt list \<Rightarrow> rate_limit_attempt list" where
  "clear_for_key l key table = filter (\<lambda>r. \<not> (ra_key r = key \<and> ra_type r = rl_type l)) table"

definition check_and_record ::
  "datetime \<Rightarrow> rate_limiter \<Rightarrow> string \<Rightarrow> rate_limit_attempt list \<Rightarrow> int option \<times> rate_limit_attempt list"
where
  "check_and_record now l key table =
     (let recent = recent_attempts now l key table
      in (if rl_max_attempts l \<le> int (length recent)
          then Some (retry_after now l (min_by id recent)) else None,
          table @ [new_attempt now l key]))"

definition cleanup_attempts :: "datetime \<Rightarrow> int \<Rightarrow> rate_limit_attempt list \<Rightarrow> rate_limit_attempt list" where
  "cleanup_attempts now older_than_seconds table =
     filter (\<lambda>r. \<not> ra_attempted_at r < now - older_than_seconds * 1000000) table"

section \<open>Laws of the rate limiter\<close>

lemma attempts_of_append [simp]:
  "attempts_of l key (table @ [new_attempt now l key']) =
     attempts_of l key table @ (if key' = key then [now] else [])"
  by (simp add: attempts_of_def new_attempt_def)

definition increment_ok ::
  "rate_limiter \<Rightarrow> string \<Rightarrow> datetime \<Rightarrow> rate_limit_attempt list \<Rightarrow> bool \<times> rate_limit_attempt list"
where
  "increment_ok l key now table =
     (let (err, table') = check_and_increment now l key table in (err = None, table'))"

lemma window_limiter_rate_limiter:
  assumes "rate_limiter_init m w ty = Some l"
  shows "window_limiter (increment_ok l key) (attempts_of l key) (w * 1000000) m"
proof -
  from assms have "0 < m" "0 < w" "rl_max_attempts l = m" "rl_window_seconds l = w"
    by (auto simp: rate_limiter_init_def split: if_splits)
  then show ?thesis
    by unfold_locales
       (auto simp: increment_ok_def check_and_increment_def recent_attempts_def window_start_def Let_def
         split: if_splits)
qed

definition password_rate_limiter :: rate_limiter where
  "password_rate_limiter = \<lparr> rl_max_attempts = 8, rl_window_seconds = 60, rl_type = ''password'' \<rparr>"

definition totp_rate_limiter :: rate_limiter where
  "totp_rate_limiter = \<lparr> rl_max_attempts = 8, rl_window_seconds = 60, rl_type = ''totp'' \<rparr>"

interpretation password_limiter:
  window_limiter "increment_ok password_rate_limiter key" "attempts_of password_rate_limiter key" "60 * 1000000" 8
  for key
  by (rule window_limiter_rate_limiter [of 8 60 "''password''"])
     (simp add: rate_limiter_init_def password_rate_limiter_def)

text \<open>C32: The database rate limiter bounds every window. For a key with no recorded attempts, out of any
  sequence of atomic check-and-increment calls at non-decreasing times, no interval of the window's
  length contains more than the allowed number of admitted attempts.\<close>

theorem rate_limiter_window_bound:
  assumes "rate_limiter_init m w ty = Some l" "sorted ts" "attempts_of l key table = []"
  shows "int (in_window c (w * 1000000) (fst (admitted (increment_ok l key) ts table))) \<le> m"
  by (rule window_limiter.admitted_bound [OF window_limiter_rate_limiter [OF assms(1)] assms(2,3)])

theorem rate_limiter_window_bound_witness:
  "int (in_window 0 60000000 (fst (admitted (increment_ok password_rate_limiter ''ip'') [1, 2, 3] []))) \<le> 8"
  using rate_limiter_window_bound [of 8 60 "''password''" password_rate_limiter "[1, 2, 3]" "''ip''" "[]" 0]
  by (simp add: rate_limiter_init_def password_rate_limiter_def attempts_of_def)



lemma clear_for_key_resets:
  "attempts_of l key (clear_for_key l key table) = []"
  "(key', ty) \<noteq> (key, rl_type l) \<Longrightarrow>
     filter (\<lambda>r. ra_key r = key' \<and> ra_type r = ty) (clear_for_key l key table) =
     filter (\<lambda>r. ra_key r = key' \<and> ra_type r = ty) table"
  by (auto simp: attempts_of_def clear_for_key_def intro!: filter_cong)

text \<open>Cleaning up attempts older than the window does not change what the limiter decides.\<close>

lemma cleanup_keeps_decision:
  assumes "rl_window_seconds l \<le> older"
  shows "recent_attempts now l key (cleanup_attempts now older table) = recent_attempts now l key table"
  using assms
  by (induction table) (auto simp: recent_attempts_def attempts_of_def cleanup_attempts_def window_start_def)

end
