(* ===== verification/Limit_Windows.thy ===== *)
theory Limit_Windows
  imports Prelude
begin

text \<open>
  The windows of API key limits, \<open>app/modules/api_keys/limit_windows.py\<close>: when a new limit is reset for
  the first time, and the loop that moves a passed reset time forward by whole windows. Times are in
  microseconds. The enumeration has no other members, so the closing \<open>return\<close> of the two case
  distinctions is never reached.
\<close>

datatype limit_window = DAILY | WEEKLY | MONTHLY | FIVE_HOURS | SEVEN_DAYS

definition hours :: "int \<Rightarrow> int" where "hours n = n * 3600 * 1000000"
definition days :: "int \<Rightarrow> int" where "days n = n * 86400 * 1000000"

definition limit_window_delta :: "limit_window \<Rightarrow> int" where
  "limit_window_delta window =
     (case window of
        FIVE_HOURS \<Rightarrow> hours 5
      | SEVEN_DAYS \<Rightarrow> days 7
      | DAILY \<Rightarrow> days 1
      | WEEKLY \<Rightarrow> days 7
      | MONTHLY \<Rightarrow> days 30)"

definition next_limit_reset :: "datetime \<Rightarrow> limit_window \<Rightarrow> datetime" where
  "next_limit_reset now window =
     (case window of
        FIVE_HOURS \<Rightarrow> now + hours 5
      | SEVEN_DAYS \<Rightarrow> now + days 7
      | DAILY \<Rightarrow> now + days 1
      | WEEKLY \<Rightarrow> now + days 7
      | MONTHLY \<Rightarrow> now + days 30)"

lemma limit_window_delta_pos: "0 < limit_window_delta window"
  by (cases window) (simp_all add: limit_window_delta_def hours_def days_def)

lemma next_limit_reset_delta: "next_limit_reset now window = now + limit_window_delta window"
  by (cases window) (simp_all add: next_limit_reset_def limit_window_delta_def)

function advance_limit_reset :: "datetime \<Rightarrow> datetime \<Rightarrow> limit_window \<Rightarrow> datetime" where
  "advance_limit_reset reset_at now window =
     (if reset_at \<le> now then advance_limit_reset (reset_at + limit_window_delta window) now window
      else reset_at)"
  by pat_completeness auto

termination
proof (relation "measure (\<lambda>(reset_at, now, window). nat (now + 1 - reset_at))")
  fix reset_at now :: datetime and window
  assume "reset_at \<le> now"
  with limit_window_delta_pos [of window]
  show "((reset_at + limit_window_delta window, now, window), reset_at, now, window)
          \<in> measure (\<lambda>(reset_at, now, window). nat (now + 1 - reset_at))"
    by simp
qed simp

declare advance_limit_reset.simps [simp del]

text \<open>The loop returns the first time after \<open>now\<close> that is a whole number of windows after the old reset.\<close>

lemma advance_limit_reset_after: "now < advance_limit_reset reset_at now window"
  by (induction reset_at now window rule: advance_limit_reset.induct)
     (subst advance_limit_reset.simps, simp)

lemma advance_limit_reset_ge: "reset_at \<le> advance_limit_reset reset_at now window"
proof (induction reset_at now window rule: advance_limit_reset.induct)
  case (1 reset_at now window)
  then show ?case using limit_window_delta_pos [of window]
    by (subst advance_limit_reset.simps) auto
qed

lemma advance_limit_reset_within:
  "reset_at \<le> now \<Longrightarrow> advance_limit_reset reset_at now window \<le> now + limit_window_delta window"
proof (induction reset_at now window rule: advance_limit_reset.induct)
  case (1 reset_at now window)
  show ?case
  proof (cases "reset_at + limit_window_delta window \<le> now")
    case True
    with 1 show ?thesis by (subst advance_limit_reset.simps) simp
  next
    case False
    then have "advance_limit_reset (reset_at + limit_window_delta window) now window = reset_at + limit_window_delta window"
      by (subst advance_limit_reset.simps) simp
    with 1 show ?thesis by (subst advance_limit_reset.simps) simp
  qed
qed

lemma advance_limit_reset_grid:
  "limit_window_delta window dvd advance_limit_reset reset_at now window - reset_at"
proof (induction reset_at now window rule: advance_limit_reset.induct)
  case (1 reset_at now window)
  show ?case
  proof (cases "reset_at \<le> now")
    case True
    have "advance_limit_reset (reset_at + limit_window_delta window) now window - reset_at =
        (advance_limit_reset (reset_at + limit_window_delta window) now window - (reset_at + limit_window_delta window))
          + limit_window_delta window" by simp
    with 1 [OF True] True show ?thesis by (subst advance_limit_reset.simps) (metis dvd_add dvd_refl)
  next
    case False
    then show ?thesis by (subst advance_limit_reset.simps) simp
  qed
qed

text \<open>Advancing a limit's reset time. The loop ends, and when the reset time has passed it returns
  the only time that lies after now, at most one window after it, and a whole number of windows after
  the old reset time; otherwise it returns the reset time unchanged.\<close>

theorem advance_limit_reset_unique:
  "advance_limit_reset reset_at now window =
     (if reset_at \<le> now
      then reset_at + limit_window_delta window * ((now - reset_at) div limit_window_delta window + 1)
      else reset_at)"
proof (cases "reset_at \<le> now")
  case True
  let ?d = "limit_window_delta window" and ?r = "advance_limit_reset reset_at now window"
  obtain k where k: "?r - reset_at = ?d * k" using advance_limit_reset_grid [of window reset_at now] by blast
  have d: "0 < ?d" by (rule limit_window_delta_pos)
  have lo: "now - reset_at < ?d * k" using advance_limit_reset_after [of now reset_at window] k by linarith
  have hi: "?d * (k - 1) \<le> now - reset_at"
    using advance_limit_reset_within [OF True, of window] k by (simp add: algebra_simps)
  have "(now - reset_at) div ?d = k - 1"
    using int_div_pos_eq [of "now - reset_at" ?d "k - 1" "now - reset_at - ?d * (k - 1)"] lo hi
    by (simp add: algebra_simps)
  with k True show ?thesis by (simp add: algebra_simps)
next
  case False
  then show ?thesis by (subst advance_limit_reset.simps) simp
qed

end
