(* ===== verification/Api_Keys.thy ===== *)
theory Api_Keys
  imports Limit_Windows Account_Repo
begin

text \<open>
  The tables of API keys and \<open>app/modules/api_keys/repository.py\<close>: keys, their limits, and the usage
  reservations that charge the limits before a request and are settled after it. A table is the list
  of its rows. Every \<open>UPDATE\<close> of a reservation also sets its \<open>updated_at\<close> column, so the operations
  that perform one take the time. A row to insert carries the id the database gives it.
\<close>

section \<open>Rows\<close>

datatype limit_type = TOTAL_TOKENS | INPUT_TOKENS | OUTPUT_TOKENS | COST_USD | CREDITS

record api_key =
  ak_id :: string
  ak_name :: string
  ak_key_hash :: string
  ak_key_prefix :: string
  ak_allowed_models :: "string list option"
  ak_enforced_model :: "string option"
  ak_enforced_reasoning_effort :: "string option"
  ak_enforced_service_tier :: "string option"
  ak_account_assignment_scope_enabled :: bool
  ak_expires_at :: "datetime option"
  ak_is_active :: bool
  ak_created_at :: datetime
  ak_last_used_at :: "datetime option"

record api_key_limit =
  kl_id :: int
  kl_api_key_id :: string
  kl_limit_type :: limit_type
  kl_limit_window :: limit_window
  kl_max_value :: int
  kl_current_value :: int
  kl_model_filter :: "string option"
  kl_reset_at :: datetime

datatype reservation_status = Reserved | Settling | Finalized | Failed | Released

record usage_reservation =
  rv_id :: string
  rv_api_key_id :: string
  rv_model :: string
  rv_status :: reservation_status
  rv_input_tokens :: "int option"
  rv_output_tokens :: "int option"
  rv_cached_input_tokens :: "int option"
  rv_cost_microdollars :: "int option"
  rv_updated_at :: datetime

record reservation_item =
  ri_reservation_id :: string
  ri_limit_id :: int
  ri_limit_type :: limit_type
  ri_reserved_delta :: int
  ri_expected_reset_at :: datetime
  ri_actual_delta :: "int option"

record key_db =
  kd_keys :: "api_key list"
  kd_assignments :: "(string \<times> string) list"
  kd_limits :: "api_key_limit list"
  kd_reservations :: "usage_reservation list"
  kd_items :: "reservation_item list"

record reservation_result =
  rr_success :: bool
  rr_limit_id :: int
  rr_current_value :: "int option"
  rr_max_value :: "int option"
  rr_reset_at :: "datetime option"

section \<open>Keys\<close>

definition key_by_id :: "string \<Rightarrow> key_db \<Rightarrow> api_key option" where
  "key_by_id key_id db = find (\<lambda>k. ak_id k = key_id) (kd_keys db)"

definition key_by_hash :: "string \<Rightarrow> key_db \<Rightarrow> api_key option" where
  "key_by_hash key_hash db = find (\<lambda>k. ak_key_hash k = key_hash) (kd_keys db)"

definition key_create :: "api_key \<Rightarrow> key_db \<Rightarrow> key_db" where
  "key_create row db = db\<lparr> kd_keys := kd_keys db @ [row] \<rparr>"

text \<open>An update sets the columns that are given; \<open>None\<close> is the source's \<open>_UNSET\<close>.\<close>

record key_changes =
  kc_name :: "string option"
  kc_allowed_models :: "string list option option"
  kc_enforced_model :: "string option option"
  kc_enforced_reasoning_effort :: "string option option"
  kc_enforced_service_tier :: "string option option"
  kc_account_assignment_scope_enabled :: "bool option"
  kc_expires_at :: "datetime option option"
  kc_is_active :: "bool option"
  kc_key_hash :: "string option"
  kc_key_prefix :: "string option"

definition given :: "'a option \<Rightarrow> 'a \<Rightarrow> 'a" where
  "given change old = (case change of Some new \<Rightarrow> new | None \<Rightarrow> old)"

definition apply_key_changes :: "key_changes \<Rightarrow> api_key \<Rightarrow> api_key" where
  "apply_key_changes c k =
     k\<lparr> ak_name := given (kc_name c) (ak_name k),
        ak_allowed_models := given (kc_allowed_models c) (ak_allowed_models k),
        ak_enforced_model := given (kc_enforced_model c) (ak_enforced_model k),
        ak_enforced_reasoning_effort :=
          given (kc_enforced_reasoning_effort c) (ak_enforced_reasoning_effort k),
        ak_enforced_service_tier := given (kc_enforced_service_tier c) (ak_enforced_service_tier k),
        ak_account_assignment_scope_enabled :=
          given (kc_account_assignment_scope_enabled c) (ak_account_assignment_scope_enabled k),
        ak_expires_at := given (kc_expires_at c) (ak_expires_at k),
        ak_is_active := given (kc_is_active c) (ak_is_active k),
        ak_key_hash := given (kc_key_hash c) (ak_key_hash k),
        ak_key_prefix := given (kc_key_prefix c) (ak_key_prefix k) \<rparr>"

definition key_update :: "string \<Rightarrow> key_changes \<Rightarrow> key_db \<Rightarrow> api_key option \<times> key_db" where
  "key_update key_id c db =
     (case key_by_id key_id db of
        None \<Rightarrow> (None, db)
      | Some k \<Rightarrow>
          (let db' = db\<lparr> kd_keys := fst (update_where (\<lambda>k. ak_id k = key_id) (apply_key_changes c) (kd_keys db)) \<rparr>
           in (key_by_id key_id db', db')))"

text \<open>Deleting a key deletes what belongs to it: the foreign keys cascade, also from limits to items.\<close>

definition key_delete :: "string \<Rightarrow> key_db \<Rightarrow> key_db \<times> bool" where
  "key_delete key_id db =
     (if key_by_id key_id db = None then (db, False)
      else
        let gone = map rv_id (filter (\<lambda>r. rv_api_key_id r = key_id) (kd_reservations db));
            limits = map kl_id (filter (\<lambda>l. kl_api_key_id l = key_id) (kd_limits db))
        in (db\<lparr> kd_keys := filter (\<lambda>k. ak_id k \<noteq> key_id) (kd_keys db),
                kd_assignments := filter (\<lambda>a. fst a \<noteq> key_id) (kd_assignments db),
                kd_limits := filter (\<lambda>l. kl_api_key_id l \<noteq> key_id) (kd_limits db),
                kd_reservations := filter (\<lambda>r. rv_api_key_id r \<noteq> key_id) (kd_reservations db),
                kd_items := filter (\<lambda>i. ri_reservation_id i \<notin> set gone \<and> ri_limit_id i \<notin> set limits)
                              (kd_items db) \<rparr>, True))"

definition update_last_used :: "datetime \<Rightarrow> string \<Rightarrow> key_db \<Rightarrow> key_db" where
  "update_last_used now key_id db =
     db\<lparr> kd_keys := fst (update_where (\<lambda>k. ak_id k = key_id) (\<lambda>k. k\<lparr> ak_last_used_at := Some now \<rparr>)
                          (kd_keys db)) \<rparr>"

definition replace_account_assignments :: "string \<Rightarrow> string list \<Rightarrow> key_db \<Rightarrow> key_db" where
  "replace_account_assignments key_id account_ids db =
     db\<lparr> kd_assignments := filter (\<lambda>a. fst a \<noteq> key_id) (kd_assignments db) @ map (Pair key_id) account_ids \<rparr>"

section \<open>Limits\<close>

definition get_limits_by_key :: "string \<Rightarrow> key_db \<Rightarrow> api_key_limit list" where
  "get_limits_by_key key_id db = filter (\<lambda>l. kl_api_key_id l = key_id) (kd_limits db)"

definition limit_key :: "api_key_limit \<Rightarrow> limit_type \<times> limit_window \<times> string option" where
  "limit_key l = (kl_limit_type l, kl_limit_window l, kl_model_filter l)"

definition matching_limit :: "api_key_limit \<Rightarrow> api_key_limit list \<Rightarrow> api_key_limit option" where
  "matching_limit incoming existing = find (\<lambda>l. limit_key l = limit_key incoming) (rev existing)"

fun apply_incoming_limits ::
  "string \<Rightarrow> api_key_limit list \<Rightarrow> api_key_limit list \<Rightarrow> api_key_limit list \<Rightarrow> api_key_limit list"
where
  "apply_incoming_limits key_id existing [] rows = rows"
| "apply_incoming_limits key_id existing (incoming # limits) rows =
     apply_incoming_limits key_id existing limits
       (case matching_limit incoming existing of
          None \<Rightarrow> rows @ [incoming\<lparr> kl_api_key_id := key_id \<rparr>]
        | Some matched \<Rightarrow>
            map (\<lambda>l. if kl_id l = kl_id matched
                     then l\<lparr> kl_max_value := kl_max_value incoming,
                             kl_current_value := kl_current_value incoming,
                             kl_reset_at := kl_reset_at incoming \<rparr>
                     else l) rows)"

definition upsert_limits :: "string \<Rightarrow> api_key_limit list \<Rightarrow> key_db \<Rightarrow> key_db" where
  "upsert_limits key_id limits db =
     (let existing = get_limits_by_key key_id db;
          obsolete = map kl_id (filter (\<lambda>l. limit_key l \<notin> set (map limit_key limits)) existing)
      in db\<lparr> kd_limits := filter (\<lambda>l. kl_id l \<notin> set obsolete)
                            (apply_incoming_limits key_id existing limits (kd_limits db)),
             kd_items := filter (\<lambda>i. ri_limit_id i \<notin> set obsolete) (kd_items db) \<rparr>)"

definition limit_by_id :: "int \<Rightarrow> key_db \<Rightarrow> api_key_limit option" where
  "limit_by_id limit_id db = find (\<lambda>l. kl_id l = limit_id) (kd_limits db)"

definition update_limits ::
  "(api_key_limit \<Rightarrow> bool) \<Rightarrow> (api_key_limit \<Rightarrow> api_key_limit) \<Rightarrow> key_db \<Rightarrow> key_db \<times> bool"
where
  "update_limits p f db =
     (let (rows, hit) = update_where p f (kd_limits db) in (db\<lparr> kd_limits := rows \<rparr>, hit))"

definition reset_limit :: "int \<Rightarrow> datetime \<Rightarrow> datetime \<Rightarrow> key_db \<Rightarrow> key_db \<times> bool" where
  "reset_limit limit_id expected_reset_at new_reset_at db =
     update_limits (\<lambda>l. kl_id l = limit_id \<and> kl_reset_at l = expected_reset_at)
       (\<lambda>l. l\<lparr> kl_current_value := 0, kl_reset_at := new_reset_at \<rparr>) db"

definition compute_increment :: "api_key_limit \<Rightarrow> int \<Rightarrow> int \<Rightarrow> int \<Rightarrow> int" where
  "compute_increment l input_tokens output_tokens cost_microdollars =
     (case kl_limit_type l of
        TOTAL_TOKENS \<Rightarrow> input_tokens + output_tokens
      | INPUT_TOKENS \<Rightarrow> input_tokens
      | OUTPUT_TOKENS \<Rightarrow> output_tokens
      | COST_USD \<Rightarrow> cost_microdollars
      | CREDITS \<Rightarrow> 0)"

definition increment_limit_usage ::
  "datetime \<Rightarrow> string \<Rightarrow> string \<Rightarrow> int \<Rightarrow> int \<Rightarrow> int \<Rightarrow> key_db \<Rightarrow> key_db"
where
  "increment_limit_usage now key_id model input_tokens output_tokens cost_microdollars db =
     update_last_used now key_id
       (fold (\<lambda>l db.
          if kl_model_filter l \<noteq> None \<and> kl_model_filter l \<noteq> Some model then db
          else
            let increment = compute_increment l input_tokens output_tokens cost_microdollars
            in if 0 < increment
               then fst (update_limits (\<lambda>r. kl_id r = kl_id l)
                           (\<lambda>r. r\<lparr> kl_current_value := kl_current_value r + increment \<rparr>) db)
               else db)
        (get_limits_by_key key_id db) db)"

definition try_reserve_usage :: "int \<Rightarrow> int \<Rightarrow> datetime \<Rightarrow> key_db \<Rightarrow> reservation_result \<times> key_db" where
  "try_reserve_usage limit_id delta expected_reset_at db =
     (let (db', hit) =
            (if delta \<le> 0 then (db, True)
             else update_limits
                    (\<lambda>l. kl_id l = limit_id \<and> kl_reset_at l = expected_reset_at \<and>
                         kl_current_value l + delta \<le> kl_max_value l)
                    (\<lambda>l. l\<lparr> kl_current_value := kl_current_value l + delta \<rparr>) db);
          snapshot = limit_by_id limit_id db'
      in (\<lparr> rr_success = hit, rr_limit_id = limit_id,
            rr_current_value = map_option kl_current_value snapshot,
            rr_max_value = map_option kl_max_value snapshot,
            rr_reset_at = map_option kl_reset_at snapshot \<rparr>, db'))"

definition adjust_reserved_usage :: "int \<Rightarrow> int \<Rightarrow> datetime \<Rightarrow> key_db \<Rightarrow> key_db \<times> bool" where
  "adjust_reserved_usage limit_id delta expected_reset_at db =
     update_limits
       (\<lambda>l. kl_id l = limit_id \<and> kl_reset_at l = expected_reset_at \<and>
            (delta < 0 \<longrightarrow> - delta \<le> kl_current_value l))
       (\<lambda>l. l\<lparr> kl_current_value := kl_current_value l + delta \<rparr>) db"

section \<open>Reservations\<close>

text \<open>The items a reservation is created with; \<open>ri_reservation_id\<close> is set on insertion.\<close>

definition create_usage_reservation ::
  "datetime \<Rightarrow> string \<Rightarrow> string \<Rightarrow> string \<Rightarrow> reservation_item list \<Rightarrow> key_db \<Rightarrow> key_db"
where
  "create_usage_reservation now reservation_id key_id model items db =
     db\<lparr> kd_reservations := kd_reservations db @
           [\<lparr> rv_id = reservation_id, rv_api_key_id = key_id, rv_model = model, rv_status = Reserved,
              rv_input_tokens = None, rv_output_tokens = None, rv_cached_input_tokens = None,
              rv_cost_microdollars = None, rv_updated_at = now \<rparr>],
         kd_items := kd_items db @
           map (\<lambda>i. i\<lparr> ri_reservation_id := reservation_id, ri_actual_delta := None \<rparr>) items \<rparr>"

definition get_usage_reservation ::
  "string \<Rightarrow> key_db \<Rightarrow> (usage_reservation \<times> reservation_item list) option"
where
  "get_usage_reservation reservation_id db =
     map_option (\<lambda>r. (r, filter (\<lambda>i. ri_reservation_id i = reservation_id) (kd_items db)))
       (find (\<lambda>r. rv_id r = reservation_id) (kd_reservations db))"

definition update_reservations ::
  "datetime \<Rightarrow> (usage_reservation \<Rightarrow> bool) \<Rightarrow> (usage_reservation \<Rightarrow> usage_reservation) \<Rightarrow> key_db \<Rightarrow>
   key_db \<times> bool"
where
  "update_reservations now p f db =
     (let (rows, hit) = update_where p (\<lambda>r. (f r)\<lparr> rv_updated_at := now \<rparr>) (kd_reservations db)
      in (db\<lparr> kd_reservations := rows \<rparr>, hit))"

definition transition_usage_reservation_status ::
  "datetime \<Rightarrow> string \<Rightarrow> reservation_status \<Rightarrow> reservation_status \<Rightarrow> key_db \<Rightarrow> key_db \<times> bool"
where
  "transition_usage_reservation_status now reservation_id expected_status new_status db =
     update_reservations now (\<lambda>r. rv_id r = reservation_id \<and> rv_status r = expected_status)
       (\<lambda>r. r\<lparr> rv_status := new_status \<rparr>) db"

definition is_item :: "string \<Rightarrow> int \<Rightarrow> reservation_item \<Rightarrow> bool" where
  "is_item reservation_id limit_id i \<longleftrightarrow> ri_reservation_id i = reservation_id \<and> ri_limit_id i = limit_id"

definition upsert_reservation_item_actual ::
  "string \<Rightarrow> reservation_item \<Rightarrow> int \<Rightarrow> key_db \<Rightarrow> key_db"
where
  "upsert_reservation_item_actual reservation_id item actual_delta db =
     db\<lparr> kd_items :=
           (if list_ex (is_item reservation_id (ri_limit_id item)) (kd_items db)
            then map (\<lambda>i. if is_item reservation_id (ri_limit_id item) i
                          then i\<lparr> ri_actual_delta := Some actual_delta \<rparr> else i) (kd_items db)
            else kd_items db @
                   [item\<lparr> ri_reservation_id := reservation_id, ri_actual_delta := Some actual_delta \<rparr>]) \<rparr>"

definition settle_usage_reservation ::
  "datetime \<Rightarrow> string \<Rightarrow> reservation_status \<Rightarrow> int option \<Rightarrow> int option \<Rightarrow> int option \<Rightarrow> int option \<Rightarrow>
   key_db \<Rightarrow> key_db"
where
  "settle_usage_reservation now reservation_id status input_tokens output_tokens cached_input_tokens
     cost_microdollars db =
     fst (update_reservations now (\<lambda>r. rv_id r = reservation_id)
       (\<lambda>r. r\<lparr> rv_status := status, rv_input_tokens := input_tokens, rv_output_tokens := output_tokens,
               rv_cached_input_tokens := cached_input_tokens, rv_cost_microdollars := cost_microdollars \<rparr>) db)"

definition touch_usage_reservation :: "datetime \<Rightarrow> string \<Rightarrow> key_db \<Rightarrow> key_db \<times> bool" where
  "touch_usage_reservation now reservation_id db =
     update_reservations now (\<lambda>r. rv_id r = reservation_id \<and> rv_status r = Reserved) (\<lambda>r. r) db"

section \<open>Loops over the tables\<close>

text \<open>
  \<open>reset_expired_limits\<close> works in batches until no limit is left whose reset time has passed. A row
  that was reset lies in the future, so every batch but the last shrinks the rest.
\<close>

definition expired_limit :: "datetime \<Rightarrow> api_key_limit \<Rightarrow> bool" where
  "expired_limit now l \<longleftrightarrow> kl_reset_at l < now"

definition EXPIRED_LIMIT_RESET_BATCH_SIZE :: nat where "EXPIRED_LIMIT_RESET_BATCH_SIZE = 500"

definition expired_batch :: "datetime \<Rightarrow> key_db \<Rightarrow> api_key_limit list" where
  "expired_batch now db =
     take EXPIRED_LIMIT_RESET_BATCH_SIZE
       (sort_key (\<lambda>l. (kl_reset_at l, kl_id l)) (filter (expired_limit now) (kd_limits db)))"

fun reset_batch :: "datetime \<Rightarrow> api_key_limit list \<Rightarrow> key_db \<times> nat \<Rightarrow> key_db \<times> nat" where
  "reset_batch now [] s = s"
| "reset_batch now (l # ls) (db, n) =
     (let (db', hit) = reset_limit (kl_id l) (kl_reset_at l)
                         (advance_limit_reset (kl_reset_at l) now (kl_limit_window l)) db
      in reset_batch now ls (db', if hit then Suc n else n))"

lemma update_limits_rows [simp]:
  "kd_limits (fst (update_limits p f db)) = map (\<lambda>l. if p l then f l else l) (kd_limits db)"
  "snd (update_limits p f db) = list_ex p (kd_limits db)"
  by (simp_all add: update_limits_def update_where_def)

lemma reset_limit_rows:
  "kd_limits (fst (reset_limit i e t db)) =
     map (\<lambda>l. if kl_id l = i \<and> kl_reset_at l = e then l\<lparr> kl_current_value := 0, kl_reset_at := t \<rparr> else l)
       (kd_limits db)"
  by (simp add: reset_limit_def)

lemma reset_limit_future:
  assumes "now < t" "l' \<in> set (kd_limits (fst (reset_limit i e t db)))" "expired_limit now l'"
  shows "l' \<in> set (kd_limits db) \<and> \<not> (kl_id l' = i \<and> kl_reset_at l' = e)"
  using assms by (auto simp: reset_limit_rows expired_limit_def split: if_splits)

text \<open>Expired rows after a batch are rows from before that the batch did not name.\<close>

lemma reset_batch_expired:
  "l' \<in> set (kd_limits (fst (reset_batch now ls (db, n)))) \<Longrightarrow> expired_limit now l' \<Longrightarrow>
     l' \<in> set (kd_limits db) \<and> l' \<notin> set ls"
proof (induction ls arbitrary: db n)
  case (Cons l ls)
  let ?r = "reset_limit (kl_id l) (kl_reset_at l) (advance_limit_reset (kl_reset_at l) now (kl_limit_window l)) db"
  have "l' \<in> set (kd_limits (fst ?r)) \<and> l' \<notin> set ls"
    using Cons.IH [of "fst ?r" "if snd ?r then Suc n else n"] Cons.prems by (simp add: split_beta)
  with reset_limit_future [OF advance_limit_reset_after _ Cons.prems(2),
      where i = "kl_id l" and e = "kl_reset_at l" and db = db]
  show ?case by auto
qed simp

lemma expired_batch_set: "set (expired_batch now db) \<subseteq> {l \<in> set (kd_limits db). expired_limit now l}"
  unfolding expired_batch_def by (rule subset_trans [OF set_take_subset]) auto

lemma expired_batch_Nil:
  "expired_batch now db = [] \<longleftrightarrow> {l \<in> set (kd_limits db). expired_limit now l} = {}"
proof -
  have "sort_key f xs = [] \<longleftrightarrow> set xs = {}" for f :: "api_key_limit \<Rightarrow> datetime \<times> int" and xs
    using set_sort [of f xs] by (metis set_empty)
  then show ?thesis by (auto simp: expired_batch_def EXPIRED_LIMIT_RESET_BATCH_SIZE_def filter_empty_conv)
qed

lemma reset_batch_progress:
  assumes "expired_batch now (fst s) \<noteq> []"
  shows "{l \<in> set (kd_limits (fst (reset_batch now (expired_batch now (fst s)) s))). expired_limit now l} \<subset>
         {l \<in> set (kd_limits (fst s)). expired_limit now l}" (is "?after \<subset> ?before")
proof -
  let ?ls = "expired_batch now (fst s)"
  have after: "l \<in> set (kd_limits (fst s)) \<and> l \<notin> set ?ls" if "l \<in> ?after" for l
    using reset_batch_expired [of l now ?ls "fst s" "snd s"] that by simp
  have head: "hd ?ls \<in> set ?ls" using assms by simp
  have "?after \<subseteq> ?before" using after by blast
  moreover have "hd ?ls \<in> ?before" using subsetD [OF expired_batch_set head] .
  moreover have "hd ?ls \<notin> ?after" using after [of "hd ?ls"] head by blast
  ultimately show ?thesis by (metis psubsetI)
qed

function reset_expired_limits :: "datetime \<Rightarrow> key_db \<times> nat \<Rightarrow> key_db \<times> nat" where
  "reset_expired_limits now s =
     (if expired_batch now (fst s) = [] then s
      else reset_expired_limits now (reset_batch now (expired_batch now (fst s)) s))"
  by pat_completeness auto

termination
proof (relation "measure (\<lambda>(now, s). card {l \<in> set (kd_limits (fst s)). expired_limit now l})")
  fix now :: datetime and s :: "key_db \<times> nat"
  assume "expired_batch now (fst s) \<noteq> []"
  from psubset_card_mono [OF _ reset_batch_progress [OF this]]
  have "card {l \<in> set (kd_limits (fst (reset_batch now (expired_batch now (fst s)) s))). expired_limit now l} <
        card {l \<in> set (kd_limits (fst s)). expired_limit now l}" by simp
  then show "((now, reset_batch now (expired_batch now (fst s)) s), now, s)
      \<in> measure (\<lambda>(now, s). card {l \<in> set (kd_limits (fst s)). expired_limit now l})"
    by (simp only: in_measure prod.case)
qed simp

declare reset_expired_limits.simps [simp del]

text \<open>
  Releasing stale reservations also works in batches; releasing a reservation gives each of its
  items' charges back.
\<close>

definition release_item :: "string \<Rightarrow> reservation_item \<Rightarrow> key_db \<Rightarrow> key_db" where
  "release_item reservation_id item db =
     upsert_reservation_item_actual reservation_id item 0
       (fst (adjust_reserved_usage (ri_limit_id item) (- ri_reserved_delta item) (ri_expected_reset_at item) db))"

definition stale_reservation :: "datetime \<Rightarrow> usage_reservation \<Rightarrow> bool" where
  "stale_reservation cutoff r \<longleftrightarrow> rv_status r = Reserved \<and> rv_updated_at r < cutoff"

definition claim_stale :: "datetime \<Rightarrow> datetime \<Rightarrow> string \<Rightarrow> key_db \<Rightarrow> key_db \<times> bool" where
  "claim_stale now cutoff reservation_id db =
     update_reservations now (\<lambda>r. rv_id r = reservation_id \<and> stale_reservation cutoff r)
       (\<lambda>r. r\<lparr> rv_status := Released, rv_input_tokens := None, rv_output_tokens := None,
               rv_cached_input_tokens := None, rv_cost_microdollars := None \<rparr>) db"

fun release_batch ::
  "datetime \<Rightarrow> datetime \<Rightarrow> (string \<times> reservation_item list) list \<Rightarrow> key_db \<times> nat \<Rightarrow> key_db \<times> nat"
where
  "release_batch now cutoff [] s = s"
| "release_batch now cutoff ((reservation_id, items) # rest) (db, n) =
     (let (db', claimed) = claim_stale now cutoff reservation_id db
      in if claimed then release_batch now cutoff rest (fold (release_item reservation_id) items db', Suc n)
         else release_batch now cutoff rest (db', n))"

definition STALE_USAGE_RESERVATION_RELEASE_BATCH_SIZE :: nat where
  "STALE_USAGE_RESERVATION_RELEASE_BATCH_SIZE = 500"

definition stale_batch :: "datetime \<Rightarrow> nat \<Rightarrow> key_db \<Rightarrow> (string \<times> reservation_item list) list" where
  "stale_batch cutoff batch_size db =
     map (\<lambda>r. (rv_id r, filter (\<lambda>i. ri_reservation_id i = rv_id r) (kd_items db)))
       (take batch_size (sort_key rv_updated_at (filter (stale_reservation cutoff) (kd_reservations db))))"

lemma adjust_reserved_usage_frame [simp]:
  "kd_reservations (fst (adjust_reserved_usage i d e db)) = kd_reservations db"
  "kd_items (fst (adjust_reserved_usage i d e db)) = kd_items db"
  "kd_keys (fst (adjust_reserved_usage i d e db)) = kd_keys db"
  by (simp_all add: adjust_reserved_usage_def update_limits_def split_beta)

lemma upsert_item_frame [simp]:
  "kd_reservations (upsert_reservation_item_actual r it a db) = kd_reservations db"
  "kd_limits (upsert_reservation_item_actual r it a db) = kd_limits db"
  "kd_keys (upsert_reservation_item_actual r it a db) = kd_keys db"
  by (simp_all add: upsert_reservation_item_actual_def)

lemma release_items_reservations [simp]:
  "kd_reservations (fold (release_item r) items db) = kd_reservations db"
  by (induction items arbitrary: db) (simp_all add: release_item_def)

lemma claim_stale_rows:
  "kd_reservations (fst (claim_stale now cutoff i db)) =
     map (\<lambda>r. if rv_id r = i \<and> stale_reservation cutoff r
              then r\<lparr> rv_status := Released, rv_input_tokens := None, rv_output_tokens := None,
                      rv_cached_input_tokens := None, rv_cost_microdollars := None, rv_updated_at := now \<rparr>
              else r) (kd_reservations db)"
  by (simp add: claim_stale_def update_reservations_def update_where_def)

lemma release_batch_stale:
  "r \<in> set (kd_reservations (fst (release_batch now cutoff rs (db, n)))) \<Longrightarrow> stale_reservation cutoff r \<Longrightarrow>
     r \<in> set (kd_reservations db) \<and> rv_id r \<notin> set (map fst rs)"
proof (induction rs arbitrary: db n)
  case (Cons ri rs)
  obtain i items where ri: "ri = (i, items)" by (cases ri)
  let ?c = "claim_stale now cutoff i db"
  have "release_batch now cutoff (ri # rs) (db, n) =
      release_batch now cutoff rs
        (if snd ?c then (fold (release_item i) items (fst ?c), Suc n) else (fst ?c, n))"
    by (simp add: ri split_beta)
  then have "r \<in> set (kd_reservations (fst ?c)) \<and> rv_id r \<notin> set (map fst rs)"
    using Cons.IH [of "fst ?c" n] Cons.IH [of "fold (release_item i) items (fst ?c)" "Suc n"] Cons.prems
    by (cases "snd ?c") simp_all
  then show ?case using Cons.prems(2) ri
    by (auto simp: claim_stale_rows stale_reservation_def split: if_splits)
qed simp

lemma stale_batch_ids:
  "set (map fst (stale_batch cutoff bs db)) \<subseteq> rv_id ` {r \<in> set (kd_reservations db). stale_reservation cutoff r}"
proof -
  have "set (take bs (sort_key rv_updated_at (filter (stale_reservation cutoff) (kd_reservations db)))) \<subseteq>
      {r \<in> set (kd_reservations db). stale_reservation cutoff r}"
    by (rule subset_trans [OF set_take_subset]) auto
  then show ?thesis by (auto simp: stale_batch_def)
qed

lemma release_batch_progress:
  assumes "stale_batch cutoff bs (fst s) \<noteq> []"
  shows "{r \<in> set (kd_reservations (fst (release_batch now cutoff (stale_batch cutoff bs (fst s)) s))).
            stale_reservation cutoff r} \<subset> {r \<in> set (kd_reservations (fst s)). stale_reservation cutoff r}"
    (is "?after \<subset> ?before")
proof -
  let ?rs = "stale_batch cutoff bs (fst s)"
  have after: "r \<in> set (kd_reservations (fst s)) \<and> rv_id r \<notin> set (map fst ?rs)" if "r \<in> ?after" for r
    using release_batch_stale [of r now cutoff ?rs "fst s" "snd s"] that by simp
  obtain i where i: "i \<in> set (map fst ?rs)" using assms by (metis list.map_disc_iff list.set_intros(1) neq_Nil_conv)
  obtain r where r: "r \<in> ?before" "rv_id r = i" using subsetD [OF stale_batch_ids i] by (elim imageE) blast
  have "?after \<subseteq> ?before" using after by blast
  moreover have "r \<notin> ?after" using after [of r] r(2) i by blast
  ultimately show ?thesis using r(1) by (metis psubsetI)
qed

function release_stale_usage_reservations ::
  "datetime \<Rightarrow> datetime \<Rightarrow> nat \<Rightarrow> key_db \<times> nat \<Rightarrow> key_db \<times> nat"
where
  "release_stale_usage_reservations now cutoff batch_size s =
     (if stale_batch cutoff batch_size (fst s) = [] then s
      else release_stale_usage_reservations now cutoff batch_size
             (release_batch now cutoff (stale_batch cutoff batch_size (fst s)) s))"
  by pat_completeness auto

termination
proof (relation "measure (\<lambda>(now, cutoff, bs, s).
    card {r \<in> set (kd_reservations (fst s)). stale_reservation cutoff r})")
  fix now cutoff :: datetime and bs :: nat and s :: "key_db \<times> nat"
  assume "stale_batch cutoff bs (fst s) \<noteq> []"
  from psubset_card_mono [OF _ release_batch_progress [OF this, of now]]
  have "card {r \<in> set (kd_reservations (fst (release_batch now cutoff (stale_batch cutoff bs (fst s)) s))).
          stale_reservation cutoff r} < card {r \<in> set (kd_reservations (fst s)). stale_reservation cutoff r}" by simp
  then show "((now, cutoff, bs, release_batch now cutoff (stale_batch cutoff bs (fst s)) s), now, cutoff, bs, s)
      \<in> measure (\<lambda>(now, cutoff, bs, s). card {r \<in> set (kd_reservations (fst s)). stale_reservation cutoff r})"
    by (simp only: in_measure prod.case)
qed simp

declare release_stale_usage_reservations.simps [simp del]

end
