(* ===== verification/Pricing.thy ===== *)
theory Pricing
  imports Prelude
begin

text \<open>
  Cost calculation, \<open>app/core/usage/pricing.py\<close>: the price table and the model aliases, resolving a model
  name to a price, the rates a service tier and the context length give, and the cost of a usage.
  Amounts in US dollars are exact rational numbers; tables are association lists in the order of the
  dictionaries. Of the shell patterns of \<open>fnmatchcase\<close>, the stars and question marks are modelled;
  the alias table uses no character classes.
\<close>

section \<open>Prices\<close>

record model_price =
  mp_input_per_1m :: rat
  mp_output_per_1m :: rat
  mp_cached_input_per_1m :: "rat option"
  mp_priority_multiplier :: "rat option"
  mp_priority_input_per_1m :: "rat option"
  mp_priority_output_per_1m :: "rat option"
  mp_priority_cached_input_per_1m :: "rat option"
  mp_flex_input_per_1m :: "rat option"
  mp_flex_output_per_1m :: "rat option"
  mp_flex_cached_input_per_1m :: "rat option"
  mp_long_context_threshold_tokens :: "rat option"
  mp_long_context_input_per_1m :: "rat option"
  mp_long_context_output_per_1m :: "rat option"
  mp_long_context_cached_input_per_1m :: "rat option"

definition base_price :: "rat \<Rightarrow> rat \<Rightarrow> model_price" where
  "base_price input output =
     \<lparr> mp_input_per_1m = input, mp_output_per_1m = output,
       mp_cached_input_per_1m = None, mp_priority_multiplier = None, mp_priority_input_per_1m =
       None, mp_priority_output_per_1m = None, mp_priority_cached_input_per_1m = None,
       mp_flex_input_per_1m = None, mp_flex_output_per_1m = None, mp_flex_cached_input_per_1m =
       None, mp_long_context_threshold_tokens = None, mp_long_context_input_per_1m = None,
       mp_long_context_output_per_1m = None, mp_long_context_cached_input_per_1m = None \<rparr>"

definition DEFAULT_PRICING_MODELS :: "(string \<times> model_price) list" where
  "DEFAULT_PRICING_MODELS =
     [(''gpt-5.5'', (base_price (5) (30))
        \<lparr> mp_cached_input_per_1m := Some (1 / 2), mp_priority_input_per_1m := Some (25 / 2),
          mp_priority_output_per_1m := Some 75, mp_priority_cached_input_per_1m := Some (5 / 4),
          mp_flex_input_per_1m := Some (5 / 2), mp_flex_output_per_1m := Some 15,
          mp_flex_cached_input_per_1m := Some (1 / 4) \<rparr>),
      (''gpt-5.5-pro'', (base_price (30) (180))
        \<lparr> mp_flex_input_per_1m := Some 15, mp_flex_output_per_1m := Some 90 \<rparr>),
      (''gpt-5.4'', (base_price (5 / 2) (15))
        \<lparr> mp_cached_input_per_1m := Some (1 / 4), mp_priority_input_per_1m := Some 5,
          mp_priority_output_per_1m := Some 30, mp_priority_cached_input_per_1m := Some (1 / 2),
          mp_flex_input_per_1m := Some (5 / 4), mp_flex_output_per_1m := Some (15 / 2),
          mp_flex_cached_input_per_1m := Some (1 / 8),
          mp_long_context_threshold_tokens := Some 272000,
          mp_long_context_input_per_1m := Some 5, mp_long_context_output_per_1m := Some (45 / 2),
          mp_long_context_cached_input_per_1m := Some (1 / 2) \<rparr>),
      (''gpt-5.4-mini'', (base_price (3 / 4) (9 / 2))
        \<lparr> mp_cached_input_per_1m := Some (3 / 40), mp_flex_input_per_1m := Some (3 / 8),
          mp_flex_output_per_1m := Some (9 / 4), mp_flex_cached_input_per_1m := Some (3 / 80) \<rparr>),
      (''gpt-5.4-nano'', (base_price (1 / 5) (5 / 4))
        \<lparr> mp_cached_input_per_1m := Some (1 / 50), mp_flex_input_per_1m := Some (1 / 10),
          mp_flex_output_per_1m := Some (5 / 8), mp_flex_cached_input_per_1m := Some (1 / 100) \<rparr>),
      (''gpt-5.4-pro'', (base_price (30) (180))
        \<lparr> mp_flex_input_per_1m := Some 15, mp_flex_output_per_1m := Some 90,
          mp_long_context_threshold_tokens := Some 272000,
          mp_long_context_input_per_1m := Some 60, mp_long_context_output_per_1m := Some 270 \<rparr>),
      (''gpt-5.3-codex'', (base_price (7 / 4) (14))
        \<lparr> mp_cached_input_per_1m := Some (7 / 40), mp_priority_input_per_1m := Some (7 / 2),
          mp_priority_output_per_1m := Some 28, mp_priority_cached_input_per_1m := Some (7 / 20) \<rparr>),
      (''gpt-5.3'', (base_price (7 / 4) (14))
        \<lparr> mp_cached_input_per_1m := Some (7 / 40) \<rparr>),
      (''gpt-5.3-chat-latest'', (base_price (7 / 4) (14))
        \<lparr> mp_cached_input_per_1m := Some (7 / 40) \<rparr>),
      (''gpt-5.2'', (base_price (7 / 4) (14))
        \<lparr> mp_cached_input_per_1m := Some (7 / 40), mp_priority_multiplier := Some 2,
          mp_flex_input_per_1m := Some (7 / 8), mp_flex_output_per_1m := Some 7,
          mp_flex_cached_input_per_1m := Some (7 / 80) \<rparr>),
      (''gpt-5.2-chat-latest'', (base_price (7 / 4) (14))
        \<lparr> mp_cached_input_per_1m := Some (7 / 40) \<rparr>),
      (''gpt-5.1'', (base_price (5 / 4) (10))
        \<lparr> mp_cached_input_per_1m := Some (1 / 8), mp_priority_multiplier := Some 2,
          mp_flex_input_per_1m := Some (5 / 8), mp_flex_output_per_1m := Some 5,
          mp_flex_cached_input_per_1m := Some (1 / 16) \<rparr>),
      (''gpt-5.1-chat-latest'', (base_price (5 / 4) (10))
        \<lparr> mp_cached_input_per_1m := Some (1 / 8) \<rparr>),
      (''gpt-5'', (base_price (5 / 4) (10))
        \<lparr> mp_cached_input_per_1m := Some (1 / 8), mp_priority_multiplier := Some 2,
          mp_flex_input_per_1m := Some (5 / 8), mp_flex_output_per_1m := Some 5,
          mp_flex_cached_input_per_1m := Some (1 / 16) \<rparr>),
      (''gpt-5-chat-latest'', (base_price (5 / 4) (10))
        \<lparr> mp_cached_input_per_1m := Some (1 / 8) \<rparr>),
      (''gpt-5.2-codex'', (base_price (7 / 4) (14))
        \<lparr> mp_cached_input_per_1m := Some (7 / 40), mp_priority_input_per_1m := Some (7 / 2),
          mp_priority_output_per_1m := Some 28, mp_priority_cached_input_per_1m := Some (7 / 20) \<rparr>),
      (''gpt-5.1-codex-max'', (base_price (5 / 4) (10))
        \<lparr> mp_cached_input_per_1m := Some (1 / 8), mp_priority_input_per_1m := Some (5 / 2),
          mp_priority_output_per_1m := Some 20, mp_priority_cached_input_per_1m := Some (1 / 4) \<rparr>),
      (''gpt-5.1-codex-mini'', (base_price (1 / 4) (2))
        \<lparr> mp_cached_input_per_1m := Some (1 / 40) \<rparr>),
      (''gpt-5.1-codex'', (base_price (5 / 4) (10))
        \<lparr> mp_cached_input_per_1m := Some (1 / 8), mp_priority_input_per_1m := Some (5 / 2),
          mp_priority_output_per_1m := Some 20, mp_priority_cached_input_per_1m := Some (1 / 4) \<rparr>),
      (''gpt-5-codex'', (base_price (5 / 4) (10))
        \<lparr> mp_cached_input_per_1m := Some (1 / 8), mp_priority_input_per_1m := Some (5 / 2),
          mp_priority_output_per_1m := Some 20, mp_priority_cached_input_per_1m := Some (1 / 4) \<rparr>),
      (''gpt-image-2'', (base_price (5) (30))
        \<lparr> mp_cached_input_per_1m := Some 2 \<rparr>),
      (''gpt-image-1.5'', (base_price (5) (30))
        \<lparr> mp_cached_input_per_1m := Some 2 \<rparr>),
      (''gpt-image-1'', (base_price (5) (30))
        \<lparr> mp_cached_input_per_1m := Some 2 \<rparr>),
      (''gpt-image-1-mini'', (base_price (5) (30))
        \<lparr> mp_cached_input_per_1m := Some 2 \<rparr>)]"

definition DEFAULT_MODEL_ALIASES :: "(string \<times> string) list" where
  "DEFAULT_MODEL_ALIASES =
     [(''gpt-5.5-pro*'', ''gpt-5.5-pro''),
      (''gpt-5.5*'', ''gpt-5.5''),
      (''gpt-5.4-pro*'', ''gpt-5.4-pro''),
      (''gpt-5.4-mini*'', ''gpt-5.4-mini''),
      (''gpt-5.4-nano*'', ''gpt-5.4-nano''),
      (''gpt-5.4*'', ''gpt-5.4''),
      (''gpt-5.3-codex*'', ''gpt-5.3-codex''),
      (''gpt-5.3-chat-latest*'', ''gpt-5.3-chat-latest''),
      (''gpt-5.2-codex*'', ''gpt-5.2-codex''),
      (''gpt-5.2-chat-latest*'', ''gpt-5.2-chat-latest''),
      (''gpt-5.3*'', ''gpt-5.3''),
      (''gpt-5.1-chat-latest*'', ''gpt-5.1-chat-latest''),
      (''gpt-5.2*'', ''gpt-5.2''),
      (''gpt-5-chat-latest*'', ''gpt-5-chat-latest''),
      (''gpt-5.1*'', ''gpt-5.1''),
      (''gpt-5*'', ''gpt-5''),
      (''gpt-5.1-codex-max*'', ''gpt-5.1-codex-max''),
      (''gpt-5.1-codex-mini*'', ''gpt-5.1-codex-mini''),
      (''gpt-5.1-codex*'', ''gpt-5.1-codex''),
      (''gpt-5-codex*'', ''gpt-5-codex''),
      (''gpt-image-2*'', ''gpt-image-2''),
      (''gpt-image-1.5*'', ''gpt-image-1.5''),
      (''gpt-image-1-mini*'', ''gpt-image-1-mini''),
      (''gpt-image-1*'', ''gpt-image-1'')]"

record usage_tokens =
  ut_input_tokens :: rat
  ut_output_tokens :: rat
  ut_cached_input_tokens :: rat

text \<open>The usage object of an upstream response, as far as prices need it.\<close>

record response_usage =
  ru_input_tokens :: "int option"
  ru_output_tokens :: "int option"
  ru_reasoning_tokens :: "int option option"
  ru_cached_tokens :: "int option option"

datatype any_usage = Tokens usage_tokens | Response response_usage

definition as_number :: "int option \<Rightarrow> rat option" where
  "as_number v = map_option of_int v"

definition normalize_usage :: "any_usage option \<Rightarrow> usage_tokens option" where
  "normalize_usage usage =
     (case usage of
        None \<Rightarrow> None
      | Some (Tokens u) \<Rightarrow> Some u
      | Some (Response r) \<Rightarrow>
          (let input_tokens = as_number (ru_input_tokens r);
               output_tokens =
                 (case as_number (ru_output_tokens r) of
                    Some out \<Rightarrow> Some out
                  | None \<Rightarrow> (case ru_reasoning_tokens r of Some v \<Rightarrow> as_number v | None \<Rightarrow> None));
               cached = (case ru_cached_tokens r of
                           Some v \<Rightarrow> or_num (as_number v) 0
                         | None \<Rightarrow> 0)
           in case (input_tokens, output_tokens) of
                (Some i, Some out) \<Rightarrow>
                  Some \<lparr> ut_input_tokens = i, ut_output_tokens = out,
                         ut_cached_input_tokens = max 0 (min cached i) \<rparr>
              | _ \<Rightarrow> None))"

section \<open>Resolving a model\<close>

fun fnmatch :: "string \<Rightarrow> string \<Rightarrow> bool" where
  "fnmatch s [] = (s = [])"
| "fnmatch [] (p # ps) = (p = CHR ''*'' \<and> fnmatch [] ps)"
| "fnmatch (c # s) (p # ps) =
     (if p = CHR ''*'' then fnmatch (c # s) ps \<or> fnmatch s (p # ps)
      else (p = CHR ''?'' \<or> p = c) \<and> fnmatch s ps)"

definition resolve_model_alias :: "string \<Rightarrow> (string \<times> string) list \<Rightarrow> string option" where
  "resolve_model_alias model aliases =
     (if model = [] then None
      else map_option snd
             (max_by fst (map (\<lambda>(pattern, target). (length pattern, target))
                (filter (\<lambda>(pattern, target). fnmatch (py_lower model) (py_lower pattern)) aliases))))"

definition price_named :: "string \<Rightarrow> (string \<times> model_price) list \<Rightarrow> (string \<times> model_price) option" where
  "price_named name pricing = find (\<lambda>(key, price). py_lower key = py_lower name) pricing"

text \<open>\<open>x or d\<close> for a table: an absent and an empty table give the default.\<close>

definition or_table :: "'a list option \<Rightarrow> 'a list \<Rightarrow> 'a list" where
  "or_table x d = (case x of None \<Rightarrow> d | Some xs \<Rightarrow> if xs = [] then d else xs)"

definition get_pricing_for_model ::
  "string \<Rightarrow> (string \<times> model_price) list option \<Rightarrow> (string \<times> string) list option \<Rightarrow>
   (string \<times> model_price) option"
where
  "get_pricing_for_model model pricing0 aliases0 =
     (if model = [] then None
      else
        let pricing = or_table pricing0 DEFAULT_PRICING_MODELS;
            aliases = or_table aliases0 DEFAULT_MODEL_ALIASES
        in case price_named model pricing of
             Some found \<Rightarrow> Some found
           | None \<Rightarrow>
               (case resolve_model_alias (py_lower model) aliases of
                  None \<Rightarrow> None
                | Some target \<Rightarrow> if target = [] then None else price_named target pricing))"

section \<open>Rates\<close>

definition normalize_tier :: "string option \<Rightarrow> string option" where
  "normalize_tier tier =
     (case tier of
        None \<Rightarrow> None
      | Some t \<Rightarrow> (let stripped = py_lower (py_strip t) in if stripped = [] then None else Some stripped))"

definition uses_priority_tier :: "string option \<Rightarrow> bool" where
  "uses_priority_tier tier \<longleftrightarrow> normalize_tier tier \<in> {Some ''priority'', Some ''fast''}"

definition uses_flex_tier :: "string option \<Rightarrow> bool" where
  "uses_flex_tier tier \<longleftrightarrow> normalize_tier tier = Some ''flex''"

definition or_else :: "'a option \<Rightarrow> 'a \<Rightarrow> 'a" where
  "or_else x d = (case x of Some v \<Rightarrow> v | None \<Rightarrow> d)"

definition is_long_context :: "usage_tokens \<Rightarrow> model_price \<Rightarrow> bool" where
  "is_long_context usage price \<longleftrightarrow>
     (case mp_long_context_threshold_tokens price of Some t \<Rightarrow> t < ut_input_tokens usage | None \<Rightarrow> False) \<and>
     mp_long_context_input_per_1m price \<noteq> None \<and> mp_long_context_output_per_1m price \<noteq> None"

definition standard_rates :: "usage_tokens \<Rightarrow> model_price \<Rightarrow> rat \<times> rat \<times> rat" where
  "standard_rates usage price =
     (if is_long_context usage price then
        (let input = the (mp_long_context_input_per_1m price)
         in (input, or_else (mp_long_context_cached_input_per_1m price) input,
             the (mp_long_context_output_per_1m price)))
      else (mp_input_per_1m price, or_else (mp_cached_input_per_1m price) (mp_input_per_1m price),
            mp_output_per_1m price))"

definition flex_or_standard_rates :: "usage_tokens \<Rightarrow> model_price \<Rightarrow> string option \<Rightarrow> rat \<times> rat \<times> rat" where
  "flex_or_standard_rates usage price tier =
     (case (mp_flex_input_per_1m price, mp_flex_output_per_1m price) of
        (Some input, Some output) \<Rightarrow>
          if uses_flex_tier tier then
            (let cached = or_else (mp_flex_cached_input_per_1m price) input
             in if is_long_context usage price then (input * 2, cached * 2, output * (3 / 2))
                else (input, cached, output))
          else standard_rates usage price
      | _ \<Rightarrow> standard_rates usage price)"

definition effective_rates :: "usage_tokens \<Rightarrow> model_price \<Rightarrow> string option \<Rightarrow> rat \<times> rat \<times> rat" where
  "effective_rates usage price tier =
     (if uses_priority_tier tier then
        (case (mp_priority_input_per_1m price, mp_priority_output_per_1m price, mp_priority_multiplier price) of
           (Some input, Some output, _) \<Rightarrow>
             (input, or_else (mp_priority_cached_input_per_1m price) input, output)
         | (_, _, Some m) \<Rightarrow>
             (mp_input_per_1m price * m,
              or_else (mp_cached_input_per_1m price) (mp_input_per_1m price) * m,
              mp_output_per_1m price * m)
         | _ \<Rightarrow> flex_or_standard_rates usage price tier)
      else flex_or_standard_rates usage price tier)"

definition calculate_cost_from_usage :: "any_usage option \<Rightarrow> model_price \<Rightarrow> string option \<Rightarrow> rat option" where
  "calculate_cost_from_usage usage price tier =
     (case normalize_usage usage of
        None \<Rightarrow> None
      | Some u \<Rightarrow>
          (let (input_rate, cached_rate, output_rate) = effective_rates u price tier
           in Some ((ut_input_tokens u - ut_cached_input_tokens u) / 1000000 * input_rate +
                    ut_cached_input_tokens u / 1000000 * cached_rate +
                    ut_output_tokens u / 1000000 * output_rate)))"

section \<open>Summaries\<close>

record cost_item =
  ci_model :: string
  ci_usage :: "any_usage option"
  ci_service_tier :: "string option"

definition item_cost ::
  "(string \<times> model_price) list option \<Rightarrow> (string \<times> string) list option \<Rightarrow> cost_item \<Rightarrow> (string \<times> rat) option"
where
  "item_cost pricing aliases item =
     (case get_pricing_for_model (ci_model item) pricing aliases of
        None \<Rightarrow> None
      | Some (canonical, price) \<Rightarrow>
          map_option (Pair canonical) (calculate_cost_from_usage (ci_usage item) price (ci_service_tier item)))"

definition cost_of_model :: "string \<Rightarrow> (string \<times> rat) list \<Rightarrow> rat" where
  "cost_of_model m costs = sum_list (map snd (filter (\<lambda>c. fst c = m) costs))"

text \<open>The total and the per-model totals, both rounded to six places, the models in ascending order.\<close>

definition calculate_costs ::
  "cost_item list \<Rightarrow> (string \<times> model_price) list option \<Rightarrow> (string \<times> string) list option \<Rightarrow>
   rat \<times> (string \<times> rat) list"
where
  "calculate_costs items pricing aliases =
     (let costs = List.map_filter (item_cost pricing aliases) items;
          models = sort (remdups (map fst costs))
      in (py_round 6 (sum_list (map snd costs)),
          map (\<lambda>m. (m, py_round 6 (cost_of_model m costs))) models))"

section \<open>Laws\<close>

text \<open>Sound prices: no rate is negative and cached input is never dearer than input, in each tier.\<close>

definition rates_ok :: "rat \<times> rat \<times> rat \<Rightarrow> bool" where
  "rates_ok r = (case r of (i, c, out) \<Rightarrow> 0 \<le> c \<and> c \<le> i \<and> 0 \<le> out)"

definition price_ok :: "model_price \<Rightarrow> bool" where
  "price_ok p \<longleftrightarrow>
     rates_ok (mp_input_per_1m p, or_else (mp_cached_input_per_1m p) (mp_input_per_1m p), mp_output_per_1m p) \<and>
     (case mp_priority_multiplier p of Some m \<Rightarrow> 0 \<le> m | None \<Rightarrow> True) \<and>
     (case (mp_priority_input_per_1m p, mp_priority_output_per_1m p) of
        (Some i, Some out) \<Rightarrow> rates_ok (i, or_else (mp_priority_cached_input_per_1m p) i, out) | _ \<Rightarrow> True) \<and>
     (case (mp_flex_input_per_1m p, mp_flex_output_per_1m p) of
        (Some i, Some out) \<Rightarrow> rates_ok (i, or_else (mp_flex_cached_input_per_1m p) i, out) | _ \<Rightarrow> True) \<and>
     (case (mp_long_context_input_per_1m p, mp_long_context_output_per_1m p) of
        (Some i, Some out) \<Rightarrow> rates_ok (i, or_else (mp_long_context_cached_input_per_1m p) i, out) | _ \<Rightarrow> True)"

lemma standard_rates_ok: "price_ok p \<Longrightarrow> rates_ok (standard_rates u p)"
  by (auto simp: standard_rates_def price_ok_def is_long_context_def Let_def split: option.splits)

lemma flex_or_standard_rates_ok: "price_ok p \<Longrightarrow> rates_ok (flex_or_standard_rates u p tier)"
  using standard_rates_ok [of p u]
  by (auto simp: flex_or_standard_rates_def price_ok_def rates_ok_def Let_def split: option.splits)

lemma effective_rates_ok: "price_ok p \<Longrightarrow> rates_ok (effective_rates u p tier)"
  using flex_or_standard_rates_ok [of p u tier]
  by (auto simp: effective_rates_def price_ok_def rates_ok_def mult_right_mono split: option.splits)

lemma default_prices_ok: "list_all (\<lambda>(k, p). price_ok p) DEFAULT_PRICING_MODELS"
  by (simp add: DEFAULT_PRICING_MODELS_def base_price_def price_ok_def rates_ok_def or_else_def)

lemma price_named_member: "price_named n pricing = Some (k, p) \<Longrightarrow> (k, p) \<in> set pricing"
  by (induction pricing) (auto simp: price_named_def split: if_splits)

lemma get_pricing_member:
  "get_pricing_for_model m None None = Some (k, p) \<Longrightarrow> (k, p) \<in> set DEFAULT_PRICING_MODELS"
  by (auto simp: get_pricing_for_model_def or_table_def Let_def dest: price_named_member
      split: if_splits option.splits)

lemma default_price_ok: "get_pricing_for_model m None None = Some (k, p) \<Longrightarrow> price_ok p"
  using get_pricing_member default_prices_ok by (fastforce simp: list_all_iff)

lemma cost_ge_0:
  assumes "rates_ok (i, c, out)" "0 \<le> cached" "cached \<le> inp" "0 \<le> outp"
  shows "0 \<le> (inp - cached) / 1000000 * i + cached / 1000000 * c + outp / 1000000 * (out :: rat)"
    and "(inp - cached) / 1000000 * i + cached / 1000000 * c + outp / 1000000 * out
           \<le> inp / 1000000 * i + outp / 1000000 * out"
proof -
  from assms(1) have r: "0 \<le> c" "c \<le> i" "0 \<le> out" by (auto simp: rates_ok_def)
  have "0 \<le> (inp - cached) * i" "0 \<le> cached * c" "0 \<le> outp * out" "cached * c \<le> cached * i"
    using assms r by (auto intro: mult_nonneg_nonneg mult_left_mono)
  then show "0 \<le> (inp - cached) / 1000000 * i + cached / 1000000 * c + outp / 1000000 * out"
    and "(inp - cached) / 1000000 * i + cached / 1000000 * c + outp / 1000000 * out
           \<le> inp / 1000000 * i + outp / 1000000 * out"
    by (simp_all add: field_simps)
qed

text \<open>The cached tokens do not decide which rates apply.\<close>

lemma is_long_context_cached [simp]:
  "is_long_context (u\<lparr> ut_cached_input_tokens := c \<rparr>) p = is_long_context u p"
  by (simp add: is_long_context_def split: option.split)

lemma effective_rates_cached [simp]:
  "effective_rates (u\<lparr> ut_cached_input_tokens := c \<rparr>) p tier = effective_rates u p tier"
  by (simp add: effective_rates_def flex_or_standard_rates_def standard_rates_def split: option.split)

text \<open>Costs are sound. For every model the default tables price, every service tier and every usage
  with non-negative token counts and no more cached than input tokens, a cost is computed, it is not
  negative, and it is at most the cost of the same usage with nothing cached.\<close>

theorem cost_between_zero_and_uncached:
  assumes "get_pricing_for_model m None None = Some (k, p)"
    and "0 \<le> ut_cached_input_tokens u" "ut_cached_input_tokens u \<le> ut_input_tokens u" "0 \<le> ut_output_tokens u"
  shows "\<exists>c d. calculate_cost_from_usage (Some (Tokens u)) p tier = Some c \<and>
           calculate_cost_from_usage (Some (Tokens (u\<lparr> ut_cached_input_tokens := 0 \<rparr>))) p tier = Some d \<and>
           0 \<le> c \<and> c \<le> d"
proof -
  obtain i c out where rates: "effective_rates u p tier = (i, c, out)" by (cases "effective_rates u p tier")
  have "rates_ok (i, c, out)" using effective_rates_ok [OF default_price_ok [OF assms(1)], of u tier] rates by simp
  from cost_ge_0 [OF this assms(2-4)] show ?thesis
    by (simp add: calculate_cost_from_usage_def normalize_usage_def rates)
qed

definition sample_price :: model_price where
  "sample_price = (base_price (5 / 4) 10)
     \<lparr> mp_cached_input_per_1m := Some (1 / 8), mp_priority_multiplier := Some 2,
       mp_flex_input_per_1m := Some (5 / 8), mp_flex_output_per_1m := Some 5,
       mp_flex_cached_input_per_1m := Some (1 / 16) \<rparr>"

lemma sample_price_found: "get_pricing_for_model ''gpt-5'' None None = Some (''gpt-5'', sample_price)"
  by (simp add: get_pricing_for_model_def or_table_def price_named_def DEFAULT_PRICING_MODELS_def py_lower_def
      lower_char_def char_of_def bit_Suc_0_iff sample_price_def base_price_def)

theorem cost_between_zero_and_uncached_witness:
  "\<exists>c d. calculate_cost_from_usage
       (Some (Tokens \<lparr> ut_input_tokens = 1000, ut_output_tokens = 50, ut_cached_input_tokens = 400 \<rparr>))
       sample_price (Some ''flex'') = Some c \<and>
     calculate_cost_from_usage
       (Some (Tokens \<lparr> ut_input_tokens = 1000, ut_output_tokens = 50, ut_cached_input_tokens = 0 \<rparr>))
       sample_price (Some ''flex'') = Some d \<and> 0 \<le> c \<and> c \<le> d"
  using cost_between_zero_and_uncached [OF sample_price_found,
      of "\<lparr> ut_input_tokens = 1000, ut_output_tokens = 50, ut_cached_input_tokens = 400 \<rparr>" "Some ''flex''"]
  by simp

text \<open>Tokens handed over directly are not clamped, unlike those of a response: more cached than input
  tokens make the cost negative.\<close>

lemma unclamped_cached_tokens_negative:
  "calculate_cost_from_usage
     (Some (Tokens \<lparr> ut_input_tokens = 0, ut_output_tokens = 0, ut_cached_input_tokens = 1000000 \<rparr>))
     (base_price 5 30 \<lparr> mp_cached_input_per_1m := Some (1 / 2) \<rparr>) None = Some (- (9 / 2))"
  by (simp add: calculate_cost_from_usage_def normalize_usage_def effective_rates_def uses_priority_tier_def
      normalize_tier_def flex_or_standard_rates_def standard_rates_def is_long_context_def base_price_def or_else_def)

section \<open>Aliases\<close>

definition wildcard :: "char \<Rightarrow> bool" where
  "wildcard c \<longleftrightarrow> c = CHR ''*'' \<or> c = CHR ''?''"

lemma fnmatch_star: "fnmatch s ''*''"
  by (induction s) auto

lemma fnmatch_prefix: "list_all (\<lambda>c. \<not> wildcard c) p \<Longrightarrow> fnmatch s (p @ ''*'') \<longleftrightarrow> startswith s p"
proof (induction p arbitrary: s)
  case Nil
  then show ?case using fnmatch_star by (simp add: startswith_def)
next
  case (Cons c p)
  then show ?case by (cases s) (auto simp: startswith_def wildcard_def)
qed

lemma resolve_model_alias_longest:
  assumes "resolve_model_alias m aliases = Some t"
  shows "\<exists>pattern. (pattern, t) \<in> set aliases \<and> fnmatch (py_lower m) (py_lower pattern) \<and>
           list_all (\<lambda>(q, v). fnmatch (py_lower m) (py_lower q) \<longrightarrow> length q \<le> length pattern) aliases"
proof -
  let ?hits = "filter (\<lambda>(pattern, target). fnmatch (py_lower m) (py_lower pattern)) aliases"
  from assms obtain n where n: "max_by fst (map (\<lambda>(pattern, target). (length pattern, target)) ?hits) = Some (n, t)"
    by (auto simp: resolve_model_alias_def split: if_splits)
  from max_by_in [OF n] obtain pattern where p: "(pattern, t) \<in> set ?hits" "n = length pattern" by auto
  have "length q \<le> n" if "(q, v) \<in> set ?hits" for q v
    using max_by_ge [OF n, of "(length q, v)"] that by force
  with p show ?thesis by (fastforce simp: list_all_iff)
qed

lemma resolve_model_alias_None:
  "resolve_model_alias m aliases = None \<longleftrightarrow>
     m = [] \<or> list_all (\<lambda>(q, v). \<not> fnmatch (py_lower m) (py_lower q)) aliases"
  by (auto simp: resolve_model_alias_def filter_empty_conv list_all_iff)

lemma price_named_listed: "v \<in> set (map fst pricing) \<Longrightarrow> price_named v pricing \<noteq> None"
  by (induction pricing) (auto simp: price_named_def)

lemma default_targets_listed:
  "list_all (\<lambda>(q, v). v \<noteq> [] \<and> v \<in> set (map fst DEFAULT_PRICING_MODELS)) DEFAULT_MODEL_ALIASES"
  by (simp add: DEFAULT_MODEL_ALIASES_def DEFAULT_PRICING_MODELS_def)

lemma default_targets_priced:
  "(q, v) \<in> set DEFAULT_MODEL_ALIASES \<Longrightarrow> v \<noteq> [] \<and> price_named v DEFAULT_PRICING_MODELS \<noteq> None"
  using default_targets_listed price_named_listed by (fastforce simp: list_all_iff)

text \<open>Model names resolve to the most specific price. With the default tables, a name that is no entry
  itself is priced exactly when some alias pattern matches it, and then it gets the price of the
  target of a longest matching pattern; no matching alias ever leaves a model unpriced.\<close>

theorem alias_pricing:
  assumes "model \<noteq> []" "price_named model DEFAULT_PRICING_MODELS = None"
  shows "case get_pricing_for_model model None None of
      None \<Rightarrow> list_all (\<lambda>(q, v). \<not> fnmatch (py_lower model) (py_lower q)) DEFAULT_MODEL_ALIASES
    | Some found \<Rightarrow> (\<exists>pattern target. (pattern, target) \<in> set DEFAULT_MODEL_ALIASES \<and>
        fnmatch (py_lower model) (py_lower pattern) \<and>
        price_named target DEFAULT_PRICING_MODELS = Some found \<and>
        list_all (\<lambda>(q, v). fnmatch (py_lower model) (py_lower q) \<longrightarrow> length q \<le> length pattern)
          DEFAULT_MODEL_ALIASES)"
proof (cases "resolve_model_alias (py_lower model) DEFAULT_MODEL_ALIASES")
  case None
  then have "get_pricing_for_model model None None = None"
    using assms by (simp add: get_pricing_for_model_def or_table_def)
  then show ?thesis using None assms(1) by (simp add: resolve_model_alias_None)
next
  case (Some target)
  from resolve_model_alias_longest [OF Some] obtain pattern where
    p: "(pattern, target) \<in> set DEFAULT_MODEL_ALIASES" "fnmatch (py_lower model) (py_lower pattern)"
    "list_all (\<lambda>(q, v). fnmatch (py_lower model) (py_lower q) \<longrightarrow> length q \<le> length pattern) DEFAULT_MODEL_ALIASES"
    by auto
  then obtain found where found: "target \<noteq> []" "price_named target DEFAULT_PRICING_MODELS = Some found"
    using default_targets_priced [OF p(1)] by blast
  then have "get_pricing_for_model model None None = Some found"
    using assms Some by (simp add: get_pricing_for_model_def or_table_def)
  then show ?thesis using p found by auto
qed

lemma sample_unlisted: "price_named ''gpt-5.1-codex-mini-x'' DEFAULT_PRICING_MODELS = None"
  by (simp add: price_named_def DEFAULT_PRICING_MODELS_def py_lower_def lower_char_def char_of_def bit_Suc_0_iff)

theorem alias_pricing_witness:
  "\<exists>found pattern target. get_pricing_for_model ''gpt-5.1-codex-mini-x'' None None = Some found \<and>
     (pattern, target) \<in> set DEFAULT_MODEL_ALIASES \<and> length ''gpt-5*'' \<le> length pattern \<and>
     price_named target DEFAULT_PRICING_MODELS = Some found"
proof -
  have listed: "(''gpt-5*'', ''gpt-5'') \<in> set DEFAULT_MODEL_ALIASES" by (simp add: DEFAULT_MODEL_ALIASES_def)
  have hit: "fnmatch (py_lower ''gpt-5.1-codex-mini-x'') (py_lower ''gpt-5*'')"
    by (simp add: py_lower_def lower_char_def char_of_def bit_Suc_0_iff)
  show ?thesis
    using alias_pricing [OF _ sample_unlisted] listed hit
    by (fastforce simp: list_all_iff split: option.splits)
qed

end
