(* ===== verification/Key_Service.thy ===== *)
theory Key_Service
  imports Api_Keys Pricing Caches
begin

text \<open>
  The API key service, \<open>app/modules/api_keys/service.py\<close>: admitting a request against the limits of its
  key by reserving usage, settling or releasing the reservation, and managing keys. A reservation id,
  a new key's id and plain text and the hash function are arguments. The writer section makes each
  operation atomic; an operation that raises after its rollback returns the tables as they were at
  its last commit.
\<close>

section \<open>Errors\<close>

datatype key_error =
  Api_Key_Not_Found string
| Api_Key_Invalid string
| Api_Key_Rate_Limit_Exceeded string datetime
| Value_Error string

definition limit_type_value :: "limit_type \<Rightarrow> string" where
  "limit_type_value t =
     (case t of
        TOTAL_TOKENS \<Rightarrow> ''total_tokens''
      | INPUT_TOKENS \<Rightarrow> ''input_tokens''
      | OUTPUT_TOKENS \<Rightarrow> ''output_tokens''
      | COST_USD \<Rightarrow> ''cost_usd''
      | CREDITS \<Rightarrow> ''credits'')"

definition limit_window_value :: "limit_window \<Rightarrow> string" where
  "limit_window_value w =
     (case w of
        DAILY \<Rightarrow> ''daily''
      | WEEKLY \<Rightarrow> ''weekly''
      | MONTHLY \<Rightarrow> ''monthly''
      | FIVE_HOURS \<Rightarrow> ''5h''
      | SEVEN_DAYS \<Rightarrow> ''7d'')"

definition rate_limit_exceeded_error :: "api_key_limit \<Rightarrow> key_error" where
  "rate_limit_exceeded_error l =
     Api_Key_Rate_Limit_Exceeded
       (''API key '' @ limit_type_value (kl_limit_type l) @ '' '' @ limit_window_value (kl_limit_window l) @
        '' limit exceeded'' @
        (if truthy_str (kl_model_filter l) then '' for model '' @ the (kl_model_filter l) else []))
       (kl_reset_at l)"

section \<open>Costs and budgets\<close>

definition calculate_cost_microdollars :: "string \<Rightarrow> int \<Rightarrow> int \<Rightarrow> int \<Rightarrow> string option \<Rightarrow> int" where
  "calculate_cost_microdollars model input_tokens output_tokens cached_input_tokens service_tier =
     (case get_pricing_for_model model None None of
        None \<Rightarrow> 0
      | Some (_, price) \<Rightarrow>
          (case calculate_cost_from_usage
                  (Some (Tokens \<lparr> ut_input_tokens = of_int input_tokens, ut_output_tokens = of_int output_tokens,
                                  ut_cached_input_tokens = of_int cached_input_tokens \<rparr>))
                  price service_tier of
             None \<Rightarrow> 0
           | Some cost_usd \<Rightarrow> py_int (cost_usd * 1000000)))"

definition API_KEY_USAGE_RESERVATION_MAX_TOKEN_BUDGET :: int where
  "API_KEY_USAGE_RESERVATION_MAX_TOKEN_BUDGET = 8192"
definition API_KEY_USAGE_RESERVATION_DEFAULT_INPUT_TOKENS :: int where
  "API_KEY_USAGE_RESERVATION_DEFAULT_INPUT_TOKENS = API_KEY_USAGE_RESERVATION_MAX_TOKEN_BUDGET"
definition API_KEY_USAGE_RESERVATION_DEFAULT_OUTPUT_TOKENS :: int where
  "API_KEY_USAGE_RESERVATION_DEFAULT_OUTPUT_TOKENS = 2048"
definition UNKNOWN_MODEL_MICRODOLLARS :: int where "UNKNOWN_MODEL_MICRODOLLARS = 2000000"
definition UNKNOWN_MODEL_BASE_TOKENS :: int where
  "UNKNOWN_MODEL_BASE_TOKENS = API_KEY_USAGE_RESERVATION_MAX_TOKEN_BUDGET * 2"

record usage_budget =
  ub_input_tokens :: "int option"
  ub_output_tokens :: "int option"

definition normalize_reservation_token_budget :: "int option \<Rightarrow> int \<Rightarrow> int" where
  "normalize_reservation_token_budget v fallback =
     (case v of
        None \<Rightarrow> fallback
      | Some n \<Rightarrow> max 0 (min n API_KEY_USAGE_RESERVATION_MAX_TOKEN_BUDGET))"

definition normalize_request_usage_budget :: "usage_budget option \<Rightarrow> usage_budget" where
  "normalize_request_usage_budget budget =
     (case budget of
        None \<Rightarrow>
          \<lparr> ub_input_tokens = Some API_KEY_USAGE_RESERVATION_DEFAULT_INPUT_TOKENS,
            ub_output_tokens = Some API_KEY_USAGE_RESERVATION_DEFAULT_OUTPUT_TOKENS \<rparr>
      | Some b \<Rightarrow>
          \<lparr> ub_input_tokens = Some (normalize_reservation_token_budget (ub_input_tokens b)
                                      API_KEY_USAGE_RESERVATION_DEFAULT_INPUT_TOKENS),
            ub_output_tokens = Some (normalize_reservation_token_budget (ub_output_tokens b)
                                      API_KEY_USAGE_RESERVATION_DEFAULT_OUTPUT_TOKENS) \<rparr>)"

definition unknown_model_reserve_cost_budget_microdollars :: "int \<Rightarrow> int \<Rightarrow> int" where
  "unknown_model_reserve_cost_budget_microdollars input_tokens output_tokens =
     (let token_budget = max 0 input_tokens + max 0 output_tokens
      in if token_budget \<le> 0 then 0
         else \<lceil>(of_int (UNKNOWN_MODEL_MICRODOLLARS * token_budget) / of_int UNKNOWN_MODEL_BASE_TOKENS :: rat)\<rceil>)"

definition reserve_cost_budget_microdollars :: "string option \<Rightarrow> string option \<Rightarrow> int \<Rightarrow> int \<Rightarrow> int" where
  "reserve_cost_budget_microdollars model service_tier input_tokens output_tokens =
     (if \<not> truthy_str model then unknown_model_reserve_cost_budget_microdollars input_tokens output_tokens
      else
        let cost = calculate_cost_microdollars (the model) input_tokens output_tokens 0 service_tier
        in if 0 < cost then cost else unknown_model_reserve_cost_budget_microdollars input_tokens output_tokens)"

definition reserve_budget_for_limit_type ::
  "limit_type \<Rightarrow> string option \<Rightarrow> string option \<Rightarrow> usage_budget \<Rightarrow> int"
where
  "reserve_budget_for_limit_type t request_model request_service_tier budget =
     (let input_tokens = or_num (ub_input_tokens budget) 0;
          output_tokens = or_num (ub_output_tokens budget) 0
      in case t of
           TOTAL_TOKENS \<Rightarrow> input_tokens + output_tokens
         | INPUT_TOKENS \<Rightarrow> input_tokens
         | OUTPUT_TOKENS \<Rightarrow> output_tokens
         | COST_USD \<Rightarrow> reserve_cost_budget_microdollars request_model request_service_tier
                         input_tokens output_tokens
         | CREDITS \<Rightarrow> 0)"

definition reserve_delta_for_limit ::
  "api_key_limit \<Rightarrow> string option \<Rightarrow> string option \<Rightarrow> usage_budget \<Rightarrow> int"
where
  "reserve_delta_for_limit l request_model request_service_tier budget =
     (let remaining = kl_max_value l - kl_current_value l
      in if remaining \<le> 0 then 0
         else min remaining
                (reserve_budget_for_limit_type (kl_limit_type l) request_model request_service_tier budget))"

definition limit_applies_for_request :: "api_key_limit \<Rightarrow> string option \<Rightarrow> bool" where
  "limit_applies_for_request l request_model \<longleftrightarrow>
     (case kl_model_filter l of
        None \<Rightarrow> True
      | Some m \<Rightarrow> (case request_model of None \<Rightarrow> False | Some r \<Rightarrow> m = r))"

section \<open>Reserving\<close>

definition ensure_valid_api_key_row :: "api_key option \<Rightarrow> key_error + api_key" where
  "ensure_valid_api_key_row row =
     (case row of
        None \<Rightarrow> Inl (Api_Key_Invalid ''Invalid API key'')
      | Some k \<Rightarrow> if ak_is_active k then Inr k else Inl (Api_Key_Invalid ''Invalid API key''))"

definition key_expired :: "datetime \<Rightarrow> api_key \<Rightarrow> bool" where
  "key_expired now k \<longleftrightarrow> (case ak_expires_at k of Some t \<Rightarrow> t < now | None \<Rightarrow> False)"

definition valid_key_at :: "datetime \<Rightarrow> api_key option \<Rightarrow> key_error + api_key" where
  "valid_key_at now row =
     (case ensure_valid_api_key_row row of
        Inl e \<Rightarrow> Inl e
      | Inr k \<Rightarrow> if key_expired now k then Inl (Api_Key_Invalid ''API key has expired'') else Inr k)"

fun lazy_reset_expired_limits :: "datetime \<Rightarrow> api_key_limit list \<Rightarrow> key_db \<Rightarrow> key_db \<times> bool" where
  "lazy_reset_expired_limits now [] db = (db, False)"
| "lazy_reset_expired_limits now (l # ls) db =
     (if now \<le> kl_reset_at l then lazy_reset_expired_limits now ls db
      else (fst (lazy_reset_expired_limits now ls
                   (fst (reset_limit (kl_id l) (kl_reset_at l)
                           (advance_limit_reset (kl_reset_at l) now (kl_limit_window l)) db))), True))"

text \<open>The limits are those read for the key; the tables are as they are when each one is charged.\<close>

fun reserve_limits ::
  "string option \<Rightarrow> string option \<Rightarrow> usage_budget \<Rightarrow> api_key_limit list \<Rightarrow> key_db \<Rightarrow>
   key_error + (reservation_item list \<times> key_db)"
where
  "reserve_limits model tier budget [] db = Inr ([], db)"
| "reserve_limits model tier budget (l # ls) db =
     (if \<not> limit_applies_for_request l model then reserve_limits model tier budget ls db
      else if kl_max_value l \<le> kl_current_value l then Inl (rate_limit_exceeded_error l)
      else
        let delta = reserve_delta_for_limit l model tier budget;
            (ok, db1) = (if 0 < delta
                         then (let (r, db1) = try_reserve_usage (kl_id l) delta (kl_reset_at l) db
                               in (rr_success r, db1))
                         else (True, db));
            item = \<lparr> ri_reservation_id = [], ri_limit_id = kl_id l, ri_limit_type = kl_limit_type l,
                     ri_reserved_delta = delta, ri_expected_reset_at = kl_reset_at l,
                     ri_actual_delta = None \<rparr>
        in if \<not> ok then Inl (rate_limit_exceeded_error l)
           else (case reserve_limits model tier budget ls db1 of
                   Inl e \<Rightarrow> Inl e
                 | Inr (items, db2) \<Rightarrow> Inr (item # items, db2)))"

definition enforce_limits_for_request_once ::
  "datetime \<Rightarrow> string \<Rightarrow> string \<Rightarrow> string option \<Rightarrow> string option \<Rightarrow> usage_budget option \<Rightarrow> key_db \<Rightarrow>
   (key_error + string) \<times> key_db"
where
  "enforce_limits_for_request_once now reservation_id key_id model tier budget db =
     (case valid_key_at now (key_by_id key_id db) of
        Inl e \<Rightarrow> (Inl e, db)
      | Inr row \<Rightarrow>
          (let (db1, limits_reset) = lazy_reset_expired_limits now (get_limits_by_key key_id db) db
           in case (if limits_reset then valid_key_at now (key_by_id key_id db1) else Inr row) of
                Inl e \<Rightarrow> (Inl e, db1)
              | Inr _ \<Rightarrow>
                  (case reserve_limits model tier (normalize_request_usage_budget budget)
                          (get_limits_by_key key_id db1) db1 of
                     Inl e \<Rightarrow> (Inl e, db1)
                   | Inr (items, db2) \<Rightarrow>
                       (Inr reservation_id,
                        create_usage_reservation now reservation_id key_id (or_str model []) items db2))))"

section \<open>Settling and releasing\<close>

definition compute_increment_for_limit_type :: "limit_type \<Rightarrow> int \<Rightarrow> int \<Rightarrow> int \<Rightarrow> int" where
  "compute_increment_for_limit_type t input_tokens output_tokens cost_microdollars =
     (case t of
        TOTAL_TOKENS \<Rightarrow> input_tokens + output_tokens
      | INPUT_TOKENS \<Rightarrow> input_tokens
      | OUTPUT_TOKENS \<Rightarrow> output_tokens
      | COST_USD \<Rightarrow> cost_microdollars
      | CREDITS \<Rightarrow> 0)"

definition settle_item :: "string \<Rightarrow> (limit_type \<Rightarrow> int) \<Rightarrow> reservation_item \<Rightarrow> key_db \<Rightarrow> key_db" where
  "settle_item reservation_id increment item db =
     (let actual_delta = increment (ri_limit_type item);
          delta = actual_delta - ri_reserved_delta item
      in upsert_reservation_item_actual reservation_id item actual_delta
           (if delta \<noteq> 0
            then fst (adjust_reserved_usage (ri_limit_id item) delta (ri_expected_reset_at item) db)
            else db))"

text \<open>\<open>_settle_usage_reservation\<close>, with the status \<open>Finalized\<close> or \<open>Failed\<close>.\<close>

definition settle_reservation ::
  "datetime \<Rightarrow> reservation_status \<Rightarrow> string \<Rightarrow> string \<Rightarrow> int option \<Rightarrow> int option \<Rightarrow> int option \<Rightarrow> string option \<Rightarrow>
   key_db \<Rightarrow> key_db"
where
  "settle_reservation now status reservation_id model input_tokens output_tokens cached_input_tokens service_tier db =
     (case get_usage_reservation reservation_id db of
        None \<Rightarrow> db
      | Some (r, items) \<Rightarrow>
          if rv_status r \<noteq> Reserved then db
          else
            let (db1, claimed) = transition_usage_reservation_status now reservation_id Reserved Settling db;
                inp = or_num input_tokens 0;
                out = or_num output_tokens 0;
                cost = calculate_cost_microdollars model inp out (or_num cached_input_tokens 0) service_tier;
                db2 = fold (settle_item reservation_id (\<lambda>t. compute_increment_for_limit_type t inp out cost))
                        items db1
            in if \<not> claimed then db
               else update_last_used now (rv_api_key_id r)
                      (settle_usage_reservation now reservation_id status input_tokens output_tokens
                         cached_input_tokens (Some cost) db2))"

definition release_usage_reservation_once :: "datetime \<Rightarrow> string \<Rightarrow> key_db \<Rightarrow> key_db" where
  "release_usage_reservation_once now reservation_id db =
     (case get_usage_reservation reservation_id db of
        None \<Rightarrow> db
      | Some (r, items) \<Rightarrow>
          if rv_status r \<noteq> Reserved then db
          else
            let (db1, claimed) = transition_usage_reservation_status now reservation_id Reserved Released db
            in if \<not> claimed then db
               else settle_usage_reservation now reservation_id Released None None None None
                      (fold (release_item reservation_id) items db1))"

definition record_usage ::
  "datetime \<Rightarrow> string \<Rightarrow> string \<Rightarrow> int \<Rightarrow> int \<Rightarrow> int \<Rightarrow> string option \<Rightarrow> key_db \<Rightarrow> key_db"
where
  "record_usage now key_id model input_tokens output_tokens cached_input_tokens service_tier db =
     increment_limit_usage now key_id model input_tokens output_tokens
       (calculate_cost_microdollars model input_tokens output_tokens cached_input_tokens service_tier) db"

section \<open>Retrying a busy database\<close>

definition is_sqlite_database_locked :: "string \<Rightarrow> bool" where
  "is_sqlite_database_locked message \<longleftrightarrow>
     (let m = py_lower message
      in py_in ''database is locked'' m \<or> py_in ''database table is locked'' m \<or>
         py_in ''database schema is locked'' m)"

definition SQLITE_BUSY_RETRY_ATTEMPTS :: nat where "SQLITE_BUSY_RETRY_ATTEMPTS = 4"

text \<open>
  The loop around the public operations. \<open>fails n = Some (message, k)\<close> says that attempt \<open>n\<close> raises a
  database error after its \<open>k\<close>-th commit, what it did since is rolled back; \<open>part n k db\<close> is what it
  committed until then. Each attempt reads the clock anew.
\<close>

function retry_busy ::
  "(nat \<Rightarrow> (string \<times> nat) option) \<Rightarrow> (nat \<Rightarrow> nat \<Rightarrow> 'db \<Rightarrow> 'db) \<Rightarrow> (nat \<Rightarrow> 'db \<Rightarrow> 'r \<times> 'db) \<Rightarrow> nat \<Rightarrow> 'db \<Rightarrow>
   (string + 'r) \<times> 'db"
where
  "retry_busy fails part op attempt db =
     (case fails attempt of
        None \<Rightarrow> (case op attempt db of (r, db') \<Rightarrow> (Inr r, db'))
      | Some (message, k) \<Rightarrow>
          if \<not> is_sqlite_database_locked message \<or> SQLITE_BUSY_RETRY_ATTEMPTS \<le> Suc attempt
          then (Inl message, part attempt k db)
          else retry_busy fails part op (Suc attempt) (part attempt k db))"
  by pat_completeness auto

termination
  by (relation "measure (\<lambda>(fails, part, op, attempt, db). SQLITE_BUSY_RETRY_ATTEMPTS - attempt)") auto

declare retry_busy.simps [simp del]

text \<open>The only commits inside an attempt to admit a request are those of the lazy resets.\<close>

definition enforce_part :: "datetime \<Rightarrow> string \<Rightarrow> nat \<Rightarrow> key_db \<Rightarrow> key_db" where
  "enforce_part now key_id k db =
     (case valid_key_at now (key_by_id key_id db) of
        Inl e \<Rightarrow> db
      | Inr row \<Rightarrow> fst (lazy_reset_expired_limits now (take k (get_limits_by_key key_id db)) db))"

definition enforce_limits_for_request ::
  "(nat \<Rightarrow> (string \<times> nat) option) \<Rightarrow> (nat \<Rightarrow> datetime) \<Rightarrow> string \<Rightarrow> string \<Rightarrow> string option \<Rightarrow> string option \<Rightarrow>
   usage_budget option \<Rightarrow> key_db \<Rightarrow> (string + (key_error + string)) \<times> key_db"
where
  "enforce_limits_for_request fails clock reservation_id key_id model tier budget =
     retry_busy fails (\<lambda>n. enforce_part (clock n) key_id)
       (\<lambda>n. enforce_limits_for_request_once (clock n) reservation_id key_id model tier budget) 0"

definition finalize_usage_reservation ::
  "(nat \<Rightarrow> (string \<times> nat) option) \<Rightarrow> (nat \<Rightarrow> datetime) \<Rightarrow> string \<Rightarrow> string \<Rightarrow> int \<Rightarrow> int \<Rightarrow> int \<Rightarrow> string option \<Rightarrow>
   key_db \<Rightarrow> (string + unit) \<times> key_db"
where
  "finalize_usage_reservation fails clock reservation_id model input_tokens output_tokens cached_input_tokens
     service_tier =
     retry_busy fails (\<lambda>_ _ db. db)
       (\<lambda>n db. ((), settle_reservation (clock n) Finalized reservation_id model (Some input_tokens)
                      (Some output_tokens) (Some cached_input_tokens) service_tier db)) 0"

definition fail_usage_reservation ::
  "(nat \<Rightarrow> (string \<times> nat) option) \<Rightarrow> (nat \<Rightarrow> datetime) \<Rightarrow> string \<Rightarrow> string \<Rightarrow> int option \<Rightarrow> int option \<Rightarrow> int option \<Rightarrow>
   string option \<Rightarrow> key_db \<Rightarrow> (string + unit) \<times> key_db"
where
  "fail_usage_reservation fails clock reservation_id model input_tokens output_tokens cached_input_tokens
     service_tier =
     retry_busy fails (\<lambda>_ _ db. db)
       (\<lambda>n db. ((), settle_reservation (clock n) Failed reservation_id model input_tokens output_tokens
                      cached_input_tokens service_tier db)) 0"

definition touch_reservation ::
  "(nat \<Rightarrow> (string \<times> nat) option) \<Rightarrow> (nat \<Rightarrow> datetime) \<Rightarrow> string \<Rightarrow> key_db \<Rightarrow> (string + bool) \<times> key_db"
where
  "touch_reservation fails clock reservation_id =
     retry_busy fails (\<lambda>_ _ db. db)
       (\<lambda>n db. prod.swap (touch_usage_reservation (clock n) reservation_id db)) 0"

definition release_usage_reservation ::
  "(nat \<Rightarrow> (string \<times> nat) option) \<Rightarrow> (nat \<Rightarrow> datetime) \<Rightarrow> string \<Rightarrow> key_db \<Rightarrow> (string + unit) \<times> key_db"
where
  "release_usage_reservation fails clock reservation_id =
     retry_busy fails (\<lambda>_ _ db. db)
       (\<lambda>n db. ((), release_usage_reservation_once (clock n) reservation_id db)) 0"

section \<open>Laws of the retry loop\<close>

text \<open>What interrupted attempts keep and a complete one turns into \<open>J\<close>, the loop turns into \<open>J\<close>.\<close>

lemma retry_busy_keeps:
  assumes "\<And>n k db. I db \<Longrightarrow> I (part n k db)" "\<And>n db. I db \<Longrightarrow> J (snd (op n db))" "\<And>db. I db \<Longrightarrow> J db" "I db"
  shows "J (snd (retry_busy fails part op attempt db))"
  using assms
proof (induction fails part op attempt db rule: retry_busy.induct)
  case (1 fails part op attempt db)
  show ?case
  proof (cases "fails attempt")
    case None
    then show ?thesis using 1(3,5) by (subst retry_busy.simps) (simp add: split_beta)
  next
    case (Some f)
    obtain message k where f: "f = (message, k)" by (cases f)
    have I: "I (part attempt k db)" using 1(2,5) .
    show ?thesis
      using 1(1) [OF Some f [symmetric] _ 1(2-4) I] 1(4) [OF I]
      by (subst retry_busy.simps) (simp add: Some f)
  qed
qed

end
