(* ===== verification/Key_Admin.thy ===== *)
theory Key_Admin
  imports Key_Service
begin

text \<open>
  Managing API keys, the other half of \<open>app/modules/api_keys/service.py\<close>, and authenticating with
  them (\<open>app/core/auth/dependencies.py\<close>): the normalisation of what the dashboard submits, creating,
  updating, deleting and regenerating keys, and validating a bearer token through the cache. The
  column \<open>allowed_models\<close> holds the list that its JSON text denotes. The id and the plain text of a
  new key, the hash function and the ids the database gives to new limits are arguments.
\<close>

section \<open>Normalisation\<close>

definition normalize_name :: "string \<Rightarrow> key_error + string" where
  "normalize_name name =
     (let normalized = py_strip name
      in if normalized = [] then Inl (Value_Error ''API key name is required'') else Inr normalized)"

definition deserialize_allowed_models :: "string list option \<Rightarrow> string list option" where
  "deserialize_allowed_models payload = map_option (\<lambda>ms. filter (\<lambda>m. m \<noteq> []) (map py_strip ms)) payload"

definition normalize_allowed_models :: "string list option \<Rightarrow> string list option" where
  "normalize_allowed_models allowed_models =
     map_option (\<lambda>ms. map py_strip (filter (\<lambda>m. m \<noteq> [] \<and> py_strip m \<noteq> []) ms)) allowed_models"

fun normalize_ids :: "string list \<Rightarrow> string list \<Rightarrow> string list" where
  "normalize_ids normalized [] = normalized"
| "normalize_ids normalized (account_id # account_ids) =
     (let v = py_strip account_id
      in normalize_ids (if v = [] \<or> v \<in> set normalized then normalized else normalized @ [v]) account_ids)"

definition normalize_assigned_account_ids :: "string list option \<Rightarrow> string list" where
  "normalize_assigned_account_ids account_ids =
     (case account_ids of None \<Rightarrow> [] | Some ids \<Rightarrow> normalize_ids [] ids)"

definition non_empty :: "string \<Rightarrow> string option" where
  "non_empty s = (if s = [] then None else Some s)"

definition normalize_model_slug :: "string option \<Rightarrow> string option" where
  "normalize_model_slug v = (case v of None \<Rightarrow> None | Some s \<Rightarrow> non_empty (py_strip s))"

definition SUPPORTED_REASONING_EFFORTS :: "string list" where
  "SUPPORTED_REASONING_EFFORTS = [''none'', ''minimal'', ''low'', ''medium'', ''high'', ''xhigh'']"
definition SUPPORTED_SERVICE_TIERS :: "string list" where
  "SUPPORTED_SERVICE_TIERS = [''auto'', ''default'', ''priority'', ''flex'']"

definition quoted :: "string \<Rightarrow> string" where
  "quoted s = [CHR 0x27] @ s @ [CHR 0x27]"

definition normalize_reasoning_effort :: "string option \<Rightarrow> key_error + string option" where
  "normalize_reasoning_effort v =
     (case v of
        None \<Rightarrow> Inr None
      | Some s \<Rightarrow>
          (let normalized = py_lower (py_strip s)
           in if normalized = [] then Inr None
              else if normalized \<notin> set SUPPORTED_REASONING_EFFORTS
              then Inl (Value_Error (''Unsupported enforced reasoning effort '' @ quoted normalized @
                     ''. Expected one of: high, low, medium, minimal, none, xhigh''))
              else Inr (Some normalized)))"

definition normalize_reasoning_effort_lenient :: "string option \<Rightarrow> string option" where
  "normalize_reasoning_effort_lenient v =
     (case v of
        None \<Rightarrow> None
      | Some s \<Rightarrow>
          (let normalized = py_lower (py_strip s)
           in if normalized = [] then None
              else if normalized \<in> set SUPPORTED_REASONING_EFFORTS then Some normalized else None))"

definition normalize_service_tier :: "string option \<Rightarrow> key_error + string option" where
  "normalize_service_tier v =
     (case v of
        None \<Rightarrow> Inr None
      | Some s \<Rightarrow>
          (let stripped = py_lower (py_strip s);
               normalized = (if stripped = ''fast'' then ''priority'' else stripped)
           in if stripped = [] then Inr None
              else if normalized \<notin> set SUPPORTED_SERVICE_TIERS
              then Inl (Value_Error (''Unsupported enforced service tier '' @ quoted normalized @
                     ''. Expected one of: auto, default, fast, flex, priority''))
              else Inr (Some normalized)))"

definition normalize_service_tier_lenient :: "string option \<Rightarrow> string option" where
  "normalize_service_tier_lenient v =
     (case v of
        None \<Rightarrow> None
      | Some s \<Rightarrow>
          (let normalized = py_lower (py_strip s)
           in if normalized = [] then None
              else if normalized = ''fast'' then Some ''priority''
              else if normalized \<in> set SUPPORTED_SERVICE_TIERS then Some normalized else None))"

definition validate_model_enforcement :: "string option \<Rightarrow> string list option \<Rightarrow> key_error option" where
  "validate_model_enforcement enforced_model allowed_models =
     (case (enforced_model, allowed_models) of
        (Some m, Some ms) \<Rightarrow>
          if ms = [] \<or> m \<in> set ms then None
          else Some (Value_Error ''enforced_model must be present in allowed_models when allowed_models is configured'')
      | _ \<Rightarrow> None)"

section \<open>Limit rows\<close>

record limit_rule_input =
  li_limit_type :: string
  li_limit_window :: string
  li_max_value :: int
  li_model_filter :: "string option"

definition limit_type_of :: "string \<Rightarrow> key_error + limit_type" where
  "limit_type_of s =
     (case find (\<lambda>t. limit_type_value t = s) [TOTAL_TOKENS, INPUT_TOKENS, OUTPUT_TOKENS, COST_USD, CREDITS] of
        None \<Rightarrow> Inl (Value_Error (quoted s @ '' is not a valid LimitType''))
      | Some t \<Rightarrow> Inr t)"

definition limit_window_of :: "string \<Rightarrow> key_error + limit_window" where
  "limit_window_of s =
     (case find (\<lambda>w. limit_window_value w = s) [DAILY, WEEKLY, MONTHLY, FIVE_HOURS, SEVEN_DAYS] of
        None \<Rightarrow> Inl (Value_Error (quoted s @ '' is not a valid LimitWindow''))
      | Some w \<Rightarrow> Inr w)"

text \<open>The id is the one the database gives the row if it is inserted.\<close>

definition limit_input_to_row ::
  "limit_rule_input \<Rightarrow> int \<Rightarrow> string \<Rightarrow> datetime \<Rightarrow> int \<Rightarrow> datetime option \<Rightarrow> key_error + api_key_limit"
where
  "limit_input_to_row li i key_id now current_value reset_at =
     (case limit_window_of (li_limit_window li) of
        Inl e \<Rightarrow> Inl e
      | Inr window \<Rightarrow>
          if li_limit_type li = limit_type_value CREDITS \<and> li_model_filter li \<noteq> None
          then Inl (Value_Error ''credits limits do not support model_filter'')
          else
            (case limit_type_of (li_limit_type li) of
               Inl e \<Rightarrow> Inl e
             | Inr t \<Rightarrow>
                 Inr \<lparr> kl_id = i, kl_api_key_id = key_id, kl_limit_type = t, kl_limit_window = window,
                       kl_max_value = li_max_value li, kl_current_value = current_value,
                       kl_model_filter = li_model_filter li,
                       kl_reset_at = (case reset_at of Some r \<Rightarrow> r | None \<Rightarrow> next_limit_reset now window) \<rparr>))"

definition limit_identity_from_input :: "limit_rule_input \<Rightarrow> string \<times> string \<times> string option" where
  "limit_identity_from_input li = (li_limit_type li, li_limit_window li, li_model_filter li)"

definition limit_identity_from_row :: "api_key_limit \<Rightarrow> string \<times> string \<times> string option" where
  "limit_identity_from_row l =
     (limit_type_value (kl_limit_type l), limit_window_value (kl_limit_window l), kl_model_filter l)"

text \<open>Rows for new limits; \<open>new_id n\<close> is the id for the \<open>n\<close>-th one.\<close>

fun rows_for :: "(limit_rule_input \<Rightarrow> int \<times> datetime option) \<Rightarrow> (nat \<Rightarrow> int) \<Rightarrow> nat \<Rightarrow> string \<Rightarrow> datetime \<Rightarrow>
  limit_rule_input list \<Rightarrow> key_error + api_key_limit list"
where
  "rows_for kept new_id n key_id now [] = Inr []"
| "rows_for kept new_id n key_id now (li # lis) =
     (case limit_input_to_row li (new_id n) key_id now (fst (kept li)) (snd (kept li)) of
        Inl e \<Rightarrow> Inl e
      | Inr row \<Rightarrow>
          (case rows_for kept new_id (Suc n) key_id now lis of
             Inl e \<Rightarrow> Inl e
           | Inr rows \<Rightarrow> Inr (row # rows)))"

definition kept_usage :: "api_key_limit list \<Rightarrow> bool \<Rightarrow> limit_rule_input \<Rightarrow> int \<times> datetime option" where
  "kept_usage existing reset_usage li =
     (case find (\<lambda>l. limit_identity_from_row l = limit_identity_from_input li) (rev existing) of
        None \<Rightarrow> (0, None)
      | Some matched \<Rightarrow>
          if reset_usage then (0, None) else (kl_current_value matched, Some (kl_reset_at matched)))"

definition build_limit_rows_for_update ::
  "(nat \<Rightarrow> int) \<Rightarrow> string \<Rightarrow> datetime \<Rightarrow> limit_rule_input list \<Rightarrow> api_key_limit list \<Rightarrow> bool \<Rightarrow>
   key_error + api_key_limit list"
where
  "build_limit_rows_for_update new_id key_id now submitted existing reset_usage =
     (if \<not> distinct (map limit_identity_from_input submitted)
      then Inl (Value_Error ''Duplicate limit rules are not allowed'')
      else rows_for (kept_usage existing reset_usage) new_id 0 key_id now submitted)"

definition build_reset_limit_rows :: "string \<Rightarrow> datetime \<Rightarrow> api_key_limit list \<Rightarrow> api_key_limit list" where
  "build_reset_limit_rows key_id now existing =
     map (\<lambda>l. l\<lparr> kl_api_key_id := key_id, kl_current_value := 0,
                 kl_reset_at := next_limit_reset now (kl_limit_window l) \<rparr>) existing"

section \<open>What a key looks like from outside\<close>

record limit_rule_data =
  ld_id :: int
  ld_limit_type :: string
  ld_limit_window :: string
  ld_max_value :: int
  ld_current_value :: int
  ld_model_filter :: "string option"
  ld_reset_at :: datetime

definition to_limit_rule_data :: "api_key_limit \<Rightarrow> limit_rule_data" where
  "to_limit_rule_data l =
     \<lparr> ld_id = kl_id l, ld_limit_type = limit_type_value (kl_limit_type l),
       ld_limit_window = limit_window_value (kl_limit_window l), ld_max_value = kl_max_value l,
       ld_current_value = kl_current_value l, ld_model_filter = kl_model_filter l, ld_reset_at = kl_reset_at l \<rparr>"

record api_key_data =
  kdt_id :: string
  kdt_name :: string
  kdt_key_prefix :: string
  kdt_allowed_models :: "string list option"
  kdt_enforced_model :: "string option"
  kdt_enforced_reasoning_effort :: "string option"
  kdt_enforced_service_tier :: "string option"
  kdt_expires_at :: "datetime option"
  kdt_is_active :: bool
  kdt_created_at :: datetime
  kdt_last_used_at :: "datetime option"
  kdt_limits :: "limit_rule_data list"
  kdt_account_assignment_scope_enabled :: bool
  kdt_assigned_account_ids :: "string list"

definition to_api_key_data :: "key_db \<Rightarrow> api_key \<Rightarrow> api_key_data" where
  "to_api_key_data db row =
     \<lparr> kdt_id = ak_id row, kdt_name = ak_name row, kdt_key_prefix = ak_key_prefix row,
       kdt_allowed_models = deserialize_allowed_models (ak_allowed_models row),
       kdt_enforced_model = normalize_model_slug (ak_enforced_model row),
       kdt_enforced_reasoning_effort = normalize_reasoning_effort_lenient (ak_enforced_reasoning_effort row),
       kdt_enforced_service_tier = normalize_service_tier_lenient (ak_enforced_service_tier row),
       kdt_expires_at = ak_expires_at row, kdt_is_active = ak_is_active row,
       kdt_created_at = ak_created_at row, kdt_last_used_at = ak_last_used_at row,
       kdt_limits = map to_limit_rule_data (get_limits_by_key (ak_id row) db),
       kdt_account_assignment_scope_enabled = ak_account_assignment_scope_enabled row,
       kdt_assigned_account_ids = map snd (filter (\<lambda>a. fst a = ak_id row) (kd_assignments db)) \<rparr>"

section \<open>Managing keys\<close>

text \<open>
  The state the operations act on: the tables, the ids of the accounts that exist, the cache of
  validated keys of this process and the versions the processes poll. \<open>poller\<close> says whether this
  process has a poller.
\<close>

record key_env =
  ke_db :: key_db
  ke_accounts :: "string list"
  ke_cache :: "api_key_data api_key_cache"
  ke_versions :: "string \<rightharpoonup> int"

definition forget_key :: "bool \<Rightarrow> string \<Rightarrow> key_env \<Rightarrow> key_env" where
  "forget_key poller key_hash s =
     s\<lparr> ke_cache := api_key_cache_invalidate key_hash (ke_cache s),
        ke_versions := (if poller then bump ''api_key'' (ke_versions s) else ke_versions s) \<rparr>"

fun join_with :: "string \<Rightarrow> string list \<Rightarrow> string" where
  "join_with sep [] = []"
| "join_with sep [x] = x"
| "join_with sep (x # y # ys) = x @ sep @ join_with sep (y # ys)"

definition resolve_assigned_account_ids :: "string list option \<Rightarrow> key_env \<Rightarrow> key_error + string list" where
  "resolve_assigned_account_ids account_ids s =
     (let normalized = normalize_assigned_account_ids account_ids;
          missing = filter (\<lambda>a. a \<notin> set (ke_accounts s)) normalized
      in if missing \<noteq> [] then Inl (Value_Error (''Unknown account ids: '' @ join_with '', '' missing))
         else Inr normalized)"

record key_create_data =
  cd_name :: string
  cd_allowed_models :: "string list option"
  cd_enforced_model :: "string option"
  cd_enforced_reasoning_effort :: "string option"
  cd_enforced_service_tier :: "string option"
  cd_expires_at :: "datetime option"
  cd_assigned_account_ids :: "string list option"
  cd_limits :: "limit_rule_input list"

text \<open>The row of a new key; each step of the normalisation may raise.\<close>

definition new_key_row ::
  "(string \<Rightarrow> string) \<Rightarrow> datetime \<Rightarrow> string \<Rightarrow> string \<Rightarrow> key_create_data \<Rightarrow> key_env \<Rightarrow>
   key_error + (api_key \<times> string list)"
where
  "new_key_row hash_key now new_key_id plain_key p s =
     (case resolve_assigned_account_ids (cd_assigned_account_ids p) s of Inl e \<Rightarrow> Inl e | Inr assigned \<Rightarrow>
     (case normalize_reasoning_effort (cd_enforced_reasoning_effort p) of Inl e \<Rightarrow> Inl e | Inr effort \<Rightarrow>
     (case normalize_service_tier (cd_enforced_service_tier p) of Inl e \<Rightarrow> Inl e | Inr tier \<Rightarrow>
     (let allowed = normalize_allowed_models (cd_allowed_models p);
          enforced = normalize_model_slug (cd_enforced_model p)
      in case validate_model_enforcement enforced allowed of Some e \<Rightarrow> Inl e | None \<Rightarrow>
        (case normalize_name (cd_name p) of Inl e \<Rightarrow> Inl e | Inr name \<Rightarrow>
           Inr (\<lparr> ak_id = new_key_id, ak_name = name, ak_key_hash = hash_key plain_key,
                  ak_key_prefix = take 15 plain_key, ak_allowed_models = allowed,
                  ak_enforced_model = enforced, ak_enforced_reasoning_effort = effort,
                  ak_enforced_service_tier = tier,
                  ak_account_assignment_scope_enabled = (assigned \<noteq> []),
                  ak_expires_at = cd_expires_at p, ak_is_active = True, ak_created_at = now,
                  ak_last_used_at = None \<rparr>, assigned))))))"

definition create_key ::
  "(string \<Rightarrow> string) \<Rightarrow> datetime \<Rightarrow> string \<Rightarrow> string \<Rightarrow> (nat \<Rightarrow> int) \<Rightarrow> key_create_data \<Rightarrow> key_env \<Rightarrow>
   (key_error + (api_key_data \<times> string)) \<times> key_env"
where
  "create_key hash_key now new_key_id plain_key new_limit_id p s =
     (case new_key_row hash_key now new_key_id plain_key p s of
        Inl e \<Rightarrow> (Inl e, s)
      | Inr (row, assigned) \<Rightarrow>
          (case rows_for (\<lambda>_. (0, None)) new_limit_id 0 new_key_id now (cd_limits p) of
             Inl e \<Rightarrow> (Inl e, s)
           | Inr limits \<Rightarrow>
               (let db1 = key_create row (ke_db s);
                    db2 = (if assigned \<noteq> [] then replace_account_assignments new_key_id assigned db1 else db1);
                    db3 = (if cd_limits p \<noteq> [] then upsert_limits new_key_id limits db2 else db2)
                in case key_by_id new_key_id db3 of
                     None \<Rightarrow> (Inl (Value_Error ''Failed to create API key''), s\<lparr> ke_db := db3 \<rparr>)
                   | Some created \<Rightarrow> (Inr (to_api_key_data db3 created, plain_key), s\<lparr> ke_db := db3 \<rparr>))))"

text \<open>
  An update; a component \<open>Some v\<close> is a field whose \<open>_set\<close> flag is on. The flags that are evaluated
  first raise first.
\<close>

record key_update_data =
  ud_name :: "string option option"
  ud_allowed_models :: "string list option option"
  ud_enforced_model :: "string option option"
  ud_enforced_reasoning_effort :: "string option option"
  ud_enforced_service_tier :: "string option option"
  ud_expires_at :: "datetime option option"
  ud_is_active :: "bool option option"
  ud_assigned_account_ids :: "string list option option"
  ud_limits :: "limit_rule_input list option option"
  ud_reset_usage :: bool

text \<open>Normalising a field only if it is set.\<close>

definition if_set :: "('a \<Rightarrow> key_error + 'b) \<Rightarrow> 'a option \<Rightarrow> key_error + 'b option" where
  "if_set f v = (case v of None \<Rightarrow> Inr None | Some x \<Rightarrow> (case f x of Inl e \<Rightarrow> Inl e | Inr y \<Rightarrow> Inr (Some y)))"

definition enforcement_conflict :: "key_update_data \<Rightarrow> api_key \<Rightarrow> key_error option" where
  "enforcement_conflict p existing =
     (if ud_allowed_models p = None \<and> ud_enforced_model p = None then None
      else validate_model_enforcement
             (normalize_model_slug (given (ud_enforced_model p) (ak_enforced_model existing)))
             (case ud_allowed_models p of
                Some v \<Rightarrow> normalize_allowed_models v
              | None \<Rightarrow> deserialize_allowed_models (ak_allowed_models existing)))"

definition limit_rows_for_update ::
  "datetime \<Rightarrow> (nat \<Rightarrow> int) \<Rightarrow> string \<Rightarrow> key_update_data \<Rightarrow> key_db \<Rightarrow> key_error + api_key_limit list option"
where
  "limit_rows_for_update now new_limit_id key_id p db =
     (case ud_limits p of
        Some submitted \<Rightarrow>
          map_sum id Some
            (build_limit_rows_for_update new_limit_id key_id now (case submitted of None \<Rightarrow> [] | Some ls \<Rightarrow> ls)
               (get_limits_by_key key_id db) (ud_reset_usage p))
      | None \<Rightarrow>
          if ud_reset_usage p then Inr (Some (build_reset_limit_rows key_id now (get_limits_by_key key_id db)))
          else Inr None)"

text \<open>The transaction of an update and the announcements after it.\<close>

definition commit_update ::
  "bool \<Rightarrow> string \<Rightarrow> key_changes \<Rightarrow> string list option \<Rightarrow> api_key_limit list option \<Rightarrow> key_env \<Rightarrow>
   (key_error + api_key_data) \<times> key_env"
where
  "commit_update poller key_id changes assigned limit_rows s =
     (let db1 = snd (key_update key_id changes (ke_db s));
          db2 = (case assigned of Some ids \<Rightarrow> replace_account_assignments key_id ids db1 | None \<Rightarrow> db1);
          db3 = (case limit_rows of Some rows \<Rightarrow> upsert_limits key_id rows db2 | None \<Rightarrow> db2)
      in case key_by_id key_id db3 of
           None \<Rightarrow> (Inl (Api_Key_Not_Found (''API key not found: '' @ key_id)), s)
         | Some updated \<Rightarrow>
             (Inr (to_api_key_data db3 updated),
              forget_key poller (ak_key_hash updated) (s\<lparr> ke_db := db3 \<rparr>)))"

definition update_key ::
  "bool \<Rightarrow> datetime \<Rightarrow> (nat \<Rightarrow> int) \<Rightarrow> string \<Rightarrow> key_update_data \<Rightarrow> key_env \<Rightarrow>
   (key_error + api_key_data) \<times> key_env"
where
  "update_key poller now new_limit_id key_id p s =
     (case key_by_id key_id (ke_db s) of
        None \<Rightarrow> (Inl (Api_Key_Not_Found (''API key not found: '' @ key_id)), s)
      | Some existing \<Rightarrow>
     (case if_set (\<lambda>ids. resolve_assigned_account_ids ids s) (ud_assigned_account_ids p) of
        Inl e \<Rightarrow> (Inl e, s) | Inr assigned \<Rightarrow>
     (case if_set normalize_reasoning_effort (ud_enforced_reasoning_effort p) of
        Inl e \<Rightarrow> (Inl e, s) | Inr effort \<Rightarrow>
     (case if_set normalize_service_tier (ud_enforced_service_tier p) of
        Inl e \<Rightarrow> (Inl e, s) | Inr tier \<Rightarrow>
     (case enforcement_conflict p existing of
        Some e \<Rightarrow> (Inl e, s) | None \<Rightarrow>
     (case limit_rows_for_update now new_limit_id key_id p (ke_db s) of
        Inl e \<Rightarrow> (Inl e, s) | Inr limit_rows \<Rightarrow>
     (case if_set (\<lambda>n. normalize_name (or_str n [])) (ud_name p) of
        Inl e \<Rightarrow> (Inl e, s) | Inr name \<Rightarrow>
       commit_update poller key_id
         \<lparr> kc_name = name,
           kc_allowed_models = map_option normalize_allowed_models (ud_allowed_models p),
           kc_enforced_model = map_option normalize_model_slug (ud_enforced_model p),
           kc_enforced_reasoning_effort = effort,
           kc_enforced_service_tier = tier,
           kc_account_assignment_scope_enabled = map_option (\<lambda>ids. ids \<noteq> []) assigned,
           kc_expires_at = ud_expires_at p,
           kc_is_active = (case ud_is_active p of Some b \<Rightarrow> b | None \<Rightarrow> None),
           kc_key_hash = None, kc_key_prefix = None \<rparr>
         assigned limit_rows s)))))))"

definition delete_key :: "bool \<Rightarrow> string \<Rightarrow> key_env \<Rightarrow> (key_error + unit) \<times> key_env" where
  "delete_key poller key_id s =
     (case key_by_id key_id (ke_db s) of
        None \<Rightarrow> (Inl (Api_Key_Not_Found (''API key not found: '' @ key_id)), s)
      | Some row \<Rightarrow>
          (let (db', deleted) = key_delete key_id (ke_db s)
           in if \<not> deleted then (Inl (Api_Key_Not_Found (''API key not found: '' @ key_id)), s\<lparr> ke_db := db' \<rparr>)
              else (Inr (), forget_key poller (ak_key_hash row) (s\<lparr> ke_db := db' \<rparr>))))"

definition no_key_changes :: key_changes where
  "no_key_changes =
     \<lparr> kc_name = None, kc_allowed_models = None, kc_enforced_model = None, kc_enforced_reasoning_effort = None,
       kc_enforced_service_tier = None, kc_account_assignment_scope_enabled = None, kc_expires_at = None,
       kc_is_active = None, kc_key_hash = None, kc_key_prefix = None \<rparr>"

definition regenerate_key ::
  "bool \<Rightarrow> (string \<Rightarrow> string) \<Rightarrow> string \<Rightarrow> string \<Rightarrow> key_env \<Rightarrow> (key_error + (api_key_data \<times> string)) \<times> key_env"
where
  "regenerate_key poller hash_key plain_key key_id s =
     (case key_by_id key_id (ke_db s) of
        None \<Rightarrow> (Inl (Api_Key_Not_Found (''API key not found: '' @ key_id)), s)
      | Some row \<Rightarrow>
          (let (updated, db') = key_update key_id
                 (no_key_changes\<lparr> kc_key_hash := Some (hash_key plain_key), kc_key_prefix := Some (take 15 plain_key) \<rparr>)
                 (ke_db s)
           in case updated of
                None \<Rightarrow> (Inl (Api_Key_Not_Found (''API key not found: '' @ key_id)), s\<lparr> ke_db := db' \<rparr>)
              | Some u \<Rightarrow> (Inr (to_api_key_data db' u, plain_key),
                           forget_key poller (ak_key_hash row) (s\<lparr> ke_db := db' \<rparr>))))"

section \<open>Authenticating\<close>

definition validate_key ::
  "(string \<Rightarrow> string) \<Rightarrow> datetime \<Rightarrow> string \<Rightarrow> key_db \<Rightarrow> (key_error + api_key_data) \<times> key_db"
where
  "validate_key hash_key now plain_key db =
     (if plain_key = [] then (Inl (Api_Key_Invalid ''Missing API key in Authorization header''), db)
      else
        case valid_key_at now (key_by_hash (hash_key plain_key) db) of
          Inl e \<Rightarrow> (Inl e, db)
        | Inr row \<Rightarrow>
            (let (db1, limits_reset) = lazy_reset_expired_limits now (get_limits_by_key (ak_id row) db) db
             in case (if limits_reset then valid_key_at now (key_by_hash (hash_key plain_key) db1) else Inr row) of
                  Inl e \<Rightarrow> (Inl e, db1)
                | Inr refreshed \<Rightarrow> (Inr (to_api_key_data db1 refreshed), db1)))"

definition get_key_by_id :: "datetime \<Rightarrow> string \<Rightarrow> key_db \<Rightarrow> key_error + api_key_data" where
  "get_key_by_id now key_id db =
     (case valid_key_at now (key_by_id key_id db) of
        Inl e \<Rightarrow> Inl e
      | Inr row \<Rightarrow> Inr (to_api_key_data db row))"

text \<open>
  Validating a token has two moments: looking into the cache, and, if that does not settle it,
  reading the database and storing the outcome in the cache as of the version seen before.
\<close>

definition token_lookup ::
  "seconds \<Rightarrow> datetime \<Rightarrow> string \<Rightarrow> api_key_data api_key_cache \<Rightarrow> api_key_data option \<times> api_key_data api_key_cache"
where
  "token_lookup mono_now now token_hash c =
     (case api_key_cache_get mono_now token_hash c of
        None \<Rightarrow> (None, c)
      | Some cached \<Rightarrow>
          (case kdt_expires_at cached of
             Some t \<Rightarrow> if t \<le> now then (None, api_key_cache_invalidate token_hash c) else (Some cached, c)
           | None \<Rightarrow> (Some cached, c)))"

definition validate_api_key_token ::
  "(string \<Rightarrow> string) \<Rightarrow> seconds \<Rightarrow> datetime \<Rightarrow> string \<Rightarrow> key_env \<Rightarrow> (key_error + api_key_data) \<times> key_env"
where
  "validate_api_key_token hash_key mono_now now token s =
     (case token_lookup mono_now now (hash_key token) (ke_cache s) of
        (Some data, c) \<Rightarrow> (Inr data, s\<lparr> ke_cache := c \<rparr>)
      | (None, c) \<Rightarrow>
          (case validate_key hash_key now token (ke_db s) of
             (Inl e, db') \<Rightarrow> (Inl e, s\<lparr> ke_db := db', ke_cache := c \<rparr>)
           | (Inr data, db') \<Rightarrow>
               (Inr data, s\<lparr> ke_db := db',
                             ke_cache := api_key_cache_set mono_now (Some (kc_version c)) (hash_key token) data c \<rparr>)))"

end
