(* ===== verification/Key_Ledger.thy ===== *)
theory Key_Ledger
  imports Key_Service
begin

text \<open>
  The books of API key usage. A limit's counter is charged when a request is admitted, corrected when
  the request is settled and credited when its reservation is released; the counter starts anew when
  the window ends. The laws below say that the counter always equals the sum of the charges of the
  current window, that reserving never takes a counter past its limit, and that releasing a
  reservation undoes it exactly.
\<close>

section \<open>A metered store\<close>

text \<open>
  What the service relies on of the repository: in an epoch \<open>e\<close> (a reset time) a meter has a reading,
  reserving adds to it if the cap allows, and adjusting adds to it unless it would become negative.
\<close>

locale metered_store =
  fixes ok :: "'db \<Rightarrow> bool"
    and reading :: "'db \<Rightarrow> int \<Rightarrow> datetime \<Rightarrow> int option"
    and cap :: "'db \<Rightarrow> int \<Rightarrow> int"
    and reserve :: "int \<Rightarrow> int \<Rightarrow> datetime \<Rightarrow> 'db \<Rightarrow> 'db \<times> bool"
    and adjust :: "int \<Rightarrow> int \<Rightarrow> datetime \<Rightarrow> 'db \<Rightarrow> 'db \<times> bool"
  assumes reserve_ok: "ok db \<Longrightarrow> ok (fst (reserve i d e db))"
    and reserve_iff: "ok db \<Longrightarrow> 0 < d \<Longrightarrow>
          snd (reserve i d e db) \<longleftrightarrow> (case reading db i e of Some v \<Rightarrow> v + d \<le> cap db i | None \<Rightarrow> False)"
    and reserve_reading: "ok db \<Longrightarrow> 0 < d \<Longrightarrow>
          reading (fst (reserve i d e db)) j e' =
            (if j = i \<and> e' = e \<and> snd (reserve i d e db) then map_option (\<lambda>v. v + d) (reading db j e')
             else reading db j e')"
    and adjust_reading: "ok db \<Longrightarrow>
          reading (fst (adjust i d e db)) j e' =
            (if j = i \<and> e' = e then map_option (\<lambda>v. if d < 0 \<and> v < - d then v else v + d) (reading db j e')
             else reading db j e')"
begin

lemma reserve_within_cap:
  assumes "ok db" "0 < d" "snd (reserve i d e db)"
  shows "\<exists>v. reading (fst (reserve i d e db)) i e = Some v \<and> v \<le> cap db i"
  using assms reserve_iff [of db d i e] reserve_reading [of db d i e i e] by (auto split: option.splits)

lemma reserve_then_release:
  assumes "ok db" "0 < d" "snd (reserve i d e db)" "reading db i e = Some v" "0 \<le> v"
  shows "reading (fst (adjust i (- d) e (fst (reserve i d e db)))) j e' = reading db j e'"
  using assms reserve_ok [of db i d e] by (auto simp: adjust_reading reserve_reading)

end

definition limits_ok :: "key_db \<Rightarrow> bool" where
  "limits_ok db \<longleftrightarrow> distinct (map kl_id (kd_limits db))"

definition meter_reading :: "key_db \<Rightarrow> int \<Rightarrow> datetime \<Rightarrow> int option" where
  "meter_reading db i e =
     (case limit_by_id i db of
        Some l \<Rightarrow> if kl_reset_at l = e then Some (kl_current_value l) else None
      | None \<Rightarrow> None)"

definition meter_cap :: "key_db \<Rightarrow> int \<Rightarrow> int" where
  "meter_cap db i = (case limit_by_id i db of Some l \<Rightarrow> kl_max_value l | None \<Rightarrow> 0)"

definition try_reserve :: "int \<Rightarrow> int \<Rightarrow> datetime \<Rightarrow> key_db \<Rightarrow> key_db \<times> bool" where
  "try_reserve i d e db =
     (snd (try_reserve_usage i d e db), rr_success (fst (try_reserve_usage i d e db)))"

lemma find_map_keep:
  assumes "\<And>l. k (f l) = k l"
  shows "find (\<lambda>l. k l = i) (map f ls) = map_option f (find (\<lambda>l. k l = i) ls)"
  using assms by (induction ls) auto

lemma find_id: "find (\<lambda>l. k l = i) ls = Some l \<Longrightarrow> l \<in> set ls \<and> k l = i"
  by (induction ls) (auto split: if_splits)

lemma find_id_unique:
  "distinct (map k ls) \<Longrightarrow> l \<in> set ls \<Longrightarrow> find (\<lambda>x. k x = k l) ls = Some l"
  by (induction ls) (auto simp: image_iff)

lemma try_reserve_rows:
  assumes "0 < d"
  shows "kd_limits (fst (try_reserve i d e db)) =
      map (\<lambda>l. if kl_id l = i \<and> kl_reset_at l = e \<and> kl_current_value l + d \<le> kl_max_value l
               then l\<lparr> kl_current_value := kl_current_value l + d \<rparr> else l) (kd_limits db)"
    and "snd (try_reserve i d e db) =
      list_ex (\<lambda>l. kl_id l = i \<and> kl_reset_at l = e \<and> kl_current_value l + d \<le> kl_max_value l) (kd_limits db)"
    and "kd_items (fst (try_reserve i d e db)) = kd_items db"
    and "kd_reservations (fst (try_reserve i d e db)) = kd_reservations db"
  using assms
  by (simp_all add: try_reserve_def try_reserve_usage_def Let_def split_beta update_limits_def update_where_def)

lemma adjust_rows:
  "kd_limits (fst (adjust_reserved_usage i d e db)) =
     map (\<lambda>l. if kl_id l = i \<and> kl_reset_at l = e \<and> (d < 0 \<longrightarrow> - d \<le> kl_current_value l)
              then l\<lparr> kl_current_value := kl_current_value l + d \<rparr> else l) (kd_limits db)"
  by (simp add: adjust_reserved_usage_def)

lemma limit_by_id_try_reserve:
  assumes "0 < d"
  shows "limit_by_id j (fst (try_reserve i d e db)) =
    map_option (\<lambda>l. if kl_id l = i \<and> kl_reset_at l = e \<and> kl_current_value l + d \<le> kl_max_value l
               then l\<lparr> kl_current_value := kl_current_value l + d \<rparr> else l) (limit_by_id j db)"
  unfolding limit_by_id_def try_reserve_rows(1) [OF assms] by (rule find_map_keep) simp

lemma limit_by_id_adjust:
  "limit_by_id j (fst (adjust_reserved_usage i d e db)) =
    map_option (\<lambda>l. if kl_id l = i \<and> kl_reset_at l = e \<and> (d < 0 \<longrightarrow> - d \<le> kl_current_value l)
              then l\<lparr> kl_current_value := kl_current_value l + d \<rparr> else l) (limit_by_id j db)"
  unfolding limit_by_id_def adjust_rows by (rule find_map_keep) simp

lemma limit_by_id_id: "limit_by_id i db = Some l \<Longrightarrow> kl_id l = i"
  by (auto simp: limit_by_id_def dest: find_id)

lemma try_reserve_iff:
  assumes "limits_ok db" "0 < d"
  shows "snd (try_reserve i d e db) \<longleftrightarrow>
    (case meter_reading db i e of Some v \<Rightarrow> v + d \<le> meter_cap db i | None \<Rightarrow> False)"
proof -
  have "(\<exists>l \<in> set (kd_limits db). kl_id l = i \<and> kl_reset_at l = e \<and> kl_current_value l + d \<le> kl_max_value l) \<longleftrightarrow>
      (\<exists>l. limit_by_id i db = Some l \<and> kl_reset_at l = e \<and> kl_current_value l + d \<le> kl_max_value l)"
    using assms(1) find_id_unique [of kl_id "kd_limits db"] find_id [of kl_id i "kd_limits db"]
    unfolding limits_ok_def limit_by_id_def by metis
  then show ?thesis
    unfolding try_reserve_rows(2) [OF assms(2)]
    by (auto simp: list_ex_iff meter_reading_def meter_cap_def split: option.splits)
qed

interpretation key_meter: metered_store limits_ok meter_reading meter_cap try_reserve adjust_reserved_usage
proof
  fix db :: key_db and i d j :: int and e e' :: datetime
  show "limits_ok db \<Longrightarrow> limits_ok (fst (try_reserve i d e db))"
  proof (cases "0 < d")
    case True
    assume "limits_ok db"
    moreover have "map kl_id (kd_limits (fst (try_reserve i d e db))) = map kl_id (kd_limits db)"
      unfolding try_reserve_rows(1) [OF True] by simp
    ultimately show ?thesis by (simp add: limits_ok_def)
  qed (simp add: try_reserve_def try_reserve_usage_def Let_def limits_ok_def)
  show "limits_ok db \<Longrightarrow> 0 < d \<Longrightarrow> snd (try_reserve i d e db) \<longleftrightarrow>
      (case meter_reading db i e of Some v \<Rightarrow> v + d \<le> meter_cap db i | None \<Rightarrow> False)"
    by (rule try_reserve_iff)
  show "limits_ok db \<Longrightarrow> 0 < d \<Longrightarrow> meter_reading (fst (try_reserve i d e db)) j e' =
      (if j = i \<and> e' = e \<and> snd (try_reserve i d e db) then map_option (\<lambda>v. v + d) (meter_reading db j e')
       else meter_reading db j e')"
  proof (cases "limit_by_id j db")
    case None
    then show "limits_ok db \<Longrightarrow> 0 < d \<Longrightarrow> ?thesis" by (auto simp: meter_reading_def limit_by_id_try_reserve)
  next
    case (Some l)
    then have "kl_id l = j" by (rule limit_by_id_id)
    with Some show "limits_ok db \<Longrightarrow> 0 < d \<Longrightarrow> ?thesis"
      by (auto simp: meter_reading_def meter_cap_def limit_by_id_try_reserve try_reserve_iff)
  qed
  show "limits_ok db \<Longrightarrow> meter_reading (fst (adjust_reserved_usage i d e db)) j e' =
      (if j = i \<and> e' = e then map_option (\<lambda>v. if d < 0 \<and> v < - d then v else v + d) (meter_reading db j e')
       else meter_reading db j e')"
    by (cases "limit_by_id j db") (auto simp: meter_reading_def limit_by_id_adjust dest: limit_by_id_id)
qed

section \<open>The books\<close>

text \<open>
  A reservation item charges its limit the reserved amount until it is settled, then the actual one.
  It counts for a limit in the window it was made in.
\<close>

definition charge :: "reservation_item \<Rightarrow> int" where
  "charge i = (case ri_actual_delta i of None \<Rightarrow> ri_reserved_delta i | Some a \<Rightarrow> a)"

definition counts_for :: "api_key_limit \<Rightarrow> reservation_item \<Rightarrow> bool" where
  "counts_for l i \<longleftrightarrow> ri_limit_id i = kl_id l \<and> ri_expected_reset_at i = kl_reset_at l"

definition charged :: "api_key_limit \<Rightarrow> reservation_item list \<Rightarrow> int" where
  "charged l items = sum_list (map charge (filter (counts_for l) items))"

definition item_key :: "reservation_item \<Rightarrow> string \<times> int" where
  "item_key i = (ri_reservation_id i, ri_limit_id i)"

definition books_ok :: "api_key_limit list \<Rightarrow> reservation_item list \<Rightarrow> bool" where
  "books_ok limits items \<longleftrightarrow>
     distinct (map kl_id limits) \<and> distinct (map item_key items) \<and>
     (\<forall>i \<in> set items. 0 \<le> charge i) \<and>
     (\<forall>i \<in> set items. \<forall>l \<in> set limits. ri_limit_id i = kl_id l \<longrightarrow> ri_expected_reset_at i \<le> kl_reset_at l) \<and>
     (\<forall>l \<in> set limits. kl_current_value l = charged l items)"

lemma charged_simps [simp]:
  "charged l [] = 0"
  "charged l (i # is) = (if counts_for l i then charge i else 0) + charged l is"
  "charged l (is @ js) = charged l is + charged l js"
  by (simp_all add: charged_def)

lemma charged_nonneg: "\<forall>i \<in> set items. 0 \<le> charge i \<Longrightarrow> 0 \<le> charged l items"
  by (induction items) auto

lemma charged_ge:
  "\<forall>i \<in> set items. 0 \<le> charge i \<Longrightarrow> i \<in> set items \<Longrightarrow> counts_for l i \<Longrightarrow> charge i \<le> charged l items"
  by (induction items) (auto dest: charged_nonneg [of _ l])

lemma charged_cong:
  "(\<And>i. i \<in> set items \<Longrightarrow> counts_for l i = counts_for l' i) \<Longrightarrow> charged l items = charged l' items"
  by (induction items) auto

lemma charged_replace:
  assumes "distinct items" "i \<in> set items" "counts_for l j = counts_for l i"
  shows "charged l (map (\<lambda>x. if x = i then j else x) items) =
           charged l items + (if counts_for l i then charge j - charge i else 0)"
  using assms
proof (induction items)
  case (Cons x items)
  show ?case
  proof (cases "x = i")
    case True
    then have "map (\<lambda>x. if x = i then j else x) items = items" using Cons.prems(1) by (auto intro: map_idI)
    with True Cons.prems(3) show ?thesis by simp
  qed (use Cons in auto)
qed simp

lemma counts_for_update [simp]:
  "counts_for (l\<lparr> kl_current_value := v \<rparr>) i = counts_for l i"
  "counts_for l (i\<lparr> ri_actual_delta := a \<rparr>) = counts_for l i"
  "counts_for l (i\<lparr> ri_reservation_id := r \<rparr>) = counts_for l i"
  by (simp_all add: counts_for_def)

lemma charged_update [simp]: "charged (l\<lparr> kl_current_value := v \<rparr>) items = charged l items"
  by (rule charged_cong) simp

subsection \<open>Settling one item\<close>

lemma upsert_items:
  assumes "distinct (map item_key (kd_items db))" "i \<in> set (kd_items db)"
  shows "kd_items (upsert_reservation_item_actual (ri_reservation_id i) i a db) =
           map (\<lambda>x. if x = i then i\<lparr> ri_actual_delta := Some a \<rparr> else x) (kd_items db)"
proof -
  have "is_item (ri_reservation_id i) (ri_limit_id i) x \<longleftrightarrow> x = i" if "x \<in> set (kd_items db)" for x
    using assms that by (auto simp: is_item_def item_key_def distinct_map inj_on_def)
  moreover have "list_ex (is_item (ri_reservation_id i) (ri_limit_id i)) (kd_items db)"
    using assms(2) by (auto simp: list_ex_iff is_item_def)
  ultimately show ?thesis by (simp add: upsert_reservation_item_actual_def cong: map_cong)
qed

lemma books_adjust:
  assumes "books_ok limits items" "i \<in> set items" "ri_actual_delta i = None" "0 \<le> a"
  defines "d \<equiv> a - ri_reserved_delta i"
  shows "books_ok
    (map (\<lambda>l. if kl_id l = ri_limit_id i \<and> kl_reset_at l = ri_expected_reset_at i \<and>
                 (d < 0 \<longrightarrow> - d \<le> kl_current_value l)
              then l\<lparr> kl_current_value := kl_current_value l + d \<rparr> else l) limits)
    (map (\<lambda>x. if x = i then i\<lparr> ri_actual_delta := Some a \<rparr> else x) items)"
    (is "books_ok (map ?f limits) (map ?g items)")
proof -
  have reserved: "charge i = ri_reserved_delta i" using assms(3) by (simp add: charge_def)
  have current: "kl_current_value l = charged l items" if "l \<in> set limits" for l
    using assms(1) that by (simp add: books_ok_def)
  have f: "?f l = (if counts_for l i then l\<lparr> kl_current_value := kl_current_value l + d \<rparr> else l)"
    if "l \<in> set limits" for l
  proof (cases "counts_for l i")
    case True
    have "charge i \<le> kl_current_value l"
      unfolding current [OF that] using assms(1,2) True by (intro charged_ge) (simp_all add: books_ok_def)
    then have "- d \<le> kl_current_value l" using assms(4) reserved by (simp add: d_def)
    with True show ?thesis by (simp add: counts_for_def)
  next
    case False
    then show ?thesis by (auto simp: counts_for_def)
  qed
  have ids: "map kl_id (map ?f limits) = map kl_id limits" "map item_key (map ?g items) = map item_key items"
    by (auto simp: item_key_def)
  have "distinct items" using assms(1) by (simp add: books_ok_def distinct_map)
  then have "charged l (map ?g items) = charged l items + (if counts_for l i then d else 0)" for l
    using charged_replace [of items i l "i\<lparr> ri_actual_delta := Some a \<rparr>"] assms(2) reserved
    by (simp add: charge_def d_def)
  then have balance: "kl_current_value (?f l) = charged (?f l) (map ?g items)" if "l \<in> set limits" for l
    unfolding f [OF that] using current [OF that] by simp
  have nonneg: "\<forall>x \<in> set (map ?g items). 0 \<le> charge x"
    unfolding set_map ball_simps(9) using assms(1,4) by (simp add: books_ok_def charge_def)
  have bound: "\<forall>x \<in> set (map ?g items). \<forall>l \<in> set (map ?f limits).
      ri_limit_id x = kl_id l \<longrightarrow> ri_expected_reset_at x \<le> kl_reset_at l"
  proof -
    have g: "ri_limit_id (?g x) = ri_limit_id x" "ri_expected_reset_at (?g x) = ri_expected_reset_at x" for x by simp_all
    have f: "kl_id (?f l) = kl_id l" "kl_reset_at (?f l) = kl_reset_at l" for l by simp_all
    show ?thesis unfolding set_map ball_simps(9) f g using assms(1) by (simp add: books_ok_def)
  qed
  have "\<forall>l \<in> set (map ?f limits). kl_current_value l = charged l (map ?g items)"
    unfolding set_map ball_simps(9) using balance by blast
  moreover have "distinct (map kl_id limits)" "distinct (map item_key items)"
    using assms(1) by (simp_all add: books_ok_def)
  ultimately show ?thesis unfolding books_ok_def ids using nonneg bound by blast
qed

subsection \<open>Settling a reservation\<close>

lemma adjust_zero [simp]: "fst (adjust_reserved_usage i 0 e db) = db"
proof -
  have "map (\<lambda>l. if kl_id l = i \<and> kl_reset_at l = e then l\<lparr> kl_current_value := kl_current_value l \<rparr> else l) (kd_limits db)
      = kd_limits db" by (rule map_idI) simp
  then show ?thesis by (simp add: adjust_reserved_usage_def update_limits_def update_where_def)
qed

lemma release_is_settle_zero: "release_item r = settle_item r (\<lambda>_. 0)"
  by (rule ext)+ (simp add: release_item_def settle_item_def)

lemma settle_item_rows:
  "kd_limits (settle_item r inc i db) =
     kd_limits (fst (adjust_reserved_usage (ri_limit_id i) (inc (ri_limit_type i) - ri_reserved_delta i)
                       (ri_expected_reset_at i) db))"
  "kd_reservations (settle_item r inc i db) = kd_reservations db"
  "kd_keys (settle_item r inc i db) = kd_keys db"
  by (simp_all add: settle_item_def Let_def)

lemma settle_item_items:
  assumes "distinct (map item_key (kd_items db))" "i \<in> set (kd_items db)" "ri_reservation_id i = r"
  shows "kd_items (settle_item r inc i db) =
    map (\<lambda>x. if x = i then i\<lparr> ri_actual_delta := Some (inc (ri_limit_type i)) \<rparr> else x) (kd_items db)"
  unfolding settle_item_def Let_def
  using upsert_items [of "if inc (ri_limit_type i) - ri_reserved_delta i \<noteq> 0
      then fst (adjust_reserved_usage (ri_limit_id i) (inc (ri_limit_type i) - ri_reserved_delta i) (ri_expected_reset_at i) db)
      else db" i "inc (ri_limit_type i)"] assms
  by (simp split: if_splits)

definition settled :: "reservation_item list \<Rightarrow> (limit_type \<Rightarrow> int) \<Rightarrow> reservation_item \<Rightarrow> reservation_item" where
  "settled its inc x = (if x \<in> set its then x\<lparr> ri_actual_delta := Some (inc (ri_limit_type x)) \<rparr> else x)"

lemma settled_simps [simp]:
  "item_key (settled its inc x) = item_key x" "ri_reservation_id (settled its inc x) = ri_reservation_id x"
  by (simp_all add: settled_def item_key_def)

lemma settle_items:
  assumes "books_ok (kd_limits db) (kd_items db)" "set its \<subseteq> set (kd_items db)" "distinct its"
    and "\<forall>i \<in> set its. ri_reservation_id i = r \<and> ri_actual_delta i = None" "\<And>t. 0 \<le> inc t"
  shows "books_ok (kd_limits (fold (settle_item r inc) its db)) (kd_items (fold (settle_item r inc) its db)) \<and>
    kd_items (fold (settle_item r inc) its db) = map (settled its inc) (kd_items db) \<and>
    kd_reservations (fold (settle_item r inc) its db) = kd_reservations db \<and>
    kd_keys (fold (settle_item r inc) its db) = kd_keys db"
  using assms(1-4)
proof (induction its arbitrary: db)
  case Nil
  then show ?case by (simp add: settled_def)
next
  case (Cons i its)
  let ?db = "settle_item r inc i db"
  let ?g = "\<lambda>x. if x = i then i\<lparr> ri_actual_delta := Some (inc (ri_limit_type i)) \<rparr> else x"
  have i: "i \<in> set (kd_items db)" "ri_reservation_id i = r" "ri_actual_delta i = None" using Cons.prems by auto
  have dist: "distinct (map item_key (kd_items db))" using Cons.prems(1) by (simp add: books_ok_def)
  have items: "kd_items ?db = map ?g (kd_items db)" by (rule settle_item_items [OF dist i(1,2)])
  have books: "books_ok (kd_limits ?db) (kd_items ?db)"
    unfolding items settle_item_rows adjust_rows
    by (rule books_adjust [OF Cons.prems(1) i(1,3) assms(5)])
  have sub: "set its \<subseteq> set (kd_items ?db)"
  proof
    fix x assume x: "x \<in> set its"
    then have ne: "x \<noteq> i" and mem: "x \<in> set (kd_items db)" using Cons.prems(2,3) by auto
    have "?g x \<in> ?g ` set (kd_items db)" using mem by (rule imageI)
    with ne show "x \<in> set (kd_items ?db)" unfolding items set_map by (simp only: if_False)
  qed
  have rest: "distinct its" "\<forall>i \<in> set its. ri_reservation_id i = r \<and> ri_actual_delta i = None"
    using Cons.prems(3,4) by simp_all
  note IH0 = Cons.IH [OF books sub rest]
  have IH: "books_ok (kd_limits (fold (settle_item r inc) its ?db)) (kd_items (fold (settle_item r inc) its ?db))"
    "kd_items (fold (settle_item r inc) its ?db) = map (settled its inc) (kd_items ?db)"
    "kd_reservations (fold (settle_item r inc) its ?db) = kd_reservations ?db"
    "kd_keys (fold (settle_item r inc) its ?db) = kd_keys ?db"
    using IH0 by blast+
  have new: "i\<lparr> ri_actual_delta := Some (inc (ri_limit_type i)) \<rparr> \<notin> set its" using rest(2) by force
  have "settled its inc (?g x) = settled (i # its) inc x" for x
    using new by (simp add: settled_def)
  then have "map (settled its inc) (kd_items ?db) = map (settled (i # its) inc) (kd_items db)"
    unfolding items by simp
  with IH show ?case by (simp add: settle_item_rows)
qed

section \<open>Reservations\<close>

definition open_ok :: "usage_reservation list \<Rightarrow> reservation_item list \<Rightarrow> bool" where
  "open_ok reservations items \<longleftrightarrow>
     distinct (map rv_id reservations) \<and>
     (\<forall>i \<in> set items. ri_reservation_id i \<in> rv_id ` set reservations) \<and>
     (\<forall>r \<in> set reservations. rv_status r = Reserved \<longrightarrow>
        (\<forall>i \<in> set items. ri_reservation_id i = rv_id r \<longrightarrow> ri_actual_delta i = None))"

definition ledger_ok :: "key_db \<Rightarrow> bool" where
  "ledger_ok db \<longleftrightarrow> books_ok (kd_limits db) (kd_items db) \<and> open_ok (kd_reservations db) (kd_items db)"

lemma update_reservations_rows [simp]:
  "kd_reservations (fst (update_reservations now p f db)) =
     map (\<lambda>r. if p r then (f r)\<lparr> rv_updated_at := now \<rparr> else r) (kd_reservations db)"
  "kd_items (fst (update_reservations now p f db)) = kd_items db"
  "kd_limits (fst (update_reservations now p f db)) = kd_limits db"
  "kd_keys (fst (update_reservations now p f db)) = kd_keys db"
  "snd (update_reservations now p f db) = list_ex p (kd_reservations db)"
  by (simp_all add: update_reservations_def update_where_def)

text \<open>Closing reservation \<open>rid\<close> and settling its items keeps the other reservations open.\<close>

lemma open_ok_close:
  assumes "open_ok rs items" "\<And>r. rv_id (f r) = rv_id r"
    and "\<And>r. r \<in> set rs \<Longrightarrow> rv_id r = rid \<Longrightarrow> rv_status (f r) \<noteq> Reserved"
    and "\<And>r. r \<in> set rs \<Longrightarrow> rv_id r \<noteq> rid \<Longrightarrow> rv_status (f r) = rv_status r"
    and "\<And>i. ri_reservation_id (g i) = ri_reservation_id i"
    and "\<And>i. i \<in> set items \<Longrightarrow> ri_reservation_id i \<noteq> rid \<Longrightarrow> g i = i"
  shows "open_ok (map f rs) (map g items)"
proof -
  have ids: "map rv_id (map f rs) = map rv_id rs" using assms(2) by simp
  have "distinct (map rv_id (map f rs))" unfolding ids using assms(1) by (simp add: open_ok_def)
  moreover have "\<forall>i \<in> set (map g items). ri_reservation_id i \<in> rv_id ` set (map f rs)"
    using assms(1) by (simp add: open_ok_def image_image assms(2,5))
  moreover have "\<forall>r \<in> set (map f rs). rv_status r = Reserved \<longrightarrow>
      (\<forall>i \<in> set (map g items). ri_reservation_id i = rv_id r \<longrightarrow> ri_actual_delta i = None)"
  proof (intro ballI impI)
    fix r i assume "r \<in> set (map f rs)" "rv_status r = Reserved" "i \<in> set (map g items)" "ri_reservation_id i = rv_id r"
    then obtain r' i' where r': "r' \<in> set rs" "r = f r'" and i': "i' \<in> set items" "i = g i'" by auto
    have ne: "rv_id r' \<noteq> rid" using assms(3) r' \<open>rv_status r = Reserved\<close> by blast
    have id: "ri_reservation_id i' = rv_id r'" using \<open>ri_reservation_id i = rv_id r\<close> i'(2) r'(2) assms(2,5) by simp
    have "rv_status r' = Reserved" using assms(4) [OF r'(1) ne] r'(2) \<open>rv_status r = Reserved\<close> by simp
    then have "ri_actual_delta i' = None" using assms(1) r'(1) i'(1) id by (simp add: open_ok_def)
    then show "ri_actual_delta i = None" using assms(6) [OF i'(1)] id ne i'(2) by simp
  qed
  ultimately show ?thesis unfolding open_ok_def by blast
qed

text \<open>Whatever closes a reservation keeps the books.\<close>

definition close_reservation ::
  "string \<Rightarrow> (limit_type \<Rightarrow> int) \<Rightarrow> (usage_reservation \<Rightarrow> usage_reservation) \<Rightarrow> key_db \<Rightarrow> key_db"
where
  "close_reservation r0 inc f db =
     (let its = filter (\<lambda>i. ri_reservation_id i = r0) (kd_items db);
          db' = fold (settle_item r0 inc) its db
      in db'\<lparr> kd_reservations := map (\<lambda>r. if rv_id r = r0 then f r else r) (kd_reservations db) \<rparr>)"

lemma close_reservation_ok:
  assumes "ledger_ok db" "r \<in> set (kd_reservations db)" "rv_status r = Reserved"
    and "\<And>t. 0 \<le> inc t" "\<And>r. rv_id (f r) = rv_id r" "\<And>r. rv_status (f r) \<noteq> Reserved"
  shows "ledger_ok (close_reservation (rv_id r) inc f db)"
proof -
  let ?its = "filter (\<lambda>i. ri_reservation_id i = rv_id r) (kd_items db)"
  have books: "books_ok (kd_limits db) (kd_items db)" and op: "open_ok (kd_reservations db) (kd_items db)"
    using assms(1) by (simp_all add: ledger_ok_def)
  have sub: "set ?its \<subseteq> set (kd_items db)" by auto
  have dist: "distinct ?its" using books by (simp add: books_ok_def distinct_map)
  have none: "\<forall>i \<in> set ?its. ri_reservation_id i = rv_id r \<and> ri_actual_delta i = None"
    using op assms(2,3) by (simp add: open_ok_def)
  note settle = settle_items [where inc = inc, OF books sub dist none assms(4)]
  let ?db = "fold (settle_item (rv_id r) inc) ?its db"
  have b: "books_ok (kd_limits ?db) (kd_items ?db)" and items: "kd_items ?db = map (settled ?its inc) (kd_items db)"
    using settle by blast+
  have "open_ok (map (\<lambda>x. if rv_id x = rv_id r then f x else x) (kd_reservations db)) (kd_items ?db)"
    unfolding items
    by (rule open_ok_close [OF op, where rid = "rv_id r"]) (simp_all add: assms(5,6) settled_def)
  with b show ?thesis by (simp add: ledger_ok_def close_reservation_def Let_def)
qed

lemma find_reservation:
  assumes "get_usage_reservation r0 db = Some (r, its)"
  shows "r \<in> set (kd_reservations db) \<and> rv_id r = r0 \<and> its = filter (\<lambda>i. ri_reservation_id i = r0) (kd_items db)"
  using assms by (auto simp: get_usage_reservation_def dest: find_id)

lemma settle_item_items_eq:
  "kd_items (settle_item r inc i db) =
     (if list_ex (is_item r (ri_limit_id i)) (kd_items db)
      then map (\<lambda>x. if is_item r (ri_limit_id i) x
                    then x\<lparr> ri_actual_delta := Some (inc (ri_limit_type i)) \<rparr> else x) (kd_items db)
      else kd_items db @ [i\<lparr> ri_reservation_id := r, ri_actual_delta := Some (inc (ri_limit_type i)) \<rparr>])"
  by (simp add: settle_item_def Let_def upsert_reservation_item_actual_def)

lemma fold_settle_frame:
  assumes "kd_limits db = kd_limits db'" "kd_items db = kd_items db'"
  shows "kd_limits (fold (settle_item r inc) its db) = kd_limits (fold (settle_item r inc) its db') \<and>
         kd_items (fold (settle_item r inc) its db) = kd_items (fold (settle_item r inc) its db')"
  using assms
proof (induction its arbitrary: db db')
  case (Cons i its)
  have l: "kd_limits (settle_item r inc i db) = kd_limits (settle_item r inc i db')"
    unfolding settle_item_rows adjust_rows Cons.prems(1) ..
  have "kd_items (settle_item r inc i db) = kd_items (settle_item r inc i db')"
    unfolding settle_item_items_eq Cons.prems(2) ..
  from Cons.IH [OF l this] show ?case by simp
qed simp

lemma fold_settle_reservations [simp]:
  "kd_reservations (fold (settle_item r inc) its db) = kd_reservations db"
  by (induction its arbitrary: db) (simp_all add: settle_item_rows)

lemma ledger_ok_cong:
  "kd_limits db = kd_limits db' \<Longrightarrow> kd_items db = kd_items db' \<Longrightarrow> kd_reservations db = kd_reservations db' \<Longrightarrow>
     ledger_ok db = ledger_ok db'"
  by (simp add: ledger_ok_def)

lemma update_last_used_frame [simp]:
  "kd_limits (update_last_used now k db) = kd_limits db" "kd_items (update_last_used now k db) = kd_items db"
  "kd_reservations (update_last_used now k db) = kd_reservations db"
  by (simp_all add: update_last_used_def)

text \<open>Both ways of closing a reservation do what \<^const>\<open>close_reservation\<close> says.\<close>

lemma closing_frame:
  fixes db r0 now st1 status inp out cached cost inc
  assumes "its = filter (\<lambda>i. ri_reservation_id i = r0) (kd_items db)"
  defines "db' \<equiv> settle_usage_reservation now r0 status inp out cached cost
      (fold (settle_item r0 inc) its (fst (transition_usage_reservation_status now r0 Reserved st1 db)))"
    and "f \<equiv> \<lambda>x. x\<lparr> rv_status := status, rv_input_tokens := inp, rv_output_tokens := out,
                     rv_cached_input_tokens := cached, rv_cost_microdollars := cost, rv_updated_at := now \<rparr>"
  shows "kd_limits db' = kd_limits (close_reservation r0 inc f db)"
    and "kd_items db' = kd_items (close_reservation r0 inc f db)"
    and "kd_reservations db' = kd_reservations (close_reservation r0 inc f db)"
proof -
  let ?t = "fst (transition_usage_reservation_status now r0 Reserved st1 db)"
  have t: "kd_limits ?t = kd_limits db" "kd_items ?t = kd_items db"
    by (simp_all add: transition_usage_reservation_status_def)
  show "kd_limits db' = kd_limits (close_reservation r0 inc f db)"
    "kd_items db' = kd_items (close_reservation r0 inc f db)"
    using fold_settle_frame [OF t, of r0 inc its] assms(1)
    by (simp_all add: db'_def settle_usage_reservation_def close_reservation_def Let_def)
  show "kd_reservations db' = kd_reservations (close_reservation r0 inc f db)"
    by (auto simp: db'_def f_def settle_usage_reservation_def close_reservation_def Let_def
        transition_usage_reservation_status_def)
qed

lemma transition_claimed:
  assumes "get_usage_reservation r0 db = Some (r, its)" "rv_status r = Reserved"
  shows "snd (transition_usage_reservation_status now r0 Reserved st1 db)"
  using find_reservation [OF assms(1)] assms(2)
  by (auto simp: transition_usage_reservation_status_def list_ex_iff)

lemma closing_ok:
  assumes "ledger_ok db" "get_usage_reservation r0 db = Some (r, its)" "rv_status r = Reserved"
    and "\<And>t. 0 \<le> inc t" "status \<noteq> Reserved"
  shows "ledger_ok (settle_usage_reservation now r0 status inp out cached cost
      (fold (settle_item r0 inc) its (fst (transition_usage_reservation_status now r0 Reserved st1 db))))"
proof -
  note r = find_reservation [OF assms(2)]
  let ?f = "\<lambda>x. x\<lparr> rv_status := status, rv_input_tokens := inp, rv_output_tokens := out,
                   rv_cached_input_tokens := cached, rv_cost_microdollars := cost, rv_updated_at := now \<rparr>"
  have "ledger_ok (close_reservation (rv_id r) inc ?f db)"
    by (rule close_reservation_ok [OF assms(1) _ assms(3,4)]) (use r assms(5) in simp_all)
  then have "ledger_ok (close_reservation r0 inc ?f db)" using r by simp
  with closing_frame [where its = its and db = db and ?r0.0 = r0] r show ?thesis
    using ledger_ok_cong by metis
qed

lemma settle_reservation_ok:
  assumes "ledger_ok db" "\<And>t. 0 \<le> compute_increment_for_limit_type t (or_num inp 0) (or_num out 0)
      (calculate_cost_microdollars model (or_num inp 0) (or_num out 0) (or_num cached 0) tier)"
    and "status \<noteq> Reserved"
  shows "ledger_ok (settle_reservation now status r0 model inp out cached tier db)"
proof (cases "get_usage_reservation r0 db")
  case None
  then show ?thesis using assms(1) by (simp add: settle_reservation_def)
next
  case (Some p)
  obtain r its where p: "p = (r, its)" by (cases p)
  show ?thesis
  proof (cases "rv_status r = Reserved")
    case False
    then show ?thesis using assms(1) Some p by (simp add: settle_reservation_def)
  next
    case True
    note ok = closing_ok [OF assms(1) Some [unfolded p] True, of
        "\<lambda>t. compute_increment_for_limit_type t (or_num inp 0) (or_num out 0)
          (calculate_cost_microdollars model (or_num inp 0) (or_num out 0) (or_num cached 0) tier)" status]
    show ?thesis
      using ok [OF assms(2,3)] Some p True transition_claimed [OF Some [unfolded p] True]
      by (simp add: settle_reservation_def Let_def split_beta ledger_ok_def)
  qed
qed

lemma release_usage_reservation_ok:
  assumes "ledger_ok db"
  shows "ledger_ok (release_usage_reservation_once now r0 db)"
proof (cases "get_usage_reservation r0 db")
  case None
  then show ?thesis using assms by (simp add: release_usage_reservation_once_def)
next
  case (Some p)
  obtain r its where p: "p = (r, its)" by (cases p)
  show ?thesis
  proof (cases "rv_status r = Reserved")
    case False
    then show ?thesis using assms Some p by (simp add: release_usage_reservation_once_def)
  next
    case True
    then show ?thesis
      using closing_ok [OF assms Some [unfolded p] True, of "\<lambda>_. 0" Released] Some p
        transition_claimed [OF Some [unfolded p] True]
      by (simp add: release_usage_reservation_once_def Let_def split_beta release_is_settle_zero)
  qed
qed

section \<open>Windows\<close>

lemma books_reset:
  assumes "books_ok limits items" "e < t"
  shows "books_ok (map (\<lambda>l. if kl_id l = i \<and> kl_reset_at l = e
                            then l\<lparr> kl_current_value := 0, kl_reset_at := t \<rparr> else l) limits) items"
    (is "books_ok (map ?f limits) items")
proof -
  have ids: "map kl_id (map ?f limits) = map kl_id limits" by simp
  have bound: "ri_expected_reset_at x \<le> kl_reset_at l" if "x \<in> set items" "l \<in> set limits" "ri_limit_id x = kl_id l" for x l
    using assms(1) that by (simp add: books_ok_def)
  have current: "kl_current_value l = charged l items" if "l \<in> set limits" for l
    using assms(1) that by (simp add: books_ok_def)
  have "charged (?f l) items = 0" if l: "l \<in> set limits" "kl_id l = i" "kl_reset_at l = e" for l
  proof -
    have "\<not> counts_for (?f l) x" if "x \<in> set items" for x
      using bound [OF that l(1)] l(2,3) assms(2) by (auto simp: counts_for_def)
    then have "filter (counts_for (?f l)) items = []" by (simp add: filter_empty_conv)
    then show ?thesis by (simp only: charged_def list.map sum_list.Nil)
  qed
  then have "\<forall>l \<in> set (map ?f limits). kl_current_value l = charged l items"
    unfolding set_map ball_simps(9) using current by simp
  moreover have "\<forall>x \<in> set items. \<forall>l \<in> set (map ?f limits). ri_limit_id x = kl_id l \<longrightarrow>
      ri_expected_reset_at x \<le> kl_reset_at l"
    unfolding set_map ball_simps(9) using bound assms(2) by fastforce
  ultimately show ?thesis using assms(1) unfolding books_ok_def ids by blast
qed

lemma reset_limit_ok:
  assumes "ledger_ok db" "e < t"
  shows "ledger_ok (fst (reset_limit i e t db))"
proof -
  have "kd_items (fst (reset_limit i e t db)) = kd_items db"
    "kd_reservations (fst (reset_limit i e t db)) = kd_reservations db"
    by (simp_all add: reset_limit_def update_limits_def split_beta)
  then show ?thesis using assms books_reset [of "kd_limits db" "kd_items db" e t i]
    by (simp add: ledger_ok_def reset_limit_rows)
qed

lemma lazy_reset_ok: "ledger_ok db \<Longrightarrow> ledger_ok (fst (lazy_reset_expired_limits now ls db))"
proof (induction ls arbitrary: db)
  case (Cons l ls)
  have "kl_reset_at l < advance_limit_reset (kl_reset_at l) now (kl_limit_window l)" if "kl_reset_at l < now"
    using that advance_limit_reset_after [of now "kl_reset_at l" "kl_limit_window l"] by simp
  then show ?case using Cons reset_limit_ok by simp
qed simp

lemma reset_batch_ok:
  "ledger_ok db \<Longrightarrow> \<forall>l \<in> set ls. kl_reset_at l < now \<Longrightarrow> ledger_ok (fst (reset_batch now ls (db, n)))"
proof (induction ls arbitrary: db n)
  case (Cons l ls)
  have "kl_reset_at l < advance_limit_reset (kl_reset_at l) now (kl_limit_window l)"
    using Cons.prems(2) advance_limit_reset_after [of now "kl_reset_at l" "kl_limit_window l"] by simp
  from reset_limit_ok [OF Cons.prems(1) this, of "kl_id l"] Cons show ?case by (simp add: split_beta)
qed simp

lemma reset_expired_limits_ok: "ledger_ok (fst s) \<Longrightarrow> ledger_ok (fst (reset_expired_limits now s))"
proof (induction now s rule: reset_expired_limits.induct)
  case (1 now s)
  have "\<forall>l \<in> set (expired_batch now (fst s)). kl_reset_at l < now"
    using expired_batch_set [of now "fst s"] by (auto simp: expired_limit_def)
  from reset_batch_ok [OF 1(2) this, of "snd s"] 1 show ?case
    by (subst reset_expired_limits.simps) simp
qed

section \<open>Stale reservations\<close>

lemma settle_item_other:
  "rid \<noteq> r \<Longrightarrow> filter (\<lambda>i. ri_reservation_id i = rid) (kd_items (settle_item r inc i db)) =
     filter (\<lambda>i. ri_reservation_id i = rid) (kd_items db)"
proof -
  assume ne: "rid \<noteq> r"
  have "filter (\<lambda>i. ri_reservation_id i = rid) (map (\<lambda>x. if is_item r j x then x\<lparr> ri_actual_delta := a \<rparr> else x) xs)
      = filter (\<lambda>i. ri_reservation_id i = rid) xs" for xs j a
    using ne by (induction xs) (auto simp: is_item_def)
  with ne show ?thesis by (simp add: settle_item_items_eq)
qed

lemma fold_settle_other:
  "rid \<noteq> r \<Longrightarrow> filter (\<lambda>i. ri_reservation_id i = rid) (kd_items (fold (settle_item r inc) its db)) =
     filter (\<lambda>i. ri_reservation_id i = rid) (kd_items db)"
  by (induction its arbitrary: db) (simp_all add: settle_item_other)

lemma claim_stale_frame [simp]:
  "kd_limits (fst (claim_stale now cutoff i db)) = kd_limits db"
  "kd_items (fst (claim_stale now cutoff i db)) = kd_items db"
  by (simp_all add: claim_stale_def)

lemma claim_stale_ok:
  assumes "ledger_ok db" "its = filter (\<lambda>i. ri_reservation_id i = r0) (kd_items db)"
  shows "if snd (claim_stale now cutoff r0 db)
         then ledger_ok (fold (release_item r0) its (fst (claim_stale now cutoff r0 db)))
         else ledger_ok (fst (claim_stale now cutoff r0 db))"
proof (cases "snd (claim_stale now cutoff r0 db)")
  case True
  then obtain r where r: "r \<in> set (kd_reservations db)" "rv_id r = r0" "stale_reservation cutoff r"
    by (auto simp: claim_stale_def list_ex_iff)
  let ?f = "\<lambda>r. r\<lparr> rv_status := Released, rv_input_tokens := None, rv_output_tokens := None,
                   rv_cached_input_tokens := None, rv_cost_microdollars := None, rv_updated_at := now \<rparr>"
  have "distinct (map rv_id (kd_reservations db))" using assms(1) by (simp add: ledger_ok_def open_ok_def)
  then have "stale_reservation cutoff x" if "x \<in> set (kd_reservations db)" "rv_id x = r0" for x
    using that r find_id_unique [of rv_id "kd_reservations db"] by (metis option.inject)
  then have "kd_reservations (fst (claim_stale now cutoff r0 db)) =
      map (\<lambda>r. if rv_id r = r0 then ?f r else r) (kd_reservations db)"
    by (simp add: claim_stale_rows)
  moreover have "ledger_ok (close_reservation (rv_id r) (\<lambda>_. 0) ?f db)"
    by (rule close_reservation_ok [OF assms(1) r(1)]) (use r(3) in \<open>simp_all add: stale_reservation_def\<close>)
  ultimately show ?thesis
    using True r(2) assms(2) fold_settle_frame [of "fst (claim_stale now cutoff r0 db)" db r0 "\<lambda>_. 0" its]
    by (simp add: close_reservation_def Let_def release_is_settle_zero ledger_ok_def)
next
  case False
  then have "kd_reservations (fst (claim_stale now cutoff r0 db)) = kd_reservations db"
    by (simp add: claim_stale_rows) (rule map_idI, auto simp: claim_stale_def list_ex_iff)
  with False assms(1) show ?thesis by (simp add: ledger_ok_def)
qed

lemma release_batch_ok:
  "ledger_ok db \<Longrightarrow> distinct (map fst rs) \<Longrightarrow>
   \<forall>(rid, its) \<in> set rs. its = filter (\<lambda>i. ri_reservation_id i = rid) (kd_items db) \<Longrightarrow>
   ledger_ok (fst (release_batch now cutoff rs (db, n)))"
proof (induction rs arbitrary: db n)
  case (Cons p rs)
  obtain rid its where p: "p = (rid, its)" by (cases p)
  let ?c = "claim_stale now cutoff rid db"
  let ?db = "if snd ?c then fold (release_item rid) its (fst ?c) else fst ?c"
  have its: "its = filter (\<lambda>i. ri_reservation_id i = rid) (kd_items db)" using Cons.prems(3) p by simp
  have ok: "ledger_ok ?db" using claim_stale_ok [OF Cons.prems(1) its, of now cutoff] by (auto split: if_splits)
  have rest: "\<forall>(rid', its') \<in> set rs. its' = filter (\<lambda>i. ri_reservation_id i = rid') (kd_items ?db)"
  proof clarify
    fix rid' its' assume m: "(rid', its') \<in> set rs"
    then have "rid' \<noteq> rid" using Cons.prems(2) p by force
    moreover have "its' = filter (\<lambda>i. ri_reservation_id i = rid') (kd_items db)" using m Cons.prems(3) by auto
    ultimately show "its' = filter (\<lambda>i. ri_reservation_id i = rid') (kd_items ?db)"
      by (simp add: release_is_settle_zero fold_settle_other)
  qed
  have "distinct (map fst rs)" using Cons.prems(2) by simp
  from Cons.IH [OF ok this rest] show ?case
    by (cases "snd ?c") (simp_all add: p split_beta)
qed simp

lemma stale_batch_distinct:
  "distinct (map rv_id (kd_reservations db)) \<Longrightarrow> distinct (map fst (stale_batch cutoff bs db))"
proof -
  assume d: "distinct (map rv_id (kd_reservations db))"
  let ?s = "sort_key rv_updated_at (filter (stale_reservation cutoff) (kd_reservations db))"
  have "inj_on rv_id (set ?s)" "distinct ?s" using d by (auto simp: distinct_map inj_on_def)
  then have "distinct (map rv_id (take bs ?s))"
    by (metis distinct_map distinct_take take_map)
  then show ?thesis by (simp add: stale_batch_def comp_def)
qed

lemma release_stale_ok:
  "ledger_ok (fst s) \<Longrightarrow> ledger_ok (fst (release_stale_usage_reservations now cutoff bs s))"
proof (induction now cutoff bs s rule: release_stale_usage_reservations.induct)
  case (1 now cutoff bs s)
  have "distinct (map fst (stale_batch cutoff bs (fst s)))"
    using 1(2) by (intro stale_batch_distinct) (simp add: ledger_ok_def open_ok_def)
  moreover have "\<forall>(rid, its) \<in> set (stale_batch cutoff bs (fst s)).
      its = filter (\<lambda>i. ri_reservation_id i = rid) (kd_items (fst s))"
    by (auto simp: stale_batch_def)
  ultimately have "ledger_ok (fst (release_batch now cutoff (stale_batch cutoff bs (fst s)) s))"
    using release_batch_ok [OF 1(2), of _ now cutoff "snd s"] by simp
  with 1 show ?case by (subst release_stale_usage_reservations.simps) simp
qed

section \<open>Admitting a request\<close>

text \<open>The item that is recorded for a limit, computed from the limits as they were read.\<close>

definition reserved_item ::
  "string option \<Rightarrow> string option \<Rightarrow> usage_budget \<Rightarrow> api_key_limit \<Rightarrow> reservation_item"
where
  "reserved_item model tier budget l =
     \<lparr> ri_reservation_id = [], ri_limit_id = kl_id l, ri_limit_type = kl_limit_type l,
       ri_reserved_delta = reserve_delta_for_limit l model tier budget,
       ri_expected_reset_at = kl_reset_at l, ri_actual_delta = None \<rparr>"

definition exhausted_for :: "string option \<Rightarrow> api_key_limit \<Rightarrow> bool" where
  "exhausted_for model l \<longleftrightarrow> limit_applies_for_request l model \<and> kl_max_value l \<le> kl_current_value l"

definition add_charges :: "reservation_item list \<Rightarrow> api_key_limit \<Rightarrow> api_key_limit" where
  "add_charges items l = l\<lparr> kl_current_value := kl_current_value l + charged l items \<rparr>"

lemma add_charges_simps [simp]:
  "add_charges [] l = l"
  "kl_id (add_charges items l) = kl_id l"
  "kl_reset_at (add_charges items l) = kl_reset_at l"
  "kl_current_value (add_charges items l) = kl_current_value l + charged l items"
  "kl_max_value (add_charges items l) = kl_max_value l"
  "charged (add_charges items l) items' = charged l items'"
  by (simp_all add: add_charges_def)

lemma add_charges_charges: "add_charges its (add_charges its' l) = add_charges (its' @ its) l"
  by (simp add: add_charges_def)

lemma reserved_item_simps [simp]:
  "ri_limit_id (reserved_item m t b l) = kl_id l"
  "ri_expected_reset_at (reserved_item m t b l) = kl_reset_at l"
  "ri_actual_delta (reserved_item m t b l) = None"
  "charge (reserved_item m t b l) = reserve_delta_for_limit l m t b"
  by (simp_all add: reserved_item_def charge_def)

definition budget_ok :: "string option \<Rightarrow> string option \<Rightarrow> usage_budget \<Rightarrow> bool" where
  "budget_ok model tier budget \<longleftrightarrow>
     list_all (\<lambda>t. 0 \<le> reserve_budget_for_limit_type t model tier budget)
       [TOTAL_TOKENS, INPUT_TOKENS, OUTPUT_TOKENS, COST_USD, CREDITS]"

lemma budget_okD: "budget_ok model tier budget \<Longrightarrow> 0 \<le> reserve_budget_for_limit_type t model tier budget"
  by (cases t) (simp_all add: budget_ok_def)

lemma unknown_model_cost_nonneg: "0 \<le> unknown_model_reserve_cost_budget_microdollars i out"
  by (simp add: unknown_model_reserve_cost_budget_microdollars_def Let_def UNKNOWN_MODEL_MICRODOLLARS_def
      UNKNOWN_MODEL_BASE_TOKENS_def API_KEY_USAGE_RESERVATION_MAX_TOKEN_BUDGET_def)

lemma normalized_budget_ok: "budget_ok model tier (normalize_request_usage_budget budget)"
proof -
  have "0 \<le> reserve_cost_budget_microdollars model tier i out" for i out
    using unknown_model_cost_nonneg by (simp add: reserve_cost_budget_microdollars_def Let_def)
  then show ?thesis
    by (cases budget)
      (simp_all add: budget_ok_def reserve_budget_for_limit_type_def Let_def normalize_request_usage_budget_def
        or_num_def normalize_reservation_token_budget_def API_KEY_USAGE_RESERVATION_DEFAULT_INPUT_TOKENS_def
        API_KEY_USAGE_RESERVATION_DEFAULT_OUTPUT_TOKENS_def API_KEY_USAGE_RESERVATION_MAX_TOKEN_BUDGET_def
        split: option.split)
qed

lemma reserve_delta_bounds:
  assumes "budget_ok m t b"
  shows "0 \<le> reserve_delta_for_limit l m t b"
    and "kl_current_value l < kl_max_value l \<Longrightarrow>
           reserve_delta_for_limit l m t b \<le> kl_max_value l - kl_current_value l"
  using budget_okD [OF assms] by (simp_all add: reserve_delta_for_limit_def Let_def)

text \<open>Charging one row: the conditional update of the database always finds it as it was read.\<close>

lemma charge_row:
  assumes "distinct (map kl_id rows)" "l \<in> set rows" "0 < d" "kl_current_value l + d \<le> kl_max_value l"
  shows "map (\<lambda>x. if kl_id x = kl_id l \<and> kl_reset_at x = kl_reset_at l \<and> kl_current_value x + d \<le> kl_max_value x
                  then x\<lparr> kl_current_value := kl_current_value x + d \<rparr> else x) rows =
         map (\<lambda>x. if kl_id x = kl_id l then x\<lparr> kl_current_value := kl_current_value x + d \<rparr> else x) rows"
proof (rule map_cong [OF refl])
  fix x assume x: "x \<in> set rows"
  have "x = l" if "kl_id x = kl_id l" using assms(1,2) x that by (auto simp: distinct_map dest: inj_onD)
  then show "(if kl_id x = kl_id l \<and> kl_reset_at x = kl_reset_at l \<and> kl_current_value x + d \<le> kl_max_value x
      then x\<lparr> kl_current_value := kl_current_value x + d \<rparr> else x) =
    (if kl_id x = kl_id l then x\<lparr> kl_current_value := kl_current_value x + d \<rparr> else x)" using assms(4) by auto
qed

lemma charge_one:
  assumes "distinct (map kl_id rows)" "l \<in> set rows"
  shows "map (add_charges [reserved_item m t b l]) rows =
         map (\<lambda>x. if kl_id x = kl_id l
                  then x\<lparr> kl_current_value := kl_current_value x + reserve_delta_for_limit l m t b \<rparr> else x) rows"
proof (rule map_cong [OF refl])
  fix x assume x: "x \<in> set rows"
  have "x = l" if "kl_id x = kl_id l" using assms x that by (auto simp: distinct_map dest: inj_onD)
  then show "add_charges [reserved_item m t b l] x =
    (if kl_id x = kl_id l then x\<lparr> kl_current_value := kl_current_value x + reserve_delta_for_limit l m t b \<rparr> else x)"
    by (auto simp: add_charges_def counts_for_def)
qed

lemma reserve_one:
  assumes "distinct (map kl_id (kd_limits db))" "l \<in> set (kd_limits db)" "budget_ok m t b"
    and "kl_current_value l < kl_max_value l"
  shows "(if 0 < reserve_delta_for_limit l m t b
          then (let (r, db1) = try_reserve_usage (kl_id l) (reserve_delta_for_limit l m t b) (kl_reset_at l) db
                in (rr_success r, db1))
          else (True, db)) =
         (True, db\<lparr> kd_limits := map (add_charges [reserved_item m t b l]) (kd_limits db) \<rparr>)"
proof (cases "0 < reserve_delta_for_limit l m t b")
  case True
  let ?d = "reserve_delta_for_limit l m t b"
  have le: "kl_current_value l + ?d \<le> kl_max_value l" using reserve_delta_bounds(2) [OF assms(3,4)] by simp
  have ex: "list_ex (\<lambda>x. kl_id x = kl_id l \<and> kl_reset_at x = kl_reset_at l \<and> kl_current_value x + ?d \<le> kl_max_value x)
      (kd_limits db)" using assms(2) le by (auto simp: list_ex_iff)
  show ?thesis
    using True ex charge_row [OF assms(1,2) True le]
    by (simp add: try_reserve_usage_def Let_def split_beta update_limits_def update_where_def
        charge_one [OF assms(1,2)])
next
  case False
  then have "reserve_delta_for_limit l m t b = 0" using reserve_delta_bounds(1) [OF assms(3), of l] by simp
  then have "map (add_charges [reserved_item m t b l]) (kd_limits db) = kd_limits db"
    by (intro map_idI) (simp add: add_charges_def)
  with False show ?thesis by simp
qed

text \<open>
  The reference: a request is refused for the first exhausted limit that applies to it; otherwise all
  the limits that apply are charged at once.
\<close>

definition admit ::
  "string option \<Rightarrow> string option \<Rightarrow> usage_budget \<Rightarrow> api_key_limit list \<Rightarrow> key_db \<Rightarrow>
   key_error + (reservation_item list \<times> key_db)"
where
  "admit model tier budget ls db =
     (case find (exhausted_for model) ls of
        Some l \<Rightarrow> Inl (rate_limit_exceeded_error l)
      | None \<Rightarrow>
          (let items = map (reserved_item model tier budget) (filter (\<lambda>l. limit_applies_for_request l model) ls)
           in Inr (items, db\<lparr> kd_limits := map (add_charges items) (kd_limits db) \<rparr>)))"

lemma reserve_limits_admit_aux:
  assumes "budget_ok m t b"
  shows "distinct (map kl_id (kd_limits db)) \<Longrightarrow> set ls \<subseteq> set (kd_limits db) \<Longrightarrow> distinct (map kl_id ls) \<Longrightarrow>
    reserve_limits m t b ls db = admit m t b ls db"
proof (induction ls arbitrary: db)
  case Nil
  have "map (add_charges []) (kd_limits db) = kd_limits db" by (rule map_idI) simp
  then show ?case by (simp add: admit_def)
next
  case (Cons l ls)
  have sub: "set ls \<subseteq> set (kd_limits db)" and dist: "distinct (map kl_id ls)" and l: "l \<in> set (kd_limits db)"
    using Cons.prems(2,3) by auto
  show ?case
  proof (cases "limit_applies_for_request l m")
    case False
    with Cons.IH [OF Cons.prems(1) sub dist] show ?thesis
      by (simp add: admit_def exhausted_for_def split: option.splits)
  next
    case applies: True
    show ?thesis
    proof (cases "kl_max_value l \<le> kl_current_value l")
      case True
      with applies show ?thesis by (simp add: admit_def exhausted_for_def)
    next
      case False
      let ?i = "reserved_item m t b l"
      let ?db = "db\<lparr> kd_limits := map (add_charges [?i]) (kd_limits db) \<rparr>"
      have dist': "distinct (map kl_id (kd_limits ?db))" using Cons.prems(1) by (simp add: comp_def)
      have sub': "set ls \<subseteq> set (kd_limits ?db)"
      proof
        fix x assume x: "x \<in> set ls"
        then have "kl_id x \<in> set (map kl_id ls)" by simp
        then have "kl_id x \<noteq> kl_id l" using Cons.prems(3) by auto
        then have "add_charges [?i] x = x" by (simp add: add_charges_def counts_for_def)
        then show "x \<in> set (kd_limits ?db)" using x sub by force
      qed
      note IH = Cons.IH [OF dist' sub' dist]
      have "reserve_limits m t b (l # ls) db =
          (case reserve_limits m t b ls ?db of Inl e \<Rightarrow> Inl e | Inr (items, db2) \<Rightarrow> Inr (?i # items, db2))"
        using applies False reserve_one [OF Cons.prems(1) l assms]
        by (simp add: reserved_item_def Let_def split: sum.split)
      then show ?thesis
        unfolding IH using applies False
        by (simp add: admit_def exhausted_for_def Let_def add_charges_charges split: option.splits)
    qed
  qed
qed

text \<open>The limits of a key are rows of the table, so charging them one by one is charging them at once.\<close>

lemma reserve_limits_admit:
  assumes "limits_ok db"
  shows "reserve_limits m t (normalize_request_usage_budget b) (get_limits_by_key k db) db =
         admit m t (normalize_request_usage_budget b) (get_limits_by_key k db) db"
proof (rule reserve_limits_admit_aux [OF normalized_budget_ok])
  show "distinct (map kl_id (kd_limits db))" using assms by (simp add: limits_ok_def)
  then show "distinct (map kl_id (get_limits_by_key k db))"
    by (simp add: get_limits_by_key_def distinct_map_filter)
qed (auto simp: get_limits_by_key_def)

section \<open>Windows that end\<close>

definition roll :: "datetime \<Rightarrow> api_key_limit \<Rightarrow> api_key_limit" where
  "roll now l =
     (if expired_limit now l
      then l\<lparr> kl_current_value := 0,
              kl_reset_at := advance_limit_reset (kl_reset_at l) now (kl_limit_window l) \<rparr>
      else l)"

lemma roll_simps [simp]:
  "kl_id (roll now l) = kl_id l"
  "kl_api_key_id (roll now l) = kl_api_key_id l"
  "kl_max_value (roll now l) = kl_max_value l"
  by (simp_all add: roll_def)

lemma roll_not_expired [simp]: "\<not> expired_limit now (roll now l)"
  using advance_limit_reset_after [of now "kl_reset_at l" "kl_limit_window l"]
  by (auto simp: roll_def expired_limit_def)

lemma roll_idem [simp]: "roll now (roll now l) = roll now l"
  using roll_not_expired [of now l] by (simp add: roll_def [of now "roll now l"])

lemma reset_limit_roll:
  assumes "distinct (map kl_id (kd_limits db))" "l \<in> set (kd_limits db)" "expired_limit now l"
  shows "reset_limit (kl_id l) (kl_reset_at l) (advance_limit_reset (kl_reset_at l) now (kl_limit_window l)) db =
    (db\<lparr> kd_limits := map (\<lambda>x. if x = l then roll now x else x) (kd_limits db) \<rparr>, True)"
proof -
  have eq: "kl_id x = kl_id l \<and> kl_reset_at x = kl_reset_at l \<longleftrightarrow> x = l" if "x \<in> set (kd_limits db)" for x
    using assms(1,2) that by (auto simp: distinct_map dest: inj_onD)
  have "map (\<lambda>x. if kl_id x = kl_id l \<and> kl_reset_at x = kl_reset_at l
          then x\<lparr> kl_current_value := 0,
                  kl_reset_at := advance_limit_reset (kl_reset_at l) now (kl_limit_window l) \<rparr> else x) (kd_limits db) =
      map (\<lambda>x. if x = l then roll now x else x) (kd_limits db)"
    using eq assms(3) by (intro map_cong refl) (simp add: roll_def)
  moreover have "list_ex (\<lambda>x. kl_id x = kl_id l \<and> kl_reset_at x = kl_reset_at l) (kd_limits db)"
    using assms(2) by (auto simp: list_ex_iff)
  ultimately show ?thesis by (simp add: reset_limit_def update_limits_def update_where_def)
qed

definition roll_in :: "datetime \<Rightarrow> api_key_limit list \<Rightarrow> api_key_limit \<Rightarrow> api_key_limit" where
  "roll_in now ls l = (if l \<in> set ls then roll now l else l)"

lemma roll_in_ids [simp]: "kl_id (roll_in now ls l) = kl_id l"
  by (simp add: roll_in_def)

lemma roll_in_step:
  fixes now
  assumes "distinct (map kl_id rows)" "set (l # ls) \<subseteq> set rows" "distinct (map kl_id (l # ls))"
  defines "rows' \<equiv> map (\<lambda>x. if x = l then roll now x else x) rows"
  shows "distinct (map kl_id rows')" "set ls \<subseteq> set rows'"
    "map (roll_in now ls) rows' = map (roll_in now (l # ls)) rows"
proof -
  have ids: "map kl_id rows' = map kl_id rows" by (simp add: rows'_def)
  then show "distinct (map kl_id rows')" using assms(1) by simp
  have l: "l \<notin> set ls" using assms(3) by auto
  show "set ls \<subseteq> set rows'"
  proof
    fix x assume "x \<in> set ls"
    then have "x \<noteq> l" "x \<in> set rows" using l assms(2) by auto
    then show "x \<in> set rows'" unfolding rows'_def by force
  qed
  have "roll now l \<notin> set ls"
  proof
    assume "roll now l \<in> set ls"
    then have "kl_id (roll now l) \<in> set (map kl_id ls)" unfolding set_map by (rule imageI)
    then show False using assms(3) by simp
  qed
  with l show "map (roll_in now ls) rows' = map (roll_in now (l # ls)) rows"
    by (simp add: rows'_def roll_in_def)
qed

lemma lazy_reset_roll_in:
  "distinct (map kl_id (kd_limits db)) \<Longrightarrow> set ls \<subseteq> set (kd_limits db) \<Longrightarrow> distinct (map kl_id ls) \<Longrightarrow>
   lazy_reset_expired_limits now ls db =
     (db\<lparr> kd_limits := map (roll_in now ls) (kd_limits db) \<rparr>, list_ex (expired_limit now) ls)"
proof (induction ls arbitrary: db)
  case Nil
  have "map (roll_in now []) (kd_limits db) = kd_limits db" by (rule map_idI) (simp add: roll_in_def)
  then show ?case by simp
next
  case (Cons l ls)
  let ?db = "db\<lparr> kd_limits := map (\<lambda>x. if x = l then roll now x else x) (kd_limits db) \<rparr>"
  note step = roll_in_step [OF Cons.prems, of now]
  have ls: "distinct (map kl_id ls)" using Cons.prems(3) by simp
  have IH: "lazy_reset_expired_limits now ls ?db =
      (?db\<lparr> kd_limits := map (roll_in now (l # ls)) (kd_limits db) \<rparr>, list_ex (expired_limit now) ls)"
    using Cons.IH [of ?db] step ls by simp
  show ?case
  proof (cases "expired_limit now l")
    case True
    have "reset_limit (kl_id l) (kl_reset_at l) (advance_limit_reset (kl_reset_at l) now (kl_limit_window l)) db =
        (?db, True)" using reset_limit_roll [OF Cons.prems(1) _ True] Cons.prems(2) by simp
    moreover have "\<not> now \<le> kl_reset_at l" using True by (simp add: expired_limit_def)
    ultimately show ?thesis using True IH by simp
  next
    case False
    have "map (\<lambda>x. if x = l then roll now x else x) (kd_limits db) = kd_limits db"
      using False by (intro map_idI) (simp add: roll_def)
    then have "?db = db" by simp
    moreover have "now \<le> kl_reset_at l" using False by (simp add: expired_limit_def)
    ultimately show ?thesis using False IH by simp
  qed
qed

lemma reset_batch_roll_in:
  "distinct (map kl_id (kd_limits db)) \<Longrightarrow> set ls \<subseteq> set (kd_limits db) \<Longrightarrow> distinct (map kl_id ls) \<Longrightarrow>
   \<forall>l \<in> set ls. expired_limit now l \<Longrightarrow>
   reset_batch now ls (db, n) = (db\<lparr> kd_limits := map (roll_in now ls) (kd_limits db) \<rparr>, n + length ls)"
proof (induction ls arbitrary: db n)
  case Nil
  have "map (roll_in now []) (kd_limits db) = kd_limits db" by (rule map_idI) (simp add: roll_in_def)
  then show ?case by simp
next
  case (Cons l ls)
  let ?db = "db\<lparr> kd_limits := map (\<lambda>x. if x = l then roll now x else x) (kd_limits db) \<rparr>"
  note step = roll_in_step [OF Cons.prems(1-3), of now]
  have "reset_limit (kl_id l) (kl_reset_at l) (advance_limit_reset (kl_reset_at l) now (kl_limit_window l)) db =
      (?db, True)" using reset_limit_roll [OF Cons.prems(1), of l now] Cons.prems(2,4) by simp
  then show ?case using Cons.IH [of ?db "Suc n"] step Cons.prems(3,4) by simp
qed

text \<open>The loop rolls every expired limit over once and counts them.\<close>

lemma expired_batch_distinct:
  "distinct (map kl_id (kd_limits db)) \<Longrightarrow> distinct (map kl_id (expired_batch now db))"
proof -
  assume d: "distinct (map kl_id (kd_limits db))"
  let ?s = "sort_key (\<lambda>l. (kl_reset_at l, kl_id l)) (filter (expired_limit now) (kd_limits db))"
  have "inj_on kl_id (set ?s)" "distinct ?s" using d by (auto simp: distinct_map inj_on_def)
  then show ?thesis unfolding expired_batch_def by (metis distinct_map distinct_take take_map)
qed

lemma expired_after_roll_in:
  assumes "distinct (map kl_id rows)" "set ls \<subseteq> set rows" "distinct ls" "\<forall>l \<in> set ls. expired_limit now l"
  shows "length (filter (expired_limit now) (map (roll_in now ls) rows)) + length ls =
         length (filter (expired_limit now) rows)"
proof -
  let ?E = "set (filter (expired_limit now) rows)"
  have rows: "distinct rows" using assms(1) by (simp add: distinct_map)
  have sub: "set ls \<subseteq> ?E" using assms(2,4) by auto
  have "expired_limit now (roll_in now ls x) \<longleftrightarrow> expired_limit now x \<and> x \<notin> set ls" for x
    by (simp add: roll_in_def)
  then have "length (filter (expired_limit now) (map (roll_in now ls) rows)) =
      length (filter (\<lambda>x. expired_limit now x \<and> x \<notin> set ls) rows)"
    by (simp add: filter_map comp_def)
  also have "\<dots> = card (set (filter (\<lambda>x. expired_limit now x \<and> x \<notin> set ls) rows))"
    using rows by (simp only: distinct_card distinct_filter)
  also have "set (filter (\<lambda>x. expired_limit now x \<and> x \<notin> set ls) rows) = ?E - set ls" by auto
  also have "card (?E - set ls) = card ?E - card (set ls)" using sub by (intro card_Diff_subset) simp_all
  finally have "length (filter (expired_limit now) (map (roll_in now ls) rows)) = card ?E - card (set ls)" .
  moreover have "card (set ls) \<le> card ?E" using sub by (intro card_mono) simp_all
  moreover have "card ?E = length (filter (expired_limit now) rows)" "card (set ls) = length ls"
    using rows assms(3) by (simp_all only: distinct_card distinct_filter)
  ultimately show ?thesis by simp
qed

lemma reset_expired_limits_roll:
  "distinct (map kl_id (kd_limits (fst s))) \<Longrightarrow>
   reset_expired_limits now s =
     ((fst s)\<lparr> kd_limits := map (roll now) (kd_limits (fst s)) \<rparr>,
      snd s + length (filter (expired_limit now) (kd_limits (fst s))))"
proof (induction now s rule: reset_expired_limits.induct)
  case (1 now s)
  let ?ls = "expired_batch now (fst s)" and ?rows = "kd_limits (fst s)"
  show ?case
  proof (cases "?ls = []")
    case True
    then have none: "\<forall>l \<in> set ?rows. \<not> expired_limit now l" by (auto simp: expired_batch_Nil)
    then have "map (roll now) ?rows = ?rows" "filter (expired_limit now) ?rows = []"
      by (auto intro: map_idI simp: roll_def filter_empty_conv)
    with True show ?thesis by (subst reset_expired_limits.simps) simp
  next
    case False
    have exp: "\<forall>l \<in> set ?ls. expired_limit now l" and sub: "set ?ls \<subseteq> set ?rows"
      using expired_batch_set [of now "fst s"] by auto
    note dist = expired_batch_distinct [OF 1(2), of now]
    have batch: "reset_batch now ?ls s = ((fst s)\<lparr> kd_limits := map (roll_in now ?ls) ?rows \<rparr>, snd s + length ?ls)"
      using reset_batch_roll_in [OF 1(2) sub dist exp, of "snd s"] by simp
    have ids: "distinct (map kl_id (map (roll_in now ?ls) ?rows))" using 1(2) by (simp add: comp_def)
    have "roll now (roll_in now ?ls x) = roll now x" for x by (simp add: roll_in_def)
    moreover have "distinct ?ls" using dist by (simp add: distinct_map)
    note count = expired_after_roll_in [OF 1(2) sub this exp]
    ultimately show ?thesis
      using 1(1) [OF False] False batch ids count [symmetric]
      by (subst reset_expired_limits.simps) (simp add: comp_def)
  qed
qed

lemma lazy_reset_roll:
  assumes "limits_ok db"
  shows "lazy_reset_expired_limits now (get_limits_by_key k db) db =
    (db\<lparr> kd_limits := map (\<lambda>l. if kl_api_key_id l = k then roll now l else l) (kd_limits db) \<rparr>,
     list_ex (expired_limit now) (get_limits_by_key k db))"
proof -
  have "distinct (map kl_id (get_limits_by_key k db))"
    using assms by (simp add: limits_ok_def get_limits_by_key_def distinct_map_filter)
  moreover have "map (roll_in now (get_limits_by_key k db)) (kd_limits db) =
      map (\<lambda>l. if kl_api_key_id l = k then roll now l else l) (kd_limits db)"
    by (rule map_cong [OF refl]) (simp add: roll_in_def get_limits_by_key_def)
  ultimately show ?thesis
    using assms lazy_reset_roll_in [of db "get_limits_by_key k db" now]
    by (auto simp: limits_ok_def get_limits_by_key_def)
qed

section \<open>The whole admission\<close>

definition rolled_db :: "datetime \<Rightarrow> string \<Rightarrow> key_db \<Rightarrow> key_db" where
  "rolled_db now key_id db =
     db\<lparr> kd_limits := map (\<lambda>l. if kl_api_key_id l = key_id then roll now l else l) (kd_limits db) \<rparr>"

lemma rolled_db_simps [simp]:
  "kd_items (rolled_db now k db) = kd_items db"
  "kd_reservations (rolled_db now k db) = kd_reservations db"
  "kd_keys (rolled_db now k db) = kd_keys db"
  "key_by_id i (rolled_db now k db) = key_by_id i db"
  by (simp_all add: rolled_db_def key_by_id_def)

lemma rolled_db_ids: "limits_ok db \<Longrightarrow> limits_ok (rolled_db now k db)"
  by (simp add: limits_ok_def rolled_db_def comp_def if_distrib cong: if_cong)

lemma rolled_db_limits:
  "get_limits_by_key k (rolled_db now k db) = map (roll now) (get_limits_by_key k db)"
proof -
  have "filter (\<lambda>l. kl_api_key_id l = k) (map (\<lambda>l. if kl_api_key_id l = k then roll now l else l) ls) =
      map (roll now) (filter (\<lambda>l. kl_api_key_id l = k) ls)" for ls
    by (induction ls) auto
  then show ?thesis by (simp add: rolled_db_def get_limits_by_key_def)
qed

lemma enforce_admit:
  assumes "limits_ok db"
  shows "enforce_limits_for_request_once now rid k m t b db =
    (case valid_key_at now (key_by_id k db) of
       Inl e \<Rightarrow> (Inl e, db)
     | Inr _ \<Rightarrow>
         (case admit m t (normalize_request_usage_budget b) (map (roll now) (get_limits_by_key k db)) (rolled_db now k db) of
            Inl e \<Rightarrow> (Inl e, rolled_db now k db)
          | Inr (items, db2) \<Rightarrow> (Inr rid, create_usage_reservation now rid k (or_str m []) items db2)))"
proof -
  have "lazy_reset_expired_limits now (get_limits_by_key k db) db =
      (rolled_db now k db, list_ex (expired_limit now) (get_limits_by_key k db))"
    using lazy_reset_roll [OF assms] by (simp add: rolled_db_def)
  then show ?thesis
    using reserve_limits_admit [OF rolled_db_ids [OF assms], of m t b k now k]
    by (simp add: enforce_limits_for_request_once_def rolled_db_limits split: sum.split)
qed

lemma reserved_items_books:
  assumes "books_ok limits items" "open_ok rs items" "rid \<notin> rv_id ` set rs" "budget_ok m t b"
    and "set ls \<subseteq> set limits" "distinct (map kl_id ls)"
  defines "its \<equiv> map (reserved_item m t b) ls"
  shows "books_ok (map (add_charges its) limits)
           (items @ map (\<lambda>i. i\<lparr> ri_reservation_id := rid, ri_actual_delta := None \<rparr>) its)"
    (is "books_ok (map ?f limits) (items @ map ?g its)")
proof -
  have none: "ri_actual_delta i = None" if "i \<in> set its" for i using that by (auto simp: its_def)
  have g: "charge (?g i) = ri_reserved_delta i" "counts_for l (?g i) = counts_for l i" for i l
    by (simp_all add: charge_def counts_for_def)
  have "charged l (map ?g is) = charged l is" if "\<forall>i \<in> set is. ri_actual_delta i = None" for l "is"
    using that by (induction "is") (auto simp: charge_def counts_for_def)
  then have charged: "charged l (map ?g its) = charged l its" for l using none by blast
  have key: "item_key (?g (reserved_item m t b l)) = (rid, kl_id l)" for l by (simp add: item_key_def)
  have keys: "map item_key (map ?g its) = map (Pair rid) (map kl_id ls)" by (simp add: its_def key)
  have old: "ri_reservation_id i \<noteq> rid" if "i \<in> set items" for i
    using assms(2,3) that by (auto simp: open_ok_def)
  have "distinct (map (Pair rid) (map kl_id ls))"
    using assms(6) by (simp add: distinct_map inj_on_def)
  moreover have "set (map item_key items) \<inter> set (map (Pair rid) (map kl_id ls)) = {}"
    using old by (auto simp: item_key_def)
  ultimately have dist: "distinct (map item_key (items @ map ?g its))"
    unfolding map_append keys distinct_append using assms(1) by (simp only: books_ok_def simp_thms)
  have ids: "distinct (map kl_id (map ?f limits))" using assms(1) by (simp add: books_ok_def comp_def)
  have nonneg: "\<forall>i \<in> set (items @ map ?g its). 0 \<le> charge i"
    using assms(1) reserve_delta_bounds(1) [OF assms(4)]
    by (auto simp: books_ok_def its_def reserved_item_def charge_def)
  have new: "ri_expected_reset_at i \<le> kl_reset_at l"
    if "i \<in> set its" "l \<in> set limits" "ri_limit_id i = kl_id l" for i l
  proof -
    obtain l' where l': "l' \<in> set ls" "i = reserved_item m t b l'" using \<open>i \<in> set its\<close> by (auto simp: its_def)
    then have "l' = l" using that(2,3) assms(1,5) by (auto simp: books_ok_def distinct_map dest: inj_onD)
    with l' show ?thesis by simp
  qed
  have bound: "\<forall>i \<in> set (items @ map ?g its). \<forall>l \<in> set (map ?f limits). ri_limit_id i = kl_id l \<longrightarrow>
      ri_expected_reset_at i \<le> kl_reset_at l"
    using assms(1) new unfolding set_append set_map ball_Un ball_simps(9) by (simp add: books_ok_def)
  have "\<forall>l \<in> set (map ?f limits). kl_current_value l = charged l (items @ map ?g its)"
    using assms(1) unfolding set_map ball_simps(9) by (simp add: books_ok_def charged)
  with ids dist nonneg bound show ?thesis unfolding books_ok_def by blast
qed

lemma open_ok_create:
  assumes "open_ok rs items" "rv_id r \<notin> rv_id ` set rs"
    and "\<forall>i \<in> set its. ri_reservation_id i = rv_id r \<and> ri_actual_delta i = None"
  shows "open_ok (rs @ [r]) (items @ its)"
proof -
  have old: "ri_reservation_id i \<noteq> rv_id r" if "i \<in> set items" for i
    using assms(1,2) that unfolding open_ok_def by metis
  then show ?thesis using assms unfolding open_ok_def by auto
qed

lemma ledger_limits_ok: "ledger_ok db \<Longrightarrow> limits_ok db"
  by (simp add: ledger_ok_def books_ok_def limits_ok_def)

lemma rolled_db_ok: "ledger_ok db \<Longrightarrow> ledger_ok (rolled_db now k db)"
  using lazy_reset_ok [of db now "get_limits_by_key k db"] lazy_reset_roll [OF ledger_limits_ok, of db now k]
  by (simp add: rolled_db_def)

lemma admit_ok:
  assumes "ledger_ok db" "rid \<notin> rv_id ` set (kd_reservations db)" "budget_ok m t b"
    and "admit m t b (get_limits_by_key k db) db = Inr (items, db2)"
  shows "ledger_ok (create_usage_reservation now rid k model items db2)"
proof -
  let ?ls = "filter (\<lambda>l. limit_applies_for_request l m) (get_limits_by_key k db)"
  have items: "items = map (reserved_item m t b) ?ls"
    and db2: "db2 = db\<lparr> kd_limits := map (add_charges items) (kd_limits db) \<rparr>"
    using assms(4) by (auto simp: admit_def Let_def split: option.splits)
  have ok: "books_ok (kd_limits db) (kd_items db)" "open_ok (kd_reservations db) (kd_items db)"
    using assms(1) by (simp_all add: ledger_ok_def)
  have sub: "set ?ls \<subseteq> set (kd_limits db)" by (auto simp: get_limits_by_key_def)
  have dist: "distinct (map kl_id ?ls)"
    using ok(1) by (simp add: books_ok_def get_limits_by_key_def distinct_map_filter)
  show ?thesis
    using reserved_items_books [OF ok assms(2,3) sub dist] open_ok_create [OF ok(2)] assms(2)
    by (simp add: ledger_ok_def create_usage_reservation_def db2 items)
qed

lemma enforce_once_ok:
  assumes "ledger_ok db" "rid \<notin> rv_id ` set (kd_reservations db)"
  shows "ledger_ok (snd (enforce_limits_for_request_once now rid k m t b db))"
  using rolled_db_ok [OF assms(1), of now k] assms
    admit_ok [where db = "rolled_db now k db" and rid = rid, OF _ _ normalized_budget_ok]
  unfolding enforce_admit [OF ledger_limits_ok [OF assms(1)]] rolled_db_limits [symmetric]
  by (auto split: sum.split)

lemma enforce_part_ok:
  "ledger_ok db \<Longrightarrow> ledger_ok (enforce_part now k n db)"
  by (auto simp: enforce_part_def lazy_reset_ok split: sum.split)

lemma reset_limit_reservations [simp]: "kd_reservations (fst (reset_limit i e t db)) = kd_reservations db"
  by (simp add: reset_limit_def update_limits_def split_beta)

lemma lazy_reset_reservations [simp]:
  "kd_reservations (fst (lazy_reset_expired_limits now ls db)) = kd_reservations db"
  by (induction ls arbitrary: db) simp_all

lemma enforce_part_reservations [simp]: "kd_reservations (enforce_part now k n db) = kd_reservations db"
  by (simp add: enforce_part_def split: sum.split)

lemma enforce_ok:
  assumes "ledger_ok db" "rid \<notin> rv_id ` set (kd_reservations db)"
  shows "ledger_ok (snd (enforce_limits_for_request fails clock rid k m t b db))"
  unfolding enforce_limits_for_request_def
  by (rule retry_busy_keeps [where I = "\<lambda>db. ledger_ok db \<and> rid \<notin> rv_id ` set (kd_reservations db)"])
    (use assms enforce_part_ok enforce_once_ok in auto)

end
