(* ===== verification/Key_Laws.thy ===== *)
theory Key_Laws
  imports Key_Ledger
begin

text \<open>
  What the key service promises about usage limits: the counters are the sums of the charges, an
  admission is the atomic check and charge of all the limits that apply, it stays within them, a
  release undoes it, a reservation is closed once, and the sweeps leave nothing behind.
\<close>

section \<open>Charges are not negative\<close>

lemma cost_microdollars_nonneg:
  assumes "0 \<le> cached" "cached \<le> inp" "0 \<le> out"
  shows "0 \<le> calculate_cost_microdollars model inp out cached tier"
proof (cases "get_pricing_for_model model None None")
  case None
  then show ?thesis by (simp add: calculate_cost_microdollars_def)
next
  case (Some kp)
  obtain k p where kp: "kp = (k, p)" by (cases kp)
  define u :: usage_tokens where "u = \<lparr> ut_input_tokens = of_int inp, ut_output_tokens = of_int out,
    ut_cached_input_tokens = of_int cached \<rparr>"
  obtain i c ou where rates: "effective_rates u p tier = (i, c, ou)" by (cases "effective_rates u p tier")
  have "rates_ok (i, c, ou)"
    using effective_rates_ok [OF default_price_ok, of model k p u tier] Some kp rates by simp
  from cost_ge_0 [OF this, of "of_int cached" "of_int inp" "of_int out"] assms show ?thesis
    by (simp add: calculate_cost_microdollars_def Some kp calculate_cost_from_usage_def normalize_usage_def
        rates [unfolded u_def] py_int_nonneg)
qed

definition usage_ok :: "int option \<Rightarrow> int option \<Rightarrow> int option \<Rightarrow> bool" where
  "usage_ok inp out cached \<longleftrightarrow>
     0 \<le> or_num inp 0 \<and> 0 \<le> or_num out 0 \<and> 0 \<le> or_num cached 0 \<and> or_num cached 0 \<le> or_num inp 0"

lemma increment_nonneg:
  assumes "usage_ok inp out cached"
  shows "0 \<le> compute_increment_for_limit_type t (or_num inp 0) (or_num out 0)
      (calculate_cost_microdollars model (or_num inp 0) (or_num out 0) (or_num cached 0) tier)"
  using assms cost_microdollars_nonneg [of "or_num cached 0" "or_num inp 0" "or_num out 0" model tier]
  by (cases t) (simp_all add: compute_increment_for_limit_type_def usage_ok_def)

section \<open>The counters\<close>

text \<open>
  What runs against the tables between two changes of a key's limits. The ids of new reservations are
  fresh; reported usage is not negative and has no more cached than input tokens.
\<close>

inductive key_step :: "key_db \<Rightarrow> key_db \<Rightarrow> bool" where
  admitted: "rid \<notin> rv_id ` set (kd_reservations db) \<Longrightarrow>
     key_step db (snd (enforce_limits_for_request fails clock rid key_id model tier budget db))"
| finalized: "usage_ok (Some inp) (Some out) (Some cached) \<Longrightarrow>
     key_step db (snd (finalize_usage_reservation fails clock rid model inp out cached tier db))"
| failed: "usage_ok inp out cached \<Longrightarrow>
     key_step db (snd (fail_usage_reservation fails clock rid model inp out cached tier db))"
| released: "key_step db (snd (release_usage_reservation fails clock rid db))"
| touched: "key_step db (snd (touch_reservation fails clock rid db))"
| windows_reset: "key_step db (fst (reset_expired_limits now (db, 0)))"
| stale_released: "key_step db (fst (release_stale_usage_reservations now cutoff batch_size (db, 0)))"

lemma open_ok_map:
  assumes "open_ok rs items" "\<And>r. rv_id (f r) = rv_id r" "\<And>r. rv_status (f r) = rv_status r"
  shows "open_ok (map f rs) items"
proof -
  have ids: "map rv_id (map f rs) = map rv_id rs" by (simp add: assms(2))
  show ?thesis using assms(1) unfolding open_ok_def ids set_map ball_simps(9) image_image assms(2,3) .
qed

lemma touch_ok: "ledger_ok db \<Longrightarrow> ledger_ok (fst (touch_usage_reservation now rid db))"
proof -
  assume ok: "ledger_ok db"
  then have "open_ok (kd_reservations (fst (touch_usage_reservation now rid db))) (kd_items db)"
    unfolding touch_usage_reservation_def update_reservations_rows
    by (intro open_ok_map) (simp_all add: ledger_ok_def)
  with ok show ?thesis by (simp add: ledger_ok_def touch_usage_reservation_def)
qed

lemma settle_ok:
  assumes "usage_ok inp out cached" "status \<noteq> Reserved" "ledger_ok db"
  shows "ledger_ok (settle_reservation now status rid model inp out cached tier db)"
  by (rule settle_reservation_ok [OF assms(3) increment_nonneg [OF assms(1)] assms(2)])

lemma key_step_ok: "key_step db db' \<Longrightarrow> ledger_ok db \<Longrightarrow> ledger_ok db'"
proof (induction rule: key_step.induct)
  case (admitted rid db)
  then show ?case by (rule enforce_ok [rotated])
next
  case (finalized inp out cached db)
  show ?case unfolding finalize_usage_reservation_def
    by (rule retry_busy_keeps [where I = ledger_ok and J = ledger_ok])
      (use finalized in \<open>simp_all add: settle_ok\<close>)
next
  case (failed inp out cached db)
  show ?case unfolding fail_usage_reservation_def
    by (rule retry_busy_keeps [where I = ledger_ok and J = ledger_ok])
      (use failed in \<open>simp_all add: settle_ok\<close>)
next
  case (released db)
  then show ?case unfolding release_usage_reservation_def
    by (intro retry_busy_keeps [where I = ledger_ok and J = ledger_ok]) (simp_all add: release_usage_reservation_ok)
next
  case (touched db)
  then show ?case unfolding touch_reservation_def
    by (intro retry_busy_keeps [where I = ledger_ok and J = ledger_ok]) (simp_all add: touch_ok)
next
  case (windows_reset db)
  then show ?case by (simp add: reset_expired_limits_ok)
next
  case (stale_released db)
  then show ?case by (simp add: release_stale_ok)
qed

definition fresh_books :: "key_db \<Rightarrow> bool" where
  "fresh_books db \<longleftrightarrow>
     distinct (map kl_id (kd_limits db)) \<and> list_all (\<lambda>l. kl_current_value l = 0) (kd_limits db) \<and>
     kd_reservations db = [] \<and> kd_items db = []"

lemma fresh_books_ok: "fresh_books db \<Longrightarrow> ledger_ok db"
  by (simp add: fresh_books_def ledger_ok_def books_ok_def open_ok_def list_all_iff)

text \<open>C2: The usage counters keep the books. Start from tables in which every counter is zero and
  nothing is reserved, and run any number of admissions, settlements, releases, touches, window resets
  and stale sweeps, with any database errors and retries in between: then the counter of each limit is
  the sum of the charges (reserved until settled, actual afterwards) of the items recorded for it in
  its current window, and it is not negative.\<close>

theorem counters_are_sums:
  assumes "key_step\<^sup>*\<^sup>* db db'" "fresh_books db" "l \<in> set (kd_limits db')"
  shows "kl_current_value l = sum_list (map charge (filter (counts_for l) (kd_items db'))) \<and>
         0 \<le> kl_current_value l"
proof -
  have "ledger_ok db'" using assms(1)
  proof induction
    case base
    then show ?case using assms(2) by (rule fresh_books_ok)
  qed (rule key_step_ok)
  then have "kl_current_value l = charged l (kd_items db')" "\<forall>i \<in> set (kd_items db'). 0 \<le> charge i"
    using assms(3) by (simp_all add: ledger_ok_def books_ok_def)
  then show ?thesis using charged_nonneg by (simp add: charged_def)
qed

definition sample_key :: api_key where
  "sample_key =
     \<lparr> ak_id = ''k'', ak_name = ''team'', ak_key_hash = ''h'', ak_key_prefix = ''sk-clb-'', ak_allowed_models = None,
       ak_enforced_model = None, ak_enforced_reasoning_effort = None, ak_enforced_service_tier = None,
       ak_account_assignment_scope_enabled = False, ak_expires_at = None, ak_is_active = True,
       ak_created_at = 0, ak_last_used_at = None \<rparr>"

definition sample_limit :: "int \<Rightarrow> datetime \<Rightarrow> api_key_limit" where
  "sample_limit v r =
     \<lparr> kl_id = 1, kl_api_key_id = ''k'', kl_limit_type = TOTAL_TOKENS, kl_limit_window = DAILY,
       kl_max_value = 20000, kl_current_value = v, kl_model_filter = None, kl_reset_at = r \<rparr>"

definition sample_db :: key_db where
  "sample_db =
     \<lparr> kd_keys = [sample_key], kd_assignments = [], kd_limits = [sample_limit 0 100], kd_reservations = [],
       kd_items = [] \<rparr>"

definition sample_item :: reservation_item where
  "sample_item =
     \<lparr> ri_reservation_id = ''r'', ri_limit_id = 1, ri_limit_type = TOTAL_TOKENS, ri_reserved_delta = 10240,
       ri_expected_reset_at = 100, ri_actual_delta = None \<rparr>"

definition sample_reservation :: usage_reservation where
  "sample_reservation =
     \<lparr> rv_id = ''r'', rv_api_key_id = ''k'', rv_model = [], rv_status = Reserved, rv_input_tokens = None,
       rv_output_tokens = None, rv_cached_input_tokens = None, rv_cost_microdollars = None, rv_updated_at = 7 \<rparr>"

definition sample_admitted :: key_db where
  "sample_admitted = sample_db\<lparr> kd_limits := [sample_limit 10240 100], kd_reservations := [sample_reservation],
     kd_items := [sample_item] \<rparr>"

lemma sample_admission:
  "enforce_limits_for_request_once 7 ''r'' ''k'' None None None sample_db = (Inr ''r'', sample_admitted)"
  by code_simp

lemma sample_admission_retry:
  "enforce_limits_for_request (\<lambda>n. if n = 0 then Some (''(sqlite3) database is locked'', 0) else None) (\<lambda>_. 7)
     ''r'' ''k'' None None None sample_db = (Inr (Inr ''r''), sample_admitted)"
  by code_simp

theorem counters_are_sums_witness:
  "key_step\<^sup>*\<^sup>* sample_db sample_admitted \<and> fresh_books sample_db \<and>
   kl_current_value (sample_limit 10240 100) =
     sum_list (map charge (filter (counts_for (sample_limit 10240 100)) (kd_items sample_admitted))) \<and>
   0 \<le> kl_current_value (sample_limit 10240 100)"
proof -
  have "key_step sample_db sample_admitted"
    using key_step.admitted [of "''r''" sample_db "\<lambda>n. if n = 0 then Some (''(sqlite3) database is locked'', 0) else None"
        "\<lambda>_. 7" "''k''" None None None]
    unfolding sample_admission_retry by (simp add: sample_db_def)
  then have steps: "key_step\<^sup>*\<^sup>* sample_db sample_admitted" by simp
  have fresh: "fresh_books sample_db" by (simp add: fresh_books_def sample_db_def sample_limit_def)
  have "sample_limit 10240 100 \<in> set (kd_limits sample_admitted)" by (simp add: sample_admitted_def)
  from counters_are_sums [OF steps fresh this] steps fresh show ?thesis by blast
qed

section \<open>Admissions\<close>

text \<open>The reference: roll the key's windows over, then check and charge the limits at once.\<close>

definition admission ::
  "datetime \<Rightarrow> string \<Rightarrow> string \<Rightarrow> string option \<Rightarrow> string option \<Rightarrow> usage_budget option \<Rightarrow> key_db \<Rightarrow>
   (key_error + string) \<times> key_db"
where
  "admission now reservation_id key_id model tier budget db =
     (case valid_key_at now (key_by_id key_id db) of
        Inl e \<Rightarrow> (Inl e, db)
      | Inr _ \<Rightarrow>
          (let rolled = rolled_db now key_id db
           in case admit model tier (normalize_request_usage_budget budget) (get_limits_by_key key_id rolled) rolled of
                Inl e \<Rightarrow> (Inl e, rolled)
              | Inr (items, db2) \<Rightarrow>
                  (Inr reservation_id,
                   create_usage_reservation now reservation_id key_id (or_str model []) items db2)))"

text \<open>C7: Admitting a request is atomic. On tables whose limits have distinct ids, resetting windows one
  by one and charging the limits one by one with conditional updates, as the service does it, gives
  the same answer and the same tables as the reference: the windows that ended are rolled over, the
  request is refused for the first limit that applies to it and is used up, with nothing charged, and
  otherwise every limit that applies is charged the smaller of its rest and the request's budget.\<close>

theorem admission_is_atomic:
  assumes "distinct (map kl_id (kd_limits db))"
  shows "enforce_limits_for_request_once now reservation_id key_id model tier budget db =
         admission now reservation_id key_id model tier budget db"
  using enforce_admit [of db] assms
  by (simp add: admission_def limits_ok_def rolled_db_limits split: sum.split)

theorem admission_is_atomic_witness:
  "enforce_limits_for_request_once 7 ''r'' ''k'' None None None sample_db = admission 7 ''r'' ''k'' None None None sample_db"
  using admission_is_atomic [of sample_db] by (simp add: sample_db_def)

lemma charged_reserved:
  assumes "distinct (map kl_id ls)"
  shows "l \<in> set ls \<Longrightarrow> charged l (map (reserved_item m t b) ls) = reserve_delta_for_limit l m t b"
    and "kl_id l \<notin> kl_id ` set ls \<Longrightarrow> charged l (map (reserved_item m t b) ls) = 0"
proof -
  have other: "kl_id l \<notin> kl_id ` set ls \<Longrightarrow> charged l (map (reserved_item m t b) ls) = 0" for ls
    by (induction ls) (auto simp: counts_for_def)
  then show "kl_id l \<notin> kl_id ` set ls \<Longrightarrow> charged l (map (reserved_item m t b) ls) = 0" .
  show "charged l (map (reserved_item m t b) ls) = reserve_delta_for_limit l m t b" if "l \<in> set ls"
    using assms that
  proof (induction ls)
    case (Cons x ls)
    show ?case
    proof (cases "x = l")
      case True
      then show ?thesis using Cons.prems(1) other [of ls] by (auto simp: counts_for_def)
    next
      case False
      then have "l \<in> set ls" "kl_id x \<noteq> kl_id l" using Cons.prems by (auto simp: image_iff)
      then show ?thesis using Cons by (simp add: counts_for_def)
    qed
  qed simp
qed

lemma admitted_tables:
  assumes "limits_ok db" "enforce_limits_for_request_once now rid k m t b db = (Inr r, db')"
  defines "ls \<equiv> filter (\<lambda>l. limit_applies_for_request l m) (get_limits_by_key k (rolled_db now k db))"
    and "its \<equiv> map (reserved_item m t (normalize_request_usage_budget b))
                (filter (\<lambda>l. limit_applies_for_request l m) (get_limits_by_key k (rolled_db now k db)))"
  shows "r = rid" "\<forall>l \<in> set ls. kl_current_value l < kl_max_value l"
    "db' = create_usage_reservation now rid k (or_str m []) its
             ((rolled_db now k db)\<lparr> kd_limits := map (add_charges its) (kd_limits (rolled_db now k db)) \<rparr>)"
proof -
  let ?rows = "get_limits_by_key k (rolled_db now k db)"
  have none: "find (exhausted_for m) ?rows = None"
    and "r = rid \<and> db' = create_usage_reservation now rid k (or_str m []) its
             ((rolled_db now k db)\<lparr> kd_limits := map (add_charges its) (kd_limits (rolled_db now k db)) \<rparr>)"
    using assms(2) unfolding enforce_admit [OF assms(1)] rolled_db_limits [symmetric]
    by (auto simp: admit_def its_def Let_def split: sum.splits option.splits)
  then show "r = rid" "db' = create_usage_reservation now rid k (or_str m []) its
             ((rolled_db now k db)\<lparr> kd_limits := map (add_charges its) (kd_limits (rolled_db now k db)) \<rparr>)"
    by simp_all
  show "\<forall>l \<in> set ls. kl_current_value l < kl_max_value l"
    using none by (auto simp: ls_def find_None_iff exhausted_for_def)
qed

text \<open>C8: An admitted request stays within the limits. If the service admits a request, then afterwards
  every limit of the key that applies to it has a window that has not ended and a counter of at most
  its maximum, and every limit of another key is as it was.\<close>

theorem admission_within_limits:
  assumes "distinct (map kl_id (kd_limits db))"
    and "enforce_limits_for_request_once now reservation_id key_id model tier budget db = (Inr r, db')"
    and "l \<in> set (kd_limits db')"
  shows "(kl_api_key_id l = key_id \<longrightarrow> limit_applies_for_request l model \<longrightarrow>
            kl_current_value l \<le> kl_max_value l \<and> now \<le> kl_reset_at l) \<and>
         (kl_api_key_id l \<noteq> key_id \<longrightarrow> l \<in> set (kd_limits db))"
proof -
  let ?b = "normalize_request_usage_budget budget"
  let ?ls = "filter (\<lambda>l. limit_applies_for_request l model) (get_limits_by_key key_id (rolled_db now key_id db))"
  let ?its = "map (reserved_item model tier ?b) ?ls"
  have ok: "limits_ok db" using assms(1) by (simp add: limits_ok_def)
  note tables = admitted_tables [OF ok assms(2)]
  have dist: "distinct (map kl_id ?ls)"
    using rolled_db_ids [OF ok, of now key_id]
    by (simp add: limits_ok_def get_limits_by_key_def distinct_map_filter)
  obtain l' where l': "l' \<in> set (kd_limits db)"
    "l = add_charges ?its (if kl_api_key_id l' = key_id then roll now l' else l')"
    using assms(3) unfolding tables(3) by (auto simp: create_usage_reservation_def rolled_db_def)
  have key: "kl_api_key_id l = kl_api_key_id l'" using l'(2) by (simp add: add_charges_def)
  show ?thesis
  proof (cases "kl_api_key_id l' = key_id")
    case True
    let ?r = "roll now l'"
    have l: "l = add_charges ?its ?r" using l'(2) True by simp
    have applies: "limit_applies_for_request l model = limit_applies_for_request ?r model"
      by (simp add: l add_charges_def limit_applies_for_request_def)
    have row: "?r \<in> set (get_limits_by_key key_id (rolled_db now key_id db))"
      unfolding rolled_db_limits using l'(1) True by (simp add: get_limits_by_key_def)
    have "now \<le> kl_reset_at ?r" using roll_not_expired [of now l'] by (simp add: expired_limit_def)
    moreover have "kl_current_value l \<le> kl_max_value l" if "limit_applies_for_request ?r model"
    proof -
      have "?r \<in> set ?ls" using row that by simp
      then have "charged ?r ?its = reserve_delta_for_limit ?r model tier ?b" "kl_current_value ?r < kl_max_value ?r"
        using charged_reserved(1) [OF dist] tables(2) by blast+
      with reserve_delta_bounds(2) [OF normalized_budget_ok this(2), of model tier budget] show ?thesis
        by (simp add: l)
    qed
    ultimately show ?thesis using True key applies by (simp add: l)
  next
    case False
    have "kl_id l' \<notin> kl_id ` set ?ls"
    proof
      assume "kl_id l' \<in> kl_id ` set ?ls"
      then obtain x where x: "x \<in> set (kd_limits db)" "kl_api_key_id x = key_id" "kl_id l' = kl_id x"
        unfolding rolled_db_limits by (auto simp: get_limits_by_key_def)
      then have "x = l'" using l'(1) assms(1) by (auto simp: distinct_map dest: inj_onD)
      with x(2) False show False by simp
    qed
    then have "l = l'" using charged_reserved(2) [OF dist] l'(2) False by (simp add: add_charges_def)
    with key False l'(1) show ?thesis by simp
  qed
qed

theorem admission_within_limits_witness:
  "kl_current_value (sample_limit 10240 100) \<le> kl_max_value (sample_limit 10240 100) \<and>
   7 \<le> kl_reset_at (sample_limit 10240 100)"
proof -
  have "distinct (map kl_id (kd_limits sample_db))" "sample_limit 10240 100 \<in> set (kd_limits sample_admitted)"
    by (simp_all add: sample_db_def sample_admitted_def)
  from admission_within_limits [OF this(1) sample_admission this(2)] show ?thesis
    by (simp add: sample_limit_def limit_applies_for_request_def)
qed

section \<open>Releasing what was reserved\<close>

definition frozen :: "api_key_limit \<Rightarrow> api_key_limit" where
  "frozen l = l\<lparr> kl_current_value := 0 \<rparr>"

lemma frozen_update [simp]: "frozen (l\<lparr> kl_current_value := v \<rparr>) = frozen l"
  by (simp add: frozen_def)

lemma charged_frozen [simp]: "charged (frozen l) items = charged l items"
  by (simp add: frozen_def)

lemma frozen_settle [simp]:
  "map frozen (kd_limits (fold (settle_item r inc) its db)) = map frozen (kd_limits db)"
proof (induction its arbitrary: db)
  case (Cons i its)
  have "map frozen (kd_limits (settle_item r inc i db)) = map frozen (kd_limits db)"
    by (simp add: settle_item_rows adjust_rows)
  with Cons show ?case by simp
qed simp

lemma frozen_add_charges [simp]: "frozen (add_charges items l) = frozen l"
  by (simp add: add_charges_def)

text \<open>Rows are determined by what settlements keep of them and by their counters.\<close>

lemma rows_determined:
  "map frozen ls = map frozen ls' \<Longrightarrow> \<forall>l \<in> set ls. kl_current_value l = charged l items \<Longrightarrow>
   \<forall>l \<in> set ls'. kl_current_value l = charged l items \<Longrightarrow> ls = ls'"
proof (induction ls arbitrary: ls')
  case (Cons l ls)
  then obtain l' ls'' where ls': "ls' = l' # ls''" "frozen l = frozen l'" by (cases ls') auto
  have "charged l items = charged l' items" using charged_frozen ls'(2) by metis
  with Cons.prems ls' have "kl_current_value l = kl_current_value l'" by simp
  moreover have "l = (frozen l)\<lparr> kl_current_value := kl_current_value l \<rparr>" for l by (simp add: frozen_def)
  ultimately have "l = l'" using ls'(2) by metis
  with Cons ls' show ?case by simp
qed simp

lemma charged_settled_zero:
  "charged l (map (\<lambda>i. i\<lparr> ri_reservation_id := r, ri_actual_delta := Some 0 \<rparr>) is) = 0"
  by (induction "is") (simp_all add: charge_def)

lemma released_rows:
  fixes now
  assumes "ledger_ok db" "get_usage_reservation r0 db = Some (r, its)" "rv_status r = Reserved"
  defines "db' \<equiv> release_usage_reservation_once now r0 db"
  shows "map frozen (kd_limits db') = map frozen (kd_limits db)"
    "kd_items db' = map (settled its (\<lambda>_. 0)) (kd_items db)"
proof -
  note found = find_reservation [OF assms(2)]
  let ?t = "fst (transition_usage_reservation_status now r0 Reserved Released db)"
  have t: "kd_limits ?t = kd_limits db" "kd_items ?t = kd_items db"
    by (simp_all add: transition_usage_reservation_status_def)
  have db': "kd_limits db' = kd_limits (fold (settle_item r0 (\<lambda>_. 0)) its ?t)"
    "kd_items db' = kd_items (fold (settle_item r0 (\<lambda>_. 0)) its ?t)"
    using assms(2,3) transition_claimed [OF assms(2,3), of now Released]
    by (simp_all add: db'_def release_usage_reservation_once_def Let_def split_beta release_is_settle_zero
        settle_usage_reservation_def)
  show "map frozen (kd_limits db') = map frozen (kd_limits db)" unfolding db' frozen_settle t ..
  have books: "books_ok (kd_limits ?t) (kd_items ?t)" using assms(1) t by (simp add: ledger_ok_def)
  have "\<forall>i \<in> set its. ri_reservation_id i = r0 \<and> ri_actual_delta i = None"
    using assms(1,3) found by (auto simp: ledger_ok_def open_ok_def)
  moreover have "distinct its" "set its \<subseteq> set (kd_items ?t)"
    using books found t by (auto simp: books_ok_def distinct_map)
  ultimately show "kd_items db' = map (settled its (\<lambda>_. 0)) (kd_items db)"
    unfolding db' t(2) [symmetric] using settle_items [OF books, where inc = "\<lambda>_. 0"] by simp
qed

lemma settled_fresh:
  assumes "\<And>i. i \<in> set old \<Longrightarrow> ri_reservation_id i \<noteq> rid"
  shows "map (settled (map (\<lambda>i. i\<lparr> ri_reservation_id := rid, ri_actual_delta := None \<rparr>) its) (\<lambda>_. 0))
           (old @ map (\<lambda>i. i\<lparr> ri_reservation_id := rid, ri_actual_delta := None \<rparr>) its) =
         old @ map (\<lambda>i. i\<lparr> ri_reservation_id := rid, ri_actual_delta := Some 0 \<rparr>) its"
    (is "map (settled ?new _) (old @ ?new) = _")
proof -
  have "ri_reservation_id x = rid" if "x \<in> set ?new" for x using that by auto
  then have "x \<notin> set ?new" if "x \<in> set old" for x using assms [OF that] by blast
  then have "map (settled ?new (\<lambda>_. 0)) old = old" by (intro map_idI) (simp add: settled_def)
  moreover have "settled ?new (\<lambda>_. 0) x = x\<lparr> ri_actual_delta := Some 0 \<rparr>" if "x \<in> set ?new" for x
    using that by (simp add: settled_def)
  then have "map (settled ?new (\<lambda>_. 0)) ?new = map (\<lambda>x. x\<lparr> ri_actual_delta := Some 0 \<rparr>) ?new"
    by (intro map_cong refl)
  ultimately show ?thesis by simp
qed

text \<open>C9: Releasing a reservation undoes the admission. After a request was admitted and its reservation
  is released, all the limits are as the admission found them once the windows that had ended were
  rolled over.\<close>

theorem release_undoes_admission:
  assumes "ledger_ok db" "rid \<notin> rv_id ` set (kd_reservations db)"
    and "enforce_limits_for_request_once now rid key_id model tier budget db = (Inr r, db')"
  shows "kd_limits (release_usage_reservation_once later rid db') = kd_limits (rolled_db now key_id db)"
proof -
  note tables = admitted_tables [OF ledger_limits_ok [OF assms(1)] assms(3)]
  let ?its = "map (reserved_item model tier (normalize_request_usage_budget budget))
    (filter (\<lambda>l. limit_applies_for_request l model) (get_limits_by_key key_id (rolled_db now key_id db)))"
  let ?new = "map (\<lambda>i. i\<lparr> ri_reservation_id := rid, ri_actual_delta := None \<rparr>) ?its"
  let ?res = "\<lparr> rv_id = rid, rv_api_key_id = key_id, rv_model = or_str model [], rv_status = Reserved,
      rv_input_tokens = None, rv_output_tokens = None, rv_cached_input_tokens = None,
      rv_cost_microdollars = None, rv_updated_at = now \<rparr>"
  let ?old = "kd_items db"
  have ok': "ledger_ok db'" using enforce_once_ok [OF assms(1,2), of now key_id model tier budget] assms(3) by simp
  have items: "kd_items db' = ?old @ ?new" and limits: "kd_limits db' = map (add_charges ?its) (kd_limits (rolled_db now key_id db))"
    and res: "kd_reservations db' = kd_reservations db @ [?res]"
    unfolding tables(3) by (simp_all add: create_usage_reservation_def)
  have old: "ri_reservation_id i \<noteq> rid" if "i \<in> set ?old" for i
    using assms(1,2) that unfolding ledger_ok_def open_ok_def by metis
  have find_app: "find P (xs @ [x]) = Some x" if "\<forall>y \<in> set xs. \<not> P y" "P x" for P and xs :: "usage_reservation list" and x
    using that by (induction xs) auto
  have "find (\<lambda>r. rv_id r = rid) (kd_reservations db @ [?res]) = Some ?res"
    using assms(2) by (intro find_app) auto
  moreover have "filter (\<lambda>i. ri_reservation_id i = rid) (kd_items db') = ?new"
    using old by (simp add: items)
  ultimately have get: "get_usage_reservation rid db' = Some (?res, ?new)"
    by (simp add: get_usage_reservation_def res)
  note rows = released_rows [OF ok' get, of later]
  let ?db = "release_usage_reservation_once later rid db'"
  have "kd_items ?db = ?old @ map (\<lambda>i. i\<lparr> ri_reservation_id := rid, ri_actual_delta := Some 0 \<rparr>) ?its"
    using rows(2) settled_fresh [of ?old rid ?its, OF old] unfolding items by simp
  then have "charged l (kd_items ?db) = charged l ?old" for l
    by (simp only: charged_simps charged_settled_zero)
  moreover have "\<forall>l \<in> set (kd_limits ?db). kl_current_value l = charged l (kd_items ?db)"
    using release_usage_reservation_ok [OF ok', of later rid] by (simp add: ledger_ok_def books_ok_def)
  moreover have "\<forall>l \<in> set (kd_limits (rolled_db now key_id db)). kl_current_value l = charged l ?old"
    using rolled_db_ok [OF assms(1), of now key_id] by (simp add: ledger_ok_def books_ok_def)
  moreover have "map frozen (kd_limits ?db) = map frozen (kd_limits (rolled_db now key_id db))"
    using rows(1) unfolding limits by (simp add: comp_def)
  ultimately show ?thesis using rows_determined [where items = ?old] by metis
qed

theorem release_undoes_admission_witness:
  "kd_limits (release_usage_reservation_once 9 ''r'' sample_admitted) = kd_limits (rolled_db 7 ''k'' sample_db)"
proof (rule release_undoes_admission [OF _ _ sample_admission])
  show "ledger_ok sample_db" by (rule fresh_books_ok) (simp add: fresh_books_def sample_db_def sample_limit_def)
  show "''r'' \<notin> rv_id ` set (kd_reservations sample_db)" by (simp add: sample_db_def)
qed

section \<open>Closing a reservation\<close>

datatype closing =
  Settle reservation_status string "int option" "int option" "int option" "string option"
| Release

fun close_with :: "datetime \<Rightarrow> closing \<Rightarrow> string \<Rightarrow> key_db \<Rightarrow> key_db" where
  "close_with now (Settle status model inp out cached tier) rid db =
     settle_reservation now status rid model inp out cached tier db"
| "close_with now Release rid db = release_usage_reservation_once now rid db"

fun closing_final :: "closing \<Rightarrow> bool" where
  "closing_final (Settle status model inp out cached tier) \<longleftrightarrow> status = Finalized \<or> status = Failed"
| "closing_final Release \<longleftrightarrow> True"

definition is_open :: "string \<Rightarrow> key_db \<Rightarrow> bool" where
  "is_open rid db \<longleftrightarrow>
     (case find (\<lambda>r. rv_id r = rid) (kd_reservations db) of Some r \<Rightarrow> rv_status r = Reserved | None \<Rightarrow> False)"

lemma close_with_closed: "\<not> is_open rid db \<Longrightarrow> close_with now c rid db = db"
  by (cases c)
    (auto simp: is_open_def settle_reservation_def release_usage_reservation_once_def get_usage_reservation_def
      split: option.splits)

lemma settle_usage_closes:
  "status \<noteq> Reserved \<Longrightarrow> \<not> is_open rid (settle_usage_reservation now rid status inp out cached cost db)"
proof -
  let ?f = "\<lambda>r. if rv_id r = rid
      then (r\<lparr> rv_status := status, rv_input_tokens := inp, rv_output_tokens := out,
               rv_cached_input_tokens := cached, rv_cost_microdollars := cost \<rparr>)\<lparr> rv_updated_at := now \<rparr> else r"
  assume "status \<noteq> Reserved"
  moreover have "kd_reservations (settle_usage_reservation now rid status inp out cached cost db) =
      map ?f (kd_reservations db)"
    by (simp add: settle_usage_reservation_def)
  moreover have "find (\<lambda>r. rv_id r = rid) (map ?f (kd_reservations db)) =
      map_option ?f (find (\<lambda>r. rv_id r = rid) (kd_reservations db))"
    by (rule find_map_keep) simp
  ultimately show ?thesis
    by (auto simp: is_open_def split: option.splits dest: find_id)
qed

lemma is_open_update_last_used [simp]: "is_open rid (update_last_used now k db) = is_open rid db"
  by (simp add: is_open_def update_last_used_def)

lemma close_with_closes: "closing_final c \<Longrightarrow> \<not> is_open rid (close_with now c rid db)"
proof (cases "is_open rid db")
  case True
  assume final: "closing_final c"
  from True obtain r its where get: "get_usage_reservation rid db = Some (r, its)" "rv_status r = Reserved"
    by (auto simp: is_open_def get_usage_reservation_def split: option.splits)
  note claimed = transition_claimed [OF get, of now]
  show ?thesis using final get claimed
    by (cases c)
      (auto simp: settle_reservation_def release_usage_reservation_once_def Let_def split_beta
        intro!: settle_usage_closes)
qed (simp add: close_with_closed)

text \<open>C10: A reservation is closed once. After it was finalized, failed or released, finalizing, failing or
  releasing it again, at any time and with any usage, changes nothing: no request is charged or
  credited twice.\<close>

theorem closing_once:
  assumes "closing_final c"
  shows "close_with later c' rid (close_with now c rid db) = close_with now c rid db"
  by (rule close_with_closed [OF close_with_closes [OF assms]])

theorem closing_once_witness:
  "close_with 9 (Settle Finalized ''gpt-5'' (Some 10) (Some 5) None None) ''r'' (close_with 8 Release ''r'' sample_admitted) =
     close_with 8 Release ''r'' sample_admitted"
  by (rule closing_once) simp

section \<open>Sweeps\<close>

text \<open>C34: Resetting expired limits ends, in one pass over the table: every limit whose window has ended
  gets a zero counter and the first reset time of its grid after now, every other limit is untouched,
  and the number returned is the number of limits that were reset.\<close>

theorem reset_expired_limits_spec:
  assumes "distinct (map kl_id (kd_limits db))"
  shows "reset_expired_limits now (db, 0) =
    (db\<lparr> kd_limits := map (\<lambda>l. if kl_reset_at l < now
             then l\<lparr> kl_current_value := 0,
                     kl_reset_at := advance_limit_reset (kl_reset_at l) now (kl_limit_window l) \<rparr>
             else l) (kd_limits db) \<rparr>,
     length (filter (\<lambda>l. kl_reset_at l < now) (kd_limits db)))"
  using reset_expired_limits_roll [of "(db, 0)" now] assms
  by (simp add: roll_def [abs_def] expired_limit_def [abs_def])

theorem reset_expired_limits_spec_witness:
  "reset_expired_limits 200 (sample_admitted, 0) =
     (sample_admitted\<lparr> kd_limits := [sample_limit 0 (advance_limit_reset 100 200 DAILY)] \<rparr>, 1)"
  using reset_expired_limits_spec [of sample_admitted 200] by (simp add: sample_admitted_def sample_limit_def)




end
