(* ===== verification/Key_Auth.thy ===== *)
theory Key_Auth
  imports Key_Admin Key_Laws
begin

text \<open>
  Authentication never lags behind a revocation. Validated keys are cached, and an administrative
  change is committed first and announced to the cache afterwards; validations run in between. The
  step relation below interleaves all of these, with the version check of the cache, and the
  invariant says what the cache and the validations under way can still hold.
\<close>

section \<open>What a key grants\<close>

type_synonym grant =
  "string \<times> string list option \<times> string option \<times> string option \<times> string option \<times> datetime option \<times> bool"

definition grants :: "api_key \<Rightarrow> grant" where
  "grants r =
     (ak_id r, deserialize_allowed_models (ak_allowed_models r), normalize_model_slug (ak_enforced_model r),
      normalize_reasoning_effort_lenient (ak_enforced_reasoning_effort r),
      normalize_service_tier_lenient (ak_enforced_service_tier r), ak_expires_at r,
      ak_account_assignment_scope_enabled r)"

definition granted :: "api_key_data \<Rightarrow> grant" where
  "granted d =
     (kdt_id d, kdt_allowed_models d, kdt_enforced_model d, kdt_enforced_reasoning_effort d,
      kdt_enforced_service_tier d, kdt_expires_at d, kdt_account_assignment_scope_enabled d)"

lemma granted_to_api_key_data [simp]: "granted (to_api_key_data db r) = grants r"
  by (simp add: granted_def grants_def to_api_key_data_def)

definition credential :: "api_key \<Rightarrow> string \<times> bool \<times> grant" where
  "credential r = (ak_key_hash r, ak_is_active r, grants r)"

text \<open>The table vouches for a datum under a hash if an active key has that hash and grants just that.\<close>

definition vouched :: "api_key list \<Rightarrow> string \<Rightarrow> api_key_data \<Rightarrow> bool" where
  "vouched keys h d \<longleftrightarrow> (h, True, granted d) \<in> credential ` set keys"

section \<open>Operations and credentials\<close>

lemma reset_limit_keys [simp]: "kd_keys (fst (reset_limit i e t db)) = kd_keys db"
  by (simp add: reset_limit_def update_limits_def split_beta)

lemma lazy_reset_keys [simp]: "kd_keys (fst (lazy_reset_expired_limits now ls db)) = kd_keys db"
  by (induction ls arbitrary: db) simp_all

lemma try_reserve_keys [simp]: "kd_keys (snd (try_reserve_usage i d e db)) = kd_keys db"
  by (simp add: try_reserve_usage_def Let_def split_beta update_limits_def)

lemma reserve_limits_keys: "reserve_limits m t b ls db = Inr (its, db') \<Longrightarrow> kd_keys db' = kd_keys db"
proof (induction ls arbitrary: db its)
  case (Cons l ls)
  have "kd_keys (snd (if 0 < reserve_delta_for_limit l m t b
      then let (r, y) = try_reserve_usage (kl_id l) (reserve_delta_for_limit l m t b) (kl_reset_at l) db
           in (rr_success r, y) else (True, db))) = kd_keys db"
    using try_reserve_keys [of "kl_id l" "reserve_delta_for_limit l m t b" "kl_reset_at l" db]
    by (simp add: split_beta)
  with Cons show ?case
    by (fastforce simp: Let_def split_beta split: if_splits sum.splits prod.splits)
qed simp

lemma enforce_once_keys [simp]:
  "kd_keys (snd (enforce_limits_for_request_once now rid k m t b db)) = kd_keys db"
proof -
  have "kd_keys db2 = kd_keys db"
    if "reserve_limits m t (normalize_request_usage_budget b) ls (fst (lazy_reset_expired_limits now ls' db)) = Inr (its, db2)"
    for ls ls' its db2 using reserve_limits_keys [OF that] by simp
  then show ?thesis
    by (auto simp: enforce_limits_for_request_once_def create_usage_reservation_def split_beta
        split: sum.split if_split)
qed

lemma settle_items_keys [simp]: "kd_keys (fold (settle_item r inc) its db) = kd_keys db"
  by (induction its arbitrary: db) (simp_all add: settle_item_rows)

lemma credential_last_used [simp]: "credential (r\<lparr> ak_last_used_at := t \<rparr>) = credential r"
  by (simp add: credential_def grants_def)

lemma update_last_used_credentials [simp]:
  "map credential (kd_keys (update_last_used now k db)) = map credential (kd_keys db)"
  by (simp add: update_last_used_def update_where_def comp_def if_distrib cong: if_cong)

lemma settle_usage_keys [simp]:
  "kd_keys (settle_usage_reservation now rid st inp out cached cost db) = kd_keys db"
  by (simp add: settle_usage_reservation_def)

lemma settle_reservation_credentials [simp]:
  "map credential (kd_keys (settle_reservation now st rid model inp out cached tier db)) = map credential (kd_keys db)"
  by (simp add: settle_reservation_def Let_def split_beta transition_usage_reservation_status_def
      split: option.split)

lemma release_once_keys [simp]: "kd_keys (release_usage_reservation_once now rid db) = kd_keys db"
  by (simp add: release_usage_reservation_once_def Let_def split_beta transition_usage_reservation_status_def
      release_is_settle_zero split: option.split)

lemma reset_batch_keys [simp]: "kd_keys (fst (reset_batch now ls s)) = kd_keys (fst s)"
  by (induction now ls s rule: reset_batch.induct) (simp_all add: split_beta)

lemma reset_expired_keys [simp]: "kd_keys (fst (reset_expired_limits now s)) = kd_keys (fst s)"
  by (induction now s rule: reset_expired_limits.induct) (subst reset_expired_limits.simps, simp)

lemma claim_stale_keys [simp]: "kd_keys (fst (claim_stale now cutoff i db)) = kd_keys db"
  by (simp add: claim_stale_def)

lemma release_batch_keys [simp]: "kd_keys (fst (release_batch now cutoff rs s)) = kd_keys (fst s)"
proof (induction rs arbitrary: s)
  case (Cons p rs)
  show ?case using Cons by (cases p; cases s) (simp add: split_beta release_is_settle_zero)
qed simp

lemma release_stale_keys [simp]:
  "kd_keys (fst (release_stale_usage_reservations now cutoff bs s)) = kd_keys (fst s)"
  by (induction now cutoff bs s rule: release_stale_usage_reservations.induct)
    (subst release_stale_usage_reservations.simps, simp)

lemma key_step_credentials:
  "key_step db db' \<Longrightarrow> map credential (kd_keys db') = map credential (kd_keys db)"
proof (induction rule: key_step.induct)
  case (admitted rid db)
  show ?case unfolding enforce_limits_for_request_def
    by (rule retry_busy_keeps [where I = "\<lambda>x. map credential (kd_keys x) = map credential (kd_keys db)"
          and J = "\<lambda>x. map credential (kd_keys x) = map credential (kd_keys db)"])
      (simp_all add: enforce_part_def split: sum.split)
next
  case (finalized inp out cached db)
  show ?case unfolding finalize_usage_reservation_def
    by (rule retry_busy_keeps [where I = "\<lambda>x. map credential (kd_keys x) = map credential (kd_keys db)"
          and J = "\<lambda>x. map credential (kd_keys x) = map credential (kd_keys db)"]) simp_all
next
  case (failed inp out cached db)
  show ?case unfolding fail_usage_reservation_def
    by (rule retry_busy_keeps [where I = "\<lambda>x. map credential (kd_keys x) = map credential (kd_keys db)"
          and J = "\<lambda>x. map credential (kd_keys x) = map credential (kd_keys db)"]) simp_all
next
  case (released db)
  show ?case unfolding release_usage_reservation_def
    by (rule retry_busy_keeps [where I = "\<lambda>x. map credential (kd_keys x) = map credential (kd_keys db)"
          and J = "\<lambda>x. map credential (kd_keys x) = map credential (kd_keys db)"]) simp_all
next
  case (touched db)
  show ?case unfolding touch_reservation_def
    by (rule retry_busy_keeps [where I = "\<lambda>x. map credential (kd_keys x) = map credential (kd_keys db)"
          and J = "\<lambda>x. map credential (kd_keys x) = map credential (kd_keys db)"])
      (simp_all add: touch_usage_reservation_def)
qed simp_all

text \<open>An administrative change leaves alone the keys with other hashes than the one it announces.\<close>

definition keeps_others :: "string \<Rightarrow> api_key list \<Rightarrow> api_key list \<Rightarrow> bool" where
  "keeps_others h keys keys' \<longleftrightarrow> (\<forall>r \<in> set keys. ak_key_hash r \<noteq> h \<longrightarrow> r \<in> set keys')"

lemma keeps_others_vouched:
  "keeps_others h keys keys' \<Longrightarrow> vouched keys h' d \<Longrightarrow> h' \<noteq> h \<Longrightarrow> vouched keys' h' d"
  by (auto simp: keeps_others_def vouched_def credential_def)

definition keys_ok :: "api_key list \<Rightarrow> bool" where
  "keys_ok keys \<longleftrightarrow> distinct (map ak_id keys) \<and> distinct (map ak_key_hash keys)"

lemma key_by_id_row: "key_by_id k db = Some row \<Longrightarrow> row \<in> set (kd_keys db) \<and> ak_id row = k"
  by (auto simp: key_by_id_def dest: find_id)

lemma key_update_keys:
  "kd_keys (snd (key_update k c db)) = map (\<lambda>r. if ak_id r = k then apply_key_changes c r else r) (kd_keys db)"
proof (cases "key_by_id k db")
  case None
  then have "\<forall>r \<in> set (kd_keys db). ak_id r \<noteq> k" by (auto simp: key_by_id_def find_None_iff)
  then have "map (\<lambda>r. if ak_id r = k then apply_key_changes c r else r) (kd_keys db) = kd_keys db"
    by (intro map_idI) simp
  with None show ?thesis by (simp add: key_update_def)
qed (simp add: key_update_def Let_def update_where_def)

lemma upsert_limits_keys [simp]: "kd_keys (upsert_limits k ls db) = kd_keys db"
  by (simp add: upsert_limits_def Let_def)

lemma replace_assignments_keys [simp]: "kd_keys (replace_account_assignments k ids db) = kd_keys db"
  by (simp add: replace_account_assignments_def)

lemma key_changes_others:
  assumes "keys_ok keys" "row \<in> set keys"
  shows "keeps_others (ak_key_hash row) keys (map (\<lambda>r. if ak_id r = ak_id row then f r else r) keys)"
proof -
  have "r = row" if "r \<in> set keys" "ak_id r = ak_id row" for r
    using assms that by (auto simp: keys_ok_def distinct_map dest: inj_onD)
  then have "r \<in> set (map (\<lambda>r. if ak_id r = ak_id row then f r else r) keys)"
    if "r \<in> set keys" "ak_key_hash r \<noteq> ak_key_hash row" for r
    using that by (force simp: image_iff)
  then show ?thesis by (simp add: keeps_others_def)
qed

lemma key_changes_ok:
  assumes "keys_ok keys" "\<And>r. ak_id (f r) = ak_id r" "\<And>r. ak_key_hash (f r) = ak_key_hash r"
  shows "keys_ok (map (\<lambda>r. if ak_id r = k then f r else r) keys)"
  using assms by (simp add: keys_ok_def comp_def if_distrib cong: if_cong)

lemma key_by_id_keys: "kd_keys db = kd_keys db' \<Longrightarrow> key_by_id k db = key_by_id k db'"
  by (simp add: key_by_id_def)

lemma commit_update_cases:
  assumes "key_by_id k (ke_db s) = Some row" "kc_key_hash c = None"
  obtains db' d where
      "kd_keys db' = map (\<lambda>r. if ak_id r = k then apply_key_changes c r else r) (kd_keys (ke_db s))"
      "commit_update poller k c assigned rows s = (Inr d, forget_key poller (ak_key_hash row) (s\<lparr> ke_db := db' \<rparr>))"
proof -
  define db1 where "db1 = snd (key_update k c (ke_db s))"
  define db2 where "db2 = (case assigned of Some ids \<Rightarrow> replace_account_assignments k ids db1 | None \<Rightarrow> db1)"
  define db3 where "db3 = (case rows of Some ls \<Rightarrow> upsert_limits k ls db2 | None \<Rightarrow> db2)"
  have keys: "kd_keys db3 = map (\<lambda>r. if ak_id r = k then apply_key_changes c r else r) (kd_keys (ke_db s))"
    by (simp add: db3_def db2_def db1_def key_update_keys split: option.split)
  have "key_by_id k db3 = map_option (\<lambda>r. if ak_id r = k then apply_key_changes c r else r) (key_by_id k (ke_db s))"
    unfolding key_by_id_def keys by (rule find_map_keep) (simp add: apply_key_changes_def)
  then have "key_by_id k db3 = Some (apply_key_changes c row)"
    using assms(1) key_by_id_row [OF assms(1)] by simp
  moreover have "ak_key_hash (apply_key_changes c row) = ak_key_hash row"
    using assms(2) by (simp add: apply_key_changes_def given_def)
  moreover have "commit_update poller k c assigned rows s =
      (case key_by_id k db3 of
         None \<Rightarrow> (Inl (Api_Key_Not_Found (''API key not found: '' @ k)), s)
       | Some u \<Rightarrow> (Inr (to_api_key_data db3 u), forget_key poller (ak_key_hash u) (s\<lparr> ke_db := db3 \<rparr>)))"
    unfolding commit_update_def Let_def db1_def db2_def db3_def ..
  ultimately have "commit_update poller k c assigned rows s =
      (Inr (to_api_key_data db3 (apply_key_changes c row)), forget_key poller (ak_key_hash row) (s\<lparr> ke_db := db3 \<rparr>))"
    by simp
  with keys show ?thesis by (rule that)
qed

lemma update_key_cases:
  obtains (error) e where "update_key poller now nid k p s = (Inl e, s)"
  | (ok) row c db' d where "key_by_id k (ke_db s) = Some row" "kc_key_hash c = None"
      "kd_keys db' = map (\<lambda>r. if ak_id r = k then apply_key_changes c r else r) (kd_keys (ke_db s))"
      "update_key poller now nid k p s = (Inr d, forget_key poller (ak_key_hash row) (s\<lparr> ke_db := db' \<rparr>))"
proof -
  have "(\<exists>e. update_key poller now nid k p s = (Inl e, s)) \<or>
      (\<exists>row c assigned rows. key_by_id k (ke_db s) = Some row \<and> kc_key_hash c = None \<and>
         update_key poller now nid k p s = commit_update poller k c assigned rows s)"
    unfolding update_key_def
    by (cases "key_by_id k (ke_db s)"; simp;
        cases "if_set (\<lambda>ids. resolve_assigned_account_ids ids s) (ud_assigned_account_ids p)"; simp;
        cases "if_set normalize_reasoning_effort (ud_enforced_reasoning_effort p)"; simp;
        cases "if_set normalize_service_tier (ud_enforced_service_tier p)"; simp;
        cases "enforcement_conflict p (the (key_by_id k (ke_db s)))"; simp;
        cases "limit_rows_for_update now nid k p (ke_db s)"; simp;
        cases "if_set (\<lambda>n. normalize_name (or_str n [])) (ud_name p)"; simp)
      (rule disjI2, rule exI, rule conjI [rotated], rule exI, rule exI, rule refl, simp)
  then show ?thesis
  proof (elim disjE exE conjE)
    fix row c assigned rows
    assume *: "key_by_id k (ke_db s) = Some row" "kc_key_hash c = None"
      and eq: "update_key poller now nid k p s = commit_update poller k c assigned rows s"
    show ?thesis by (rule commit_update_cases [OF *, of poller assigned rows]) (rule ok [OF *], simp_all add: eq)
  qed (rule error)
qed

lemma delete_key_cases:
  assumes "key_by_id k (ke_db s) = Some row"
  shows "\<exists>db'. delete_key poller k s = (Inr (), forget_key poller (ak_key_hash row) (s\<lparr> ke_db := db' \<rparr>)) \<and>
    kd_keys db' = filter (\<lambda>r. ak_id r \<noteq> k) (kd_keys (ke_db s))"
  using assms
  by (intro exI [where x = "fst (key_delete k (ke_db s))"]) (simp add: delete_key_def key_delete_def Let_def)

lemma regenerate_key_cases:
  assumes "key_by_id k (ke_db s) = Some row"
  shows "\<exists>d db'. regenerate_key poller hash_key plain k s =
      (Inr d, forget_key poller (ak_key_hash row) (s\<lparr> ke_db := db' \<rparr>)) \<and>
    kd_keys db' = map (\<lambda>r. if ak_id r = k then r\<lparr> ak_key_hash := hash_key plain, ak_key_prefix := take 15 plain \<rparr> else r)
      (kd_keys (ke_db s))"
proof -
  let ?c = "no_key_changes\<lparr> kc_key_hash := Some (hash_key plain), kc_key_prefix := Some (take 15 plain) \<rparr>"
  have c: "apply_key_changes ?c r = r\<lparr> ak_key_hash := hash_key plain, ak_key_prefix := take 15 plain \<rparr>" for r
    by (simp add: apply_key_changes_def no_key_changes_def given_def)
  let ?db = "snd (key_update k ?c (ke_db s))"
  have keys: "kd_keys ?db = map (\<lambda>r. if ak_id r = k then r\<lparr> ak_key_hash := hash_key plain, ak_key_prefix := take 15 plain \<rparr> else r)
      (kd_keys (ke_db s))" unfolding key_update_keys c ..
  have "key_by_id k ?db = map_option (\<lambda>r. if ak_id r = k then apply_key_changes ?c r else r) (key_by_id k (ke_db s))"
    unfolding key_by_id_def key_update_keys by (rule find_map_keep) (simp add: apply_key_changes_def)
  then obtain u where "key_by_id k ?db = Some u" using assms by simp
  moreover have "fst (key_update k ?c (ke_db s)) = key_by_id k ?db"
    using assms by (simp add: key_update_def Let_def)
  ultimately have "regenerate_key poller hash_key plain k s =
      (Inr (to_api_key_data ?db u, plain), forget_key poller (ak_key_hash row) (s\<lparr> ke_db := ?db \<rparr>))"
    using assms by (simp add: regenerate_key_def split_beta)
  with keys show ?thesis by blast
qed

lemma create_key_cases:
  assumes "create_key hash_key now kid plain nid p s = (Inr d, s')"
  shows "\<exists>db' row. s' = s\<lparr> ke_db := db' \<rparr> \<and> kd_keys db' = kd_keys (ke_db s) @ [row] \<and> ak_id row = kid \<and>
    ak_key_hash row = hash_key plain"
proof -
  obtain row assigned where row: "new_key_row hash_key now kid plain p s = Inr (row, assigned)"
    using assms by (auto simp: create_key_def split: sum.splits)
  then have "ak_id row = kid" "ak_key_hash row = hash_key plain"
    by (auto simp: new_key_row_def Let_def split: sum.splits option.splits)
  moreover obtain limits where "rows_for (\<lambda>_. (0, None)) nid 0 kid now (cd_limits p) = Inr limits"
    using assms row by (auto simp: create_key_def split: sum.splits)
  ultimately show ?thesis using assms row
    by (auto simp: create_key_def Let_def key_create_def split: option.splits)
qed

section \<open>Interleavings\<close>

text \<open>
  Validations under way have read the cache's version and then the table, and have not stored what
  they read yet; announced changes are committed but not yet known to the cache.
\<close>

record auth_state =
  as_env :: key_env
  as_loads :: "(string \<times> api_key_data \<times> int) list"
  as_dirty :: "string list"

abbreviation auth_keys :: "auth_state \<Rightarrow> api_key list" where
  "auth_keys s \<equiv> kd_keys (ke_db (as_env s))"

inductive auth_step :: "(string \<Rightarrow> string) \<Rightarrow> auth_state \<Rightarrow> auth_state \<Rightarrow> bool" for hash_key where
  created: "create_key hash_key now kid plain nid p (as_env s) = (Inr d, env') \<Longrightarrow>
     kid \<notin> ak_id ` set (auth_keys s) \<Longrightarrow> hash_key plain \<notin> ak_key_hash ` set (auth_keys s) \<Longrightarrow>
     auth_step hash_key s (s\<lparr> as_env := env' \<rparr>)"
| updating: "key_by_id k (ke_db (as_env s)) = Some row \<Longrightarrow>
     update_key poller now nid k p (as_env s) = (Inr d, env') \<Longrightarrow>
     auth_step hash_key s (s\<lparr> as_env := (as_env s)\<lparr> ke_db := ke_db env' \<rparr>, as_dirty := ak_key_hash row # as_dirty s \<rparr>)"
| deleting: "key_by_id k (ke_db (as_env s)) = Some row \<Longrightarrow> delete_key poller k (as_env s) = (Inr u, env') \<Longrightarrow>
     auth_step hash_key s (s\<lparr> as_env := (as_env s)\<lparr> ke_db := ke_db env' \<rparr>, as_dirty := ak_key_hash row # as_dirty s \<rparr>)"
| regenerating: "key_by_id k (ke_db (as_env s)) = Some row \<Longrightarrow>
     regenerate_key poller hash_key plain k (as_env s) = (Inr d', env') \<Longrightarrow>
     hash_key plain \<notin> ak_key_hash ` set (auth_keys s) \<Longrightarrow>
     auth_step hash_key s (s\<lparr> as_env := (as_env s)\<lparr> ke_db := ke_db env' \<rparr>, as_dirty := ak_key_hash row # as_dirty s \<rparr>)"
| announced: "h \<in> set (as_dirty s) \<Longrightarrow>
     auth_step hash_key s (s\<lparr> as_env := forget_key poller h (as_env s), as_dirty := remove1 h (as_dirty s) \<rparr>)"
| cleared: "auth_step hash_key s (s\<lparr> as_env := (as_env s)\<lparr> ke_cache := api_key_cache_clear (ke_cache (as_env s)) \<rparr> \<rparr>)"
| looked_up: "auth_step hash_key s
     (s\<lparr> as_env := (as_env s)\<lparr> ke_cache := snd (token_lookup mono_now now h (ke_cache (as_env s))) \<rparr> \<rparr>)"
| accepted: "validate_key hash_key now token (ke_db (as_env s)) = (Inr d, db') \<Longrightarrow>
     v \<le> kc_version (ke_cache (as_env s)) \<Longrightarrow>
     auth_step hash_key s
       (s\<lparr> as_env := (as_env s)\<lparr> ke_db := db' \<rparr>, as_loads := (hash_key token, d, v) # as_loads s \<rparr>)"
| rejected: "validate_key hash_key now token (ke_db (as_env s)) = (Inl e, db') \<Longrightarrow>
     auth_step hash_key s (s\<lparr> as_env := (as_env s)\<lparr> ke_db := db' \<rparr> \<rparr>)"
| stored: "(h, d, v) \<in> set (as_loads s) \<Longrightarrow>
     auth_step hash_key s
       (s\<lparr> as_env := (as_env s)\<lparr> ke_cache := api_key_cache_set mono_now (Some v) h d (ke_cache (as_env s)) \<rparr> \<rparr>)"
| used: "key_step (ke_db (as_env s)) db' \<Longrightarrow> auth_step hash_key s (s\<lparr> as_env := (as_env s)\<lparr> ke_db := db' \<rparr> \<rparr>)"

definition trusted :: "api_key list \<Rightarrow> string list \<Rightarrow> string \<Rightarrow> api_key_data \<Rightarrow> bool" where
  "trusted keys dirty h d \<longleftrightarrow> h \<in> set dirty \<or> vouched keys h d"

definition auth_ok :: "auth_state \<Rightarrow> bool" where
  "auth_ok s \<longleftrightarrow>
     keys_ok (auth_keys s) \<and>
     (\<forall>h d e. map_of (kc_cache (ke_cache (as_env s))) h = Some (d, e) \<longrightarrow> trusted (auth_keys s) (as_dirty s) h d) \<and>
     (\<forall>(h, d, v) \<in> set (as_loads s).
        v \<le> kc_version (ke_cache (as_env s)) \<and>
        (v = kc_version (ke_cache (as_env s)) \<longrightarrow> trusted (auth_keys s) (as_dirty s) h d))"

lemma auth_ok_commit:
  assumes "auth_ok s" "keeps_others h (auth_keys s) (kd_keys db')" "keys_ok (kd_keys db')"
  shows "auth_ok (s\<lparr> as_env := (as_env s)\<lparr> ke_db := db' \<rparr>, as_dirty := h # as_dirty s \<rparr>)"
proof -
  have "trusted (kd_keys db') (h # as_dirty s) h' d" if "trusted (auth_keys s) (as_dirty s) h' d" for h' d
    using that keeps_others_vouched [OF assms(2)] by (auto simp: trusted_def)
  then show ?thesis using assms(1,3) unfolding auth_ok_def by fastforce
qed

lemma auth_ok_keys:
  assumes "auth_ok s" "\<And>h d. vouched (auth_keys s) h d \<Longrightarrow> vouched (kd_keys db') h d" "keys_ok (kd_keys db')"
  shows "auth_ok (s\<lparr> as_env := (as_env s)\<lparr> ke_db := db' \<rparr> \<rparr>)"
proof -
  have "trusted (kd_keys db') (as_dirty s) h' d" if "trusted (auth_keys s) (as_dirty s) h' d" for h' d
    using that assms(2) by (auto simp: trusted_def)
  then show ?thesis using assms(1,3) unfolding auth_ok_def by fastforce
qed

lemma same_credentials:
  assumes "map credential keys' = map credential keys"
  shows "vouched keys' h d = vouched keys h d" "keys_ok keys' = keys_ok keys"
proof -
  have "set (map credential keys') = set (map credential keys)" using assms by simp
  then show "vouched keys' h d = vouched keys h d" by (simp add: vouched_def)
  have "map ak_id ks = map (\<lambda>c. fst (snd (snd c))) (map credential ks)"
    "map ak_key_hash ks = map fst (map credential ks)" for ks
    by (simp_all add: credential_def grants_def)
  then show "keys_ok keys' = keys_ok keys" using assms unfolding keys_ok_def by metis
qed

lemma auth_ok_credentials:
  assumes "auth_ok s" "map credential (kd_keys db') = map credential (auth_keys s)"
  shows "auth_ok (s\<lparr> as_env := (as_env s)\<lparr> ke_db := db' \<rparr> \<rparr>)"
  by (rule auth_ok_keys [OF assms(1)])
    (use same_credentials [OF assms(2)] assms(1) in \<open>simp_all add: auth_ok_def\<close>)

text \<open>A changed cache has only entries it had, or its version is newer.\<close>

lemma auth_ok_cache:
  assumes "auth_ok s" "kc_version (ke_cache (as_env s)) \<le> kc_version c'"
    and "\<And>h d e. map_of (kc_cache c') h = Some (d, e) \<Longrightarrow> map_of (kc_cache (ke_cache (as_env s))) h = Some (d, e)"
  shows "auth_ok (s\<lparr> as_env := (as_env s)\<lparr> ke_cache := c' \<rparr> \<rparr>)"
proof -
  have "v \<le> kc_version c' \<and> (v = kc_version c' \<longrightarrow> trusted (auth_keys s) (as_dirty s) h d)"
    if "(h, d, v) \<in> set (as_loads s)" for h d v
    using assms(1,2) that unfolding auth_ok_def by fastforce
  then show ?thesis using assms(1,3) unfolding auth_ok_def by auto
qed

lemma valid_key_at_row:
  assumes "valid_key_at now (key_by_hash h db) = Inr r"
  shows "r \<in> set (kd_keys db) \<and> ak_key_hash r = h \<and> ak_is_active r \<and> \<not> key_expired now r"
  using assms
  by (auto simp: valid_key_at_def ensure_valid_api_key_row_def key_by_hash_def
      split: option.splits if_splits dest: find_id)

lemma validate_key_keys: "kd_keys (snd (validate_key hash_key now token db)) = kd_keys db"
  by (auto simp: validate_key_def Let_def split_beta split: sum.split)

lemma validate_key_accepts:
  assumes "validate_key hash_key now token db = (Inr d, db')"
  shows "\<exists>r \<in> set (kd_keys db). ak_key_hash r = hash_key token \<and> ak_is_active r \<and> grants r = granted d \<and>
    \<not> key_expired now r"
proof -
  have hash: "key_by_hash h (fst (lazy_reset_expired_limits now ls db)) = key_by_hash h db" for h ls
    by (simp add: key_by_hash_def)
  have valid: "valid_key_at now (key_by_hash (hash_key token) db) \<noteq> Inl e" for e
    using assms by (auto simp: validate_key_def split: if_splits)
  then obtain r where r: "valid_key_at now (key_by_hash (hash_key token) db) = Inr r"
    by (cases "valid_key_at now (key_by_hash (hash_key token) db)") auto
  then have "granted d = grants r" using assms
    by (auto simp: validate_key_def Let_def split_beta hash split: if_splits)
  with valid_key_at_row [OF r] show ?thesis by auto
qed

lemma cache_set_entries:
  assumes "map_of (kc_cache (api_key_cache_set now (Some v) h d c)) h' = Some (x, e)"
  shows "map_of (kc_cache c) h' = Some (x, e) \<or> h' = h \<and> x = d \<and> v = kc_version c"
  using assms
  by (auto simp: api_key_cache_set_def Let_def update_conv' delete_conv' split: if_splits option.splits)

lemma cache_set_version [simp]: "kc_version (api_key_cache_set now v h d c) = kc_version c"
  by (simp add: api_key_cache_set_def Let_def split: option.split)

lemma auth_ok_stored:
  assumes "auth_ok s" "(h, d, v) \<in> set (as_loads s)"
  shows "auth_ok (s\<lparr> as_env := (as_env s)\<lparr> ke_cache := api_key_cache_set now (Some v) h d (ke_cache (as_env s)) \<rparr> \<rparr>)"
proof -
  let ?c = "ke_cache (as_env s)" and ?c' = "api_key_cache_set now (Some v) h d (ke_cache (as_env s))"
  have "trusted (auth_keys s) (as_dirty s) h' x" if "map_of (kc_cache ?c') h' = Some (x, e)" for h' x e
    using cache_set_entries [OF that] assms unfolding auth_ok_def by fastforce
  then show ?thesis using assms(1) unfolding auth_ok_def by auto
qed

lemma auth_ok_accepted:
  assumes "auth_ok s" "vouched (auth_keys s) h d" "v \<le> kc_version (ke_cache (as_env s))"
  shows "auth_ok (s\<lparr> as_loads := (h, d, v) # as_loads s \<rparr>)"
  using assms by (auto simp: auth_ok_def trusted_def)

lemma auth_ok_announced:
  assumes "auth_ok s"
  shows "auth_ok (s\<lparr> as_env := forget_key poller h (as_env s), as_dirty := remove1 h (as_dirty s) \<rparr>)"
proof -
  let ?c = "ke_cache (as_env s)"
  have "trusted (auth_keys s) (remove1 h (as_dirty s)) h' d"
    if "map_of (AList.delete h (kc_cache ?c)) h' = Some (d, e)" for h' d e
  proof -
    have "h' \<noteq> h" "map_of (kc_cache ?c) h' = Some (d, e)" using that by (auto simp: delete_conv' split: if_splits)
    moreover have "trusted (auth_keys s) (as_dirty s) h' d"
      using assms calculation(2) unfolding auth_ok_def by blast
    ultimately show ?thesis by (simp add: trusted_def in_set_remove1)
  qed
  moreover have "v \<le> kc_version ?c" if "(h', d, v) \<in> set (as_loads s)" for h' d v
    using assms that unfolding auth_ok_def by fastforce
  ultimately show ?thesis
    using assms by (fastforce simp: auth_ok_def forget_key_def api_key_cache_invalidate_def)
qed

lemma auth_ok_lookup:
  assumes "auth_ok s"
  shows "auth_ok (s\<lparr> as_env := (as_env s)\<lparr> ke_cache := snd (token_lookup mono_now now h (ke_cache (as_env s))) \<rparr> \<rparr>)"
proof (rule auth_ok_cache [OF assms])
  let ?c = "ke_cache (as_env s)"
  have "snd (token_lookup mono_now now h ?c) = ?c \<or> snd (token_lookup mono_now now h ?c) = api_key_cache_invalidate h ?c"
    by (auto simp: token_lookup_def split: option.split)
  then show "kc_version ?c \<le> kc_version (snd (token_lookup mono_now now h ?c))"
    "map_of (kc_cache (snd (token_lookup mono_now now h ?c))) h' = Some (d, e) \<Longrightarrow> map_of (kc_cache ?c) h' = Some (d, e)"
    for h' d e
    by (auto simp: api_key_cache_invalidate_def delete_conv' split: if_splits)
qed

lemma auth_ok_created:
  assumes "auth_ok s" "create_key hash_key now kid plain nid p (as_env s) = (Inr d, env')"
    and "kid \<notin> ak_id ` set (auth_keys s)" "hash_key plain \<notin> ak_key_hash ` set (auth_keys s)"
  shows "auth_ok (s\<lparr> as_env := env' \<rparr>)"
proof -
  obtain db' row where new: "env' = (as_env s)\<lparr> ke_db := db' \<rparr>" "kd_keys db' = auth_keys s @ [row]"
    "ak_id row = kid" "ak_key_hash row = hash_key plain"
    using create_key_cases [OF assms(2)] by blast
  have "keys_ok (auth_keys s)" using assms(1) by (simp add: auth_ok_def)
  then have "keys_ok (kd_keys db')" using new assms(3,4) by (auto simp: keys_ok_def)
  then show ?thesis unfolding new(1)
    by (intro auth_ok_keys [OF assms(1)]) (auto simp: new(2) vouched_def)
qed

lemma update_key_keys:
  assumes "update_key poller now nid k p s = (Inr d, env')"
  shows "\<exists>c. kc_key_hash c = None \<and>
    kd_keys (ke_db env') = map (\<lambda>r. if ak_id r = k then apply_key_changes c r else r) (kd_keys (ke_db s))"
proof (cases rule: update_key_cases [of poller now nid k p s])
  case (ok row c db' d')
  then have "ke_db env' = db'" using assms by (simp add: forget_key_def)
  with ok(2,3) show ?thesis by blast
qed (use assms in simp)

lemma auth_ok_updating:
  assumes "auth_ok s" "key_by_id k (ke_db (as_env s)) = Some row"
    and "update_key poller now nid k p (as_env s) = (Inr d, env')"
  shows "auth_ok (s\<lparr> as_env := (as_env s)\<lparr> ke_db := ke_db env' \<rparr>, as_dirty := ak_key_hash row # as_dirty s \<rparr>)"
proof (rule auth_ok_commit [OF assms(1)])
  have ok: "keys_ok (auth_keys s)" using assms(1) by (simp add: auth_ok_def)
  have row: "row \<in> set (auth_keys s)" "ak_id row = k" using key_by_id_row [OF assms(2)] by simp_all
  obtain c where c: "kc_key_hash c = None"
    "kd_keys (ke_db env') = map (\<lambda>r. if ak_id r = k then apply_key_changes c r else r) (auth_keys s)"
    using update_key_keys [OF assms(3)] by blast
  show "keeps_others (ak_key_hash row) (auth_keys s) (kd_keys (ke_db env'))"
    unfolding c(2) row(2) [symmetric] by (rule key_changes_others [OF ok row(1)])
  show "keys_ok (kd_keys (ke_db env'))" unfolding c(2)
    by (rule key_changes_ok [OF ok]) (simp_all add: apply_key_changes_def given_def c(1))
qed

lemma auth_ok_deleting:
  assumes "auth_ok s" "key_by_id k (ke_db (as_env s)) = Some row" "delete_key poller k (as_env s) = (Inr u, env')"
  shows "auth_ok (s\<lparr> as_env := (as_env s)\<lparr> ke_db := ke_db env' \<rparr>, as_dirty := ak_key_hash row # as_dirty s \<rparr>)"
proof (rule auth_ok_commit [OF assms(1)])
  have ok: "keys_ok (auth_keys s)" using assms(1) by (simp add: auth_ok_def)
  have row: "row \<in> set (auth_keys s)" "ak_id row = k" using key_by_id_row [OF assms(2)] by simp_all
  have keys: "kd_keys (ke_db env') = filter (\<lambda>r. ak_id r \<noteq> k) (auth_keys s)"
    using delete_key_cases [OF assms(2), of poller] assms(3) by (auto simp: forget_key_def)
  have "r = row" if "r \<in> set (auth_keys s)" "ak_id r = k" for r
    using ok row that by (auto simp: keys_ok_def distinct_map dest: inj_onD)
  then show "keeps_others (ak_key_hash row) (auth_keys s) (kd_keys (ke_db env'))"
    unfolding keeps_others_def keys by auto
  show "keys_ok (kd_keys (ke_db env'))" unfolding keys using ok by (simp add: keys_ok_def distinct_map_filter)
qed

lemma auth_ok_regenerating:
  assumes "auth_ok s" "key_by_id k (ke_db (as_env s)) = Some row"
    and "regenerate_key poller hash_key plain k (as_env s) = (Inr d, env')"
    and "hash_key plain \<notin> ak_key_hash ` set (auth_keys s)"
  shows "auth_ok (s\<lparr> as_env := (as_env s)\<lparr> ke_db := ke_db env' \<rparr>, as_dirty := ak_key_hash row # as_dirty s \<rparr>)"
proof (rule auth_ok_commit [OF assms(1)])
  let ?f = "\<lambda>r. r\<lparr> ak_key_hash := hash_key plain, ak_key_prefix := take 15 plain \<rparr>"
  have ok: "keys_ok (auth_keys s)" using assms(1) by (simp add: auth_ok_def)
  have row: "row \<in> set (auth_keys s)" "ak_id row = k" using key_by_id_row [OF assms(2)] by simp_all
  have keys: "kd_keys (ke_db env') = map (\<lambda>r. if ak_id r = k then ?f r else r) (auth_keys s)"
    using regenerate_key_cases [OF assms(2), of poller hash_key plain] assms(3) by (auto simp: forget_key_def)
  show "keeps_others (ak_key_hash row) (auth_keys s) (kd_keys (ke_db env'))"
    unfolding keys row(2) [symmetric] by (rule key_changes_others [OF ok row(1)])
  have ids: "map ak_id (kd_keys (ke_db env')) = map ak_id (auth_keys s)" unfolding keys by simp
  have hashes: "map ak_key_hash (kd_keys (ke_db env')) =
      map (\<lambda>r. if ak_id r = k then hash_key plain else ak_key_hash r) (auth_keys s)" unfolding keys by simp
  have "distinct (map (\<lambda>r. if ak_id r = k then h else ak_key_hash r) ks)"
    if "distinct (map ak_id ks)" "distinct (map ak_key_hash ks)" "h \<notin> ak_key_hash ` set ks" for h ks
    using that by (induction ks) (auto simp: image_iff)
  then show "keys_ok (kd_keys (ke_db env'))" using ok assms(4) unfolding keys_ok_def ids hashes by blast
qed

lemma auth_ok_read:
  assumes "auth_ok s" "validate_key hash_key now token (ke_db (as_env s)) = (r, db')"
  shows "auth_ok (s\<lparr> as_env := (as_env s)\<lparr> ke_db := db' \<rparr> \<rparr>)"
  using validate_key_keys [of hash_key now token "ke_db (as_env s)"] assms
  by (intro auth_ok_credentials) simp_all

lemma auth_ok_load:
  assumes "auth_ok s" "validate_key hash_key now token (ke_db (as_env s)) = (Inr d, db')"
    and "v \<le> kc_version (ke_cache (as_env s))"
  shows "auth_ok (s\<lparr> as_env := (as_env s)\<lparr> ke_db := db' \<rparr>, as_loads := (hash_key token, d, v) # as_loads s \<rparr>)"
proof -
  let ?s = "s\<lparr> as_env := (as_env s)\<lparr> ke_db := db' \<rparr> \<rparr>"
  have keys: "kd_keys db' = auth_keys s"
    using validate_key_keys [of hash_key now token "ke_db (as_env s)"] assms(2) by simp
  obtain r where "r \<in> set (auth_keys s)" "credential r = (hash_key token, True, granted d)"
    using validate_key_accepts [OF assms(2)] by (auto simp: credential_def)
  then have "vouched (auth_keys ?s) (hash_key token) d" by (force simp: keys vouched_def)
  then show ?thesis using auth_ok_accepted [OF auth_ok_read [OF assms(1,2)]] assms(3) by simp
qed

lemma auth_step_ok: "auth_step hash_key s s' \<Longrightarrow> auth_ok s \<Longrightarrow> auth_ok s'"
proof (induction rule: auth_step.induct)
  case (cleared s)
  then show ?case by (rule auth_ok_cache) (simp_all add: api_key_cache_clear_def)
next
  case (used s db')
  then show ?case by (intro auth_ok_credentials key_step_credentials)
qed (blast intro: auth_ok_created auth_ok_updating auth_ok_deleting auth_ok_regenerating auth_ok_announced
       auth_ok_lookup auth_ok_load auth_ok_read auth_ok_stored)+

section \<open>Accepted tokens\<close>

lemma token_lookup_hit:
  assumes "token_lookup mono_now now h c = (Some d, c')"
  shows "(\<exists>e. map_of (kc_cache c) h = Some (d, e)) \<and> (case kdt_expires_at d of Some t \<Rightarrow> now < t | None \<Rightarrow> True)"
  using assms
  by (auto simp: token_lookup_def api_key_cache_get_def split: option.splits if_splits)

text \<open>C3: A revoked key does not authenticate. Run any interleaving of creating, updating, deleting and
  regenerating keys, of the announcements of these changes, of cache clears, of validations that read
  the table and store what they read later, and of admissions and settlements, starting with an empty
  cache. If then a token is accepted and no committed change of its key still waits to be announced,
  there is at that moment an active, unexpired key with the hash of the token, and what the token is
  granted (key id, models, enforced model, effort and tier, expiry, account scope) is what that row grants.\<close>

theorem accepted_token_is_current:
  assumes "(auth_step hash_key)\<^sup>*\<^sup>* s0 s"
    and "distinct (map ak_id (auth_keys s0))" "distinct (map ak_key_hash (auth_keys s0))"
    and "kc_cache (ke_cache (as_env s0)) = []" "as_loads s0 = []"
    and "validate_api_key_token hash_key mono_now now token (as_env s) = (Inr d, env')"
    and "hash_key token \<notin> set (as_dirty s)"
  shows "\<exists>r \<in> set (auth_keys s). ak_key_hash r = hash_key token \<and> ak_is_active r \<and> \<not> key_expired now r \<and>
           grants r = granted d"
proof -
  have ok: "auth_ok s" using assms(1)
  proof induction
    case base
    then show ?case using assms(2-5) by (simp add: auth_ok_def keys_ok_def)
  qed (rule auth_step_ok)
  let ?c = "ke_cache (as_env s)"
  obtain hit c where look: "token_lookup mono_now now (hash_key token) ?c = (hit, c)"
    by (cases "token_lookup mono_now now (hash_key token) ?c")
  show ?thesis
  proof (cases hit)
    case None
    then obtain db' where "validate_key hash_key now token (ke_db (as_env s)) = (Inr d, db')"
      using assms(6) look by (auto simp: validate_api_key_token_def split: prod.splits sum.splits)
    from validate_key_accepts [OF this] show ?thesis by blast
  next
    case (Some d')
    then have d: "d' = d" using assms(6) look by (simp add: validate_api_key_token_def)
    note hit = token_lookup_hit [OF look [unfolded Some d]]
    then have "trusted (auth_keys s) (as_dirty s) (hash_key token) d"
      using ok unfolding auth_ok_def by blast
    then obtain r where r: "r \<in> set (auth_keys s)" "credential r = (hash_key token, True, granted d)"
      using assms(7) by (auto simp: trusted_def vouched_def)
    moreover have "ak_expires_at r = kdt_expires_at d" using r(2) by (simp add: credential_def grants_def granted_def)
    ultimately show ?thesis using hit by (auto simp: credential_def key_expired_def split: option.splits)
  qed
qed

definition sample_auth :: auth_state where
  "sample_auth =
     \<lparr> as_env = \<lparr> ke_db = sample_db, ke_accounts = [],
                  ke_cache = \<lparr> kc_cache = [], kc_ttl = 5, kc_max_entries = 10, kc_version = 0 \<rparr>,
                  ke_versions = Map.empty \<rparr>,
       as_loads = [], as_dirty = [] \<rparr>"

definition sample_data :: api_key_data where
  "sample_data = to_api_key_data sample_db sample_key"

definition sample_cached :: auth_state where
  "sample_cached = sample_auth\<lparr> as_env := (as_env sample_auth)\<lparr> ke_cache :=
     \<lparr> kc_cache = [(''h'', sample_data, 6)], kc_ttl = 5, kc_max_entries = 10, kc_version = 0 \<rparr> \<rparr>,
     as_loads := [(''h'', sample_data, 0)] \<rparr>"

lemma sample_validation:
  "validate_key (\<lambda>x. x) 7 ''h'' sample_db = (Inr sample_data, sample_db)"
  by (simp add: validate_key_def sample_db_def sample_key_def sample_limit_def key_by_hash_def valid_key_at_def
      ensure_valid_api_key_row_def key_expired_def get_limits_by_key_def sample_data_def)

lemma sample_cached_reached: "(auth_step (\<lambda>x. x))\<^sup>*\<^sup>* sample_auth sample_cached"
proof -
  let ?mid = "sample_auth\<lparr> as_loads := [(''h'', sample_data, 0)] \<rparr>"
  have "auth_step (\<lambda>x. x) sample_auth ?mid"
    using auth_step.accepted [of "\<lambda>x. x" 7 "''h''" sample_auth sample_data sample_db 0] sample_validation
    by (simp add: sample_auth_def)
  moreover have "auth_step (\<lambda>x. x) ?mid sample_cached"
    using auth_step.stored [of "''h''" sample_data 0 ?mid "\<lambda>x. x" 1]
    by (simp add: sample_auth_def sample_cached_def api_key_cache_set_def)
  ultimately show ?thesis by simp
qed

theorem accepted_token_is_current_witness:
  "\<exists>r \<in> set (auth_keys sample_cached). ak_key_hash r = ''h'' \<and> ak_is_active r \<and> \<not> key_expired 8 r \<and>
     grants r = granted sample_data"
proof (rule accepted_token_is_current [OF sample_cached_reached])
  show "validate_api_key_token (\<lambda>x. x) 2 8 ''h'' (as_env sample_cached) = (Inr sample_data, as_env sample_cached)"
    by (simp add: validate_api_key_token_def token_lookup_def api_key_cache_get_def sample_cached_def sample_auth_def
        sample_data_def to_api_key_data_def sample_key_def)
qed (simp_all add: sample_auth_def sample_cached_def sample_db_def)

end
