(* ===== verification/Key_Usage.thy ===== *)
theory Key_Usage
  imports Key_Admin Db_Models
begin

text \<open>
  What a key has used: the aggregations of the request log in \<open>app/modules/api_keys/repository.py\<close> and
  the reports of \<open>app/modules/api_keys/service.py\<close> built on them (totals, the self-service report and
  the trend of the last days), and the sweep of \<open>app/modules/api_keys/reset_scheduler.py\<close>. Times are
  from the epoch on, where the database's integer division and Python's agree.
\<close>

section \<open>Aggregations\<close>

text \<open>\<open>sum\<close> skips nulls; \<open>coalesce\<close> takes the first that is not null.\<close>

definition sum_column :: "('r \<Rightarrow> 'n::comm_monoid_add option) \<Rightarrow> 'r list \<Rightarrow> 'n" where
  "sum_column column rows = sum_list (map (\<lambda>r. case column r of Some v \<Rightarrow> v | None \<Rightarrow> 0) rows)"

definition log_output_tokens :: "request_log \<Rightarrow> int option" where
  "log_output_tokens r =
     Some (case rl_output_tokens r of
             Some n \<Rightarrow> n
           | None \<Rightarrow> (case rl_reasoning_tokens r of Some n \<Rightarrow> n | None \<Rightarrow> 0))"

record usage_totals =
  to_requests :: int
  to_total_tokens :: int
  to_cached_input_tokens :: int
  to_total_cost_usd :: rat

definition totals_of :: "request_log list \<Rightarrow> usage_totals" where
  "totals_of rows =
     (let input_sum = sum_column rl_input_tokens rows;
          output_sum = sum_column log_output_tokens rows;
          cached_sum = sum_column rl_cached_input_tokens rows
      in \<lparr> to_requests = int (length rows),
           to_total_tokens = input_sum + output_sum,
           to_cached_input_tokens = max 0 (min cached_sum input_sum),
           to_total_cost_usd = py_round 6 (sum_column rl_cost_usd rows) \<rparr>)"

definition get_usage_summary_by_key_id :: "string \<Rightarrow> request_log list \<Rightarrow> usage_totals" where
  "get_usage_summary_by_key_id key_id logs = totals_of (filter (\<lambda>r. rl_api_key_id r = Some key_id) logs)"

definition logs_between :: "string \<Rightarrow> datetime \<Rightarrow> datetime \<Rightarrow> request_log list \<Rightarrow> request_log list" where
  "logs_between key_id since until logs =
     filter (\<lambda>r. rl_api_key_id r = Some key_id \<and> since \<le> rl_requested_at r \<and> rl_requested_at r < until) logs"

definition usage_7d :: "string \<Rightarrow> datetime \<Rightarrow> datetime \<Rightarrow> request_log list \<Rightarrow> usage_totals" where
  "usage_7d key_id since until logs = totals_of (logs_between key_id since until logs)"

definition list_usage_summary_by_key :: "request_log list \<Rightarrow> (string \<times> usage_totals) list" where
  "list_usage_summary_by_key logs =
     map (\<lambda>k. (k, get_usage_summary_by_key_id k logs))
       (filter (\<lambda>k. k \<noteq> []) (remdups (List.map_filter rl_api_key_id logs)))"

section \<open>Trends\<close>

record trend_bucket =
  tb_bucket_epoch :: int
  tb_total_tokens :: int
  tb_total_cost_usd :: rat

definition epoch_seconds :: "datetime \<Rightarrow> int" where
  "epoch_seconds t = t div 1000000"

definition bucket_of :: "int \<Rightarrow> datetime \<Rightarrow> int" where
  "bucket_of bucket_seconds t = epoch_seconds t div bucket_seconds * bucket_seconds"

definition log_tokens :: "request_log list \<Rightarrow> int" where
  "log_tokens rows = sum_column rl_input_tokens rows + sum_column log_output_tokens rows"

definition trends_by_key ::
  "string \<Rightarrow> datetime \<Rightarrow> datetime \<Rightarrow> int \<Rightarrow> request_log list \<Rightarrow> trend_bucket list"
where
  "trends_by_key key_id since until bucket_seconds logs =
     (let rows = logs_between key_id since until logs;
          bucket = (\<lambda>r. bucket_of bucket_seconds (rl_requested_at r))
      in map (\<lambda>e. let group = filter (\<lambda>r. bucket r = e) rows
                  in \<lparr> tb_bucket_epoch = e, tb_total_tokens = log_tokens group,
                       tb_total_cost_usd = py_round 6 (sum_column rl_cost_usd group) \<rparr>)
           (sort (remdups (map bucket rows))))"

record trends_point =
  tp_t :: int
  tp_v :: rat

record trends_data =
  td_cost :: "trends_point list"
  td_tokens :: "trends_point list"

definition time_grid :: "datetime \<Rightarrow> datetime \<Rightarrow> int \<Rightarrow> int list" where
  "time_grid since until bucket_seconds =
     (let start_epoch = bucket_of bucket_seconds since;
          end_epoch = bucket_of bucket_seconds (until - 1);
          bucket_count = (end_epoch - start_epoch) div bucket_seconds + 1
      in map (\<lambda>i. start_epoch + int i * bucket_seconds) [0..<nat bucket_count])"

text \<open>The dictionaries are filled in order, so a later bucket with the same epoch would win.\<close>

definition bucket_value :: "(trend_bucket \<Rightarrow> 'n::zero) \<Rightarrow> trend_bucket list \<Rightarrow> int \<Rightarrow> 'n" where
  "bucket_value column buckets e =
     (case find (\<lambda>b. tb_bucket_epoch b = e) (rev buckets) of Some b \<Rightarrow> column b | None \<Rightarrow> 0)"

definition build_api_key_trends :: "trend_bucket list \<Rightarrow> datetime \<Rightarrow> datetime \<Rightarrow> int \<Rightarrow> trends_data" where
  "build_api_key_trends buckets since until bucket_seconds =
     (if until \<le> since then \<lparr> td_cost = [], td_tokens = [] \<rparr>
      else
        let grid = time_grid since until bucket_seconds
        in \<lparr> td_cost = map (\<lambda>e. \<lparr> tp_t = e, tp_v = py_round 6 (bucket_value tb_total_cost_usd buckets e) \<rparr>) grid,
             td_tokens = map (\<lambda>e. \<lparr> tp_t = e, tp_v = of_int (bucket_value tb_total_tokens buckets e) \<rparr>) grid \<rparr>)"

definition SPARKLINE_DAYS :: int where "SPARKLINE_DAYS = 7"
definition DETAIL_BUCKET_SECONDS :: int where "DETAIL_BUCKET_SECONDS = 3600"

definition days :: "int \<Rightarrow> datetime" where
  "days n = n * 86400 * 1000000"

definition get_key_trends :: "datetime \<Rightarrow> string \<Rightarrow> request_log list \<Rightarrow> key_db \<Rightarrow> trends_data option" where
  "get_key_trends now key_id logs db =
     (case key_by_id key_id db of
        None \<Rightarrow> None
      | Some _ \<Rightarrow>
          (let since = now - days SPARKLINE_DAYS
           in Some (build_api_key_trends (trends_by_key key_id since now DETAIL_BUCKET_SECONDS logs) since now
                      DETAIL_BUCKET_SECONDS)))"

definition get_key_usage_7d :: "datetime \<Rightarrow> string \<Rightarrow> request_log list \<Rightarrow> key_db \<Rightarrow> usage_totals option" where
  "get_key_usage_7d now key_id logs db =
     (case key_by_id key_id db of
        None \<Rightarrow> None
      | Some _ \<Rightarrow> Some (usage_7d key_id (now - days 7) now logs))"

section \<open>The self-service report\<close>

record self_limit_data =
  sl_limit_type :: string
  sl_limit_window :: string
  sl_max_value :: int
  sl_current_value :: int
  sl_remaining_value :: int
  sl_model_filter :: "string option"
  sl_reset_at :: datetime

definition to_self_limit_data :: "api_key_limit \<Rightarrow> self_limit_data" where
  "to_self_limit_data l =
     (let current = max 0 (min (kl_current_value l) (kl_max_value l))
      in \<lparr> sl_limit_type = limit_type_value (kl_limit_type l), sl_limit_window = limit_window_value (kl_limit_window l),
           sl_max_value = kl_max_value l, sl_current_value = current,
           sl_remaining_value = max 0 (kl_max_value l - current),
           sl_model_filter = kl_model_filter l, sl_reset_at = kl_reset_at l \<rparr>)"

definition get_key_usage_summary_for_self ::
  "datetime \<Rightarrow> string \<Rightarrow> request_log list \<Rightarrow> key_db \<Rightarrow> (usage_totals \<times> self_limit_data list) option \<times> key_db"
where
  "get_key_usage_summary_for_self now key_id logs db =
     (case key_by_id key_id db of
        None \<Rightarrow> (None, db)
      | Some _ \<Rightarrow>
          (let (db1, limits_reset) = lazy_reset_expired_limits now (get_limits_by_key key_id db) db
           in if limits_reset \<and> key_by_id key_id db1 = None then (None, db1)
              else (Some (get_usage_summary_by_key_id key_id logs,
                          map to_self_limit_data (get_limits_by_key key_id db1)), db1)))"

section \<open>The periodic sweep\<close>

definition STALE_USAGE_RESERVATION_AGE :: datetime where
  "STALE_USAGE_RESERVATION_AGE = 6 * 3600 * 1000000"

text \<open>\<open>leader\<close> is the answer of the leader election; \<open>sql_now\<close> is the database's clock.\<close>

definition reset_once :: "bool \<Rightarrow> datetime \<Rightarrow> datetime \<Rightarrow> key_db \<Rightarrow> key_db" where
  "reset_once leader now sql_now db =
     (if \<not> leader then db
      else
        fst (release_stale_usage_reservations sql_now (now - STALE_USAGE_RESERVATION_AGE)
               STALE_USAGE_RESERVATION_RELEASE_BATCH_SIZE (fst (reset_expired_limits now (db, 0)), 0)))"

section \<open>The trend accounts for everything\<close>

lemma bucket_mono: "0 < b \<Longrightarrow> t \<le> u \<Longrightarrow> bucket_of b t \<le> bucket_of b u"
  by (simp add: bucket_of_def epoch_seconds_def zdiv_mono1 mult_right_mono)

lemma bucket_in_grid:
  assumes "0 < b" "since \<le> t" "t < until"
  shows "bucket_of b t \<in> set (time_grid since until b)"
proof -
  let ?q = "\<lambda>x. epoch_seconds x div b"
  have le: "?q since \<le> ?q t" "?q t \<le> ?q (until - 1)"
    using assms by (simp_all add: epoch_seconds_def zdiv_mono1)
  define i where "i = nat (?q t - ?q since)"
  have "bucket_of b t = bucket_of b since + int i * b"
    using le(1) by (simp add: bucket_of_def i_def algebra_simps)
  moreover have "(bucket_of b (until - 1) - bucket_of b since) div b + 1 = ?q (until - 1) - ?q since + 1"
    using assms(1) by (simp add: bucket_of_def flip: left_diff_distrib)
  then have "i < nat ((bucket_of b (until - 1) - bucket_of b since) div b + 1)"
    using le by (simp add: i_def)
  ultimately show ?thesis by (auto simp: time_grid_def Let_def)
qed

lemma grid_distinct: "0 < b \<Longrightarrow> distinct (time_grid since until b)"
  by (simp add: time_grid_def Let_def distinct_map inj_on_def)

lemma log_tokens_simps:
  "log_tokens [] = 0"
  "log_tokens (r # rs) = log_tokens [r] + log_tokens rs"
  by (simp_all add: log_tokens_def sum_column_def)

lemma bucket_tokens:
  "bucket_value tb_total_tokens (trends_by_key k since until b logs) e =
     log_tokens (filter (\<lambda>r. bucket_of b (rl_requested_at r) = e) (logs_between k since until logs))"
proof -
  let ?rows = "logs_between k since until logs" and ?bucket = "\<lambda>r. bucket_of b (rl_requested_at r)"
  let ?mk = "\<lambda>e. let group = filter (\<lambda>r. ?bucket r = e) ?rows
                  in \<lparr> tb_bucket_epoch = e, tb_total_tokens = log_tokens group,
                       tb_total_cost_usd = py_round 6 (sum_column rl_cost_usd group) \<rparr>"
  have "find (\<lambda>x. tb_bucket_epoch x = e) (map ?mk es) = (if e \<in> set es then Some (?mk e) else None)" for es
    by (induction es) (auto simp: Let_def)
  then have "find (\<lambda>x. tb_bucket_epoch x = e) (rev (trends_by_key k since until b logs)) =
      (if e \<in> ?bucket ` set ?rows then Some (?mk e) else None)"
    by (simp add: trends_by_key_def Let_def rev_map)
  moreover have "filter (\<lambda>r. ?bucket r = e) ?rows = []" if "e \<notin> ?bucket ` set ?rows"
    using that by (auto simp: filter_empty_conv)
  ultimately show ?thesis by (simp add: bucket_value_def Let_def log_tokens_simps(1))
qed

lemma sum_over_buckets:
  assumes "distinct es" "\<forall>r \<in> set rows. bucket r \<in> set es"
  shows "sum_list (map (\<lambda>e. log_tokens (filter (\<lambda>r. bucket r = e) rows)) es) = log_tokens rows"
  using assms(2)
proof (induction rows)
  case (Cons r rows)
  have "sum_list (map (\<lambda>e. log_tokens (filter (\<lambda>r. bucket r = e) (r # rows))) es) =
      sum_list (map (\<lambda>e. (if e = bucket r then log_tokens [r] else 0) + log_tokens (filter (\<lambda>r. bucket r = e) rows)) es)"
    by (intro arg_cong [where f = sum_list] map_cong refl) (simp add: log_tokens_simps(2) [of r "filter _ _"])
  also have "\<dots> = sum_list (map (\<lambda>e. if e = bucket r then log_tokens [r] else 0) es) + log_tokens rows"
    using Cons by (simp add: sum_list_addf)
  also have "sum_list (map (\<lambda>e. if e = bucket r then log_tokens [r] else 0) es) = log_tokens [r]"
    using assms(1) Cons.prems by (simp add: sum_list_distinct_conv_sum_set sum.delta)
  finally show ?case using log_tokens_simps(2) [of r rows] by simp
qed (simp add: sum_list_0 log_tokens_simps(1))

text \<open>C36: The trend of a key accounts for all its usage. For every window and bucket width, the points of
  the trend that is built from the database's buckets lie at the bucket starts from the window's first
  to its last, and their token values add up to the tokens of all the requests in the window.\<close>

theorem trends_account_for_usage:
  fixes key_id logs
  assumes "0 < bucket_seconds" "since < until"
  defines "trend \<equiv> build_api_key_trends (trends_by_key key_id since until bucket_seconds logs) since until bucket_seconds"
  shows "map tp_t (td_tokens trend) = time_grid since until bucket_seconds \<and>
         sum_list (map tp_v (td_tokens trend)) = of_int (to_total_tokens (usage_7d key_id since until logs))"
proof -
  let ?rows = "logs_between key_id since until logs" and ?es = "time_grid since until bucket_seconds"
  have "\<forall>r \<in> set ?rows. bucket_of bucket_seconds (rl_requested_at r) \<in> set ?es"
    using bucket_in_grid [OF assms(1)] by (auto simp: logs_between_def)
  from sum_over_buckets [OF grid_distinct [OF assms(1)] this]
  have "sum_list (map (bucket_value tb_total_tokens (trends_by_key key_id since until bucket_seconds logs)) ?es) =
      log_tokens ?rows"
    by (simp add: bucket_tokens [abs_def])
  moreover have "sum_list (map (\<lambda>e. of_int (f e)) es) = (of_int (sum_list (map f es)) :: rat)" for f :: "int \<Rightarrow> int" and es
    by (induction es) simp_all
  ultimately show ?thesis
    using assms(2) by (simp add: trend_def build_api_key_trends_def Let_def comp_def usage_7d_def totals_of_def
        log_tokens_def)
qed

definition sample_log :: "datetime \<Rightarrow> int \<Rightarrow> request_log" where
  "sample_log t n =
     \<lparr> rl_id = 1, rl_account_id = None, rl_api_key_id = Some ''k'', rl_session_id = None, rl_request_id = ''q'',
       rl_requested_at = t, rl_deleted_at = None, rl_model = ''gpt-5'', rl_plan_type = None, rl_transport = None,
       rl_service_tier = None, rl_requested_service_tier = None, rl_actual_service_tier = None,
       rl_input_tokens = Some n, rl_output_tokens = None, rl_cached_input_tokens = None,
       rl_reasoning_tokens = Some 1, rl_cost_usd = None, rl_reasoning_effort = None, rl_latency_ms = None,
       rl_latency_first_token_ms = None, rl_status = ''success'', rl_error_code = None, rl_error_message = None \<rparr>"

theorem trends_account_for_usage_witness:
  "sum_list (map tp_v (td_tokens (build_api_key_trends
       (trends_by_key ''k'' 1000000 9000000 2 [sample_log 1000000 5, sample_log 7000000 6]) 1000000 9000000 2))) = 13"
proof -
  have "to_total_tokens (usage_7d ''k'' 1000000 9000000 [sample_log 1000000 5, sample_log 7000000 6]) = 13"
    by (simp add: usage_7d_def totals_of_def logs_between_def sample_log_def sum_column_def log_output_tokens_def Let_def)
  with trends_account_for_usage [of 2 1000000 9000000 "''k''" "[sample_log 1000000 5, sample_log 7000000 6]"]
  show ?thesis by simp
qed

end
