(* ===== verification/Leader.thy ===== *)
theory Leader
  imports Db_Models
begin

text \<open>
  The election of the instance that runs the periodic jobs, \<open>app/core/scheduling/leader_election.py\<close>:
  a lease in a table of one row, taken by an upsert that only replaces an expired lease or the
  instance's own. The clock is an argument; \<open>fails\<close> says that the database raised.
\<close>

section \<open>The election\<close>

record leader_row =
  lr_leader_id :: string
  lr_acquired_at :: datetime
  lr_expires_at :: datetime

record election =
  le_leader_id :: string
  le_is_leader :: bool

record election_settings =
  es_leader_election_enabled :: bool
  es_database_url :: string
  es_leader_election_ttl_seconds :: int

definition elects :: "election_settings \<Rightarrow> bool" where
  "elects s \<longleftrightarrow> es_leader_election_enabled s \<and> \<not> py_in ''sqlite'' (py_lower (es_database_url s))"

definition upsert_leader :: "string \<Rightarrow> datetime \<Rightarrow> datetime \<Rightarrow> leader_row option \<Rightarrow> leader_row option" where
  "upsert_leader leader_id now expires_at row =
     (let new = \<lparr> lr_leader_id = leader_id, lr_acquired_at = now, lr_expires_at = expires_at \<rparr>
      in case row of
           None \<Rightarrow> Some new
         | Some r \<Rightarrow> if lr_expires_at r < now \<or> lr_leader_id r = leader_id then Some new else Some r)"

definition ttl_of :: "election_settings \<Rightarrow> datetime" where
  "ttl_of s = es_leader_election_ttl_seconds s * 1000000"

definition try_acquire_lease ::
  "election_settings \<Rightarrow> bool \<Rightarrow> datetime \<Rightarrow> election \<Rightarrow> leader_row option \<Rightarrow> bool \<times> election \<times> leader_row option"
where
  "try_acquire_lease s fails now e row =
     (if \<not> elects s then (True, e\<lparr> le_is_leader := True \<rparr>, row)
      else if fails then (False, e\<lparr> le_is_leader := False \<rparr>, row)
      else
        let row' = upsert_leader (le_leader_id e) now (now + ttl_of s) row;
            won = map_option lr_leader_id row' = Some (le_leader_id e)
        in (won, e\<lparr> le_is_leader := won \<rparr>, row'))"

definition renew_lease ::
  "election_settings \<Rightarrow> bool \<Rightarrow> datetime \<Rightarrow> election \<Rightarrow> leader_row option \<Rightarrow> bool \<times> leader_row option"
where
  "renew_lease s fails now e row =
     (if \<not> le_is_leader e then (False, row)
      else if \<not> elects s then (True, row)
      else if fails then (False, row)
      else (True, map_option (\<lambda>r. if lr_leader_id r = le_leader_id e
                                  then r\<lparr> lr_expires_at := now + ttl_of s \<rparr> else r) row))"

section \<open>One leader at a time\<close>

datatype leader_event = Acquire election datetime | Renew election datetime

fun event_time :: "leader_event \<Rightarrow> datetime" where
  "event_time (Acquire e t) = t"
| "event_time (Renew e t) = t"

fun apply_event :: "election_settings \<Rightarrow> leader_event \<Rightarrow> leader_row option \<Rightarrow> leader_row option" where
  "apply_event s (Acquire e t) row = snd (snd (try_acquire_lease s False t e row))"
| "apply_event s (Renew e t) row = snd (renew_lease s False t e row)"

definition leased :: "string \<Rightarrow> datetime \<Rightarrow> leader_row option \<Rightarrow> bool" where
  "leased i until row \<longleftrightarrow> (case row of Some r \<Rightarrow> lr_leader_id r = i \<and> until \<le> lr_expires_at r | None \<Rightarrow> False)"

lemma acquired_leased:
  assumes "elects s" "fst (try_acquire_lease s False t e row)"
  shows "leased (le_leader_id e) (t + ttl_of s) (snd (snd (try_acquire_lease s False t e row)))"
  using assms
  by (auto simp: try_acquire_lease_def Let_def upsert_leader_def leased_def split: option.splits if_splits)

lemma leased_event:
  assumes "elects s" "leased i (t + ttl_of s) row" "t \<le> event_time ev" "event_time ev \<le> t + ttl_of s"
  shows "leased i (t + ttl_of s) (apply_event s ev row)"
  using assms
  by (cases ev)
    (auto simp: leased_def try_acquire_lease_def renew_lease_def Let_def upsert_leader_def split: option.splits if_splits)

lemma leased_run:
  "elects s \<Longrightarrow> leased i (t + ttl_of s) row \<Longrightarrow>
   \<forall>ev \<in> set evs. t \<le> event_time ev \<and> event_time ev \<le> t + ttl_of s \<Longrightarrow>
   leased i (t + ttl_of s) (fold (apply_event s) evs row)"
  by (induction evs arbitrary: row) (simp_all add: leased_event)

lemma leased_refuses:
  assumes "elects s" "leased i until row" "le_leader_id e \<noteq> i" "now \<le> until"
  shows "\<not> fst (try_acquire_lease s fails now e row)"
  using assms
  by (auto simp: leased_def try_acquire_lease_def Let_def upsert_leader_def split: option.splits if_splits)

text \<open>C24: There is one leader at a time. When an instance has acquired the leadership, no other instance
  acquires it within the time to live that follows, whatever acquisitions and renewals by any instances
  come in between, in any order within that time.\<close>

theorem one_leader_at_a_time:
  assumes "elects s" "fst (try_acquire_lease s False t e row)"
    and "list_all (\<lambda>ev. t \<le> event_time ev \<and> event_time ev \<le> t + ttl_of s) evs"
    and "now \<le> t + ttl_of s" "le_leader_id e' \<noteq> le_leader_id e"
  shows "\<not> fst (try_acquire_lease s fails now e'
           (fold (apply_event s) evs (snd (snd (try_acquire_lease s False t e row)))))"
proof (rule leased_refuses [OF assms(1) _ assms(5,4)])
  show "leased (le_leader_id e) (t + ttl_of s)
      (fold (apply_event s) evs (snd (snd (try_acquire_lease s False t e row))))"
    using leased_run [OF assms(1) acquired_leased [OF assms(1,2)]] assms(3) by (simp add: list_all_iff)
qed

definition sample_election :: election_settings where
  "sample_election =
     \<lparr> es_leader_election_enabled = True, es_database_url = ''postgresql+asyncpg://db/lb'',
       es_leader_election_ttl_seconds = 30 \<rparr>"

theorem one_leader_at_a_time_witness:
  "\<not> fst (try_acquire_lease sample_election False 20000000 \<lparr> le_leader_id = ''b'', le_is_leader = False \<rparr>
      (fold (apply_event sample_election)
         [Acquire \<lparr> le_leader_id = ''b'', le_is_leader = False \<rparr> 9000000,
          Renew \<lparr> le_leader_id = ''a'', le_is_leader = True \<rparr> 12000000]
         (snd (snd (try_acquire_lease sample_election False 0 \<lparr> le_leader_id = ''a'', le_is_leader = False \<rparr> None)))))"
proof (rule one_leader_at_a_time)
  show "elects sample_election" by code_simp
qed (simp_all add: try_acquire_lease_def upsert_leader_def ttl_of_def sample_election_def Let_def)

text \<open>Renewing does not look at whether the lease was still there: it reports success after the lease was
  lost.\<close>

lemma renew_after_loss:
  "renew_lease sample_election False 50000000 \<lparr> le_leader_id = ''a'', le_is_leader = True \<rparr>
     (Some \<lparr> lr_leader_id = ''b'', lr_acquired_at = 40000000, lr_expires_at = 70000000 \<rparr>) =
   (True, Some \<lparr> lr_leader_id = ''b'', lr_acquired_at = 40000000, lr_expires_at = 70000000 \<rparr>)"
  by code_simp

end
