(* ===== verification/Bridge.thy ===== *)
theory Bridge
  imports Db_Models
begin

text \<open>
  Bridged sessions that outlive one instance: \<open>app/modules/proxy/durable_bridge_repository.py\<close> (who owns
  a session, in which epoch, until when), \<open>durable_bridge_coordinator.py\<close> on top of it, and the ring of
  live instances, \<open>ring_membership.py\<close>. Rows are locked while they are claimed, so each operation is
  atomic; the hash function, new ids and the clock are arguments.
\<close>

section \<open>Rows\<close>

datatype bridge_state = BR_ACTIVE | BR_DRAINING | BR_CLOSED

record bridge_session =
  br_id :: string
  br_session_key_kind :: string
  br_session_key_value :: string
  br_session_key_hash :: string
  br_api_key_scope :: string
  br_owner_instance_id :: "string option"
  br_owner_epoch :: int
  br_lease_expires_at :: "datetime option"
  br_state :: bridge_state
  br_account_id :: "string option"
  br_model :: "string option"
  br_service_tier :: "string option"
  br_latest_turn_state :: "string option"
  br_latest_response_id :: "string option"
  br_latest_input_item_count :: "int option"
  br_latest_input_full_fingerprint :: "string option"
  br_updated_at :: datetime
  br_last_seen_at :: datetime
  br_closed_at :: "datetime option"

record bridge_alias =
  ba_session_id :: string
  ba_alias_kind :: string
  ba_alias_value :: string
  ba_alias_hash :: string
  ba_api_key_scope :: string

record bridge_db =
  bd_sessions :: "bridge_session list"
  bd_aliases :: "bridge_alias list"

section \<open>Lookups\<close>

definition durable_bridge_api_key_scope :: "string option \<Rightarrow> string" where
  "durable_bridge_api_key_scope api_key_id =
     (case api_key_id of
        None \<Rightarrow> ''__anonymous__''
      | Some k \<Rightarrow> if py_strip k = [] then ''__anonymous__'' else py_strip k)"

definition has_session_key :: "(string \<Rightarrow> string) \<Rightarrow> string \<Rightarrow> string \<Rightarrow> string \<Rightarrow> bridge_session \<Rightarrow> bool" where
  "has_session_key hash kind v scope r \<longleftrightarrow>
     br_session_key_kind r = kind \<and> br_session_key_hash r = hash v \<and> br_api_key_scope r = scope"

definition get_session :: "(string \<Rightarrow> string) \<Rightarrow> string \<Rightarrow> string \<Rightarrow> string \<Rightarrow> bridge_db \<Rightarrow> bridge_session option" where
  "get_session hash kind v scope db = find (has_session_key hash kind v scope) (bd_sessions db)"

definition get_session_by_id :: "string \<Rightarrow> bridge_db \<Rightarrow> bridge_session option" where
  "get_session_by_id session_id db = find (\<lambda>r. br_id r = session_id) (bd_sessions db)"

definition is_alias :: "(string \<Rightarrow> string) \<Rightarrow> string \<Rightarrow> string \<Rightarrow> string \<Rightarrow> bridge_alias \<Rightarrow> bool" where
  "is_alias hash kind v scope a \<longleftrightarrow>
     ba_alias_kind a = kind \<and> ba_alias_hash a = hash v \<and> ba_api_key_scope a = scope"

text \<open>The join: the first alias of that name whose session exists.\<close>

definition resolve_alias ::
  "(string \<Rightarrow> string) \<Rightarrow> string \<Rightarrow> string \<Rightarrow> string \<Rightarrow> bridge_db \<Rightarrow> bridge_session option"
where
  "resolve_alias hash kind v scope db =
     (case List.map_filter (\<lambda>a. get_session_by_id (ba_session_id a) db) (filter (is_alias hash kind v scope) (bd_aliases db)) of
        [] \<Rightarrow> None
      | r # _ \<Rightarrow> Some r)"

definition live :: "bridge_session \<Rightarrow> bool" where
  "live r \<longleftrightarrow> br_state r = BR_ACTIVE \<or> br_state r = BR_DRAINING"

definition recency :: "bridge_session \<Rightarrow> nat \<times> int \<times> int" where
  "recency r = (if br_state r = BR_ACTIVE then 0 else 1, - br_last_seen_at r, - br_updated_at r)"

definition find_session_by_latest_turn_state :: "string \<Rightarrow> string \<Rightarrow> bridge_db \<Rightarrow> bridge_session option" where
  "find_session_by_latest_turn_state turn_state scope db =
     min_by recency (filter (\<lambda>r. br_latest_turn_state r = Some turn_state \<and> br_api_key_scope r = scope \<and> live r)
                       (bd_sessions db))"

definition find_session_by_latest_response_id :: "string \<Rightarrow> string \<Rightarrow> bridge_db \<Rightarrow> bridge_session option" where
  "find_session_by_latest_response_id response_id scope db =
     min_by recency (filter (\<lambda>r. br_latest_response_id r = Some response_id \<and> br_api_key_scope r = scope \<and> live r)
                       (bd_sessions db))"

section \<open>Claiming\<close>

record claim_request =
  cr_session_key_kind :: string
  cr_session_key_value :: string
  cr_api_key_scope :: string
  cr_instance_id :: string
  cr_lease_ttl_seconds :: seconds
  cr_account_id :: "string option"
  cr_model :: "string option"
  cr_service_tier :: "string option"
  cr_latest_turn_state :: "string option"
  cr_latest_response_id :: "string option"
  cr_allow_takeover :: bool

definition lease_until :: "datetime \<Rightarrow> seconds \<Rightarrow> datetime" where
  "lease_until now ttl = now + round_half_even (max 1 ttl * 1000000)"

definition new_session :: "(string \<Rightarrow> string) \<Rightarrow> datetime \<Rightarrow> string \<Rightarrow> claim_request \<Rightarrow> bridge_session" where
  "new_session hash now new_id q =
     \<lparr> br_id = new_id, br_session_key_kind = cr_session_key_kind q, br_session_key_value = cr_session_key_value q,
       br_session_key_hash = hash (cr_session_key_value q), br_api_key_scope = cr_api_key_scope q,
       br_owner_instance_id = Some (cr_instance_id q), br_owner_epoch = 1,
       br_lease_expires_at = Some (lease_until now (cr_lease_ttl_seconds q)), br_state = BR_ACTIVE,
       br_account_id = cr_account_id q, br_model = cr_model q, br_service_tier = cr_service_tier q,
       br_latest_turn_state = cr_latest_turn_state q, br_latest_response_id = cr_latest_response_id q,
       br_latest_input_item_count = None, br_latest_input_full_fingerprint = None,
       br_updated_at = now, br_last_seen_at = now, br_closed_at = None \<rparr>"

definition owner_changed :: "claim_request \<Rightarrow> bridge_session \<Rightarrow> bool" where
  "owner_changed q r \<longleftrightarrow> br_owner_instance_id r \<noteq> Some (cr_instance_id q)"

definition claim_refused :: "datetime \<Rightarrow> claim_request \<Rightarrow> bridge_session \<Rightarrow> bool" where
  "claim_refused now q r \<longleftrightarrow>
     owner_changed q r \<and> \<not> cr_allow_takeover q \<and>
     \<not> (case br_lease_expires_at r of None \<Rightarrow> True | Some t \<Rightarrow> t \<le> now) \<and>
     \<not> (br_state r = BR_DRAINING \<or> br_state r = BR_CLOSED)"

definition forget_input :: "bridge_session \<Rightarrow> bridge_session" where
  "forget_input r = r\<lparr> br_latest_input_item_count := None, br_latest_input_full_fingerprint := None \<rparr>"

definition claimed_progress :: "claim_request \<Rightarrow> bridge_session \<Rightarrow> bridge_session" where
  "claimed_progress q r =
     (let account_changed = br_account_id r \<noteq> cr_account_id q;
          turn = cr_latest_turn_state q; response = cr_latest_response_id q;
          reopened = owner_changed q r \<and> br_state r = BR_CLOSED
      in if account_changed
         then forget_input (r\<lparr> br_latest_turn_state := turn, br_latest_response_id := response \<rparr>)
         else
           let r1 = (if turn \<noteq> None \<or> reopened then r\<lparr> br_latest_turn_state := turn \<rparr> else r)
           in if response \<noteq> None \<or> reopened
              then forget_input (r1\<lparr> br_latest_response_id := response \<rparr>) else r1)"

definition claimed_row :: "datetime \<Rightarrow> claim_request \<Rightarrow> bridge_session \<Rightarrow> bridge_session" where
  "claimed_row now q r =
     (claimed_progress q r)
       \<lparr> br_owner_instance_id := Some (cr_instance_id q),
         br_owner_epoch := (if owner_changed q r then br_owner_epoch r + 1 else br_owner_epoch r),
         br_lease_expires_at := Some (lease_until now (cr_lease_ttl_seconds q)),
         br_state := BR_ACTIVE, br_account_id := cr_account_id q, br_model := cr_model q,
         br_service_tier := cr_service_tier q, br_updated_at := now, br_last_seen_at := now,
         br_closed_at := None \<rparr>"

definition replace_row :: "bridge_session \<Rightarrow> bridge_db \<Rightarrow> bridge_db" where
  "replace_row r' db = db\<lparr> bd_sessions := map (\<lambda>r. if br_id r = br_id r' then r' else r) (bd_sessions db) \<rparr>"

definition clear_aliases_for_session :: "string \<Rightarrow> bridge_db \<Rightarrow> bridge_db" where
  "clear_aliases_for_session session_id db =
     db\<lparr> bd_aliases := filter (\<lambda>a. ba_session_id a \<noteq> session_id) (bd_aliases db) \<rparr>"

definition claim_existing :: "datetime \<Rightarrow> claim_request \<Rightarrow> bridge_session \<Rightarrow> bridge_db \<Rightarrow> bridge_session \<times> bridge_db" where
  "claim_existing now q r db =
     (if claim_refused now q r then (r, db)
      else
        let db1 = (if br_account_id r \<noteq> cr_account_id q then clear_aliases_for_session (br_id r) db else db)
        in (claimed_row now q r, replace_row (claimed_row now q r) db1))"

text \<open>
  Two attempts. Between reading the table and committing an insertion other writers may have changed
  the tables to \<open>between n db\<close>; if the key is there by then the insertion raises, and the second time
  the error is passed on.
\<close>

fun claim_attempts ::
  "(string \<Rightarrow> string) \<Rightarrow> (nat \<Rightarrow> datetime) \<Rightarrow> (nat \<Rightarrow> bridge_db \<Rightarrow> bridge_db) \<Rightarrow> string \<Rightarrow> claim_request \<Rightarrow> nat \<Rightarrow> nat \<Rightarrow>
   bridge_db \<Rightarrow> bridge_session option \<times> bridge_db"
where
  "claim_attempts hash clock between new_id q attempt 0 db = (None, db)"
| "claim_attempts hash clock between new_id q attempt (Suc left) db =
     (let now = clock attempt
      in case get_session hash (cr_session_key_kind q) (cr_session_key_value q) (cr_api_key_scope q) db of
           Some r \<Rightarrow> (case claim_existing now q r db of (r', db') \<Rightarrow> (Some r', db'))
         | None \<Rightarrow>
             (let db1 = between attempt db
              in if get_session hash (cr_session_key_kind q) (cr_session_key_value q) (cr_api_key_scope q) db1 \<noteq> None
                 then claim_attempts hash clock between new_id q (Suc attempt) left db1
                 else (Some (new_session hash now new_id q),
                       db1\<lparr> bd_sessions := bd_sessions db1 @ [new_session hash now new_id q] \<rparr>)))"

definition claim_session ::
  "(string \<Rightarrow> string) \<Rightarrow> (nat \<Rightarrow> datetime) \<Rightarrow> (nat \<Rightarrow> bridge_db \<Rightarrow> bridge_db) \<Rightarrow> string \<Rightarrow> claim_request \<Rightarrow> bridge_db \<Rightarrow>
   bridge_session option \<times> bridge_db"
where
  "claim_session hash clock between new_id q db = claim_attempts hash clock between new_id q 0 2 db"

section \<open>Owners\<close>

definition owned_by :: "string \<Rightarrow> int \<Rightarrow> bridge_session \<Rightarrow> bool" where
  "owned_by instance_id owner_epoch r \<longleftrightarrow>
     br_owner_instance_id r = Some instance_id \<and> br_owner_epoch r = owner_epoch"

record renewal =
  rn_lease_ttl_seconds :: seconds
  rn_latest_turn_state :: "string option"
  rn_latest_response_id :: "string option"
  rn_latest_input_item_count :: "int option"
  rn_latest_input_full_fingerprint :: "string option"
  rn_state :: "bridge_state option"

definition renewed_row :: "datetime \<Rightarrow> renewal \<Rightarrow> bridge_session \<Rightarrow> bridge_session" where
  "renewed_row now n r =
     (let input_known = rn_latest_input_item_count n \<noteq> None \<and> rn_latest_input_full_fingerprint n \<noteq> None;
          r1 = r\<lparr> br_lease_expires_at := Some (lease_until now (rn_lease_ttl_seconds n)), br_last_seen_at := now,
                  br_updated_at := now \<rparr>;
          r2 = (if rn_latest_turn_state n \<noteq> None then r1\<lparr> br_latest_turn_state := rn_latest_turn_state n \<rparr> else r1);
          r3 = (if rn_latest_response_id n \<noteq> None
                then (let r' = r2\<lparr> br_latest_response_id := rn_latest_response_id n \<rparr>
                      in if input_known then r' else forget_input r')
                else r2);
          r4 = (if input_known
                then r3\<lparr> br_latest_input_item_count := rn_latest_input_item_count n,
                         br_latest_input_full_fingerprint := rn_latest_input_full_fingerprint n \<rparr>
                else r3)
      in (case rn_state n of Some st \<Rightarrow> r4\<lparr> br_state := st \<rparr> | None \<Rightarrow> r4))"

definition renew_session ::
  "datetime \<Rightarrow> string \<Rightarrow> string \<Rightarrow> int \<Rightarrow> renewal \<Rightarrow> bridge_db \<Rightarrow> bridge_session option \<times> bridge_db"
where
  "renew_session now session_id instance_id owner_epoch n db =
     (case get_session_by_id session_id db of
        None \<Rightarrow> (None, db)
      | Some r \<Rightarrow>
          if \<not> owned_by instance_id owner_epoch r then (Some r, db)
          else (Some (renewed_row now n r), replace_row (renewed_row now n r) db))"

definition released_row :: "datetime \<Rightarrow> bool \<Rightarrow> bridge_session \<Rightarrow> bridge_session" where
  "released_row now draining r =
     r\<lparr> br_owner_instance_id := None, br_lease_expires_at := Some now, br_last_seen_at := now,
        br_updated_at := now, br_state := (if draining then BR_DRAINING else BR_CLOSED),
        br_closed_at := (if draining then None else Some now) \<rparr>"

definition release_session ::
  "datetime \<Rightarrow> string \<Rightarrow> string \<Rightarrow> int \<Rightarrow> bool \<Rightarrow> bridge_db \<Rightarrow> bridge_session option \<times> bridge_db"
where
  "release_session now session_id instance_id owner_epoch draining db =
     (case get_session_by_id session_id db of
        None \<Rightarrow> (None, db)
      | Some r \<Rightarrow>
          if \<not> owned_by instance_id owner_epoch r then (Some r, db)
          else (Some (released_row now draining r), replace_row (released_row now draining r) db))"

definition mark_owner_draining :: "datetime \<Rightarrow> string \<Rightarrow> bridge_db \<Rightarrow> nat \<times> bridge_db" where
  "mark_owner_draining now instance_id db =
     (let hit = (\<lambda>r. br_owner_instance_id r = Some instance_id \<and> br_state r = BR_ACTIVE)
      in (length (filter hit (bd_sessions db)),
          db\<lparr> bd_sessions := map (\<lambda>r. if hit r then r\<lparr> br_state := BR_DRAINING, br_last_seen_at := now,
                                                         br_updated_at := now \<rparr> else r) (bd_sessions db) \<rparr>))"

definition upsert_alias :: "(string \<Rightarrow> string) \<Rightarrow> string \<Rightarrow> string \<Rightarrow> string \<Rightarrow> string \<Rightarrow> bridge_db \<Rightarrow> bridge_db" where
  "upsert_alias hash session_id kind v scope db =
     db\<lparr> bd_aliases :=
           (if list_ex (is_alias hash kind v scope) (bd_aliases db)
            then map (\<lambda>a. if is_alias hash kind v scope a
                          then a\<lparr> ba_session_id := session_id, ba_alias_value := v \<rparr> else a) (bd_aliases db)
            else bd_aliases db @
                   [\<lparr> ba_session_id = session_id, ba_alias_kind = kind, ba_alias_value = v, ba_alias_hash = hash v,
                      ba_api_key_scope = scope \<rparr>]) \<rparr>"

section \<open>Purging\<close>

definition purgeable :: "datetime \<Rightarrow> bridge_session \<Rightarrow> bool" where
  "purgeable cutoff r \<longleftrightarrow> br_state r = BR_CLOSED \<and> br_last_seen_at r < cutoff"

definition PURGE_CLOSED_BATCH_SIZE :: nat where "PURGE_CLOSED_BATCH_SIZE = 500"

definition purge_batch :: "datetime \<Rightarrow> nat \<Rightarrow> bridge_db \<Rightarrow> string list" where
  "purge_batch cutoff batch_size db =
     map br_id (take batch_size (sort_key br_last_seen_at (filter (purgeable cutoff) (bd_sessions db))))"

definition purge_ids :: "datetime \<Rightarrow> string list \<Rightarrow> bridge_db \<Rightarrow> bridge_db \<times> nat" where
  "purge_ids cutoff ids db =
     (let gone = (\<lambda>r. br_id r \<in> set ids \<and> purgeable cutoff r);
          gone_ids = map br_id (filter gone (bd_sessions db))
      in (db\<lparr> bd_sessions := filter (\<lambda>r. \<not> gone r) (bd_sessions db),
              bd_aliases := filter (\<lambda>a. ba_session_id a \<notin> set gone_ids) (bd_aliases db) \<rparr>,
          length gone_ids))"

lemma purge_batch_members:
  "i \<in> set (purge_batch cutoff bs db) \<Longrightarrow> \<exists>r \<in> set (bd_sessions db). br_id r = i \<and> purgeable cutoff r"
  by (auto simp: purge_batch_def dest!: in_set_takeD)

lemma purge_ids_progress:
  assumes "purge_batch cutoff bs db \<noteq> []"
  shows "length (bd_sessions (fst (purge_ids cutoff (purge_batch cutoff bs db) db))) < length (bd_sessions db)"
proof -
  obtain i where "i \<in> set (purge_batch cutoff bs db)" using assms by (cases "purge_batch cutoff bs db") auto
  then obtain r where "r \<in> set (bd_sessions db)" "br_id r \<in> set (purge_batch cutoff bs db)" "purgeable cutoff r"
    using purge_batch_members by blast
  then show ?thesis by (auto simp: purge_ids_def Let_def intro: length_filter_less)
qed

function purge_closed_before :: "datetime \<Rightarrow> nat \<Rightarrow> bridge_db \<times> nat \<Rightarrow> bridge_db \<times> nat" where
  "purge_closed_before cutoff batch_size s =
     (let ids = purge_batch cutoff batch_size (fst s)
      in if ids = [] then s
         else purge_closed_before cutoff batch_size
                (fst (purge_ids cutoff ids (fst s)), snd s + snd (purge_ids cutoff ids (fst s))))"
  by pat_completeness auto

termination
  by (relation "measure (\<lambda>(cutoff, bs, s). length (bd_sessions (fst s)))") (simp_all add: purge_ids_progress)

declare purge_closed_before.simps [simp del]

section \<open>The coordinator\<close>

definition lease_is_active :: "datetime \<Rightarrow> bridge_session \<Rightarrow> bool" where
  "lease_is_active now r \<longleftrightarrow>
     br_owner_instance_id r \<noteq> None \<and> (case br_lease_expires_at r of None \<Rightarrow> False | Some t \<Rightarrow> now < t)"

fun first_alias :: "(string \<Rightarrow> string) \<Rightarrow> string \<Rightarrow> (string \<times> string option) list \<Rightarrow> bridge_db \<Rightarrow> bridge_session option" where
  "first_alias hash scope [] db = None"
| "first_alias hash scope ((kind, v) # rest) db =
     (case v of
        None \<Rightarrow> first_alias hash scope rest db
      | Some v' \<Rightarrow>
          (case resolve_alias hash kind v' scope db of
             Some r \<Rightarrow> Some r
           | None \<Rightarrow> first_alias hash scope rest db))"

definition lookup_request_targets ::
  "(string \<Rightarrow> string) \<Rightarrow> string \<Rightarrow> string \<Rightarrow> string option \<Rightarrow> string option \<Rightarrow> string option \<Rightarrow> string option \<Rightarrow> bridge_db \<Rightarrow>
   bridge_session option"
where
  "lookup_request_targets hash kind v api_key_id turn_state session_header previous_response_id db =
     (let scope = durable_bridge_api_key_scope api_key_id
      in case first_alias hash scope
                [(''turn_state'', turn_state), (''previous_response_id'', previous_response_id),
                 (''session_header'', session_header)] db of
           Some r \<Rightarrow> Some r
         | None \<Rightarrow>
             (case get_session hash kind v scope db of
                Some r \<Rightarrow> Some r
              | None \<Rightarrow>
                  (case (case turn_state of Some t \<Rightarrow> find_session_by_latest_turn_state t scope db | None \<Rightarrow> None) of
                     Some r \<Rightarrow> Some r
                   | None \<Rightarrow>
                       (case previous_response_id of
                          Some p \<Rightarrow> find_session_by_latest_response_id p scope db
                        | None \<Rightarrow> None))))"

definition claim_live_session ::
  "(string \<Rightarrow> string) \<Rightarrow> (nat \<Rightarrow> datetime) \<Rightarrow> (nat \<Rightarrow> bridge_db \<Rightarrow> bridge_db) \<Rightarrow> string \<Rightarrow> string option \<Rightarrow> claim_request \<Rightarrow>
   bridge_db \<Rightarrow> bridge_session option \<times> bridge_db"
where
  "claim_live_session hash clock between new_id api_key_id q db =
     claim_session hash clock between new_id (q\<lparr> cr_api_key_scope := durable_bridge_api_key_scope api_key_id \<rparr>) db"

definition renew_live_session ::
  "datetime \<Rightarrow> string \<Rightarrow> string option \<Rightarrow> string \<Rightarrow> int \<Rightarrow> renewal \<Rightarrow> bridge_db \<Rightarrow> bridge_session option \<times> bridge_db"
where
  "renew_live_session now session_id api_key_id instance_id owner_epoch n db =
     renew_session now session_id instance_id owner_epoch n db"

definition release_live_session ::
  "datetime \<Rightarrow> string \<Rightarrow> string \<Rightarrow> int \<Rightarrow> bool \<Rightarrow> bridge_db \<Rightarrow> bridge_session option \<times> bridge_db"
where
  "release_live_session now session_id instance_id owner_epoch draining db =
     release_session now session_id instance_id owner_epoch draining db"

definition mark_instance_draining :: "datetime \<Rightarrow> string \<Rightarrow> bridge_db \<Rightarrow> nat \<times> bridge_db" where
  "mark_instance_draining now instance_id db = mark_owner_draining now instance_id db"

definition just_renew :: "seconds \<Rightarrow> renewal" where
  "just_renew ttl =
     \<lparr> rn_lease_ttl_seconds = ttl, rn_latest_turn_state = None, rn_latest_response_id = None,
       rn_latest_input_item_count = None, rn_latest_input_full_fingerprint = None, rn_state = None \<rparr>"

definition register_turn_state ::
  "(string \<Rightarrow> string) \<Rightarrow> datetime \<Rightarrow> string \<Rightarrow> string option \<Rightarrow> string \<Rightarrow> int \<Rightarrow> string \<Rightarrow> seconds \<Rightarrow> bridge_db \<Rightarrow> bridge_db"
where
  "register_turn_state hash now session_id api_key_id instance_id owner_epoch turn_state ttl db =
     snd (renew_session now session_id instance_id owner_epoch
            ((just_renew ttl)\<lparr> rn_latest_turn_state := Some turn_state \<rparr>)
            (upsert_alias hash session_id ''turn_state'' turn_state (durable_bridge_api_key_scope api_key_id) db))"

definition register_previous_response_id ::
  "(string \<Rightarrow> string) \<Rightarrow> datetime \<Rightarrow> string \<Rightarrow> string option \<Rightarrow> string \<Rightarrow> int \<Rightarrow> string \<Rightarrow> seconds \<Rightarrow> int option \<Rightarrow>
   string option \<Rightarrow> bridge_db \<Rightarrow> bridge_db"
where
  "register_previous_response_id hash now session_id api_key_id instance_id owner_epoch response_id ttl
     input_item_count input_full_fingerprint db =
     snd (renew_session now session_id instance_id owner_epoch
            ((just_renew ttl)\<lparr> rn_latest_response_id := Some response_id,
                               rn_latest_input_item_count := input_item_count,
                               rn_latest_input_full_fingerprint := input_full_fingerprint \<rparr>)
            (upsert_alias hash session_id ''previous_response_id'' response_id
               (durable_bridge_api_key_scope api_key_id) db))"

definition register_session_header ::
  "(string \<Rightarrow> string) \<Rightarrow> string \<Rightarrow> string option \<Rightarrow> string \<Rightarrow> bridge_db \<Rightarrow> bridge_db"
where
  "register_session_header hash session_id api_key_id session_header db =
     upsert_alias hash session_id ''session_header'' session_header (durable_bridge_api_key_scope api_key_id) db"

section \<open>The ring of instances\<close>

text \<open>The column \<open>metadata_json\<close> holds the endpoint that its JSON text denotes.\<close>

record ring_member =
  rm_instance_id :: string
  rm_registered_at :: datetime
  rm_last_heartbeat_at :: datetime
  rm_endpoint_base_url :: "string option"

definition RING_HEARTBEAT_INTERVAL_SECONDS :: int where "RING_HEARTBEAT_INTERVAL_SECONDS = 10"
definition RING_STALE_THRESHOLD_SECONDS :: int where "RING_STALE_THRESHOLD_SECONDS = 30"
definition RING_STALE_GRACE_SECONDS :: int where
  "RING_STALE_GRACE_SECONDS = RING_HEARTBEAT_INTERVAL_SECONDS + 5"

definition ring_upsert :: "(ring_member \<Rightarrow> ring_member) \<Rightarrow> ring_member \<Rightarrow> ring_member list \<Rightarrow> ring_member list" where
  "ring_upsert f new ring =
     (if list_ex (\<lambda>m. rm_instance_id m = rm_instance_id new) ring
      then map (\<lambda>m. if rm_instance_id m = rm_instance_id new then f m else m) ring
      else ring @ [new])"

definition new_member :: "datetime \<Rightarrow> string \<Rightarrow> string option \<Rightarrow> ring_member" where
  "new_member now instance_id endpoint =
     \<lparr> rm_instance_id = instance_id, rm_registered_at = now, rm_last_heartbeat_at = now,
       rm_endpoint_base_url = endpoint \<rparr>"

definition ring_register :: "datetime \<Rightarrow> string \<Rightarrow> string option \<Rightarrow> ring_member list \<Rightarrow> ring_member list" where
  "ring_register now instance_id endpoint ring =
     ring_upsert (\<lambda>m. m\<lparr> rm_last_heartbeat_at := now, rm_registered_at := now, rm_endpoint_base_url := endpoint \<rparr>)
       (new_member now instance_id endpoint) ring"

definition ring_heartbeat :: "datetime \<Rightarrow> string \<Rightarrow> string option \<Rightarrow> ring_member list \<Rightarrow> ring_member list" where
  "ring_heartbeat now instance_id endpoint ring =
     ring_upsert (\<lambda>m. m\<lparr> rm_last_heartbeat_at := now, rm_endpoint_base_url := endpoint \<rparr>)
       (new_member now instance_id endpoint) ring"

definition ring_unregister :: "string \<Rightarrow> ring_member list \<Rightarrow> ring_member list" where
  "ring_unregister instance_id ring = filter (\<lambda>m. rm_instance_id m \<noteq> instance_id) ring"

definition mark_stale :: "datetime \<Rightarrow> string \<Rightarrow> int \<Rightarrow> int \<Rightarrow> ring_member list \<Rightarrow> ring_member list" where
  "mark_stale now instance_id stale_threshold_seconds grace_seconds ring =
     (let active_for_seconds = max grace_seconds 0;
          age_seconds = max (stale_threshold_seconds - active_for_seconds) 0;
          stale_time = now - age_seconds * 1000000
      in map (\<lambda>m. if rm_instance_id m = instance_id then m\<lparr> rm_last_heartbeat_at := stale_time \<rparr> else m) ring)"

definition ring_active :: "datetime \<Rightarrow> int \<Rightarrow> ring_member \<Rightarrow> bool" where
  "ring_active now stale_threshold_seconds m \<longleftrightarrow>
     now - stale_threshold_seconds * 1000000 \<le> rm_last_heartbeat_at m"

definition list_active :: "datetime \<Rightarrow> int \<Rightarrow> bool \<Rightarrow> ring_member list \<Rightarrow> string list" where
  "list_active now stale_threshold_seconds require_endpoint ring =
     sort (map rm_instance_id
       (filter (\<lambda>m. ring_active now stale_threshold_seconds m \<and>
                    (require_endpoint \<longrightarrow> rm_endpoint_base_url m \<noteq> None)) ring))"

definition resolve_endpoint :: "datetime \<Rightarrow> string \<Rightarrow> int \<Rightarrow> ring_member list \<Rightarrow> string option" where
  "resolve_endpoint now instance_id stale_threshold_seconds ring =
     (case find (\<lambda>m. rm_instance_id m = instance_id \<and> ring_active now stale_threshold_seconds m) ring of
        None \<Rightarrow> None
      | Some m \<Rightarrow>
          (case rm_endpoint_base_url m of
             None \<Rightarrow> None
           | Some e \<Rightarrow>
               (let stripped = rstrip_by (\<lambda>c. c = CHR ''/'') (py_strip e)
                in if stripped = [] then None else Some stripped)))"

definition ring_fingerprint :: "(string \<Rightarrow> string) \<Rightarrow> datetime \<Rightarrow> int \<Rightarrow> ring_member list \<Rightarrow> string" where
  "ring_fingerprint sha256 now stale_threshold_seconds ring =
     sha256 (py_join '','' (sort (list_active now stale_threshold_seconds False ring)))"

end
