(* ===== verification/Bridge_Laws.thy ===== *)
theory Bridge_Laws
  imports Bridge
begin

text \<open>
  What the durable bridge promises: an instance that lost a session cannot touch it any more, a live
  lease protects its owner, sessions of different API keys stay apart, purging removes just what is
  closed and old, and the ring lists an instance for as long as its heartbeat counts.
\<close>

section \<open>Runs\<close>

text \<open>
  What the instances do to the tables. Ids of new sessions are new, also compared to the ids in
  \<open>retired\<close> that were used before. A name is registered for a session with the API key of the session.
\<close>

inductive bridge_step :: "(string \<Rightarrow> string) \<Rightarrow> string set \<Rightarrow> bridge_db \<Rightarrow> bridge_db \<Rightarrow> bool" for hash retired where
  claimed: "new_id \<notin> retired \<Longrightarrow> new_id \<notin> br_id ` set (bd_sessions db) \<Longrightarrow>
     bridge_step hash retired db (snd (claim_session hash clock (\<lambda>_ db. db) new_id q db))"
| renewed: "bridge_step hash retired db (snd (renew_session now sid i e n db))"
| released: "bridge_step hash retired db (snd (release_session now sid i e draining db))"
| drained: "bridge_step hash retired db (snd (mark_owner_draining now i db))"
| purged: "bridge_step hash retired db (fst (purge_closed_before cutoff bs (db, 0)))"
| turn_registered: "r \<in> set (bd_sessions db) \<Longrightarrow> br_id r = sid \<Longrightarrow>
     br_api_key_scope r = durable_bridge_api_key_scope key \<Longrightarrow>
     bridge_step hash retired db (register_turn_state hash now sid key i e turn ttl db)"
| response_registered: "r \<in> set (bd_sessions db) \<Longrightarrow> br_id r = sid \<Longrightarrow>
     br_api_key_scope r = durable_bridge_api_key_scope key \<Longrightarrow>
     bridge_step hash retired db (register_previous_response_id hash now sid key i e response ttl count fp db)"
| header_registered: "r \<in> set (bd_sessions db) \<Longrightarrow> br_id r = sid \<Longrightarrow>
     br_api_key_scope r = durable_bridge_api_key_scope key \<Longrightarrow>
     bridge_step hash retired db (register_session_header hash sid key header db)"

section \<open>Rows keep their identity\<close>

lemma claimed_row_identity [simp]:
  "br_id (claimed_row now q r) = br_id r" "br_api_key_scope (claimed_row now q r) = br_api_key_scope r"
  by (simp_all add: claimed_row_def claimed_progress_def forget_input_def Let_def)

lemma claimed_row_owner [simp]:
  "br_owner_instance_id (claimed_row now q r) = Some (cr_instance_id q)"
  "br_owner_epoch (claimed_row now q r) = (if owner_changed q r then br_owner_epoch r + 1 else br_owner_epoch r)"
  by (simp_all add: claimed_row_def)

lemma renewed_row_identity [simp]:
  "br_id (renewed_row now n r) = br_id r" "br_api_key_scope (renewed_row now n r) = br_api_key_scope r"
  "br_owner_instance_id (renewed_row now n r) = br_owner_instance_id r"
  "br_owner_epoch (renewed_row now n r) = br_owner_epoch r"
  by (simp_all add: renewed_row_def forget_input_def Let_def split: option.split)

lemma released_row_identity [simp]:
  "br_id (released_row now d r) = br_id r" "br_api_key_scope (released_row now d r) = br_api_key_scope r"
  "br_owner_epoch (released_row now d r) = br_owner_epoch r" "br_owner_instance_id (released_row now d r) = None"
  by (simp_all add: released_row_def)

lemma get_session_by_id_row: "get_session_by_id sid db = Some r \<Longrightarrow> r \<in> set (bd_sessions db) \<and> br_id r = sid"
  by (auto simp: get_session_by_id_def find_Some_iff)

lemma get_session_row:
  "get_session hash kind v scope db = Some r \<Longrightarrow> r \<in> set (bd_sessions db) \<and> br_api_key_scope r = scope"
  by (auto simp: get_session_def has_session_key_def find_Some_iff)






lemma upsert_alias_sessions [simp]: "bd_sessions (upsert_alias hash sid kind v scope db) = bd_sessions db"
  by (simp add: upsert_alias_def)

lemma clear_aliases_sessions [simp]: "bd_sessions (clear_aliases_for_session sid db) = bd_sessions db"
  by (simp add: clear_aliases_for_session_def)


lemma claim_session_cases:
  obtains (old) r where "get_session hash (cr_session_key_kind q) (cr_session_key_value q) (cr_api_key_scope q) db = Some r"
    "claim_session hash clock (\<lambda>_ db. db) new_id q db =
       (Some (fst (claim_existing (clock 0) q r db)), snd (claim_existing (clock 0) q r db))"
  | (new) "get_session hash (cr_session_key_kind q) (cr_session_key_value q) (cr_api_key_scope q) db = None"
    "claim_session hash clock (\<lambda>_ db. db) new_id q db =
       (Some (new_session hash (clock 0) new_id q),
        db\<lparr> bd_sessions := bd_sessions db @ [new_session hash (clock 0) new_id q] \<rparr>)"
proof (cases "get_session hash (cr_session_key_kind q) (cr_session_key_value q) (cr_api_key_scope q) db")
  case None
  then show ?thesis by (intro new) (simp_all add: claim_session_def numeral_2_eq_2 Let_def)
next
  case (Some r)
  then show ?thesis by (intro old) (simp_all add: claim_session_def numeral_2_eq_2 split_beta Let_def)
qed








section \<open>Fencing\<close>






definition sample_claim :: "string \<Rightarrow> bool \<Rightarrow> claim_request" where
  "sample_claim i takeover =
     \<lparr> cr_session_key_kind = ''prompt_cache'', cr_session_key_value = ''s'', cr_api_key_scope = ''key-1'',
       cr_instance_id = i, cr_lease_ttl_seconds = 60, cr_account_id = Some ''acc'', cr_model = None,
       cr_service_tier = None, cr_latest_turn_state = None, cr_latest_response_id = None,
       cr_allow_takeover = takeover \<rparr>"



section \<open>Claims\<close>

text \<open>A live lease protects its owner against claims without permission to take over.\<close>

lemma live_lease_protects:
  assumes "get_session hash (cr_session_key_kind q) (cr_session_key_value q) (cr_api_key_scope q) db = Some r"
    and "br_state r = BR_ACTIVE" "lease_is_active (clock 0) r" "br_owner_instance_id r \<noteq> Some (cr_instance_id q)"
    and "\<not> cr_allow_takeover q"
  shows "claim_session hash clock between new_id q db = (Some r, db)"
  using assms
  by (auto simp: claim_session_def numeral_2_eq_2 claim_existing_def claim_refused_def owner_changed_def
      lease_is_active_def split: option.splits)

text \<open>A claim that goes through makes the instance the owner of a live lease.\<close>

lemma claim_makes_owner:
  assumes "get_session hash (cr_session_key_kind q) (cr_session_key_value q) (cr_api_key_scope q) db = Some r"
    and "\<not> claim_refused (clock 0) q r"
  shows "\<exists>r'. fst (claim_session hash clock between new_id q db) = Some r' \<and>
    owned_by (cr_instance_id q) (if owner_changed q r then br_owner_epoch r + 1 else br_owner_epoch r) r' \<and>
    br_state r' = BR_ACTIVE \<and> lease_is_active (clock 0) r'"
proof -
  have "0 < round_half_even (max 1 (cr_lease_ttl_seconds q) * 1000000)"
  proof -
    let ?x = "max 1 (cr_lease_ttl_seconds q) * 1000000"
    have "1 \<le> ?x" by (simp add: max_def)
    with round_half_even_bounds(2) [of ?x] have "0 < (of_int (round_half_even ?x) :: rat)" by linarith
    then show ?thesis by simp
  qed
  then have "clock 0 < lease_until (clock 0) (cr_lease_ttl_seconds q)" by (simp add: lease_until_def)
  with assms show ?thesis
    by (simp add: claim_session_def numeral_2_eq_2 claim_existing_def owned_by_def lease_is_active_def Let_def)
      (simp add: claimed_row_def)
qed

section \<open>Scopes\<close>

text \<open>Names lead to existing sessions, of the API key the name was registered for.\<close>

definition aliases_ok :: "bridge_db \<Rightarrow> bool" where
  "aliases_ok db \<longleftrightarrow>
     distinct (map br_id (bd_sessions db)) \<and>
     (\<forall>a \<in> set (bd_aliases db). \<exists>r \<in> set (bd_sessions db).
        br_id r = ba_session_id a \<and> br_api_key_scope r = ba_api_key_scope a)"

text \<open>Operations that keep the rows' ids and scopes and at most drop aliases keep this.\<close>

definition identity :: "bridge_session \<Rightarrow> string \<times> string" where
  "identity r = (br_id r, br_api_key_scope r)"

lemma aliases_ok_identity:
  "aliases_ok db \<longleftrightarrow> distinct (map fst (map identity (bd_sessions db))) \<and>
     (\<forall>a \<in> set (bd_aliases db). (ba_session_id a, ba_api_key_scope a) \<in> set (map identity (bd_sessions db)))"
proof -
  have "map fst (map identity (bd_sessions db)) = map br_id (bd_sessions db)" by (simp add: identity_def)
  moreover have "(i, sc) \<in> set (map identity (bd_sessions db)) \<longleftrightarrow>
      (\<exists>r \<in> set (bd_sessions db). br_id r = i \<and> br_api_key_scope r = sc)" for i sc
    by (auto simp: identity_def)
  ultimately show ?thesis unfolding aliases_ok_def by presburger
qed

lemma aliases_ok_same:
  assumes "aliases_ok db" "map identity (bd_sessions db') = map identity (bd_sessions db)"
    and "set (bd_aliases db') \<subseteq> set (bd_aliases db)"
  shows "aliases_ok db'"
  using assms unfolding aliases_ok_identity by (metis subsetD)

lemma replace_row_identity:
  assumes "distinct (map br_id (bd_sessions db))" "r \<in> set (bd_sessions db)" "identity r' = identity r"
  shows "map identity (bd_sessions (replace_row r' db)) = map identity (bd_sessions db)"
proof -
  have id: "br_id r' = br_id r" using assms(3) by (simp add: identity_def)
  have "x = r" if "x \<in> set (bd_sessions db)" "br_id x = br_id r" for x
    using assms(1,2) that by (auto simp: distinct_map dest: inj_onD)
  then have "identity (if br_id x = br_id r' then r' else x) = identity x" if "x \<in> set (bd_sessions db)" for x
    using that assms(3) id by (cases "br_id x = br_id r'") auto
  then show ?thesis by (simp add: replace_row_def cong: map_cong)
qed

lemma replace_row_aliases [simp]: "bd_aliases (replace_row r' db) = bd_aliases db"
  by (simp add: replace_row_def)

lemma claim_existing_aliases_ok:
  assumes "aliases_ok db" "r \<in> set (bd_sessions db)"
  shows "aliases_ok (snd (claim_existing now q r db))"
proof (cases "claim_refused now q r")
  case False
  let ?db = "if br_account_id r \<noteq> cr_account_id q then clear_aliases_for_session (br_id r) db else db"
  have "bd_sessions ?db = bd_sessions db" by simp
  then have "map identity (bd_sessions (replace_row (claimed_row now q r) ?db)) = map identity (bd_sessions db)"
    using replace_row_identity [of ?db r "claimed_row now q r"] assms by (simp add: aliases_ok_def identity_def)
  moreover have "set (bd_aliases ?db) \<subseteq> set (bd_aliases db)" by (auto simp: clear_aliases_for_session_def)
  ultimately show ?thesis using False assms(1)
    by (intro aliases_ok_same [OF assms(1)]) (simp_all add: claim_existing_def Let_def)
qed (use assms in \<open>simp add: claim_existing_def\<close>)

lemma claim_session_aliases_ok:
  assumes "aliases_ok db" "new_id \<notin> br_id ` set (bd_sessions db)"
  shows "aliases_ok (snd (claim_session hash clock (\<lambda>_ db. db) new_id q db))"
proof (cases rule: claim_session_cases [of hash q db clock new_id])
  case (old r)
  then show ?thesis using claim_existing_aliases_ok [OF assms(1)] get_session_row [OF old(1)] by simp
next
  case new
  have "br_id (new_session hash (clock 0) new_id q) = new_id" by (simp add: new_session_def)
  with new assms show ?thesis by (auto simp: aliases_ok_def)
qed

lemma renew_session_aliases_ok:
  assumes "aliases_ok db"
  shows "aliases_ok (snd (renew_session now sid i e n db))"
proof (cases "get_session_by_id sid db")
  case (Some r)
  have "map identity (bd_sessions (replace_row (renewed_row now n r) db)) = map identity (bd_sessions db)"
    by (rule replace_row_identity [where r = r])
      (use assms get_session_by_id_row [OF Some] in \<open>simp_all add: aliases_ok_def identity_def\<close>)
  with Some assms show ?thesis
    by (auto simp: renew_session_def intro: aliases_ok_same [OF assms])
qed (use assms in \<open>simp add: renew_session_def\<close>)

lemma release_session_aliases_ok:
  assumes "aliases_ok db"
  shows "aliases_ok (snd (release_session now sid i e d db))"
proof (cases "get_session_by_id sid db")
  case (Some r)
  have "map identity (bd_sessions (replace_row (released_row now d r) db)) = map identity (bd_sessions db)"
    by (rule replace_row_identity [where r = r])
      (use assms get_session_by_id_row [OF Some] in \<open>simp_all add: aliases_ok_def identity_def\<close>)
  with Some assms show ?thesis
    by (auto simp: release_session_def intro: aliases_ok_same [OF assms])
qed (use assms in \<open>simp add: release_session_def\<close>)

lemma purge_ids_aliases_ok:
  assumes "aliases_ok db"
  shows "aliases_ok (fst (purge_ids cutoff ids db))"
proof -
  let ?gone = "\<lambda>r. br_id r \<in> set ids \<and> purgeable cutoff r"
  have "\<exists>r \<in> set (filter (\<lambda>r. \<not> ?gone r) (bd_sessions db)). br_id r = ba_session_id a \<and> br_api_key_scope r = ba_api_key_scope a"
    if a: "a \<in> set (bd_aliases db)" "ba_session_id a \<notin> set (map br_id (filter ?gone (bd_sessions db)))" for a
  proof -
    obtain r where r: "r \<in> set (bd_sessions db)" "br_id r = ba_session_id a" "br_api_key_scope r = ba_api_key_scope a"
      using assms a(1) by (auto simp: aliases_ok_def)
    moreover have "\<not> ?gone r" using a(2) r(1,2) by force
    ultimately show ?thesis by auto
  qed
  moreover have "distinct (map br_id (filter (\<lambda>r. \<not> ?gone r) (bd_sessions db)))"
    using assms by (simp add: aliases_ok_def distinct_map_filter)
  ultimately show ?thesis unfolding aliases_ok_def purge_ids_def Let_def by auto
qed

lemma purge_aliases_ok: "aliases_ok (fst s) \<Longrightarrow> aliases_ok (fst (purge_closed_before cutoff bs s))"
proof (induction cutoff bs s rule: purge_closed_before.induct)
  case (1 cutoff bs s)
  then show ?case by (subst purge_closed_before.simps) (simp add: Let_def purge_ids_aliases_ok)
qed

lemma upsert_alias_ok:
  assumes "aliases_ok db" "r \<in> set (bd_sessions db)" "br_id r = sid" "br_api_key_scope r = scope"
  shows "aliases_ok (upsert_alias hash sid kind v scope db)"
  using assms unfolding aliases_ok_def upsert_alias_def by (auto simp: is_alias_def)

lemma bridge_step_aliases_ok: "bridge_step hash retired db db' \<Longrightarrow> aliases_ok db \<Longrightarrow> aliases_ok db'"
proof (induction rule: bridge_step.induct)
  case (drained db now i)
  then show ?case
    by (intro aliases_ok_same [OF drained])
      (simp_all add: mark_owner_draining_def Let_def comp_def identity_def if_distrib cong: if_cong)
qed (simp_all add: claim_session_aliases_ok renew_session_aliases_ok release_session_aliases_ok purge_aliases_ok
    upsert_alias_ok register_turn_state_def register_previous_response_id_def register_session_header_def)

lemma resolve_alias_scope:
  assumes "aliases_ok db" "resolve_alias hash kind v scope db = Some r"
  shows "br_api_key_scope r = scope"
proof -
  have "r \<in> set (List.map_filter (\<lambda>a. get_session_by_id (ba_session_id a) db)
      (filter (is_alias hash kind v scope) (bd_aliases db)))"
    using assms(2) by (auto simp: resolve_alias_def split: list.splits)
  then obtain a where a: "a \<in> set (bd_aliases db)" "is_alias hash kind v scope a"
    "get_session_by_id (ba_session_id a) db = Some r"
    by (auto simp: map_filter_def)
  then obtain r' where r': "r' \<in> set (bd_sessions db)" "br_id r' = ba_session_id a" "br_api_key_scope r' = scope"
    using assms(1) by (auto simp: aliases_ok_def is_alias_def)
  have "inj_on br_id (set (bd_sessions db))" using assms(1) by (simp add: aliases_ok_def distinct_map)
  then have "r = r'" using get_session_by_id_row [OF a(3)] r'(1,2) by (metis inj_onD)
  with r'(3) show ?thesis by simp
qed

lemma first_alias_scope:
  "aliases_ok db \<Longrightarrow> first_alias hash scope names db = Some r \<Longrightarrow> br_api_key_scope r = scope"
  by (induction hash scope names db rule: first_alias.induct)
    (auto split: option.splits dest: resolve_alias_scope)

lemma min_by_scope: "min_by f (filter (\<lambda>r. P r \<and> br_api_key_scope r = scope \<and> Q r) rs) = Some r \<Longrightarrow> br_api_key_scope r = scope"
  using min_by_in [of f "filter (\<lambda>r. P r \<and> br_api_key_scope r = scope \<and> Q r) rs" r] by simp

lemma lookup_request_targets_cases:
  assumes "lookup_request_targets hash kind v api_key_id turn_state session_header previous_response_id db = Some r"
  defines "scope \<equiv> durable_bridge_api_key_scope api_key_id"
  shows "(\<exists>names. first_alias hash scope names db = Some r) \<or> get_session hash kind v scope db = Some r \<or>
    (\<exists>t. find_session_by_latest_turn_state t scope db = Some r) \<or>
    (\<exists>p. find_session_by_latest_response_id p scope db = Some r)"
proof -
  let ?names = "[(''turn_state'', turn_state), (''previous_response_id'', previous_response_id), (''session_header'', session_header)]"
  show ?thesis
  proof (cases "first_alias hash scope ?names db")
    case None
    then show ?thesis using assms(1) unfolding lookup_request_targets_def Let_def scope_def [symmetric]
      by (auto split: option.splits simp del: first_alias.simps)
  next
    case (Some r')
    then show ?thesis using assms(1) unfolding lookup_request_targets_def Let_def scope_def [symmetric]
      by (auto simp del: first_alias.simps)
  qed
qed

text \<open>C19: Bridged sessions of different API keys stay apart. Start with empty tables, let any instances
  claim, renew, release, drain and purge sessions and register names for them with the key the session
  belongs to; then whatever turn state, response id, session header or session key a request names,
  looking it up only ever finds a session of the request's own API key.\<close>

theorem lookup_stays_in_scope:
  assumes "(bridge_step hash retired)\<^sup>*\<^sup>* \<lparr> bd_sessions = [], bd_aliases = [] \<rparr> db"
    and "lookup_request_targets hash kind v api_key_id turn_state session_header previous_response_id db = Some r"
  shows "br_api_key_scope r = durable_bridge_api_key_scope api_key_id"
proof -
  have "aliases_ok db" using assms(1)
  proof induction
    case base
    then show ?case by (simp add: aliases_ok_def)
  qed (rule bridge_step_aliases_ok)
  note by_name = first_alias_scope [OF this]
  let ?scope = "durable_bridge_api_key_scope api_key_id"
  have by_turn: "find_session_by_latest_turn_state t ?scope db = Some r' \<Longrightarrow> br_api_key_scope r' = ?scope" for t r'
    unfolding find_session_by_latest_turn_state_def by (rule min_by_scope)
  have by_response: "find_session_by_latest_response_id p ?scope db = Some r' \<Longrightarrow> br_api_key_scope r' = ?scope" for p r'
    unfolding find_session_by_latest_response_id_def by (rule min_by_scope)
  have by_key: "get_session hash kind v ?scope db = Some r' \<Longrightarrow> br_api_key_scope r' = ?scope" for r'
    by (simp add: get_session_row)
  from lookup_request_targets_cases [OF assms(2)] show ?thesis
    by (elim disjE exE) (erule by_name, erule by_key, erule by_turn, erule by_response)
qed

definition sample_open :: bridge_db where
  "sample_open = snd (claim_session (\<lambda>x. x) (\<lambda>_. 0) (\<lambda>_ db. db) ''id'' (sample_claim ''a'' False) \<lparr> bd_sessions = [], bd_aliases = [] \<rparr>)"

definition sample_named :: bridge_db where
  "sample_named = register_turn_state (\<lambda>x. x) 1 ''id'' (Some ''key-1 '') ''a'' 1 ''t1'' 60 sample_open"

theorem lookup_stays_in_scope_witness:
  "map_option br_api_key_scope
     (lookup_request_targets (\<lambda>x. x) ''prompt_cache'' ''other'' (Some ''key-1'') (Some ''t1'') None None sample_named) = Some ''key-1''"
proof -
  have open_rows: "bd_sessions sample_open = [new_session (\<lambda>x. x) 0 ''id'' (sample_claim ''a'' False)]" "bd_aliases sample_open = []"
    by (simp_all add: sample_open_def claim_session_def numeral_2_eq_2 get_session_def Let_def)
  have key: "durable_bridge_api_key_scope (Some ''key-1 '') = ''key-1''" "durable_bridge_api_key_scope (Some ''key-1'') = ''key-1''"
    by (code_simp, code_simp)
  have "bridge_step (\<lambda>x. x) {} \<lparr> bd_sessions = [], bd_aliases = [] \<rparr> sample_open"
    unfolding sample_open_def by (rule bridge_step.claimed) simp_all
  moreover have "bridge_step (\<lambda>x. x) {} sample_open sample_named"
    unfolding sample_named_def
    by (rule bridge_step.turn_registered [where r = "new_session (\<lambda>x. x) 0 ''id'' (sample_claim ''a'' False)"])
      (simp_all add: open_rows key new_session_def sample_claim_def)
  ultimately have run: "(bridge_step (\<lambda>x. x) {})\<^sup>*\<^sup>* \<lparr> bd_sessions = [], bd_aliases = [] \<rparr> sample_named" by simp
  obtain r where "lookup_request_targets (\<lambda>x. x) ''prompt_cache'' ''other'' (Some ''key-1'') (Some ''t1'') None None sample_named = Some r"
    by (simp add: lookup_request_targets_def key sample_named_def register_turn_state_def renew_session_def
        get_session_by_id_def open_rows new_session_def owned_by_def sample_claim_def resolve_alias_def upsert_alias_def
        is_alias_def map_filter_def replace_row_def renewed_row_def just_renew_def Let_def)
  from lookup_stays_in_scope [OF run this] this show ?thesis by (simp add: key)
qed

section \<open>Purging and the ring\<close>

text \<open>Purging removes just the closed sessions last seen before the cutoff, with their names.\<close>

lemma purge_batch_Nil:
  "0 < bs \<Longrightarrow> purge_batch cutoff bs db = [] \<longleftrightarrow> filter (purgeable cutoff) (bd_sessions db) = []"
proof -
  have "sort_key f xs = [] \<longleftrightarrow> xs = []" for f :: "bridge_session \<Rightarrow> datetime" and xs
    using length_sort [of f xs] by (metis length_0_conv)
  then show "0 < bs \<Longrightarrow> ?thesis" by (simp add: purge_batch_def)
qed

lemma purge_closed_before_sessions:
  "0 < bs \<Longrightarrow> bd_sessions (fst (purge_closed_before cutoff bs s)) =
     filter (\<lambda>r. \<not> purgeable cutoff r) (bd_sessions (fst s))"
proof (induction cutoff bs s rule: purge_closed_before.induct)
  case (1 cutoff bs s)
  show ?case
  proof (cases "purge_batch cutoff bs (fst s) = []")
    case True
    then have "\<forall>r \<in> set (bd_sessions (fst s)). \<not> purgeable cutoff r"
      using 1(2) by (simp add: purge_batch_Nil filter_empty_conv)
    with True show ?thesis by (subst purge_closed_before.simps) simp
  next
    case False
    have "filter (\<lambda>r. \<not> purgeable cutoff r) (filter (\<lambda>r. \<not> (br_id r \<in> ids \<and> purgeable cutoff r)) rs) =
        filter (\<lambda>r. \<not> purgeable cutoff r) rs" for ids rs by (induction rs) auto
    with 1 False show ?thesis by (subst purge_closed_before.simps) (simp add: purge_ids_def Let_def)
  qed
qed

lemma list_active_member:
  "i \<in> set (list_active now threshold False ring) \<longleftrightarrow>
     (\<exists>m \<in> set ring. rm_instance_id m = i \<and> ring_active now threshold m)"
  by (auto simp: list_active_def)

lemma heartbeat_active:
  assumes "later \<le> now + threshold * 1000000"
  shows "i \<in> set (list_active later threshold False (ring_heartbeat now i endpoint ring))"
proof (cases "list_ex (\<lambda>m. rm_instance_id m = i) ring")
  case True
  then obtain m where m: "m \<in> set ring" "rm_instance_id m = i" by (auto simp: list_ex_iff)
  let ?m = "m\<lparr> rm_last_heartbeat_at := now, rm_endpoint_base_url := endpoint \<rparr>"
  have "?m \<in> set (ring_heartbeat now i endpoint ring)"
    using m True by (force simp: ring_heartbeat_def ring_upsert_def new_member_def)
  then show ?thesis using m(2) assms unfolding list_active_member
    by (intro bexI [of _ ?m]) (simp_all add: ring_active_def)
next
  case False
  then show ?thesis using assms unfolding list_active_member
    by (intro bexI [of _ "new_member now i endpoint"])
      (simp_all add: ring_heartbeat_def ring_upsert_def new_member_def ring_active_def)
qed

lemma stale_member_ages_out:
  assumes "0 \<le> grace" "grace \<le> threshold"
  shows "i \<in> set (list_active later threshold False (mark_stale now i threshold grace ring)) \<longleftrightarrow>
           i \<in> rm_instance_id ` set ring \<and> later \<le> now + grace * 1000000"
proof -
  let ?aged = "\<lambda>m. m\<lparr> rm_last_heartbeat_at := now - (threshold - grace) * 1000000 \<rparr>"
  have aged: "ring_active later threshold (?aged m) \<longleftrightarrow> later \<le> now + grace * 1000000" for m
    by (simp add: ring_active_def algebra_simps)
  have "(\<exists>m \<in> set (map (\<lambda>m. if rm_instance_id m = i then ?aged m else m) ring).
      rm_instance_id m = i \<and> ring_active later threshold m) \<longleftrightarrow>
    i \<in> rm_instance_id ` set ring \<and> later \<le> now + grace * 1000000"
  proof (induction ring)
    case (Cons m ring)
    then show ?case using aged [of m]
      by (cases "rm_instance_id m = i") (simp_all, argo)
  qed simp
  moreover have "mark_stale now i threshold grace ring = map (\<lambda>m. if rm_instance_id m = i then ?aged m else m) ring"
    using assms by (simp add: mark_stale_def Let_def max_def)
  ultimately show ?thesis by (simp only: list_active_member)
qed

end
