(* ===== verification/Json.thy ===== *)
theory Json
  imports Retry
begin

text \<open>
  JSON values and the part of Python's \<open>json\<close> module the program uses: \<open>json.loads\<close> and \<open>json.dumps\<close>
  with the separators \<open>(",", ":")\<close>, with or without \<open>sort_keys\<close> and \<open>ensure_ascii\<close>. A dictionary is
  the list of its entries in insertion order. Strings have code points below 256, so an escape of a
  larger code point is outside the model and reads as malformed, as do the literals \<open>NaN\<close> and
  \<open>Infinity\<close>; negative zero is zero.
\<close>

section \<open>Values and dictionaries\<close>

datatype json =
    JNull
  | JBool bool
  | JInt int
  | JFloat rat
  | JStr string
  | JArr "json list"
  | JObj "(string \<times> json) list"

type_synonym json_dict = "(string \<times> json) list"

text \<open>
  \<open>d.get(k)\<close> returns \<open>None\<close> for a missing key just as for a key bound to \<open>null\<close>; \<open>d[k] = v\<close> keeps the
  place of an existing key; \<open>d.pop(k, None)\<close> removes it.
\<close>

definition dict_get :: "string \<Rightarrow> json_dict \<Rightarrow> json" where
  "dict_get k d = (case map_of d k of None \<Rightarrow> JNull | Some v \<Rightarrow> v)"

definition dict_set :: "string \<Rightarrow> json \<Rightarrow> json_dict \<Rightarrow> json_dict" where
  "dict_set k v d = AList.update k v d"

definition dict_pop :: "string \<Rightarrow> json_dict \<Rightarrow> json_dict" where
  "dict_pop k d = filter (\<lambda>p. fst p \<noteq> k) d"

definition dict_of :: "(string \<times> json) list \<Rightarrow> json_dict" where
  "dict_of ps = fold (\<lambda>(k, v) d. dict_set k v d) ps []"

fun as_str :: "json \<Rightarrow> string option" where
  "as_str (JStr s) = Some s"
| "as_str _ = None"

fun as_obj :: "json \<Rightarrow> json_dict option" where
  "as_obj (JObj d) = Some d"
| "as_obj _ = None"

fun as_arr :: "json \<Rightarrow> json list option" where
  "as_arr (JArr xs) = Some xs"
| "as_arr _ = None"

abbreviation get_str :: "string \<Rightarrow> json_dict \<Rightarrow> string option" where
  "get_str k d \<equiv> as_str (dict_get k d)"

abbreviation get_obj :: "string \<Rightarrow> json_dict \<Rightarrow> json_dict option" where
  "get_obj k d \<equiv> as_obj (dict_get k d)"

abbreviation get_arr :: "string \<Rightarrow> json_dict \<Rightarrow> json list option" where
  "get_arr k d \<equiv> as_arr (dict_get k d)"

section \<open>Printing\<close>

definition hex_char :: "nat \<Rightarrow> char" where
  "hex_char n = char_of (if n < 10 then 48 + n else 87 + n)"

definition escape_char :: "bool \<Rightarrow> char \<Rightarrow> string" where
  "escape_char ensure_ascii c =
     (let n = (of_char c :: nat)
      in if n = 34 \<or> n = 92 then [CHR 0x5C, c]
         else if n = 8 then [CHR 0x5C, CHR ''b'']
         else if n = 9 then [CHR 0x5C, CHR ''t'']
         else if n = 10 then [CHR 0x5C, CHR ''n'']
         else if n = 12 then [CHR 0x5C, CHR ''f'']
         else if n = 13 then [CHR 0x5C, CHR ''r'']
         else if n < 32 \<or> (ensure_ascii \<and> 126 < n)
         then [CHR 0x5C, CHR ''u'', CHR ''0'', CHR ''0'', hex_char (n div 16), hex_char (n mod 16)]
         else [c])"

definition quote_str :: "bool \<Rightarrow> string \<Rightarrow> string" where
  "quote_str ensure_ascii s = CHR 0x22 # concat (map (escape_char ensure_ascii) s) @ [CHR 0x22]"

definition int_repr :: "int \<Rightarrow> string" where
  "int_repr i = (if i < 0 then CHR ''-'' # decimal (nat (- i)) else decimal (nat i))"

text \<open>
  \<open>repr\<close> of a float: the digits of its shortest decimal, with an exponent below \<open>1e-4\<close> and from \<open>1e16\<close>
  on.
\<close>

function denominator_decimals :: "nat \<Rightarrow> nat" where
  "denominator_decimals q = (if q = 0 \<or> gcd q 10 = 1 then 0 else Suc (denominator_decimals (q div gcd q 10)))"
  by pat_completeness auto

termination
proof (relation "measure id")
  fix q :: nat assume q: "\<not> (q = 0 \<or> gcd q 10 = 1)"
  then have "1 < gcd q 10" by (metis gcd_eq_0_iff less_one linorder_neqE_nat zero_neq_numeral)
  with q show "(q div gcd q 10, q) \<in> measure id" by (simp add: div_less_dividend)
qed simp

declare denominator_decimals.simps [simp del]

definition decimals_of :: "rat \<Rightarrow> nat" where
  "decimals_of r = denominator_decimals (nat (snd (quotient_of r)))"

definition exponent_repr :: "int \<Rightarrow> string" where
  "exponent_repr e =
     (let ds = decimal (nat \<bar>e\<bar>)
      in CHR ''e'' # (if e < 0 then CHR ''-'' else CHR ''+'') # (if length ds < 2 then CHR ''0'' # ds else ds))"

definition float_body :: "rat \<Rightarrow> string" where
  "float_body r =
     (let k = decimals_of r;
          ds = decimal (nat \<lfloor>r * 10 ^ k\<rfloor>);
          e = int (length ds) - 1 - int k;
          digits = rstrip_by (\<lambda>c. c = CHR ''0'') ds
      in if r = 0 then ''0.0''
         else if 16 \<le> e \<or> e < -4
         then take 1 digits @ (if drop 1 digits = [] then [] else CHR ''.'' # drop 1 digits) @ exponent_repr e
         else if k = 0 then ds @ ''.0''
         else if k < length ds then take (length ds - k) ds @ CHR ''.'' # drop (length ds - k) ds
         else ''0.'' @ replicate (k - length ds) (CHR ''0'') @ ds)"

definition float_repr :: "rat \<Rightarrow> string" where
  "float_repr r = (if r < 0 then CHR ''-'' # float_body (- r) else float_body r)"

primrec dumps_plain :: "bool \<Rightarrow> json \<Rightarrow> string" where
  "dumps_plain a JNull = ''null''"
| "dumps_plain a (JBool b) = (if b then ''true'' else ''false'')"
| "dumps_plain a (JInt i) = int_repr i"
| "dumps_plain a (JFloat r) = float_repr r"
| "dumps_plain a (JStr s) = quote_str a s"
| "dumps_plain a (JArr xs) = CHR ''['' # py_join '','' (map (dumps_plain a) xs) @ '']''"
| "dumps_plain a (JObj d) =
     CHR ''{'' # py_join '','' (map (\<lambda>(k, t). quote_str a k @ CHR '':'' # t) (map (map_prod id (dumps_plain a)) d)) @ ''}''"

text \<open>\<open>sort_keys\<close> sorts the entries of every dictionary by key.\<close>

primrec canon :: "json \<Rightarrow> json" where
  "canon JNull = JNull"
| "canon (JBool b) = JBool b"
| "canon (JInt i) = JInt i"
| "canon (JFloat r) = JFloat r"
| "canon (JStr s) = JStr s"
| "canon (JArr xs) = JArr (map canon xs)"
| "canon (JObj d) = JObj (sort_key fst (map (map_prod id canon) d))"

definition dumps :: "bool \<Rightarrow> bool \<Rightarrow> json \<Rightarrow> string" where
  "dumps ensure_ascii sort_keys v = dumps_plain ensure_ascii (if sort_keys then canon v else v)"

section \<open>Reading\<close>

definition json_ws :: "char \<Rightarrow> bool" where
  "json_ws c \<longleftrightarrow> c = CHR '' '' \<or> c = CHR 0x09 \<or> c = CHR 0x0A \<or> c = CHR 0x0D"

abbreviation skip_ws :: "string \<Rightarrow> string" where
  "skip_ws \<equiv> dropWhile json_ws"

definition hex_value :: "char \<Rightarrow> nat option" where
  "hex_value c =
     (let n = (of_char c :: nat)
      in if 48 \<le> n \<and> n \<le> 57 then Some (n - 48)
         else if 97 \<le> n \<and> n \<le> 102 then Some (n - 87)
         else if 65 \<le> n \<and> n \<le> 70 then Some (n - 55) else None)"

fun hex4 :: "string \<Rightarrow> (char \<times> string) option" where
  "hex4 (a # b # c # d # s) =
     (case (hex_value a, hex_value b, hex_value c, hex_value d) of
        (Some x, Some y, Some z, Some w) \<Rightarrow>
          (let n = ((x * 16 + y) * 16 + z) * 16 + w in if n < 256 then Some (char_of n, s) else None)
      | _ \<Rightarrow> None)"
| "hex4 _ = None"

fun unescape :: "string \<Rightarrow> (char \<times> string) option" where
  "unescape [] = None"
| "unescape (c # s) =
     (if c = CHR 0x22 \<or> c = CHR 0x5C \<or> c = CHR ''/'' then Some (c, s)
      else if c = CHR ''b'' then Some (CHR 0x08, s)
      else if c = CHR ''f'' then Some (CHR 0x0C, s)
      else if c = CHR ''n'' then Some (CHR 0x0A, s)
      else if c = CHR ''r'' then Some (CHR 0x0D, s)
      else if c = CHR ''t'' then Some (CHR 0x09, s)
      else if c = CHR ''u'' then hex4 s
      else None)"

lemma hex4_shorter: "hex4 s = Some (c, r) \<Longrightarrow> length r < length s"
  by (induction s rule: hex4.induct) (auto simp: Let_def split: option.splits if_splits)

lemma unescape_shorter: "unescape s = Some (c, r) \<Longrightarrow> length r < length s"
  by (cases s) (auto split: if_splits dest: hex4_shorter)

text \<open>The rest of a string literal, after its opening quote.\<close>

function read_string :: "string \<Rightarrow> (string \<times> string) option" where
  "read_string [] = None"
| "read_string (c # s) =
     (if c = CHR 0x22 then Some ([], s)
      else if c = CHR 0x5C then
        (case unescape s of
           None \<Rightarrow> None
         | Some (u, r) \<Rightarrow> map_option (\<lambda>(t, r'). (u # t, r')) (read_string r))
      else if (of_char c :: nat) < 32 then None
      else map_option (\<lambda>(t, r). (c # t, r)) (read_string s))"
  by pat_completeness auto

termination
  by (relation "measure length") (auto dest: unescape_shorter)

definition read_int :: "string \<Rightarrow> (nat \<times> string) option" where
  "read_int s =
     (case s of
        [] \<Rightarrow> None
      | c # r \<Rightarrow>
          if c = CHR ''0'' then Some (0, r)
          else if is_digit c then Some (digits_value (takeWhile is_digit s), dropWhile is_digit s) else None)"

definition read_fraction :: "string \<Rightarrow> (rat \<times> string) option" where
  "read_fraction s =
     (case s of
        [] \<Rightarrow> None
      | c # r \<Rightarrow>
          let ds = takeWhile is_digit r
          in if c \<noteq> CHR ''.'' \<or> ds = [] then None
             else Some (of_nat (digits_value ds) / 10 ^ length ds, dropWhile is_digit r))"

definition read_exponent :: "string \<Rightarrow> (int \<times> string) option" where
  "read_exponent s =
     (case s of
        [] \<Rightarrow> None
      | c # r \<Rightarrow>
          if c \<noteq> CHR ''e'' \<and> c \<noteq> CHR ''E'' then None
          else
            let r' = (if r \<noteq> [] \<and> (hd r = CHR ''-'' \<or> hd r = CHR ''+'') then tl r else r);
                ds = takeWhile is_digit r';
                m = int (digits_value ds)
            in if ds = [] then None
               else Some (if r \<noteq> [] \<and> hd r = CHR ''-'' then - m else m, dropWhile is_digit r'))"

definition scale10 :: "int \<Rightarrow> rat" where
  "scale10 e = (if 0 \<le> e then 10 ^ nat e else 1 / 10 ^ nat (- e))"

definition read_number :: "string \<Rightarrow> (json \<times> string) option" where
  "read_number s =
     (let neg = (s \<noteq> [] \<and> hd s = CHR ''-'')
      in case read_int (if neg then tl s else s) of
           None \<Rightarrow> None
         | Some (n, r) \<Rightarrow>
             (let frac = read_fraction r;
                  r1 = (case frac of Some (_, r') \<Rightarrow> r' | None \<Rightarrow> r);
                  ex = read_exponent r1;
                  r2 = (case ex of Some (_, r') \<Rightarrow> r' | None \<Rightarrow> r1)
              in if frac = None \<and> ex = None
                 then Some (JInt (if neg then - int n else int n), r)
                 else
                   let m = (of_nat n + (case frac of Some (f, _) \<Rightarrow> f | None \<Rightarrow> 0)) *
                           scale10 (case ex of Some (e, _) \<Rightarrow> e | None \<Rightarrow> 0)
                   in Some (JFloat (if neg then - m else m), r2)))"

text \<open>
  One value, the rest of a list after an element position, and the rest of an object at a key. The
  first argument bounds the number of nested calls; twice the length of the text is always enough.
\<close>

fun read_value :: "nat \<Rightarrow> string \<Rightarrow> (json \<times> string) option"
  and read_elems :: "nat \<Rightarrow> string \<Rightarrow> (json list \<times> string) option"
  and read_members :: "nat \<Rightarrow> string \<Rightarrow> ((string \<times> json) list \<times> string) option"
where
  "read_value 0 s = None"
| "read_value (Suc n) s =
     (case s of
        [] \<Rightarrow> None
      | c # r \<Rightarrow>
          if c = CHR 0x22 then map_option (\<lambda>(t, r'). (JStr t, r')) (read_string r)
          else if c = CHR ''['' then
            (let r1 = skip_ws r
             in if r1 \<noteq> [] \<and> hd r1 = CHR '']'' then Some (JArr [], tl r1)
                else map_option (\<lambda>(xs, r'). (JArr xs, r')) (read_elems n r1))
          else if c = CHR ''{'' then
            (let r1 = skip_ws r
             in if r1 \<noteq> [] \<and> hd r1 = CHR ''}'' then Some (JObj [], tl r1)
                else map_option (\<lambda>(ps, r'). (JObj (dict_of ps), r')) (read_members n r1))
          else if startswith s ''null'' then Some (JNull, drop 4 s)
          else if startswith s ''true'' then Some (JBool True, drop 4 s)
          else if startswith s ''false'' then Some (JBool False, drop 5 s)
          else read_number s)"
| "read_elems 0 s = None"
| "read_elems (Suc n) s =
     (case read_value n s of
        None \<Rightarrow> None
      | Some (v, r) \<Rightarrow>
          (case skip_ws r of
             [] \<Rightarrow> None
           | c # r' \<Rightarrow>
               if c = CHR '']'' then Some ([v], r')
               else if c = CHR '','' then map_option (\<lambda>(vs, r''). (v # vs, r'')) (read_elems n (skip_ws r'))
               else None))"
| "read_members 0 s = None"
| "read_members (Suc n) s =
     (if s = [] \<or> hd s \<noteq> CHR 0x22 then None
      else case read_string (tl s) of
             None \<Rightarrow> None
           | Some (k, r) \<Rightarrow>
               (case skip_ws r of
                  [] \<Rightarrow> None
                | c # r1 \<Rightarrow>
                    if c \<noteq> CHR '':'' then None
                    else
                      (case read_value n (skip_ws r1) of
                         None \<Rightarrow> None
                       | Some (v, r2) \<Rightarrow>
                           (case skip_ws r2 of
                              [] \<Rightarrow> None
                            | c' # r3 \<Rightarrow>
                                if c' = CHR ''}'' then Some ([(k, v)], r3)
                                else if c' = CHR '','' then
                                  map_option (\<lambda>(ps, r'). ((k, v) # ps, r')) (read_members n (skip_ws r3))
                                else None))))"

definition loads :: "string \<Rightarrow> json option" where
  "loads s =
     (case read_value (2 * length s) (skip_ws s) of
        None \<Rightarrow> None
      | Some (v, r) \<Rightarrow> if skip_ws r = [] then Some v else None)"

end
