(* ===== verification/Json_Numbers.thy ===== *)
theory Json_Numbers
  imports Json
begin

text \<open>
  Reading back the strings and numbers of JSON texts: a printed string literal, integer or float is
  read as the value it was printed from.
\<close>

section \<open>String literals\<close>

lemma of_char_less: "(of_char c :: nat) < 256"
  by (metis nat_of_char_less_256)

lemma hex_value_hex_char: "n < 16 \<Longrightarrow> hex_value (hex_char n) = Some n"
  by (auto simp: hex_value_def hex_char_def Let_def)

lemma hex4_escape:
  assumes "n < 256"
  shows "hex4 (CHR ''0'' # CHR ''0'' # hex_char (n div 16) # hex_char (n mod 16) # r) = Some (char_of n, r)"
proof -
  have "hex_value (CHR ''0'') = Some 0" by (simp add: hex_value_def)
  moreover have "n div 16 < 16" using assms by simp
  ultimately show ?thesis using assms by (simp add: hex_value_hex_char)
qed

lemma read_string_escape:
  "read_string (escape_char a c @ r) = map_option (\<lambda>(t, r'). (c # t, r')) (read_string r)"
proof -
  have char: "of_char c = (of_char d :: nat) \<Longrightarrow> c = d" for d by simp
  have special: "c = CHR 0x22 \<or> c = CHR 0x5C \<or> c = CHR 0x08 \<or> c = CHR 0x09 \<or> c = CHR 0x0A \<or> c = CHR 0x0C \<or> c = CHR 0x0D"
    if "(of_char c :: nat) \<in> {34, 92, 8, 9, 10, 12, 13}"
    using that char [of "CHR 0x22"] char [of "CHR 0x5C"] char [of "CHR 0x08"] char [of "CHR 0x09"]
      char [of "CHR 0x0A"] char [of "CHR 0x0C"] char [of "CHR 0x0D"] by simp blast
  consider "(of_char c :: nat) \<in> {34, 92, 8, 9, 10, 12, 13}"
    | "(of_char c :: nat) \<notin> {34, 92, 8, 9, 10, 12, 13}" "(of_char c :: nat) < 32 \<or> (a \<and> 126 < (of_char c :: nat))"
    | "(of_char c :: nat) \<notin> {34, 92, 8, 9, 10, 12, 13}" "\<not> ((of_char c :: nat) < 32 \<or> (a \<and> 126 < (of_char c :: nat)))"
    by blast
  then show ?thesis
  proof cases
    case 1
    from special [OF 1] show ?thesis by (elim disjE) (simp_all add: escape_char_def)
  next
    case 2
    then show ?thesis
      by (simp add: escape_char_def Let_def hex4_escape of_char_less del: hex4.simps)
  next
    case 3
    then have "c \<noteq> CHR 0x22" "c \<noteq> CHR 0x5C" by auto
    moreover have "escape_char a c = [c]" using 3 by (auto simp: escape_char_def Let_def)
    ultimately show ?thesis using 3 by simp
  qed
qed

lemma read_string_quote:
  "read_string (concat (map (escape_char a) s) @ CHR 0x22 # r) = Some (s, r)"
  by (induction s) (simp_all add: read_string_escape)

section \<open>Integers\<close>

lemma decimal_head: "0 < n \<Longrightarrow> hd (decimal n) \<noteq> CHR ''0''"
proof (induction n rule: decimal.induct)
  case (1 n)
  show ?case
  proof (cases "n < 10")
    case True
    have "char_of (48 + n) \<noteq> CHR ''0''"
    proof
      assume "char_of (48 + n) = CHR ''0''"
      then have "(of_char (char_of (48 + n) :: char) :: nat) = of_char (CHR ''0'')" by simp
      with True 1(2) show False by simp
    qed
    with True show ?thesis by (subst decimal.simps) simp
  next
    case False
    then have "hd (decimal (n div 10)) \<noteq> CHR ''0''" using 1 by simp
    with False show ?thesis using decimal_digits [of "n div 10"] by (subst decimal.simps) simp
  qed
qed

lemma decimal_0: "decimal 0 = ''0''"
  by (subst decimal.simps) code_simp

text \<open>What may follow a number so that the number ends there.\<close>

definition ends_number :: "string \<Rightarrow> bool" where
  "ends_number r \<longleftrightarrow>
     (r = [] \<or> (\<not> is_digit (hd r) \<and> hd r \<noteq> CHR ''.'' \<and> hd r \<noteq> CHR ''e'' \<and> hd r \<noteq> CHR ''E''))"

lemma take_digits_append:
  assumes "\<forall>c \<in> set ds. is_digit c" "r = [] \<or> \<not> is_digit (hd r)"
  shows "takeWhile is_digit (ds @ r) = ds" "dropWhile is_digit (ds @ r) = r"
  using assms by (cases r; simp add: takeWhile_append dropWhile_append)+

lemma read_int_digits:
  assumes "ds \<noteq> []" "\<forall>c \<in> set ds. is_digit c" "hd ds \<noteq> CHR ''0''" "r = [] \<or> \<not> is_digit (hd r)"
  shows "read_int (ds @ r) = Some (digits_value ds, r)"
proof -
  obtain c cs where "ds = c # cs" using assms(1) by (cases ds) auto
  then show ?thesis using assms(2,3) take_digits_append [OF assms(2,4)] by (simp add: read_int_def)
qed

lemma read_int_decimal:
  assumes "r = [] \<or> \<not> is_digit (hd r)"
  shows "read_int (decimal n @ r) = Some (n, r)"
proof (cases "n = 0")
  case True
  then show ?thesis by (simp add: decimal_0 read_int_def)
next
  case False
  then show ?thesis using read_int_digits [OF _ _ _ assms, of "decimal n"] decimal_digits [of n] decimal_head [of n]
    by simp
qed

lemma hd_decimal_not_minus: "hd (decimal n @ r) \<noteq> CHR ''-''"
proof -
  have "is_digit (hd (decimal n))" using decimal_digits [of n] by simp
  moreover have "\<not> is_digit (CHR ''-'')" by (simp add: is_digit_def)
  ultimately have "hd (decimal n) \<noteq> CHR ''-''" by metis
  then show ?thesis using decimal_digits [of n] by simp
qed

lemma no_fraction: "ends_number r \<Longrightarrow> read_fraction r = None"
  by (cases r) (auto simp: read_fraction_def ends_number_def Let_def)

lemma no_exponent: "ends_number r \<Longrightarrow> read_exponent r = None"
  by (cases r) (auto simp: read_exponent_def ends_number_def)

lemma ends_number_digit: "ends_number r \<Longrightarrow> r = [] \<or> \<not> is_digit (hd r)"
  by (auto simp: ends_number_def)

lemma read_number_int:
  assumes "ends_number r"
  shows "read_number (int_repr i @ r) = Some (JInt i, r)"
proof (cases "i < 0")
  case True
  then show ?thesis
    using read_int_decimal [OF ends_number_digit [OF assms], of "nat (- i)"] assms
    by (simp add: read_number_def int_repr_def no_fraction no_exponent)
next
  case False
  then show ?thesis
    using read_int_decimal [OF ends_number_digit [OF assms], of "nat i"] assms hd_decimal_not_minus [of "nat i" r]
    by (simp add: read_number_def int_repr_def no_fraction no_exponent Let_def)
qed

section \<open>Floats\<close>

lemma digits_value_append: "digits_value (a @ b) = digits_value a * 10 ^ length b + digits_value b"
proof (induction b rule: rev_induct)
  case (snoc c b)
  then show ?case by (simp add: digits_value_snoc flip: append_assoc)
qed (simp add: digits_value_def)

lemma digits_value_0 [simp]: "digits_value (CHR ''0'' # ds) = digits_value ds"
  using digits_value_append [of "[CHR ''0'']" ds] by (simp add: digits_value_def digit_value_def)

lemma digits_value_zeros [simp]: "digits_value (replicate z (CHR ''0'')) = 0"
  by (induction z) (simp_all add: digits_value_def [of "[]"])

lemma is_digit_0: "is_digit (CHR ''0'')"
  by (simp add: is_digit_def)

lemma read_fraction_digits:
  assumes "ds \<noteq> []" "\<forall>c \<in> set ds. is_digit c" "r = [] \<or> \<not> is_digit (hd r)"
  shows "read_fraction (CHR ''.'' # ds @ r) = Some (of_nat (digits_value ds) / 10 ^ length ds, r)"
  using assms(1) take_digits_append [OF assms(2,3)] by (simp add: read_fraction_def)

lemma exponent_digits:
  "\<exists>ds. exponent_repr e = CHR ''e'' # (if e < 0 then CHR ''-'' else CHR ''+'') # ds \<and> ds \<noteq> [] \<and>
     (\<forall>c \<in> set ds. is_digit c) \<and> digits_value ds = nat \<bar>e\<bar>"
proof -
  let ?ds = "decimal (nat \<bar>e\<bar>)"
  show ?thesis using decimal_digits [of "nat \<bar>e\<bar>"]
    by (cases "length ?ds < 2") (simp_all add: exponent_repr_def Let_def is_digit_0)
qed

lemma read_exponent_repr:
  assumes "r = [] \<or> \<not> is_digit (hd r)"
  shows "read_exponent (exponent_repr e @ r) = Some (e, r)"
proof -
  obtain ds where ds: "exponent_repr e = CHR ''e'' # (if e < 0 then CHR ''-'' else CHR ''+'') # ds" "ds \<noteq> []"
    "\<forall>c \<in> set ds. is_digit c" "digits_value ds = nat \<bar>e\<bar>"
    using exponent_digits by blast
  show ?thesis using take_digits_append [OF ds(3) assms] ds(2,4)
    by (cases "e < 0") (simp_all add: ds(1) read_exponent_def)
qed

text \<open>A number read from its integer part, its fraction digits and its exponent.\<close>

definition int_part :: "string \<Rightarrow> bool" where
  "int_part ip \<longleftrightarrow> ip = ''0'' \<or> (ip \<noteq> [] \<and> (\<forall>c \<in> set ip. is_digit c) \<and> hd ip \<noteq> CHR ''0'')"

lemma read_int_part:
  assumes "int_part ip" "r = [] \<or> \<not> is_digit (hd r)"
  shows "read_int (ip @ r) = Some (digits_value ip, r)" "hd (ip @ r) \<noteq> CHR ''-''"
proof -
  show "read_int (ip @ r) = Some (digits_value ip, r)"
    using assms read_int_digits [of ip r] by (auto simp: int_part_def read_int_def digits_value_def digit_value_def)
  have "ip \<noteq> []" "is_digit (hd ip)" using assms(1) by (auto simp: int_part_def is_digit_0)
  moreover have "\<not> is_digit (CHR ''-'')" by (simp add: is_digit_def)
  ultimately show "hd (ip @ r) \<noteq> CHR ''-''" by (metis hd_append2)
qed

definition number_text :: "string \<Rightarrow> string \<Rightarrow> int option \<Rightarrow> string" where
  "number_text ip fs ex =
     ip @ (if fs = [] then [] else CHR ''.'' # fs) @ (case ex of None \<Rightarrow> [] | Some e \<Rightarrow> exponent_repr e)"

definition number_value :: "string \<Rightarrow> string \<Rightarrow> int option \<Rightarrow> rat" where
  "number_value ip fs ex =
     (of_nat (digits_value ip) + of_nat (digits_value fs) / 10 ^ length fs) *
     (case ex of None \<Rightarrow> 1 | Some e \<Rightarrow> scale10 e)"

lemma exponent_tail:
  assumes "ends_number r"
  defines "t ex \<equiv> (case ex of None \<Rightarrow> [] | Some e \<Rightarrow> exponent_repr e) @ r"
  shows "t ex = [] \<or> \<not> is_digit (hd (t ex))"
    and "t ex = [] \<or> hd (t ex) \<noteq> CHR ''.''"
    and "read_exponent (t ex) = map_option (\<lambda>e. (e, r)) ex"
proof -
  have "\<not> is_digit (CHR ''e'')" by (simp add: is_digit_def)
  moreover have "hd (exponent_repr e @ r) = CHR ''e''" for e by (simp add: exponent_repr_def Let_def)
  ultimately show "t ex = [] \<or> \<not> is_digit (hd (t ex))" "t ex = [] \<or> hd (t ex) \<noteq> CHR ''.''"
    using assms(1) by (auto simp: t_def ends_number_def split: option.splits)
  show "read_exponent (t ex) = map_option (\<lambda>e. (e, r)) ex"
    using read_exponent_repr [OF ends_number_digit [OF assms(1)]] no_exponent [OF assms(1)]
    by (simp add: t_def split: option.splits)
qed

lemma read_number_parts:
  assumes ip: "int_part ip" and fs: "\<forall>c \<in> set fs. is_digit c" and float: "fs \<noteq> [] \<or> ex \<noteq> None"
    and r: "ends_number r"
  shows "read_number (number_text ip fs ex @ r) = Some (JFloat (number_value ip fs ex), r)"
    and "read_number (CHR ''-'' # number_text ip fs ex @ r) = Some (JFloat (- number_value ip fs ex), r)"
proof -
  define t where "t = (case ex of None \<Rightarrow> [] | Some e \<Rightarrow> exponent_repr e) @ r"
  define u where "u = (if fs = [] then [] else CHR ''.'' # fs) @ t"
  note tail = exponent_tail [OF r, of ex, folded t_def]
  have whole: "number_text ip fs ex @ r = ip @ u" by (simp add: number_text_def t_def u_def)
  have "\<not> is_digit (CHR ''.'')" by (simp add: is_digit_def)
  then have "u = [] \<or> \<not> is_digit (hd u)" using tail(1) by (cases "fs = []") (simp_all add: u_def)
  note int = read_int_part [OF ip this]
  have "read_fraction u = (if fs = [] then None else Some (of_nat (digits_value fs) / 10 ^ length fs, t))"
    using read_fraction_digits [OF _ fs tail(1)] tail(2)
    by (cases t) (simp_all add: u_def read_fraction_def)
  note read = this tail(3) int
  have num: "(of_nat (digits_value ip) + (if fs = [] then 0 else of_nat (digits_value fs) / 10 ^ length fs)) *
      scale10 (case ex of None \<Rightarrow> 0 | Some e \<Rightarrow> e) = number_value ip fs ex"
    by (cases ex) (simp_all add: number_value_def scale10_def digits_value_def)
  have rest: "t = r" if "ex = None" using that by (simp add: t_def)
  show "read_number (number_text ip fs ex @ r) = Some (JFloat (number_value ip fs ex), r)"
    unfolding whole using read float num rest
    by (cases ex; cases "fs = []") (simp_all add: read_number_def Let_def u_def)
  show "read_number (CHR ''-'' # number_text ip fs ex @ r) = Some (JFloat (- number_value ip fs ex), r)"
    unfolding whole using read float num rest
    by (cases ex; cases "fs = []") (simp_all add: read_number_def Let_def u_def)
qed

text \<open>A finite decimal is printed with just its digits.\<close>

definition finite_decimal :: "rat \<Rightarrow> bool" where
  "finite_decimal r \<longleftrightarrow> nat (snd (quotient_of r)) dvd 10 ^ decimals_of r"

lemma denominator_decimals_dvd:
  assumes "0 < q" "q dvd 10 ^ k"
  shows "q dvd 10 ^ denominator_decimals q"
  using assms
proof (induction q rule: denominator_decimals.induct)
  case (1 q)
  show ?case
  proof (cases "gcd q 10 = 1")
    case True
    then have "coprime q 10" by (simp add: coprime_iff_gcd_eq_1)
    then have "coprime q (10 ^ k)" by simp
    then have "q = 1" using 1(3) by (metis coprime_common_divisor_nat dvd_refl)
    then show ?thesis by simp
  next
    case False
    let ?g = "gcd q 10" and ?p = "q div gcd q 10"
    have q: "q = ?p * ?g" by simp
    have "?p dvd q" by (metis dvd_triv_left q)
    then have "?p dvd 10 ^ denominator_decimals ?p"
      using 1 False by (metis dvd_div_eq_0_iff dvd_trans gcd_dvd1 gcd_nat.extremum_strict neq0_conv)
    then have "?p * ?g dvd 10 ^ denominator_decimals ?p * 10" by (intro mult_dvd_mono) simp_all
    then show ?thesis using False 1(2) q by (subst denominator_decimals.simps) (simp add: mult.commute)
  qed
qed

lemma finite_decimalI: "snd (quotient_of r) dvd 10 ^ k \<Longrightarrow> finite_decimal r"
  unfolding finite_decimal_def decimals_of_def
  by (rule denominator_decimals_dvd [of _ k])
    (simp_all add: quotient_of_denom_pos' nat_dvd_iff order_less_imp_le)

lemma decimals_of_int:
  assumes "finite_decimal r" "0 \<le> r"
  shows "of_nat (nat \<lfloor>r * 10 ^ decimals_of r\<rfloor>) = r * 10 ^ decimals_of r"
proof -
  let ?q = "snd (quotient_of r)" and ?k = "decimals_of r"
  have "?q dvd 10 ^ ?k" using assms(1) quotient_of_denom_pos' [of r]
    by (simp add: finite_decimal_def nat_dvd_iff)
  then obtain m where m: "(10 :: int) ^ ?k = ?q * m" by (auto elim: dvdE)
  have q: "0 < ?q" by (rule quotient_of_denom_pos')
  have "r = of_int (fst (quotient_of r)) / of_int ?q" by (metis quotient_of_div prod.collapse)
  moreover have "(10 :: rat) ^ ?k = of_int ?q * of_int m" by (metis m of_int_mult of_int_numeral of_int_power)
  ultimately have "r * 10 ^ ?k = of_int (fst (quotient_of r)) / of_int ?q * (of_int ?q * of_int m)" by argo
  also have "\<dots> = of_int (fst (quotient_of r) * m)" using q by simp
  finally have "r * 10 ^ ?k = of_int (fst (quotient_of r) * m)" .
  moreover have "0 \<le> r * 10 ^ ?k" using assms(2) by simp
  ultimately show ?thesis by (metis floor_of_int of_int_0_le_iff of_nat_nat)
qed

definition float_parts :: "rat \<Rightarrow> string \<Rightarrow> string \<Rightarrow> int option \<Rightarrow> bool" where
  "float_parts r ip fs ex \<longleftrightarrow>
     int_part ip \<and> (\<forall>c \<in> set fs. is_digit c) \<and> (fs \<noteq> [] \<or> ex \<noteq> None) \<and> number_value ip fs ex = r"

lemma scale10_minus: "10 ^ a * scale10 (int b - int a) = (10 :: rat) ^ b"
proof (cases "a \<le> b")
  case True
  then show ?thesis by (simp add: scale10_def nat_diff_distrib' flip: power_add)
next
  case False
  then have "(10 :: rat) ^ a = 10 ^ b * 10 ^ (a - b)" by (simp flip: power_add)
  with False show ?thesis by (simp add: scale10_def nat_diff_distrib')
qed

lemma rstrip_zeros: "\<exists>z. ds = rstrip_by (\<lambda>c. c = CHR ''0'') ds @ replicate z (CHR ''0'')"
proof -
  let ?t = "takeWhile (\<lambda>c. c = CHR ''0'') (rev ds)"
  have t: "replicate (length ?t) (CHR ''0'') = ?t" by (rule replicate_length_same) (blast dest: set_takeWhileD)
  have "ds = rev (?t @ dropWhile (\<lambda>c. c = CHR ''0'') (rev ds))" by (simp only: takeWhile_dropWhile_id rev_rev_ident)
  then have "ds = rstrip_by (\<lambda>c. c = CHR ''0'') ds @ rev (replicate (length ?t) (CHR ''0''))"
    unfolding rstrip_by_def t by (simp only: rev_append)
  then show ?thesis unfolding rev_replicate by blast
qed

lemma float_parts_sci:
  assumes N: "of_nat N = r * 10 ^ k" "0 < N" and d: "digits = rstrip_by (\<lambda>c. c = CHR ''0'') (decimal N)"
  shows "float_parts r (take 1 digits) (drop 1 digits) (Some (int (length (decimal N)) - 1 - int k))"
proof -
  obtain z where z: "decimal N = digits @ replicate z (CHR ''0'')" using rstrip_zeros d by blast
  have dv: "digits_value digits * 10 ^ z = N" using digits_value_append [of digits "replicate z (CHR ''0'')"] z
    by (metis add.right_neutral digits_value_decimal digits_value_zeros length_replicate)
  with N(2) have "digits \<noteq> []" by (auto simp: digits_value_def)
  then obtain c cs where cs: "digits = c # cs" by (cases digits) auto
  have digit: "\<forall>x \<in> set (c # cs). is_digit x" using decimal_digits [of N] z cs by auto
  have "c \<noteq> CHR ''0''" using decimal_head [OF N(2)] z cs by simp
  then have "int_part [c]" using digit by (simp add: int_part_def)
  have e: "int (length (decimal N)) - 1 - int k = int (length cs + z) - int k" using z cs by simp
  have "(of_nat (digits_value [c]) + of_nat (digits_value cs) / 10 ^ length cs) * 10 ^ length cs =
      (of_nat (digits_value digits) :: rat)"
    using digits_value_append [of "[c]" cs] cs by (simp add: distrib_right)
  then have "number_value [c] cs (Some (int (length cs + z) - int k)) * 10 ^ length cs * 10 ^ k =
      of_nat (digits_value digits) * (10 ^ k * scale10 (int (length cs + z) - int k))"
    by (simp add: number_value_def ac_simps)
  also have "\<dots> = of_nat N * 10 ^ length cs" unfolding scale10_minus using dv
    by (metis (no_types, lifting) mult.assoc of_nat_mult of_nat_numeral of_nat_power power_add mult.commute)
  also have "\<dots> = r * 10 ^ length cs * 10 ^ k" using N(1) by simp
  finally have "number_value [c] cs (Some (int (length cs + z) - int k)) = r" by simp
  then show ?thesis using \<open>int_part [c]\<close> digit cs unfolding e by (simp add: float_parts_def)
qed

lemma float_body_parts:
  assumes "finite_decimal r" "0 \<le> r"
  shows "\<exists>ip fs ex. float_body r = number_text ip fs ex \<and> float_parts r ip fs ex"
proof (cases "r = 0")
  case True
  have "float_body 0 = number_text ''0'' ''0'' None" by (simp add: float_body_def number_text_def)
  moreover have "float_parts 0 ''0'' ''0'' None"
    by (simp add: float_parts_def int_part_def is_digit_0 number_value_def digits_value_def digit_value_def)
  ultimately show ?thesis using True by blast
next
  case False
  define k N where "k = decimals_of r" and "N = nat \<lfloor>r * 10 ^ k\<rfloor>"
  have N: "of_nat N = r * 10 ^ k" using decimals_of_int [OF assms] by (simp add: k_def N_def)
  moreover have "0 < r * 10 ^ k" using False assms(2) by simp
  ultimately have "0 < N" by (metis of_nat_0_less_iff)
  define ds e where "ds = decimal N" and "e = int (length ds) - 1 - int k"
  have ip: "int_part ds" using decimal_digits [of N] decimal_head [OF \<open>0 < N\<close>] by (simp add: int_part_def ds_def)
  have dv: "digits_value ds = N" by (simp add: ds_def)
  have body: "float_body r = (let digits = rstrip_by (\<lambda>c. c = CHR ''0'') ds
      in if 16 \<le> e \<or> e < -4
         then take 1 digits @ (if drop 1 digits = [] then [] else CHR ''.'' # drop 1 digits) @ exponent_repr e
         else if k = 0 then ds @ ''.0''
         else if k < length ds then take (length ds - k) ds @ CHR ''.'' # drop (length ds - k) ds
         else ''0.'' @ replicate (k - length ds) (CHR ''0'') @ ds)"
    using False by (simp add: float_body_def Let_def k_def N_def ds_def e_def)
  consider "16 \<le> e \<or> e < -4" | "\<not> (16 \<le> e \<or> e < -4)" "k = 0"
    | "\<not> (16 \<le> e \<or> e < -4)" "k \<noteq> 0" "k < length ds" | "\<not> (16 \<le> e \<or> e < -4)" "k \<noteq> 0" "\<not> k < length ds"
    by blast
  then show ?thesis
  proof cases
    case 1
    let ?digits = "rstrip_by (\<lambda>c. c = CHR ''0'') ds"
    have "float_body r = number_text (take 1 ?digits) (drop 1 ?digits) (Some e)"
      unfolding body Let_def number_text_def using 1 by (simp only: if_True option.case)
    then show ?thesis using float_parts_sci [OF N \<open>0 < N\<close> refl] unfolding ds_def e_def by blast
  next
    case 2
    have "float_parts r ds ''0'' None" using ip N 2 dv
      by (simp add: float_parts_def is_digit_0 number_value_def digits_value_def [of "[]"])
    moreover have "float_body r = number_text ds ''0'' None" using 2 unfolding body by (simp add: number_text_def)
    ultimately show ?thesis by blast
  next
    case 3
    let ?j = "length ds - k"
    have "int_part (take ?j ds)" using ip 3 by (auto simp: int_part_def dest: in_set_takeD)
    moreover have "N = digits_value (take ?j ds) * 10 ^ k + digits_value (drop ?j ds)"
      using digits_value_append [of "take ?j ds" "drop ?j ds"] 3 by (simp add: dv)
    then have "of_nat N = (of_nat (digits_value (take ?j ds)) * 10 ^ k + of_nat (digits_value (drop ?j ds)) :: rat)"
      by (metis of_nat_add of_nat_mult of_nat_numeral of_nat_power)
    then have "number_value (take ?j ds) (drop ?j ds) None = r" using 3 N
      by (simp add: number_value_def field_simps)
    moreover have "\<forall>c \<in> set (drop ?j ds). is_digit c" using decimal_digits [of N] by (auto simp: ds_def dest: in_set_dropD)
    ultimately have "float_parts r (take ?j ds) (drop ?j ds) None" using 3 by (simp add: float_parts_def)
    moreover have "float_body r = number_text (take ?j ds) (drop ?j ds) None"
      using 3 unfolding body by (simp add: number_text_def)
    ultimately show ?thesis by blast
  next
    case 4
    let ?z = "replicate (k - length ds) (CHR ''0'')"
    have "digits_value (?z @ ds) = N" by (simp add: digits_value_append dv)
    then have "number_value ''0'' (?z @ ds) None = r" using 4 N
      by (simp add: number_value_def digits_value_def [of "[]"])
    then have "float_parts r ''0'' (?z @ ds) None" using decimal_digits [of N]
      by (auto simp: float_parts_def int_part_def is_digit_0 ds_def)
    moreover have "float_body r = number_text ''0'' (?z @ ds) None"
      using 4 decimal_digits [of N] unfolding body by (simp add: number_text_def ds_def)
    ultimately show ?thesis by blast
  qed
qed

lemma read_number_float:
  assumes "finite_decimal v" "ends_number r"
  shows "read_number (float_repr v @ r) = Some (JFloat v, r)"
proof (cases "v < 0")
  case True
  have "finite_decimal (- v)" using assms(1) by (cases "quotient_of v") (simp add: finite_decimal_def decimals_of_def rat_uminus_code)
  then obtain ip fs ex where "float_body (- v) = number_text ip fs ex" "float_parts (- v) ip fs ex"
    using float_body_parts [of "- v"] True by auto
  then show ?thesis using True read_number_parts(2) [of ip fs ex r] assms(2) by (simp add: float_repr_def float_parts_def)
next
  case False
  then obtain ip fs ex where "float_body v = number_text ip fs ex" "float_parts v ip fs ex"
    using float_body_parts [OF assms(1)] by auto
  then show ?thesis using False read_number_parts(1) [of ip fs ex r] assms(2) by (simp add: float_repr_def float_parts_def)
qed

end
