(* ===== verification/Json_Laws.thy ===== *)
theory Json_Laws
  imports Json_Numbers
begin

text \<open>
  Reading back what was printed: \<open>loads (dumps v) = v\<close> for every JSON value, up to the order of entries
  when the keys are sorted. So two values have the same text exactly if they are the same.
\<close>

section \<open>Values\<close>

text \<open>A value as Python holds it: the keys of a dictionary are distinct and its floats are doubles.\<close>

primrec json_ok :: "json \<Rightarrow> bool" where
  "json_ok JNull = True"
| "json_ok (JBool b) = True"
| "json_ok (JInt i) = True"
| "json_ok (JFloat r) = finite_decimal r"
| "json_ok (JStr s) = True"
| "json_ok (JArr xs) = list_all id (map json_ok xs)"
| "json_ok (JObj d) = (distinct (map fst d) \<and> list_all snd (map (map_prod id json_ok) d))"

lemma json_ok_JArr [simp]: "json_ok (JArr xs) \<longleftrightarrow> (\<forall>x \<in> set xs. json_ok x)"
  by (simp add: list_all_iff)

lemma json_ok_JObj [simp]: "json_ok (JObj d) \<longleftrightarrow> distinct (map fst d) \<and> (\<forall>(k, v) \<in> set d. json_ok v)"
  by (auto simp: list_all_iff)

declare json_ok.simps(6,7) [simp del]

definition num_head :: "char \<Rightarrow> bool" where
  "num_head c \<longleftrightarrow> is_digit c \<or> c = CHR ''-''"

lemma num_head_digits: "ds \<noteq> [] \<Longrightarrow> \<forall>c \<in> set ds. is_digit c \<Longrightarrow> num_head (hd (ds @ r))"
  by (cases ds) (simp_all add: num_head_def)

lemma int_repr_head: "int_repr i \<noteq> [] \<and> num_head (hd (int_repr i @ r))"
  using decimal_digits [of "nat i"] num_head_digits [of "decimal (nat i)" r]
  by (simp add: int_repr_def num_head_def [of "CHR ''-''"])

lemma float_repr_head:
  assumes "finite_decimal v"
  shows "float_repr v \<noteq> [] \<and> num_head (hd (float_repr v @ r))"
proof (cases "v < 0")
  case True
  then show ?thesis by (simp add: float_repr_def num_head_def)
next
  case False
  then obtain ip fs ex where p: "float_body v = number_text ip fs ex" "float_parts v ip fs ex"
    using float_body_parts [OF assms] by auto
  have "ip \<noteq> []" "\<forall>c \<in> set ip. is_digit c" using p(2) by (auto simp: float_parts_def int_part_def is_digit_0)
  then show ?thesis using False p(1) num_head_digits [of ip] by (simp add: float_repr_def number_text_def)
qed

lemma num_head_cases:
  assumes "num_head c"
  shows "c \<noteq> CHR 0x22" "c \<noteq> CHR ''[''" "c \<noteq> CHR ''{''" "c \<noteq> CHR ''n''" "c \<noteq> CHR ''t''" "c \<noteq> CHR ''f''"
    "c \<noteq> CHR '']''" "c \<noteq> CHR ''}''" "\<not> json_ws c"
  using assms by (auto simp: num_head_def is_digit_def json_ws_def)

lemma read_value_number:
  assumes "s \<noteq> []" "num_head (hd s)"
  shows "read_value (Suc n) s = read_number s"
proof -
  obtain c t where "s = c # t" using assms(1) by (cases s) auto
  then show ?thesis using num_head_cases assms(2) by (simp add: startswith_def)
qed

text \<open>A printed value starts with a character that ends no list and is no space.\<close>

definition starts_value :: "string \<Rightarrow> bool" where
  "starts_value s \<longleftrightarrow> s \<noteq> [] \<and> \<not> json_ws (hd s) \<and> hd s \<noteq> CHR '']'' \<and> hd s \<noteq> CHR ''}''"

lemma num_starts: "s \<noteq> [] \<and> num_head (hd (s @ r)) \<Longrightarrow> starts_value (s @ r)"
  unfolding starts_value_def using num_head_cases(7-9) by blast

lemma dumps_starts: "json_ok v \<Longrightarrow> starts_value (dumps_plain a v @ r)"
proof (cases v)
  case (JInt i)
  then show ?thesis using num_starts [OF int_repr_head] by simp
next
  case (JFloat v')
  assume "json_ok v"
  with JFloat show ?thesis using num_starts [OF float_repr_head] by simp
qed (auto simp: starts_value_def json_ws_def quote_str_def)

lemma skip_ws_starts: "starts_value s \<Longrightarrow> skip_ws s = s"
  by (cases s) (auto simp: starts_value_def)

lemma dumps_not_Nil: "json_ok v \<Longrightarrow> 0 < length (dumps_plain a v)"
  using dumps_starts [of v a "[]"] by (simp add: starts_value_def)

lemma ends_number_sep: "ends_number (CHR '','' # r)" "ends_number (CHR '']'' # r)" "ends_number (CHR ''}'' # r)"
  by (simp_all add: ends_number_def is_digit_def)

lemma not_ws [simp]: "\<not> json_ws (CHR '','')" "\<not> json_ws (CHR '']'')" "\<not> json_ws (CHR ''}'')"
  "\<not> json_ws (CHR '':'')" "\<not> json_ws (CHR 0x22)"
  by (simp_all add: json_ws_def)

text \<open>A value that is read back from its text, whatever follows.\<close>

definition reads_back :: "bool \<Rightarrow> json \<Rightarrow> bool" where
  "reads_back a v \<longleftrightarrow>
     (\<forall>n r. ends_number r \<longrightarrow> length (dumps_plain a v) \<le> n \<longrightarrow> read_value n (dumps_plain a v @ r) = Some (v, r))"

lemma reads_backD:
  "reads_back a v \<Longrightarrow> ends_number r \<Longrightarrow> length (dumps_plain a v) \<le> n \<Longrightarrow>
   read_value n (dumps_plain a v @ r) = Some (v, r)"
  by (simp add: reads_back_def)

lemma read_elems_dumps:
  assumes "xs \<noteq> []" "\<forall>x \<in> set xs. json_ok x \<and> reads_back a x"
    and "length (py_join '','' (map (dumps_plain a) xs)) < n"
  shows "read_elems n (py_join '','' (map (dumps_plain a) xs) @ CHR '']'' # r) = Some (xs, r)"
  using assms
proof (induction xs arbitrary: n)
  case (Cons x xs)
  obtain m where n: "n = Suc m" using Cons.prems(3) by (cases n) auto
  have x: "json_ok x" "reads_back a x" using Cons.prems(2) by auto
  show ?case
  proof (cases xs)
    case Nil
    then show ?thesis
      using reads_backD [OF x(2) ends_number_sep(2), of m r] Cons.prems(3) n by simp
  next
    case (Cons y ys)
    let ?rest = "py_join '','' (map (dumps_plain a) xs)"
    have "length (dumps_plain a x) \<le> m" "length ?rest < m"
      using Cons Cons.prems(3) n dumps_not_Nil [OF x(1), of a] by auto
    moreover from this have "read_elems m (?rest @ CHR '']'' # r) = Some (xs, r)"
      using Cons.IH Cons.prems(2) Cons by auto
    moreover have "starts_value (?rest @ CHR '']'' # r)"
    proof -
      have "json_ok y" using Cons.prems(2) Cons by auto
      then show ?thesis using dumps_starts [of y a] Cons by (cases ys) auto
    qed
    ultimately show ?thesis
      using reads_backD [OF x(2) ends_number_sep(1), of m] Cons n by (simp add: skip_ws_starts)
  qed
qed simp

abbreviation member_text :: "bool \<Rightarrow> string \<times> json \<Rightarrow> string" where
  "member_text a p \<equiv> quote_str a (fst p) @ CHR '':'' # dumps_plain a (snd p)"

lemma member_texts:
  "map (\<lambda>(k, t). quote_str a k @ CHR '':'' # t) (map (map_prod id (dumps_plain a)) d) = map (member_text a) d"
  by (simp add: case_prod_unfold)

lemma read_members_dumps:
  assumes "d \<noteq> []" "\<forall>p \<in> set d. json_ok (snd p) \<and> reads_back a (snd p)"
    and "length (py_join '','' (map (member_text a) d)) < n"
  shows "read_members n (py_join '','' (map (member_text a) d) @ CHR ''}'' # r) = Some (d, r)"
  using assms
proof (induction d arbitrary: n)
  case (Cons p d)
  obtain m where n: "n = Suc m" using Cons.prems(3) by (cases n) auto
  obtain k v where p: "p = (k, v)" by fastforce
  have v: "json_ok v" "reads_back a v" using Cons.prems(2) p by auto
  note start = skip_ws_starts [OF dumps_starts [OF v(1)]]
  have key: "read_string (concat (map (escape_char a) k) @ CHR 0x22 # r') = Some (k, r')" for r'
    by (rule read_string_quote)
  show ?case
  proof (cases d)
    case Nil
    then have "length (dumps_plain a v) \<le> m" using Cons.prems(3) n p by (simp add: quote_str_def)
    then show ?thesis
      using reads_backD [OF v(2) ends_number_sep(3), of m r] n p Nil by (simp add: quote_str_def key start)
  next
    case (Cons q ds)
    let ?rest = "py_join '','' (map (member_text a) d)"
    have "length (dumps_plain a v) \<le> m" "length ?rest < m"
      using Cons Cons.prems(3) n p by (auto simp: quote_str_def)
    moreover from this have "read_members m (?rest @ CHR ''}'' # r) = Some (d, r)"
      using Cons.IH Cons.prems(2) Cons by auto
    moreover have "skip_ws (?rest @ CHR ''}'' # r) = ?rest @ CHR ''}'' # r"
      using Cons by (cases ds) (simp_all add: quote_str_def)
    ultimately show ?thesis
      using reads_backD [OF v(2) ends_number_sep(1), of m] n p Cons by (simp add: quote_str_def key start)
  qed
qed simp

lemma dict_of_distinct: "distinct (map fst d) \<Longrightarrow> dict_of d = d"
proof (induction d rule: rev_induct)
  case (snoc p d)
  obtain k v where p: "p = (k, v)" by fastforce
  have "AList.update k v d = d @ [(k, v)]" if "k \<notin> fst ` set d" for d
    using that by (induction d) auto
  with snoc p show ?case by (simp add: dict_of_def dict_set_def)
qed (simp add: dict_of_def)

lemma reads_back_number:
  assumes "s \<noteq> []" "\<And>r. num_head (hd (s @ r))" "dumps_plain a v = s"
    and "\<And>r. ends_number r \<Longrightarrow> read_number (s @ r) = Some (v, r)"
  shows "reads_back a v"
  unfolding reads_back_def
proof (intro allI impI)
  fix n r assume r: "ends_number r" and "length (dumps_plain a v) \<le> n"
  with assms(1,3) obtain m where "n = Suc m" by (cases n) auto
  then show "read_value n (dumps_plain a v @ r) = Some (v, r)"
    using read_value_number [of "s @ r" m] assms(1-3) assms(4) [OF r] by simp
qed

lemma reads_back_array:
  assumes "\<forall>x \<in> set xs. json_ok x \<and> reads_back a x"
  shows "reads_back a (JArr xs)"
  unfolding reads_back_def
proof (intro allI impI)
  fix n r assume len: "length (dumps_plain a (JArr xs)) \<le> n"
  then obtain m where n: "n = Suc m" by (cases n) auto
  show "read_value n (dumps_plain a (JArr xs) @ r) = Some (JArr xs, r)"
  proof (cases xs)
    case (Cons x ys)
    let ?t = "py_join '','' (map (dumps_plain a) xs)"
    have "starts_value (?t @ CHR '']'' # r)" using assms Cons dumps_starts [of x a] by (cases ys) auto
    moreover have "read_elems m (?t @ CHR '']'' # r) = Some (xs, r)"
      using read_elems_dumps [OF _ assms, of m r] Cons len n by simp
    ultimately show ?thesis using n by (simp add: skip_ws_starts) (simp add: starts_value_def)
  qed (simp add: n)
qed

lemma reads_back_object:
  assumes "\<forall>p \<in> set d. json_ok (snd p) \<and> reads_back a (snd p)" "distinct (map fst d)"
  shows "reads_back a (JObj d)"
  unfolding reads_back_def
proof (intro allI impI)
  fix n r assume len: "length (dumps_plain a (JObj d)) \<le> n"
  then obtain m where n: "n = Suc m" by (cases n) auto
  show "read_value n (dumps_plain a (JObj d) @ r) = Some (JObj d, r)"
  proof (cases d)
    case (Cons p ds)
    let ?t = "py_join '','' (map (member_text a) d)"
    have t: "dumps_plain a (JObj d) = CHR ''{'' # ?t @ ''}''" by (simp only: dumps_plain.simps member_texts)
    have "\<exists>u. ?t = CHR 0x22 # u" using Cons by (cases ds) (simp_all add: quote_str_def)
    then obtain u where "?t = CHR 0x22 # u" by blast
    moreover have "read_members m (?t @ CHR ''}'' # r) = Some (d, r)"
      using read_members_dumps [OF _ assms(1), of m r] Cons len n t by simp
    ultimately show ?thesis using n assms(2) unfolding t by (simp add: dict_of_distinct)
  qed (simp add: n)
qed

lemma json_ok_reads_back: "json_ok v \<Longrightarrow> reads_back a v"
proof (induction v)
  case (JInt i)
  show ?case using conjunct1 [OF int_repr_head]
    by (rule reads_back_number [OF _ conjunct2 [OF int_repr_head] _ read_number_int]) simp_all
next
  case (JFloat v)
  then have v: "finite_decimal v" by simp
  show ?case using conjunct1 [OF float_repr_head [OF v]]
    by (rule reads_back_number [OF _ conjunct2 [OF float_repr_head [OF v]] _ read_number_float [OF v]]) simp_all
next
  case (JStr s)
  show ?case unfolding reads_back_def
    by (auto simp: quote_str_def read_string_quote dest!: Suc_le_D)
next
  case (JArr xs)
  then show ?case by (intro reads_back_array) auto
next
  case (JObj d)
  then show ?case by (intro reads_back_object) (force simp: snds.simps)+
qed (auto simp: reads_back_def startswith_def dest!: Suc_le_D)

lemma loads_dumps_plain:
  assumes "json_ok v"
  shows "loads (dumps_plain a v) = Some v"
  using json_ok_reads_back [OF assms, of a] dumps_starts [OF assms, of a "[]"]
  by (simp add: loads_def reads_back_def skip_ws_starts ends_number_def)

section \<open>The bound on nested calls is no restriction\<close>

lemma read_string_shorter: "read_string s = Some (t, r) \<Longrightarrow> length r < length s"
  by (induction s arbitrary: t rule: read_string.induct)
    (auto split: if_splits option.splits dest!: unescape_shorter, meson less_SucI less_trans)

lemma read_int_shorter: "read_int s = Some (n, r) \<Longrightarrow> length r < length s"
  by (cases s) (auto simp: read_int_def length_dropWhile_le le_imp_less_Suc split: if_splits)

lemma read_fraction_shorter: "read_fraction s = Some (f, r) \<Longrightarrow> length r \<le> length s"
  by (cases s) (auto simp: read_fraction_def Let_def length_dropWhile_le le_SucI split: if_splits)

lemma read_exponent_shorter: "read_exponent s = Some (e, r) \<Longrightarrow> length r \<le> length s"
proof (cases s)
  case (Cons c t)
  assume "read_exponent s = Some (e, r)"
  then have "r = dropWhile is_digit t \<or> r = dropWhile is_digit (tl t)"
    using Cons by (auto simp: read_exponent_def Let_def split: if_splits)
  then show ?thesis using Cons length_dropWhile_le [of is_digit t] length_dropWhile_le [of is_digit "tl t"] by auto
qed (simp add: read_exponent_def)

lemma read_number_shorter:
  assumes "read_number s = Some (v, r)"
  shows "length r < length s"
proof -
  define t where "t = (if s \<noteq> [] \<and> hd s = CHR ''-'' then tl s else s)"
  have "length t \<le> length s" by (simp add: t_def)
  moreover obtain n r0 where n: "read_int t = Some (n, r0)"
    using assms by (auto simp: read_number_def Let_def t_def split: option.splits)
  moreover have "length r \<le> length r0"
    using assms n read_fraction_shorter read_exponent_shorter
    by (auto simp: read_number_def Let_def t_def split: option.splits if_splits prod.splits)
      (meson le_trans)+
  ultimately show ?thesis using read_int_shorter [OF n] by simp
qed

lemma skip_ws_shorter: "length (skip_ws s) \<le> length s"
  by (rule length_dropWhile_le)

lemma skip_ws_Cons: "skip_ws s = c # r \<Longrightarrow> length r < length s"
  using skip_ws_shorter [of s] by simp

lemma read_shorter:
  "(\<forall>s v r. read_value n s = Some (v, r) \<longrightarrow> length r < length s) \<and>
   (\<forall>s vs r. read_elems n s = Some (vs, r) \<longrightarrow> length r < length s) \<and>
   (\<forall>s ps r. read_members n s = Some (ps, r) \<longrightarrow> length r < length s)"
proof (induction n)
  case (Suc n)
  then have val: "read_value n s = Some (v, r) \<Longrightarrow> length r < length s"
    and elems: "read_elems n s = Some (vs, r) \<Longrightarrow> length r < length s"
    and members: "read_members n s = Some (ps, r) \<Longrightarrow> length r < length s" for s v vs ps r
    by blast+
  have "length r < length s" if "read_value (Suc n) s = Some (v, r)" for s v r
  proof (cases s)
    case (Cons c t)
    have "length (tl (skip_ws t)) \<le> length t" "length (skip_ws t) \<le> length t"
      using skip_ws_shorter [of t] by simp_all
    then show ?thesis using that Cons elems [of "skip_ws t"] members [of "skip_ws t"] read_string_shorter [of t] read_number_shorter [of s v r]
      by (auto simp: Let_def startswith_def split: if_splits)
  qed (use that in simp)
  moreover have "length r < length s" if "read_elems (Suc n) s = Some (vs, r)" for s vs r
    using that val [of s] elems skip_ws_Cons skip_ws_shorter
    by (auto split: option.splits list.splits if_splits) (meson less_trans less_le_trans)+
  moreover have "length r < length s" if m: "read_members (Suc n) s = Some (ps, r)" for s ps r
  proof -
    obtain k r0 c r1 v r2 c' r3 where e: "read_string (tl s) = Some (k, r0)" "skip_ws r0 = c # r1"
      "read_value n (skip_ws r1) = Some (v, r2)" "skip_ws r2 = c' # r3"
      and last: "r = r3 \<or> (\<exists>ps'. read_members n (skip_ws r3) = Some (ps', r))"
      using m by (auto split: option.splits list.splits if_splits)
    have "length r \<le> length r3" using last members skip_ws_shorter by (meson le_refl less_imp_le less_le_trans)
    also have "\<dots> < length r2" using skip_ws_Cons [OF e(4)] .
    also have "\<dots> < length r1" using val [OF e(3)] skip_ws_shorter [of r1] by simp
    also have "\<dots> < length r0" using skip_ws_Cons [OF e(2)] .
    also have "\<dots> < length s" using read_string_shorter [OF e(1)] by simp
    finally show ?thesis .
  qed
  ultimately show ?case by blast
qed simp

text \<open>Any two bounds of at least twice the length of the text give the same reading.\<close>

lemma read_enough:
  "(\<forall>m s. 2 * length s \<le> n \<longrightarrow> 2 * length s \<le> m \<longrightarrow> read_value n s = read_value m s) \<and>
   (\<forall>m s. 2 * length s < n \<longrightarrow> 2 * length s < m \<longrightarrow> read_elems n s = read_elems m s) \<and>
   (\<forall>m s. 2 * length s < n \<longrightarrow> 2 * length s < m \<longrightarrow> read_members n s = read_members m s)"
proof (induction n)
  case 0
  have "read_value m [] = None" for m by (cases m) simp_all
  then show ?case by simp
next
  case (Suc n)
  then have val: "2 * length s \<le> n \<Longrightarrow> 2 * length s \<le> m \<Longrightarrow> read_value n s = read_value m s"
    and elems: "2 * length s < n \<Longrightarrow> 2 * length s < m \<Longrightarrow> read_elems n s = read_elems m s"
    and members: "2 * length s < n \<Longrightarrow> 2 * length s < m \<Longrightarrow> read_members n s = read_members m s" for s m
    by blast+
  have "read_value (Suc n) s = read_value m s" if len: "2 * length s \<le> Suc n" "2 * length s \<le> m" for m s
  proof (cases s)
    case Nil
    then show ?thesis by (cases m) simp_all
  next
    case (Cons c t)
    then obtain m' where m: "m = Suc m'" using len by (cases m) auto
    have "2 * length (skip_ws t) < n" "2 * length (skip_ws t) < m'"
      using len Cons m skip_ws_shorter [of t] by simp_all
    then show ?thesis using elems [of "skip_ws t" m'] members [of "skip_ws t" m'] Cons m by (simp add: Let_def)
  qed
  moreover have "read_elems (Suc n) s = read_elems m s" if len: "2 * length s < Suc n" "2 * length s < m" for m s
  proof -
    obtain m' where m: "m = Suc m'" using len by (cases m) auto
    have v: "read_value n s = read_value m' s" using val [of s m'] len m by simp
    have "read_elems n (skip_ws r') = read_elems m' (skip_ws r')"
      if step: "read_value m' s = Some (x, r)" "skip_ws r = c # r'" for x r c r'
    proof -
      have "length r < length s" using read_shorter step(1) by blast
      then have "length (skip_ws r') + 1 < length s" using skip_ws_Cons [OF step(2)] skip_ws_shorter [of r'] by simp
      then show ?thesis using len m by (intro elems) simp_all
    qed
    then show ?thesis unfolding m read_elems.simps v
      by (auto split: option.splits list.splits simp del: dropWhile_eq_Nil_conv)
  qed
  moreover have "read_members (Suc n) s = read_members m s" if len: "2 * length s < Suc n" "2 * length s < m" for m s
  proof -
    obtain m' where m: "m = Suc m'" using len by (cases m) auto
    have v: "read_value n (skip_ws r1) = read_value m' (skip_ws r1)"
      if step: "read_string (tl s) = Some (k, r)" "skip_ws r = c # r1" for k r c r1
      using read_string_shorter [OF step(1)] skip_ws_Cons [OF step(2)] skip_ws_shorter [of r1] len m
      by (intro val) simp_all
    have "read_members n (skip_ws r3) = read_members m' (skip_ws r3)"
      if step: "read_string (tl s) = Some (k, r)" "skip_ws r = c # r1" "read_value m' (skip_ws r1) = Some (x, r2)"
        "skip_ws r2 = c' # r3" for k r c r1 x r2 c' r3
    proof -
      have "length r2 < length (skip_ws r1)" using read_shorter step(3) by blast
      then show ?thesis
        using read_string_shorter [OF step(1)] skip_ws_Cons [OF step(2)] skip_ws_shorter [of r1]
          skip_ws_Cons [OF step(4)] skip_ws_shorter [of r3] len m
        by (intro members) simp_all
    qed
    with v show ?thesis unfolding m read_members.simps
      by (auto split: option.splits list.splits simp del: dropWhile_eq_Nil_conv)
  qed
  ultimately show ?case by blast
qed

lemma loads_enough:
  assumes "2 * length s \<le> n"
  shows "loads s = (case read_value n (skip_ws s) of None \<Rightarrow> None | Some (v, r) \<Rightarrow> if skip_ws r = [] then Some v else None)"
proof -
  have "read_value (2 * length s) (skip_ws s) = read_value n (skip_ws s)"
    using read_enough [of "2 * length s"] assms skip_ws_shorter [of s]
    by (meson dual_order.trans mult_le_mono2)
  then show ?thesis by (simp add: loads_def)
qed

section \<open>What is read is a value\<close>

text \<open>The numbers with a finite decimal expansion are closed under what reading a number does.\<close>

definition decimal_frac :: "rat \<Rightarrow> bool" where
  "decimal_frac r \<longleftrightarrow> (\<exists>a z. r * 10 ^ a = of_int z)"

lemma decimal_fracI: "r * 10 ^ a = of_int z \<Longrightarrow> decimal_frac r"
  by (auto simp: decimal_frac_def)

lemma decimal_frac_add:
  assumes "decimal_frac x" "decimal_frac y"
  shows "decimal_frac (x + y)"
proof -
  obtain a z b w where e: "x * 10 ^ a = of_int z" "y * 10 ^ b = of_int w" using assms by (auto simp: decimal_frac_def)
  have "(x + y) * 10 ^ (a + b) = x * 10 ^ a * 10 ^ b + y * 10 ^ b * 10 ^ a" by (simp add: power_add distrib_right)
  then have "(x + y) * 10 ^ (a + b) = of_int (z * 10 ^ b + w * 10 ^ a)" unfolding e by simp
  then show ?thesis by (rule decimal_fracI)
qed

lemma decimal_frac_mult:
  assumes "decimal_frac x" "decimal_frac y"
  shows "decimal_frac (x * y)"
proof -
  obtain a z b w where e: "x * 10 ^ a = of_int z" "y * 10 ^ b = of_int w" using assms by (auto simp: decimal_frac_def)
  have "(x * y) * 10 ^ (a + b) = (x * 10 ^ a) * (y * 10 ^ b)" by (simp add: power_add)
  then have "(x * y) * 10 ^ (a + b) = of_int (z * w)" unfolding e by simp
  then show ?thesis by (rule decimal_fracI)
qed

lemma decimal_frac_basic: "decimal_frac (of_nat n)" "decimal_frac (of_nat n / 10 ^ a)" "decimal_frac (scale10 e)"
  "decimal_frac 0" "decimal_frac x \<Longrightarrow> decimal_frac (- x)"
proof -
  show "decimal_frac (of_nat n)" by (rule decimal_fracI [of _ 0 "int n"]) simp
  show "decimal_frac (of_nat n / 10 ^ a)" by (rule decimal_fracI [of _ a "int n"]) simp
  show "decimal_frac (scale10 e)"
  proof (cases "0 \<le> e")
    case True
    then show ?thesis by (intro decimal_fracI [of _ 0 "10 ^ nat e"]) (simp add: scale10_def)
  next
    case False
    then show ?thesis by (intro decimal_fracI [of _ "nat (- e)" 1]) (simp add: scale10_def)
  qed
  show "decimal_frac 0" by (rule decimal_fracI [of _ 0 0]) simp
  show "decimal_frac (- x)" if "decimal_frac x"
    using that by (metis decimal_frac_def mult_minus_left of_int_minus)
qed

lemma decimal_frac_finite: "decimal_frac r \<Longrightarrow> finite_decimal r"
proof -
  assume "decimal_frac r"
  then obtain a z where az: "r * 10 ^ a = of_int z" by (auto simp: decimal_frac_def)
  obtain p q where pq: "quotient_of r = (p, q)" by fastforce
  have q: "0 < q" "coprime p q" using quotient_of_denom_pos [OF pq] quotient_of_coprime [OF pq] by auto
  have "r = of_int p / of_int q" using quotient_of_div [OF pq] .
  then have "of_int p = r * of_int q" using q(1) by simp
  then have "of_int (p * 10 ^ a) = (r * 10 ^ a) * of_int q" by simp
  then have "of_int (p * 10 ^ a) = (of_int (z * q) :: rat)" unfolding az by simp
  then have "p * 10 ^ a = z * q" by (simp only: of_int_eq_iff)
  then have "q dvd p * 10 ^ a" by simp
  then have "q dvd 10 ^ a" using q(2) by (metis coprime_commute coprime_dvd_mult_right_iff)
  then show "finite_decimal r" by (intro finite_decimalI) (simp add: pq)
qed

lemma read_number_ok:
  assumes "read_number s = Some (v, r)"
  shows "json_ok v"
proof -
  have frac: "read_fraction t = Some (f, r') \<Longrightarrow> decimal_frac f" for t f r'
    by (auto simp: read_fraction_def Let_def decimal_frac_basic split: list.splits if_splits)
  show ?thesis using assms
    by (auto simp: read_number_def Let_def split: option.splits if_splits prod.splits
        intro!: decimal_frac_finite decimal_frac_mult decimal_frac_add decimal_frac_basic(1,3,5) intro: frac)
qed

lemma json_ok_empty: "json_ok (JObj [])"
  by simp

lemma dict_set_ok:
  assumes "json_ok (JObj d)" "json_ok v"
  shows "json_ok (JObj (dict_set k v d))"
proof -
  have "set (AList.update k v d) \<subseteq> insert (k, v) (set d)" by (induction d) auto
  then have "\<forall>p \<in> set (AList.update k v d). json_ok (snd p)" using assms by fastforce
  then show ?thesis using assms(1) by (auto simp: dict_set_def distinct_update)
qed

lemma dict_of_ok: "\<forall>p \<in> set ps. json_ok (snd p) \<Longrightarrow> json_ok (JObj (dict_of ps))"
proof -
  have "json_ok (JObj d) \<Longrightarrow> \<forall>p \<in> set ps. json_ok (snd p) \<Longrightarrow> json_ok (JObj (fold (\<lambda>(k, v) d. dict_set k v d) ps d))" for d
    by (induction ps arbitrary: d) (auto simp del: json_ok_JObj simp: dict_set_ok)
  from this [of "[]"] show "\<forall>p \<in> set ps. json_ok (snd p) \<Longrightarrow> json_ok (JObj (dict_of ps))" by (simp add: dict_of_def)
qed

lemma read_ok:
  "(\<forall>s v r. read_value n s = Some (v, r) \<longrightarrow> json_ok v) \<and>
   (\<forall>s vs r. read_elems n s = Some (vs, r) \<longrightarrow> (\<forall>v \<in> set vs. json_ok v)) \<and>
   (\<forall>s ps r. read_members n s = Some (ps, r) \<longrightarrow> (\<forall>p \<in> set ps. json_ok (snd p)))"
proof (induction n)
  case (Suc n)
  then have val: "read_value n s = Some (v, r) \<Longrightarrow> json_ok v"
    and elems: "read_elems n s = Some (vs, r) \<Longrightarrow> \<forall>v \<in> set vs. json_ok v"
    and members: "read_members n s = Some (ps, r) \<Longrightarrow> \<forall>p \<in> set ps. json_ok (snd p)" for s v vs ps r
    by blast+
  have "json_ok v" if "read_value (Suc n) s = Some (v, r)" for s v r
    using that elems dict_of_ok [OF members] read_number_ok
    by (auto simp: Let_def json_ok_empty simp del: json_ok_JObj split: list.splits if_splits)
  moreover have "\<forall>v \<in> set vs. json_ok v" if "read_elems (Suc n) s = Some (vs, r)" for s vs r
    using that val elems by (auto split: option.splits list.splits if_splits)
  moreover have "\<forall>p \<in> set ps. json_ok (snd p)" if "read_members (Suc n) s = Some (ps, r)" for s ps r
    using that val members by (auto split: option.splits list.splits if_splits) (metis snd_conv)
  ultimately show ?case by blast
qed simp

lemma loads_ok: "loads s = Some v \<Longrightarrow> json_ok v"
  using conjunct1 [OF read_ok] by (fastforce simp: loads_def split: option.splits if_splits)

section \<open>Sorted keys\<close>

lemma canon_ok: "json_ok v \<Longrightarrow> json_ok (canon v)"
proof (induction v)
  case (JObj d)
  let ?d = "map (map_prod id canon) d"
  have "map fst ?d = map fst d" by simp
  then have "distinct (map fst ?d)" using JObj.prems by (simp only: json_ok_JObj)
  then have "distinct (map fst (sort_key fst ?d))" by (simp only: distinct_map distinct_sort set_sort)
  moreover have "json_ok (snd q)" if q: "q \<in> set ?d" for q
  proof -
    have "q \<in> map_prod id canon ` set d" using q by (simp only: set_map)
    then obtain p where p: "p \<in> set d" "q = map_prod id canon p" by (rule imageE) simp
    have "\<forall>p \<in> set d. json_ok (snd p)" using JObj.prems unfolding json_ok_JObj case_prod_unfold by (rule conjunct2)
    then have "json_ok (snd p)" using p(1) by (rule bspec)
    moreover have "snd p \<in> Basic_BNFs.snds p" by (simp add: snds.simps)
    ultimately have "json_ok (canon (snd p))" using JObj.IH p(1) by metis
    then show ?thesis using p(2) by simp
  qed
  ultimately show ?case by (simp only: canon.simps json_ok_JObj set_sort case_prod_unfold) simp
qed simp_all

lemma loads_dumps:
  "json_ok v \<Longrightarrow> loads (dumps a sort_keys v) = Some (if sort_keys then canon v else v)"
  by (simp add: dumps_def loads_dumps_plain canon_ok)

lemma dumps_inj:
  assumes "json_ok v" "json_ok w"
  shows "dumps a True v = dumps a True w \<longleftrightarrow> canon v = canon w"
proof
  assume "dumps a True v = dumps a True w"
  then have "loads (dumps a True v) = loads (dumps a True w)" by simp
  then show "canon v = canon w" unfolding loads_dumps [OF assms(1)] loads_dumps [OF assms(2)] by simp
qed (simp add: dumps_def)

lemma insort_key_map: "(\<And>x. f (h x) = f x) \<Longrightarrow> insort_key f (h x) (map h xs) = map h (insort_key f x xs)"
  by (induction xs) simp_all

lemma sort_key_map: "(\<And>x. f (h x) = f x) \<Longrightarrow> sort_key f (map h xs) = map h (sort_key f xs)"
  by (induction xs) (simp_all add: insort_key_map)

lemma sort_key_sorted: "sorted (map f xs) \<Longrightarrow> sort_key f xs = xs"
  by (induction xs) (simp_all add: insort_is_Cons)

lemma sort_key_idem [simp]: "sort_key f (sort_key f xs) = sort_key f xs"
  by (simp add: sort_key_sorted)

lemma canon_idem [simp]: "canon (canon v) = canon v"
proof (induction v)
  case (JObj d)
  have "map (map_prod id canon) (map (map_prod id canon) d) = map (map_prod id canon) d"
    using JObj by (auto simp: snds.simps)
  moreover have "sort_key fst (map (map_prod id canon) xs) = map (map_prod id canon) (sort_key fst xs)"
    for xs :: json_dict by (rule sort_key_map) simp
  ultimately show ?case by (metis canon.simps(7) sort_key_idem)
qed simp_all

abbreviation canon_dict :: "json_dict \<Rightarrow> json_dict" where
  "canon_dict d \<equiv> sort_key fst (map (map_prod id canon) d)"

lemma map_of_canon_dict:
  assumes "distinct (map fst d)"
  shows "map_of (canon_dict d) k = map_option canon (map_of d k)"
proof -
  let ?d = "map (map_prod id canon) d"
  have keys: "map fst ?d = map fst d" by simp
  then have "distinct (map fst ?d)" using assms by metis
  moreover from this have "distinct (map fst (sort_key fst ?d))" by (simp only: distinct_map distinct_sort set_sort)
  ultimately have "map_of (canon_dict d) = map_of ?d" by (simp add: map_of_inject_set)
  moreover have "map_of ?d k = map_option canon (map_of d k)" by (induction d) auto
  ultimately show ?thesis by simp
qed

lemma dict_get_canon_dict: "distinct (map fst d) \<Longrightarrow> dict_get k (canon_dict d) = canon (dict_get k d)"
  by (simp add: dict_get_def map_of_canon_dict split: option.splits)

lemma dict_get_set: "dict_get k' (dict_set k v d) = (if k' = k then v else dict_get k' d)"
  by (simp add: dict_get_def dict_set_def update_conv')

lemma dict_get_ok: "json_ok (JObj d) \<Longrightarrow> json_ok (dict_get k d)"
  by (auto simp: dict_get_def dest!: map_of_SomeD split: option.splits)

lemma dict_pop_map: "dict_pop k (map (map_prod id f) d) = map (map_prod id f) (dict_pop k d)"
  by (induction d) (auto simp: dict_pop_def)

lemma dict_pop_canon: "dict_pop k (canon_dict d) = canon_dict (dict_pop k d)"
proof -
  have "dict_pop k (sort_key fst xs) = sort_key fst (dict_pop k xs)" for xs :: json_dict
    by (simp add: dict_pop_def filter_sort)
  then show ?thesis by (simp only: dict_pop_map)
qed

lemma canon_dict_idem: "canon_dict (canon_dict d) = canon_dict d"
  using canon_idem [of "JObj d"] by simp

lemma as_simps [simp]: "as_str (canon v) = as_str v" "as_obj (canon v) = map_option canon_dict (as_obj v)"
  "as_arr (canon v) = map_option (map canon) (as_arr v)"
  by (cases v; simp)+

end
