(* ===== verification/Sse.thy ===== *)
theory Sse
  imports Json_Laws
begin

text \<open>
  Server-sent events, \<open>app/core/utils/sse.py\<close>: printing an event, reading the data of an event block,
  and the keepalive comments between events.
\<close>

section \<open>Lines\<close>

text \<open>\<open>str.splitlines()\<close>: a carriage return and a line feed after it end one line.\<close>

definition is_break :: "char \<Rightarrow> bool" where
  "is_break c =
     (let n = (of_char c :: nat) in (10 \<le> n \<and> n \<le> 13) \<or> (28 \<le> n \<and> n \<le> 30) \<or> n = 133)"

fun splitlines :: "string \<Rightarrow> string list" where
  "splitlines [] = []"
| "splitlines [c] = (if is_break c then [[]] else [[c]])"
| "splitlines (c # d # s) =
     (if c = CHR 0x0D \<and> d = CHR 0x0A then [] # splitlines s
      else if is_break c then [] # splitlines (d # s)
      else (case splitlines (d # s) of [] \<Rightarrow> [[c]] | w # ws \<Rightarrow> (c # w) # ws))"

section \<open>Reading\<close>

definition parse_sse_field :: "string \<Rightarrow> string \<times> string" where
  "parse_sse_field line =
     (case dropWhile (\<lambda>c. c \<noteq> CHR '':'') line of
        [] \<Rightarrow> (line, [])
      | _ # v \<Rightarrow>
          (takeWhile (\<lambda>c. c \<noteq> CHR '':'') line, if startswith v '' '' then drop 1 v else v))"

definition extract_sse_data_lines :: "string \<Rightarrow> string list option" where
  "extract_sse_data_lines event_block =
     (let fields = map parse_sse_field
            (filter (\<lambda>l. l \<noteq> [] \<and> \<not> startswith l '':'') (splitlines event_block));
          data_lines = map snd (filter (\<lambda>(field, _). field = ''data'') fields)
      in if data_lines = [] then None else Some data_lines)"

definition extract_sse_data :: "string \<Rightarrow> string option" where
  "extract_sse_data event_block =
     (case extract_sse_data_lines event_block of
        None \<Rightarrow> None
      | Some data_lines \<Rightarrow>
          (let data = py_join [CHR 0x0A] data_lines
           in if py_strip data = [] then None
              else if py_strip data = ''[DONE]'' then None
              else Some data))"

definition parse_sse_data_json :: "string \<Rightarrow> json_dict option" where
  "parse_sse_data_json event_block =
     (case extract_sse_data event_block of
        None \<Rightarrow> None
      | Some data \<Rightarrow> (case loads data of Some v \<Rightarrow> as_obj v | None \<Rightarrow> None))"

section \<open>Printing\<close>

definition format_sse_data :: "json_dict \<Rightarrow> string" where
  "format_sse_data payload =
     ''data: '' @ dumps True False (JObj payload) @ [CHR 0x0A, CHR 0x0A]"

definition format_sse_event :: "json_dict \<Rightarrow> string" where
  "format_sse_event payload =
     (case get_str ''type'' payload of
        Some event_type \<Rightarrow>
          if event_type \<noteq> [] then ''event: '' @ event_type @ [CHR 0x0A] @ format_sse_data payload
          else format_sse_data payload
      | None \<Rightarrow> format_sse_data payload)"

section \<open>Keepalives\<close>

text \<open>
  What the wrapper waits for: the next chunk of the source, a timeout, or the end of the source. The
  list is what happens, in order.
\<close>

datatype awaited = Chunk string | Timeout

definition SSE_KEEPALIVE_FRAME :: string where
  "SSE_KEEPALIVE_FRAME = '': keepalive'' @ [CHR 0x0A, CHR 0x0A]"

definition inject_sse_keepalives :: "rat \<Rightarrow> awaited list \<Rightarrow> string list" where
  "inject_sse_keepalives interval_seconds events =
     (if interval_seconds \<le> 0
      then List.map_filter (\<lambda>e. case e of Chunk s \<Rightarrow> Some s | Timeout \<Rightarrow> None) events
      else map (\<lambda>e. case e of Chunk s \<Rightarrow> s | Timeout \<Rightarrow> SSE_KEEPALIVE_FRAME) events)"

section \<open>Laws\<close>

lemma splitlines_line:
  assumes "\<forall>c \<in> set l. \<not> is_break c"
  shows "splitlines (l @ CHR 0x0A # s) = l # splitlines s"
  using assms
proof (induction l)
  case Nil
  then show ?case by (cases s) (simp_all add: is_break_def)
next
  case (Cons c l)
  have "\<not> is_break c" "c \<noteq> CHR 0x0D" using Cons.prems by (auto simp: is_break_def)
  moreover obtain d t where "l @ CHR 0x0A # s = d # t" by (cases l) auto
  ultimately show ?case using Cons by simp
qed

text \<open>Printed with \<open>ensure_ascii\<close> a value has only printable ASCII characters, so it is a single line.\<close>

definition printable :: "char \<Rightarrow> bool" where
  "printable c = (let n = (of_char c :: nat) in 32 \<le> n \<and> n \<le> 126)"

lemma printable_not_break: "printable c \<Longrightarrow> \<not> is_break c"
  by (auto simp: printable_def is_break_def Let_def)

lemma hex_char_printable: "n < 16 \<Longrightarrow> printable (hex_char n)"
  by (auto simp: printable_def hex_char_def Let_def)

abbreviation plain_text :: "string \<Rightarrow> bool" where
  "plain_text s \<equiv> list_all printable s"

lemma printable_marks [simp]: "printable (CHR ''.'')" "printable (CHR ''-'')" "printable (CHR ''+'')" "printable (CHR ''e'')"
  "printable (CHR ''0'')" "printable (CHR '','')" "printable (CHR '':'')" "printable (CHR 0x22)" "printable (CHR ''['')"
  "printable (CHR '']'')" "printable (CHR ''{'')" "printable (CHR ''}'')" "printable (CHR 0x5C)" "printable (CHR ''u'')"
  "printable (CHR ''b'')" "printable (CHR ''f'')" "printable (CHR ''n'')" "printable (CHR ''r'')" "printable (CHR ''t'')"
  "printable (CHR ''l'')" "printable (CHR ''a'')" "printable (CHR ''s'')"
  by (simp_all add: printable_def)

lemma escape_printable: "plain_text (escape_char True c)"
proof -
  have "(of_char c :: nat) div 16 < 16" using of_char_less [of c] by (intro less_mult_imp_div_less) simp
  then show ?thesis by (simp add: escape_char_def Let_def hex_char_printable) (simp add: printable_def)
qed

lemma quote_printable [simp]: "plain_text (quote_str True s)"
  by (induction s) (simp_all add: quote_str_def escape_printable)

lemma decimal_printable [simp]: "plain_text (decimal n)"
  using decimal_digits [of n] by (auto simp: list_all_iff is_digit_def printable_def Let_def)

lemma plain_text_parts: "plain_text s \<Longrightarrow> plain_text (take n s)" "plain_text s \<Longrightarrow> plain_text (drop n s)"
  "plain_text s \<Longrightarrow> plain_text (rstrip_by p s)"
  by (auto simp: list_all_iff rstrip_by_def dest: in_set_takeD in_set_dropD set_dropWhileD)

lemma exponent_printable: "plain_text (exponent_repr e)"
  by (simp add: exponent_repr_def Let_def)

lemma float_body_printable: "plain_text (float_body r)"
  by (simp add: float_body_def Let_def plain_text_parts exponent_printable list_all_iff [of _ "replicate _ _"])

lemma py_join_printable: "plain_text sep \<Longrightarrow> list_all plain_text xs \<Longrightarrow> plain_text (py_join sep xs)"
  by (induction sep xs rule: py_join.induct) simp_all

lemma dumps_printable: "plain_text (dumps_plain True v)"
proof (induction v)
  case (JArr xs)
  then have "plain_text (py_join '','' (map (dumps_plain True) xs))"
    by (intro py_join_printable) (simp_all add: list_all_iff)
  then show ?case by simp
next
  case (JObj d)
  have "plain_text (dumps_plain True (snd p))" if "p \<in> set d" for p
    using JObj [OF that] by (metis snds.intros)
  then have "plain_text (py_join '','' (map (member_text True) d))"
    by (intro py_join_printable) (auto simp: list_all_iff [of plain_text])
  then show ?case unfolding dumps_plain.simps member_texts by simp
qed (simp_all add: int_repr_def float_repr_def float_body_printable)

lemma py_strip_solid:
  assumes "\<not> is_space c" "\<not> is_space d"
  shows "py_strip (c # s @ [d]) = c # s @ [d]"
  using assms by (simp add: py_strip_def lstrip_by_def rstrip_by_def)

lemma extract_data_lines:
  assumes "list_all (\<lambda>l. list_all (\<lambda>c. \<not> is_break c) l \<and> fst (parse_sse_field l) \<noteq> ''data'' \<and> \<not> startswith l '':'') ls"
    and "plain_text data"
  shows "extract_sse_data_lines (concat (map (\<lambda>l. l @ [CHR 0x0A]) ls) @ ''data: '' @ data @ [CHR 0x0A, CHR 0x0A]) = Some [data]"
proof -
  have "splitlines (concat (map (\<lambda>l. l @ [CHR 0x0A]) ls) @ r) = ls @ splitlines r" for r
    using assms(1) by (induction ls) (simp_all add: splitlines_line list_all_iff)
  moreover have "splitlines (''data: '' @ data @ [CHR 0x0A, CHR 0x0A]) = [''data: '' @ data, []]"
    using splitlines_line [of "''data: '' @ data" "[CHR 0x0A]"] assms(2) printable_not_break
    by (simp add: list_all_iff is_break_def)
  moreover have "filter (\<lambda>(field, _). field = ''data'')
      (map parse_sse_field (filter (\<lambda>l. l \<noteq> [] \<and> \<not> startswith l '':'') ls)) = []"
    using assms(1) by (induction ls) (auto simp: case_prod_unfold)
  moreover have "parse_sse_field (''data: '' @ data) = (''data'', data)" "\<not> startswith (''data: '' @ data) '':''"
    by (simp_all add: parse_sse_field_def startswith_def)
  ultimately show ?thesis by (simp add: extract_sse_data_lines_def Let_def)
qed

text \<open>C40: An event that is sent is the event that is received. Printing a payload as a server-sent event and
  reading the block back gives the payload, for every payload whose type, if it is a string, has no line
  break.\<close>

theorem sse_event_roundtrip:
  assumes "json_ok (JObj payload)"
    and "\<And>t. get_str ''type'' payload = Some t \<Longrightarrow> list_all (\<lambda>c. \<not> is_break c) t"
  shows "parse_sse_data_json (format_sse_event payload) = Some payload"
proof -
  define data where "data = dumps True False (JObj payload)"
  have "\<exists>s. data = CHR ''{'' # s @ [CHR ''}'']" by (simp add: data_def dumps_def)
  then obtain s where s: "data = CHR ''{'' # s @ [CHR ''}'']" by blast
  have strip: "py_strip data = data" unfolding s by (rule py_strip_solid) (simp_all add: is_space_def)
  have plain: "plain_text data" by (simp add: data_def dumps_def dumps_printable del: dumps_plain.simps)
  have "extract_sse_data_lines (format_sse_event payload) = Some [data]"
  proof (cases "\<exists>t. get_str ''type'' payload = Some t \<and> t \<noteq> []")
    case True
    then obtain t where t: "get_str ''type'' payload = Some t" "t \<noteq> []" by blast
    have "parse_sse_field (''event: '' @ t) = (''event'', t)" by (simp add: parse_sse_field_def startswith_def)
    then show ?thesis using extract_data_lines [of "[''event: '' @ t]" data] assms(2) [OF t(1)] plain t
      by (simp add: format_sse_event_def format_sse_data_def data_def is_break_def startswith_def)
  next
    case False
    then have "format_sse_event payload = format_sse_data payload"
      by (auto simp: format_sse_event_def split: option.splits)
    then show ?thesis using extract_data_lines [of "[]" data] plain by (simp add: format_sse_data_def data_def)
  qed
  then have "extract_sse_data (format_sse_event payload) = Some data"
    using strip s by (simp add: extract_sse_data_def)
  then show ?thesis using loads_dumps [OF assms(1), of True False] by (simp add: parse_sse_data_json_def data_def)
qed

theorem sse_event_roundtrip_witness:
  "parse_sse_data_json (format_sse_event [(''type'', JStr ''ping''), (''n'', JArr [JInt 1, JFloat (5 / 2), JStr [CHR 0x0A]])]) =
     Some [(''type'', JStr ''ping''), (''n'', JArr [JInt 1, JFloat (5 / 2), JStr [CHR 0x0A]])]"
proof (rule sse_event_roundtrip)
  have "quotient_of (5 / 2) = (5, 2)" by code_simp
  then have "finite_decimal (5 / 2)" by (intro finite_decimalI [of _ 1]) simp
  then show "json_ok (JObj [(''type'', JStr ''ping''), (''n'', JArr [JInt 1, JFloat (5 / 2), JStr [CHR 0x0A]])])"
    by simp
qed (auto simp: dict_get_def is_break_def)

text \<open>Keepalives never change the events: without the comments the output is what the source produced.\<close>

lemma keepalives_transparent:
  assumes "Chunk SSE_KEEPALIVE_FRAME \<notin> set events"
  shows "filter (\<lambda>s. s \<noteq> SSE_KEEPALIVE_FRAME) (inject_sse_keepalives interval events) = inject_sse_keepalives 0 events"
  using assms by (induction events) (auto simp: inject_sse_keepalives_def map_filter_simps split: awaited.splits)

lemma keepalive_no_data: "parse_sse_data_json SSE_KEEPALIVE_FRAME = None"
  by code_simp

end
