(* ===== verification/Tool_Dedupe.thy ===== *)
theory Tool_Dedupe
  imports Sse
begin

text \<open>
  Suppressing repeated tool calls, \<open>app/modules/proxy/tool_call_dedupe.py\<close>. A model that replays a
  response may ask twice for a call with a side effect. Within one streamed response such a repetition
  is dropped downstream, repeated entries of a parallel call are cut out of its arguments, and a
  replayed history is cleaned before it is sent upstream. Validating an event against its schema is the
  argument \<open>validate\<close>.
\<close>

section \<open>Names\<close>

definition TOOL_CALL_DEDUPE_CACHE_LIMIT :: nat where
  "TOOL_CALL_DEDUPE_CACHE_LIMIT = 1024"

definition PARALLEL_TOOL_CALL_NAME :: string where
  "PARALLEL_TOOL_CALL_NAME = ''multi_tool_use.parallel''"

definition DIRECT_SIDE_EFFECT_TOOL_CALL_NAMES :: "string list" where
  "DIRECT_SIDE_EFFECT_TOOL_CALL_NAMES =
     [''apply_patch'', ''close_agent'', ''create_goal'', ''exec_command'', ''request_user_input'',
      ''resume_agent'', ''send_input'', ''spawn_agent'', ''update_goal'', ''update_plan'',
      ''wait_agent'', ''write_stdin'']"

definition SIDE_EFFECT_TOOL_CALL_NAMES :: "string list" where
  "SIDE_EFFECT_TOOL_CALL_NAMES =
     PARALLEL_TOOL_CALL_NAME # DIRECT_SIDE_EFFECT_TOOL_CALL_NAMES @
     map (\<lambda>name. ''functions.'' @ name) DIRECT_SIDE_EFFECT_TOOL_CALL_NAMES"

definition SIDE_EFFECT_TOOL_CALL_ITEM_TYPES :: "string list" where
  "SIDE_EFFECT_TOOL_CALL_ITEM_TYPES = [''apply_patch_call'']"

definition PARALLEL_TOOL_USE_DEDUPE_RECIPIENT_NAMES :: "string list" where
  "PARALLEL_TOOL_USE_DEDUPE_RECIPIENT_NAMES =
     map (\<lambda>name. ''functions.'' @ name) DIRECT_SIDE_EFFECT_TOOL_CALL_NAMES @ [''multi_tool_use.parallel'']"

definition SIDE_EFFECT_VOLATILE_ARG_KEYS :: "string list" where
  "SIDE_EFFECT_VOLATILE_ARG_KEYS = [''max_output_tokens'', ''timeout_ms'', ''yield_time_ms'']"

section \<open>Events\<close>

definition event_type_from_payload :: "('e \<Rightarrow> string) \<Rightarrow> 'e option \<Rightarrow> json_dict option \<Rightarrow> string option" where
  "event_type_from_payload type_of event payload =
     (case event of
        Some e \<Rightarrow> Some (type_of e)
      | None \<Rightarrow>
          (case payload of
             None \<Rightarrow> None
           | Some p \<Rightarrow>
               (case get_str ''type'' p of
                  Some t \<Rightarrow> Some t
                | None \<Rightarrow> if get_obj ''error'' p \<noteq> None then Some ''error'' else None)))"

definition nonempty :: "string \<Rightarrow> string option" where
  "nonempty s = (if s = [] then None else Some s)"

definition response_id_from_payload :: "json_dict option \<Rightarrow> string option" where
  "response_id_from_payload payload =
     (case payload of
        None \<Rightarrow> None
      | Some p \<Rightarrow>
          (case Option.bind (get_str ''response_id'' p) (nonempty \<circ> py_strip) of
             Some i \<Rightarrow> Some i
           | None \<Rightarrow>
               (case get_obj ''response'' p of
                  None \<Rightarrow> None
                | Some response \<Rightarrow> Option.bind (get_str ''id'' response) (nonempty \<circ> py_strip))))"

definition parse_sse_event :: "(json_dict \<Rightarrow> 'e option) \<Rightarrow> string \<Rightarrow> 'e option" where
  "parse_sse_event validate line = Option.bind (parse_sse_data_json line) validate"

section \<open>Canonical keys\<close>

definition normalize_tool_call_name :: "string option \<Rightarrow> string option" where
  "normalize_tool_call_name name = map_option (\<lambda>n. removeprefix n ''functions.'') name"

definition json_object_from_argument :: "string \<Rightarrow> json_dict option" where
  "json_object_from_argument argument_value = Option.bind (loads argument_value) as_obj"

definition canonical_json_key :: "json \<Rightarrow> string" where
  "canonical_json_key v = dumps False True v"

definition canonical_parameters_key :: "string \<Rightarrow> json_dict \<Rightarrow> string" where
  "canonical_parameters_key recipient_name parameters =
     canonical_json_key
       (JObj [(''recipient_name'', JStr recipient_name),
              (''parameters'', JObj (fold dict_pop SIDE_EFFECT_VOLATILE_ARG_KEYS parameters))])"

fun class_name :: "json \<Rightarrow> string" where
  "class_name JNull = ''NoneType''"
| "class_name (JBool _) = ''bool''"
| "class_name (JInt _) = ''int''"
| "class_name (JFloat _) = ''float''"
| "class_name (JStr _) = ''str''"
| "class_name (JArr _) = ''list''"
| "class_name (JObj _) = ''dict''"

definition canonical_wait_agent_targets :: "json \<Rightarrow> json" where
  "canonical_wait_agent_targets targets =
     (case targets of
        JArr xs \<Rightarrow> JArr (sort_key (\<lambda>x. (class_name x, canonical_json_key x)) xs)
      | _ \<Rightarrow> targets)"

definition write_stdin_parameters :: "json_dict \<Rightarrow> json_dict" where
  "write_stdin_parameters p =
     [(''session_id'', dict_get ''session_id'' p), (''chars'', dict_get ''chars'' p),
      (''yield_time_ms'', dict_get ''yield_time_ms'' p), (''max_output_tokens'', dict_get ''max_output_tokens'' p)]"

definition canonical_parallel_tool_use_key :: "json_dict \<Rightarrow> string" where
  "canonical_parallel_tool_use_key tool_use =
     (case get_str ''recipient_name'' tool_use of
        None \<Rightarrow> canonical_json_key (JObj tool_use)
      | Some recipient_name \<Rightarrow>
          (let n = removeprefix recipient_name ''functions.''
           in case get_obj ''parameters'' tool_use of
                None \<Rightarrow> canonical_json_key (JObj tool_use)
              | Some parameters \<Rightarrow>
                  if n = ''write_stdin'' then canonical_parameters_key n (write_stdin_parameters parameters)
                  else if n = ''wait_agent''
                  then canonical_json_key
                         (JObj [(''recipient_name'', JStr n),
                                (''targets'', canonical_wait_agent_targets (dict_get ''targets'' parameters))])
                  else if n = ''exec_command'' then canonical_parameters_key n parameters
                  else canonical_json_key (JObj tool_use)))"

definition opt_str :: "string option \<Rightarrow> json" where
  "opt_str s = (case s of None \<Rightarrow> JNull | Some t \<Rightarrow> JStr t)"

definition canonical_tool_use :: "json \<Rightarrow> json" where
  "canonical_tool_use v =
     (case v of
        JObj tool_use \<Rightarrow>
          (case json_object_from_argument (canonical_parallel_tool_use_key tool_use) of
             Some d \<Rightarrow> if d = [] then v else JObj d
           | None \<Rightarrow> v)
      | _ \<Rightarrow> v)"

definition canonical_side_effect_argument_key :: "string option \<Rightarrow> string \<Rightarrow> string" where
  "canonical_side_effect_argument_key item_name argument_value =
     (case json_object_from_argument argument_value of
        None \<Rightarrow> argument_value
      | Some argument \<Rightarrow>
          (let n = normalize_tool_call_name item_name
           in if n = Some ''write_stdin''
              then canonical_json_key
                     (JObj [(''name'', opt_str n), (''session_id'', dict_get ''session_id'' argument),
                            (''chars'', dict_get ''chars'' argument),
                            (''yield_time_ms'', dict_get ''yield_time_ms'' argument)])
              else if n = Some ''wait_agent''
              then canonical_json_key
                     (JObj [(''name'', opt_str n),
                            (''targets'', canonical_wait_agent_targets (dict_get ''targets'' argument))])
              else if n = Some ''exec_command'' then canonical_parameters_key ''exec_command'' argument
              else if item_name \<noteq> Some PARALLEL_TOOL_CALL_NAME
              then canonical_json_key
                     (JObj [(''name'', opt_str (if truthy_str n then n else item_name)), (''parameters'', JObj argument)])
              else
                (case get_arr ''tool_uses'' argument of
                   None \<Rightarrow> canonical_json_key (JObj argument)
                 | Some tool_uses \<Rightarrow>
                     canonical_json_key
                       (JObj (dict_set ''tool_uses'' (JArr (map canonical_tool_use tool_uses)) argument)))))"

definition canonical_downstream_side_effect_argument_key :: "string option \<Rightarrow> string \<Rightarrow> string" where
  "canonical_downstream_side_effect_argument_key item_name argument_value =
     (case json_object_from_argument argument_value of
        None \<Rightarrow> argument_value
      | Some argument \<Rightarrow>
          (let n = normalize_tool_call_name item_name
           in if n = Some ''write_stdin''
              then canonical_parameters_key ''write_stdin'' (write_stdin_parameters argument)
              else if n = Some ''exec_command'' then canonical_parameters_key ''exec_command'' argument
              else canonical_side_effect_argument_key item_name argument_value))"

section \<open>Repeated calls downstream\<close>

type_synonym dedupe_key = "string \<times> string \<times> string option \<times> string option \<times> string"

text \<open>The keys seen are a dictionary without values, in insertion order; the oldest are dropped first.\<close>

definition see :: "'k \<Rightarrow> 'k list \<Rightarrow> 'k list" where
  "see k seen = (if k \<in> set seen then seen else seen @ [k])"

definition trim_seen :: "'k list \<Rightarrow> 'k list" where
  "trim_seen seen = drop (length seen - TOOL_CALL_DEDUPE_CACHE_LIMIT) seen"

definition dedupe_recipient :: "json \<Rightarrow> (string \<times> json_dict) option" where
  "dedupe_recipient tool_use =
     (case tool_use of
        JObj d \<Rightarrow>
          (case get_str ''recipient_name'' d of
             Some n \<Rightarrow> if n \<in> set PARALLEL_TOOL_USE_DEDUPE_RECIPIENT_NAMES then Some (n, d) else None
           | None \<Rightarrow> None)
      | _ \<Rightarrow> None)"

definition tool_call_has_side_effect_arguments :: "string option \<Rightarrow> string \<Rightarrow> bool" where
  "tool_call_has_side_effect_arguments item_name argument_value =
     (if item_name \<noteq> Some PARALLEL_TOOL_CALL_NAME
      then (\<exists>n \<in> set SIDE_EFFECT_TOOL_CALL_NAMES. item_name = Some n)
      else
        (case json_object_from_argument argument_value of
           None \<Rightarrow> False
         | Some argument \<Rightarrow>
             (case get_arr ''tool_uses'' argument of
                None \<Rightarrow> False
              | Some tool_uses \<Rightarrow> list_ex (\<lambda>u. dedupe_recipient u \<noteq> None) tool_uses)))"

text \<open>One pass over the entries of a parallel call: the kept entries, the number removed, the keys.\<close>

fun keep_unseen ::
  "(string \<times> json_dict \<Rightarrow> 'k) \<Rightarrow> json list \<Rightarrow> 'k list \<Rightarrow> json list \<times> nat \<times> 'k list"
where
  "keep_unseen key [] seen = ([], 0, seen)"
| "keep_unseen key (u # us) seen =
     (case dedupe_recipient u of
        None \<Rightarrow> (case keep_unseen key us seen of (kept, removed, seen') \<Rightarrow> (u # kept, removed, seen'))
      | Some r \<Rightarrow>
          if key r \<in> set seen
          then (case keep_unseen key us seen of (kept, removed, seen') \<Rightarrow> (kept, Suc removed, seen'))
          else (case keep_unseen key us (seen @ [key r]) of (kept, removed, seen') \<Rightarrow> (u # kept, removed, seen')))"

definition parallel_use_key :: "string option \<Rightarrow> bool \<Rightarrow> string \<times> json_dict \<Rightarrow> dedupe_key" where
  "parallel_use_key response_id scope r =
     (or_str (if scope then response_id else None) [], ''parallel_tool_use'', Some (fst r), None,
      canonical_parallel_tool_use_key (snd r))"

definition mark_duplicate_parallel_tool_call_downstream_event ::
  "json_dict \<Rightarrow> string \<Rightarrow> string option \<Rightarrow> bool \<Rightarrow> dedupe_key list \<Rightarrow> bool \<times> json_dict \<times> dedupe_key list"
where
  "mark_duplicate_parallel_tool_call_downstream_event item argument_value response_id scope seen =
     (case json_object_from_argument argument_value of
        None \<Rightarrow> (False, item, seen)
      | Some argument \<Rightarrow>
          (case get_arr ''tool_uses'' argument of
             None \<Rightarrow> (False, item, seen)
           | Some tool_uses \<Rightarrow>
               (case keep_unseen (parallel_use_key response_id scope) tool_uses seen of
                  (kept, removed, seen') \<Rightarrow>
                    (let seen'' = trim_seen seen'
                     in if removed = 0 then (False, item, seen'')
                        else if kept = [] then (True, item, seen'')
                        else
                          (False,
                           dict_set ''arguments''
                             (JStr (canonical_json_key (JObj (dict_set ''tool_uses'' (JArr kept) argument)))) item,
                           seen'')))))"

definition mark_duplicate_single_tool_call ::
  "string \<Rightarrow> string option \<Rightarrow> string option \<Rightarrow> string \<Rightarrow> string option \<Rightarrow> bool \<Rightarrow> dedupe_key list \<Rightarrow> bool \<times> dedupe_key list"
where
  "mark_duplicate_single_tool_call item_type name call_id argument_value response_id scope seen =
     (let item_name = normalize_tool_call_name name;
          argument_key = canonical_downstream_side_effect_argument_key item_name argument_value;
          rid = (case response_id of Some i \<Rightarrow> i | None \<Rightarrow> []);
          key = (rid, item_type, item_name, call_id, argument_key);
          same = (rid, item_type, item_name, None, argument_key);
          cross = ([], item_type, item_name, None, argument_key)
      in if key \<in> set seen then (True, seen)
         else if \<not> scope \<and> cross \<in> set seen \<and> same \<notin> set seen then (True, seen)
         else
           (False,
            trim_seen (if scope then see same (see key seen) else see cross (see same (see key seen)))))"

definition tool_call_argument :: "string \<Rightarrow> json_dict \<Rightarrow> json" where
  "tool_call_argument item_type item =
     (if item_type = ''function_call'' then dict_get ''arguments'' item
      else if item_type = ''custom_tool_call'' then dict_get ''input'' item
      else
        (case dict_get ''operation'' item of
           JObj d \<Rightarrow> JStr (canonical_json_key (JObj d))
         | v \<Rightarrow> v))"

definition mark_duplicate_tool_call_downstream_event ::
  "json_dict option \<Rightarrow> string option \<Rightarrow> bool \<Rightarrow> dedupe_key list \<Rightarrow> bool \<times> json_dict option \<times> dedupe_key list"
where
  "mark_duplicate_tool_call_downstream_event payload response_id scope seen =
     (case payload of
        None \<Rightarrow> (False, payload, seen)
      | Some p \<Rightarrow>
          if dict_get ''type'' p \<noteq> JStr ''response.output_item.done'' then (False, payload, seen)
          else
            (case get_obj ''item'' p of
               None \<Rightarrow> (False, payload, seen)
             | Some item \<Rightarrow>
                 (case get_str ''type'' item of
                    None \<Rightarrow> (False, payload, [])
                  | Some item_type \<Rightarrow>
                      if item_type \<notin> {''function_call'', ''custom_tool_call'', ''apply_patch_call''}
                      then (False, payload, [])
                      else
                        (case as_str (tool_call_argument item_type item) of
                           None \<Rightarrow> (False, payload, seen)
                         | Some argument_value \<Rightarrow>
                             (let name = get_str ''name'' item;
                                  side_effect =
                                    item_type \<in> set SIDE_EFFECT_TOOL_CALL_ITEM_TYPES \<or>
                                    (\<exists>n \<in> set SIDE_EFFECT_TOOL_CALL_NAMES. name = Some n) \<and>
                                    tool_call_has_side_effect_arguments name argument_value
                              in if \<not> side_effect then (False, payload, [])
                                 else if name = Some PARALLEL_TOOL_CALL_NAME
                                 then
                                   (case mark_duplicate_parallel_tool_call_downstream_event item argument_value
                                           response_id scope seen of
                                      (dup, item', seen') \<Rightarrow> (dup, Some (dict_set ''item'' (JObj item') p), seen'))
                                 else
                                   (case mark_duplicate_single_tool_call item_type name (get_str ''call_id'' item)
                                           argument_value response_id scope seen of
                                      (dup, seen') \<Rightarrow> (dup, payload, seen')))))))"

section \<open>Repeated calls in a replayed history\<close>

type_synonym replay_key = "string \<times> string option \<times> string"

definition replayed_side_effect_tool_call_key :: "json_dict \<Rightarrow> replay_key option" where
  "replayed_side_effect_tool_call_key item =
     (let item_type = get_str ''type'' item; item_name = get_str ''name'' item;
          named = (\<exists>n \<in> set SIDE_EFFECT_TOOL_CALL_NAMES. item_name = Some n)
      in if item_type = Some ''function_call'' then
           (case get_str ''arguments'' item of
              None \<Rightarrow> None
            | Some argument_value \<Rightarrow>
                if named \<and> tool_call_has_side_effect_arguments item_name argument_value
                then Some (''function_call'', item_name, canonical_side_effect_argument_key item_name argument_value)
                else None)
         else if item_type = Some ''custom_tool_call'' then
           (if \<not> named then None
            else case get_str ''input'' item of
                   None \<Rightarrow> None
                 | Some argument_value \<Rightarrow>
                     Some (''custom_tool_call'', item_name, canonical_side_effect_argument_key item_name argument_value))
         else if item_type = Some ''apply_patch_call'' then
           Some (''apply_patch_call'', Some ''apply_patch_call'', canonical_json_key (dict_get ''operation'' item))
         else None)"

definition replayed_input_segment_boundary :: "json_dict \<Rightarrow> bool" where
  "replayed_input_segment_boundary item \<longleftrightarrow>
     dict_get ''role'' item \<in> {JStr ''developer'', JStr ''system'', JStr ''user''} \<and>
     dict_get ''type'' item \<in> {JNull, JStr ''message''}"

definition replayed_tool_call_segment_boundary :: "json_dict \<Rightarrow> bool" where
  "replayed_tool_call_segment_boundary item \<longleftrightarrow>
     dict_get ''type'' item \<in> {JStr ''function_call'', JStr ''custom_tool_call'', JStr ''apply_patch_call''}"

definition replayed_tool_output_call_id :: "json_dict \<Rightarrow> string option" where
  "replayed_tool_output_call_id item =
     (if dict_get ''type'' item \<notin>
           {JStr ''function_call_output'', JStr ''custom_tool_call_output'', JStr ''apply_patch_call_output''}
      then None
      else Option.bind (get_str ''call_id'' item) nonempty)"

definition assistant_message :: "string \<Rightarrow> json" where
  "assistant_message t =
     JObj [(''type'', JStr ''message''), (''role'', JStr ''assistant''),
           (''content'', JArr [JObj [(''type'', JStr ''output_text''), (''text'', JStr t)]])]"

definition replayed_tool_output_as_assistant_message :: "json_dict \<Rightarrow> json" where
  "replayed_tool_output_as_assistant_message item =
     assistant_message (case dict_get ''output'' item of JStr t \<Rightarrow> t | v \<Rightarrow> canonical_json_key v)"

definition replayed_tool_call_without_output_as_assistant_message :: "json_dict \<Rightarrow> json" where
  "replayed_tool_call_without_output_as_assistant_message item =
     assistant_message
       (''Omitted replayed side-effect tool call without matching output: '' @
        or_str (get_str ''name'' item) ''tool'' @ ''.'')"

text \<open>The outputs are handed out in order: a call takes the first output after it that is still free.\<close>

definition replayed_tool_output_index_for_call ::
  "(string \<Rightarrow> nat list) \<Rightarrow> (string \<Rightarrow> nat) \<Rightarrow> nat \<Rightarrow> string \<Rightarrow> nat option \<times> (string \<Rightarrow> nat)"
where
  "replayed_tool_output_index_for_call outputs cursors call_index call_id =
     (let indices = outputs call_id;
          cursor = cursors call_id + length (takeWhile (\<lambda>i. i < call_index) (drop (cursors call_id) indices))
      in if indices = [] then (None, cursors)
         else if length indices \<le> cursor then (None, cursors(call_id := cursor))
         else (Some (indices ! cursor), cursors(call_id := Suc cursor)))"

record replay_state =
  rp_kept :: "bool list"
  rp_rewritten :: "nat \<rightharpoonup> json"
  rp_first_call_id :: "replay_key \<rightharpoonup> string option"
  rp_first_call_index :: "replay_key \<rightharpoonup> nat"
  rp_output_index :: "nat \<rightharpoonup> nat option"
  rp_cursors :: "string \<Rightarrow> nat"
  rp_last_key :: "replay_key option"
  rp_removed :: nat

definition forget_calls :: "replay_state \<Rightarrow> replay_state" where
  "forget_calls st = st\<lparr> rp_first_call_id := Map.empty, rp_first_call_index := Map.empty, rp_last_key := None \<rparr>"

definition call_key_of :: "json \<Rightarrow> replay_key option" where
  "call_key_of item = Option.bind (as_obj item) replayed_side_effect_tool_call_key"

definition call_id_of :: "json \<Rightarrow> string option" where
  "call_id_of item = Option.bind (as_obj item) (\<lambda>d. Option.bind (get_str ''call_id'' d) nonempty)"

definition output_call_id_of :: "json \<Rightarrow> string option" where
  "output_call_id_of item = Option.bind (as_obj item) replayed_tool_output_call_id"

definition output_indices :: "json list \<Rightarrow> string \<Rightarrow> nat list" where
  "output_indices items call_id =
     filter (\<lambda>i. call_key_of (items ! i) = None \<and> output_call_id_of (items ! i) = Some call_id) [0..<length items]"

definition replay_other_item :: "json \<Rightarrow> replay_state \<Rightarrow> replay_state" where
  "replay_other_item item st =
     (let output_call_id = output_call_id_of item
      in if rp_last_key st \<noteq> None \<and> output_call_id \<noteq> None \<and>
            rp_first_call_id st (the (rp_last_key st)) = Some output_call_id then st
         else if output_call_id \<noteq> None \<or>
                 (case as_obj item of Some d \<Rightarrow> replayed_tool_call_segment_boundary d | None \<Rightarrow> False)
         then forget_calls st else st)"

definition rewrite_if_obj :: "nat \<Rightarrow> (json_dict \<Rightarrow> json) \<Rightarrow> json list \<Rightarrow> replay_state \<Rightarrow> replay_state" where
  "rewrite_if_obj i f items st =
     (case as_obj (items ! i) of
        Some d \<Rightarrow> st\<lparr> rp_rewritten := (rp_rewritten st)(i \<mapsto> f d) \<rparr>
      | None \<Rightarrow> st)"

definition replay_repeated_call :: "json list \<Rightarrow> nat \<Rightarrow> replay_key \<Rightarrow> nat option \<Rightarrow> replay_state \<Rightarrow> replay_state" where
  "replay_repeated_call items i key output_index st =
     (let st1 = (case rp_first_call_index st key of
                   Some j \<Rightarrow>
                     if rp_output_index st j = None \<or> rp_output_index st j = Some None
                     then rewrite_if_obj j replayed_tool_call_without_output_as_assistant_message items st else st
                 | None \<Rightarrow> st);
          st2 = st1\<lparr> rp_removed := Suc (rp_removed st1), rp_kept := (rp_kept st1)[i := False] \<rparr>
      in case output_index of
           Some o' \<Rightarrow> rewrite_if_obj o' replayed_tool_output_as_assistant_message items st2
         | None \<Rightarrow> st2)"

definition replay_call :: "json list \<Rightarrow> nat \<Rightarrow> replay_key \<Rightarrow> replay_state \<Rightarrow> replay_state" where
  "replay_call items i key st =
     (let st1 = (if rp_last_key st \<noteq> None \<and> Some key \<noteq> rp_last_key st
                 then st\<lparr> rp_first_call_id := Map.empty \<rparr> else st);
          call_id = call_id_of (items ! i);
          (output_index, cursors) =
            (case call_id of
               Some c \<Rightarrow> replayed_tool_output_index_for_call (output_indices items) (rp_cursors st1) i c
             | None \<Rightarrow> (None, rp_cursors st1));
          st2 = st1\<lparr> rp_last_key := Some key, rp_cursors := cursors,
                     rp_output_index := (rp_output_index st1)(i \<mapsto> output_index) \<rparr>
      in if rp_first_call_id st2 key = None
         then st2\<lparr> rp_first_call_id := (rp_first_call_id st2)(key \<mapsto> call_id),
                   rp_first_call_index := (rp_first_call_index st2)(key \<mapsto> i) \<rparr>
         else replay_repeated_call items i key output_index st2)"

definition replay_step :: "json list \<Rightarrow> nat \<Rightarrow> replay_state \<Rightarrow> replay_state" where
  "replay_step items i st =
     (let item = items ! i;
          st0 = (case as_obj item of
                   Some d \<Rightarrow> if replayed_input_segment_boundary d then forget_calls st else st
                 | None \<Rightarrow> st)
      in case call_key_of item of
           None \<Rightarrow> replay_other_item item st0
         | Some key \<Rightarrow> replay_call items i key st0)"

definition replay_init :: "json list \<Rightarrow> replay_state" where
  "replay_init items =
     \<lparr> rp_kept = replicate (length items) True, rp_rewritten = Map.empty, rp_first_call_id = Map.empty,
       rp_first_call_index = Map.empty, rp_output_index = Map.empty, rp_cursors = (\<lambda>_. 0),
       rp_last_key = None, rp_removed = 0 \<rparr>"

definition replay_scan :: "json list \<Rightarrow> replay_state" where
  "replay_scan items = fold (replay_step items) [0..<length items] (replay_init items)"

text \<open>A kept call that no output answers is turned into a note as well, when that is asked for.\<close>

definition lacks_output :: "json list \<Rightarrow> replay_state \<Rightarrow> nat \<Rightarrow> bool" where
  "lacks_output items st i \<longleftrightarrow>
     call_key_of (items ! i) \<noteq> None \<and> rp_kept st ! i \<and> rp_rewritten st i = None \<and>
     (rp_output_index st i = None \<or> rp_output_index st i = Some None) \<and> as_obj (items ! i) \<noteq> None"

definition sanitize_missing :: "json list \<Rightarrow> replay_state \<Rightarrow> replay_state" where
  "sanitize_missing items st =
     st\<lparr> rp_rewritten :=
           (\<lambda>i. if i < length items \<and> lacks_output items st i
                then Some (replayed_tool_call_without_output_as_assistant_message (the (as_obj (items ! i))))
                else rp_rewritten st i) \<rparr>"

text \<open>
  Testing whether a list or an object is a member of a set of strings raises. The first pass tests the
  type of every entry that is no call, the second the role of every entry. The result \<^const>\<open>None\<close>
  stands for the exception.
\<close>

fun hashable :: "json \<Rightarrow> bool" where
  "hashable (JArr _) = False"
| "hashable (JObj _) = False"
| "hashable _ = True"

definition field_unhashable :: "string \<Rightarrow> json \<Rightarrow> bool" where
  "field_unhashable k item \<longleftrightarrow> (case as_obj item of Some d \<Rightarrow> \<not> hashable (dict_get k d) | None \<Rightarrow> False)"

definition replay_result :: "json list \<Rightarrow> bool \<Rightarrow> json list \<times> nat" where
  "replay_result items sanitize_missing_outputs =
     (if list_all (\<lambda>item. call_key_of item = None) items then (items, 0)
      else
        let st = replay_scan items;
            missing = (if sanitize_missing_outputs
                       then length (filter (lacks_output items st) [0..<length items]) else 0);
            st' = (if sanitize_missing_outputs then sanitize_missing items st else st)
        in if rp_removed st = 0 \<and> missing = 0 then (items, 0)
           else
             (map (\<lambda>i. case rp_rewritten st' i of Some v \<Rightarrow> v | None \<Rightarrow> items ! i)
                (filter (\<lambda>i. rp_kept st ! i) [0..<length items]),
              rp_removed st + missing))"

definition dedupe_replayed_side_effect_input_items :: "json list \<Rightarrow> bool \<Rightarrow> (json list \<times> nat) option" where
  "dedupe_replayed_side_effect_input_items items sanitize_missing_outputs =
     (if list_ex (field_unhashable ''type'') items then None
      else if \<not> list_all (\<lambda>item. call_key_of item = None) items \<and> list_ex (field_unhashable ''role'') items then None
      else Some (replay_result items sanitize_missing_outputs))"

section \<open>Repeated entries of a parallel call\<close>

definition dedupe_parallel_tool_uses_argument :: "string \<Rightarrow> string \<times> bool \<times> nat" where
  "dedupe_parallel_tool_uses_argument argument_value =
     (case json_object_from_argument argument_value of
        None \<Rightarrow> (argument_value, False, 0)
      | Some decoded \<Rightarrow>
          (case get_arr ''tool_uses'' decoded of
             None \<Rightarrow> (argument_value, False, 0)
           | Some tool_uses \<Rightarrow>
               (case keep_unseen (canonical_parallel_tool_use_key \<circ> snd) tool_uses [] of
                  (deduped, removed, _) \<Rightarrow>
                    if removed = 0 then (argument_value, False, 0)
                    else (canonical_json_key (JObj (dict_set ''tool_uses'' (JArr deduped) decoded)), True, removed))))"

definition rewrite_parallel_tool_call_payload :: "json_dict option \<Rightarrow> json_dict option \<times> bool \<times> nat" where
  "rewrite_parallel_tool_call_payload payload =
     (case payload of
        None \<Rightarrow> (payload, False, 0)
      | Some p \<Rightarrow>
          if dict_get ''type'' p \<noteq> JStr ''response.output_item.done'' then (payload, False, 0)
          else
            (case get_obj ''item'' p of
               None \<Rightarrow> (payload, False, 0)
             | Some item \<Rightarrow>
                 if dict_get ''type'' item \<noteq> JStr ''function_call'' \<or>
                    dict_get ''name'' item \<noteq> JStr PARALLEL_TOOL_CALL_NAME then (payload, False, 0)
                 else
                   (case get_str ''arguments'' item of
                      None \<Rightarrow> (payload, False, 0)
                    | Some argument_value \<Rightarrow>
                        (case dedupe_parallel_tool_uses_argument argument_value of
                           (rewritten, changed, removed) \<Rightarrow>
                             if \<not> changed then (payload, False, 0)
                             else
                               (Some (dict_set ''item'' (JObj (dict_set ''arguments'' (JStr rewritten) item)) p),
                                True, removed)))))"

definition rewrite_parallel_tool_call_text ::
  "(json_dict \<Rightarrow> 'e option) \<Rightarrow> ('e \<Rightarrow> string) \<Rightarrow> string \<Rightarrow> json_dict option \<Rightarrow> string \<Rightarrow>
   string \<times> json_dict option \<times> 'e option \<times> string option \<times> string"
where
  "rewrite_parallel_tool_call_text validate type_of raw payload event_block =
     (case rewrite_parallel_tool_call_payload payload of
        (Some p, True, _) \<Rightarrow>
          (let block = format_sse_event p; event = parse_sse_event validate block
           in (dumps True False (JObj p), Some p, event, event_type_from_payload type_of event (Some p), block))
      | _ \<Rightarrow>
          (let event = parse_sse_event validate event_block
           in (raw, payload, event, event_type_from_payload type_of event payload, event_block)))"

definition rewrite_parallel_tool_call_sse_line ::
  "(json_dict \<Rightarrow> 'e option) \<Rightarrow> ('e \<Rightarrow> string) \<Rightarrow> string \<Rightarrow> json_dict option \<Rightarrow>
   string \<times> json_dict option \<times> 'e option \<times> string option"
where
  "rewrite_parallel_tool_call_sse_line validate type_of line payload =
     (case rewrite_parallel_tool_call_payload payload of
        (Some p, True, _) \<Rightarrow>
          (let block = format_sse_event p; event = parse_sse_event validate block
           in (block, Some p, event, event_type_from_payload type_of event (Some p)))
      | _ \<Rightarrow>
          (let event = parse_sse_event validate line
           in (line, payload, event, event_type_from_payload type_of event payload)))"

end
