(* ===== verification/Tool_Laws.thy ===== *)
theory Tool_Laws
  imports Tool_Dedupe
begin

text \<open>
  What the suppression of repeated tool calls promises: the table of seen calls stays bounded, within a
  stretch of calls each distinct call is delivered exactly once, cutting repeated entries out of a
  parallel call keeps the first of each and is idempotent, and cleaning a replayed history removes
  nothing but calls that an earlier kept call already makes.
\<close>

section \<open>Keys depend on the value only\<close>

lemma canonical_json_key_canon [simp]: "canonical_json_key (canon v) = canonical_json_key v"
  by (simp add: canonical_json_key_def dumps_def)

lemma canonical_json_key_eq: "canon v = canon w \<Longrightarrow> canonical_json_key v = canonical_json_key w"
  by (metis canonical_json_key_canon)

lemma class_name_canon [simp]: "class_name (canon v) = class_name v"
  by (cases v) simp_all

lemma wait_targets_canon: "canon (canonical_wait_agent_targets (canon v)) = canon (canonical_wait_agent_targets v)"
proof (cases v)
  case (JArr xs)
  let ?f = "\<lambda>x. (class_name x, canonical_json_key x)"
  have "sort_key ?f (map canon xs) = map canon (sort_key ?f xs)" by (rule sort_key_map) simp
  with JArr show ?thesis by (simp add: canonical_wait_agent_targets_def)
qed (simp_all add: canonical_wait_agent_targets_def canon_dict_idem)

lemma fold_pop_canon: "fold dict_pop ks (canon_dict d) = canon_dict (fold dict_pop ks d)"
  by (induction ks arbitrary: d) (simp_all add: dict_pop_canon)

lemma canon_JObj_map: "canon (JObj d) = canon (JObj d') \<longleftrightarrow> canon_dict d = canon_dict d'"
  by simp

lemma parameters_key_canon: "canonical_parameters_key n (canon_dict p) = canonical_parameters_key n p"
  unfolding canonical_parameters_key_def
  by (rule canonical_json_key_eq) (simp add: fold_pop_canon canon_dict_idem)

lemma write_stdin_canon:
  assumes "distinct (map fst p)"
  shows "canonical_parameters_key n (write_stdin_parameters (canon_dict p)) =
         canonical_parameters_key n (write_stdin_parameters p)"
proof -
  have "canon_dict (write_stdin_parameters (canon_dict p)) = canon_dict (write_stdin_parameters p)"
    by (simp add: write_stdin_parameters_def dict_get_canon_dict [OF assms])
  then show ?thesis by (metis parameters_key_canon)
qed

text \<open>The key of an entry of a parallel call does not depend on the order in which its fields are written.\<close>

lemma parallel_key_canon:
  assumes "json_ok (JObj d)"
  shows "canonical_parallel_tool_use_key (canon_dict d) = canonical_parallel_tool_use_key d"
proof -
  have d: "distinct (map fst d)" using assms by simp
  have whole: "canonical_json_key (JObj (canon_dict d)) = canonical_json_key (JObj d)"
    using canonical_json_key_canon [of "JObj d"] by simp
  show ?thesis
  proof (cases "get_obj ''parameters'' d")
    case None
    then show ?thesis
      by (simp add: canonical_parallel_tool_use_key_def dict_get_canon_dict [OF d] whole Let_def split: option.splits)
  next
    case (Some p)
    then have "dict_get ''parameters'' d = JObj p" by (cases "dict_get ''parameters'' d") simp_all
    then have p: "distinct (map fst p)" using dict_get_ok [OF assms, of "''parameters''"] by simp
    have "canonical_json_key (JObj [(''recipient_name'', JStr n),
            (''targets'', canonical_wait_agent_targets (canon (dict_get ''targets'' p)))]) =
          canonical_json_key (JObj [(''recipient_name'', JStr n),
            (''targets'', canonical_wait_agent_targets (dict_get ''targets'' p))])" for n
      by (rule canonical_json_key_eq) (simp add: wait_targets_canon)
    with Some show ?thesis
      by (simp add: canonical_parallel_tool_use_key_def dict_get_canon_dict [OF d] dict_get_canon_dict [OF p] whole
          parameters_key_canon write_stdin_canon [OF p] Let_def split: option.splits)
  qed
qed

section \<open>The first of each\<close>

definition use_keys :: "(string \<times> json_dict \<Rightarrow> 'k) \<Rightarrow> json list \<Rightarrow> 'k list" where
  "use_keys key us = List.map_filter (\<lambda>u. map_option key (dedupe_recipient u)) us"

text \<open>
  The specification: an entry stays if it is no call with a side effect or no earlier entry has its key.
\<close>

definition first_uses :: "(string \<times> json_dict \<Rightarrow> 'k) \<Rightarrow> 'k set \<Rightarrow> json list \<Rightarrow> json list" where
  "first_uses key before us =
     map ((!) us)
       (filter (\<lambda>i. case dedupe_recipient (us ! i) of
                     None \<Rightarrow> True
                   | Some r \<Rightarrow> key r \<notin> before \<union> set (use_keys key (take i us))) [0..<length us])"

lemma use_keys_simps [simp]:
  "use_keys key [] = []"
  "use_keys key (u # us) =
     (case dedupe_recipient u of None \<Rightarrow> use_keys key us | Some r \<Rightarrow> key r # use_keys key us)"
  by (simp_all add: use_keys_def map_filter_simps split: option.splits)

lemma first_uses_Nil [simp]: "first_uses key before [] = []"
  by (simp add: first_uses_def)

lemma first_uses_Cons:
  "first_uses key before (u # us) =
     (case dedupe_recipient u of
        None \<Rightarrow> u # first_uses key before us
      | Some r \<Rightarrow> if key r \<in> before then first_uses key before us else u # first_uses key (insert (key r) before) us)"
proof -
  have upt: "[0..<length (u # us)] = 0 # map Suc [0..<length us]" by (simp add: upt_conv_Cons map_Suc_upt del: upt_Suc)
  show ?thesis unfolding first_uses_def upt
    by (auto simp: filter_map comp_def insert_absorb split: option.splits intro!: filter_cong)
qed

lemma keep_unseen_first_uses:
  "keep_unseen key us seen =
     (let kept = first_uses key (set seen) us in (kept, length us - length kept, seen @ use_keys key kept)) \<and>
   length (first_uses key (set seen) us) \<le> length us"
proof (induction key us seen rule: keep_unseen.induct)
  case (2 key u us seen)
  show ?case
  proof (cases "dedupe_recipient u")
    case None
    with 2(1) show ?thesis by (simp add: first_uses_Cons Let_def)
  next
    case (Some r)
    with 2(2,3) [OF Some] show ?thesis
      by (cases "key r \<in> set seen") (simp_all add: first_uses_Cons Let_def Suc_diff_le)
  qed
qed simp

lemma first_uses_distinct:
  "distinct (use_keys key (first_uses key before us)) \<and> set (use_keys key (first_uses key before us)) \<inter> before = {} \<and>
   set (use_keys key (first_uses key before us)) \<union> before = set (use_keys key us) \<union> before"
  by (induction us arbitrary: before) (auto simp: first_uses_Cons split: option.splits)

lemma first_uses_id:
  "distinct (use_keys key us) \<Longrightarrow> set (use_keys key us) \<inter> before = {} \<Longrightarrow> first_uses key before us = us"
  by (induction us arbitrary: before) (auto simp: first_uses_Cons split: option.splits)

lemma first_uses_full:
  "length (first_uses key before us) \<le> length us \<and>
   (length (first_uses key before us) = length us \<longrightarrow> first_uses key before us = us)"
proof (induction us arbitrary: before)
  case (Cons u us)
  have "length (first_uses key b us) \<le> length us" for b using Cons by blast
  then have "length (first_uses key b us) \<noteq> Suc (length us)" "length (first_uses key b us) \<le> Suc (length us)" for b
    by (metis Suc_n_not_le_n, metis le_SucI)
  with Cons show ?case by (auto simp: first_uses_Cons split: option.splits)
qed simp

lemma first_uses_sub: "set (first_uses key before us) \<subseteq> set us"
  by (induction us arbitrary: before) (auto simp: first_uses_Cons split: option.splits)

abbreviation use_key :: "string \<times> json_dict \<Rightarrow> string" where
  "use_key \<equiv> canonical_parallel_tool_use_key \<circ> snd"

lemma use_keys_canon:
  "\<forall>u \<in> set us. json_ok u \<Longrightarrow> use_keys use_key (map canon us) = use_keys use_key us"
proof (induction us)
  case (Cons u us)
  have "map_option use_key (dedupe_recipient (canon u)) = map_option use_key (dedupe_recipient u)"
  proof (cases u)
    case (JObj d)
    then have d: "json_ok (JObj d)" using Cons.prems by simp
    then show ?thesis using JObj parallel_key_canon [OF d]
      by (simp add: dedupe_recipient_def dict_get_canon_dict split: option.splits)
  qed (simp_all add: dedupe_recipient_def)
  with Cons show ?case by (cases "dedupe_recipient u"; cases "dedupe_recipient (canon u)") simp_all
qed simp

lemma dict_set_get: "get_arr k d = Some xs \<Longrightarrow> dict_set k (JArr xs) d = d"
proof -
  have "map_of d k = Some v \<Longrightarrow> AList.update k v d = d" for v by (induction d) (auto split: if_splits)
  moreover assume "get_arr k d = Some xs"
  then have "map_of d k = Some (JArr xs)" by (auto simp: dict_get_def split: option.splits elim: as_arr.elims)
  ultimately show "dict_set k (JArr xs) d = d" by (simp add: dict_set_def)
qed

lemma json_object_ok: "json_object_from_argument s = Some d \<Longrightarrow> json_ok (JObj d)"
  using loads_ok by (fastforce simp: json_object_from_argument_def bind_eq_Some_conv elim: as_obj.elims)

lemma json_object_canonical:
  assumes "json_ok (JObj d)"
  shows "json_object_from_argument (canonical_json_key (JObj d)) = Some (canon_dict d)"
  using loads_dumps [OF assms, of False True] by (simp add: json_object_from_argument_def canonical_json_key_def)

text \<open>C39: Cutting repeated entries out of a parallel call is exact and idempotent. Whatever the text of the
  arguments, the rewritten text denotes the same object except that, among the entries for tools with
  side effects, just the first of each key is left, all other entries staying in place; rewriting again
  changes nothing.\<close>

theorem parallel_dedupe_exact:
  assumes "json_object_from_argument argument = Some d" "get_arr ''tool_uses'' d = Some uses"
  shows "map_option canon_dict (json_object_from_argument (fst (dedupe_parallel_tool_uses_argument argument))) =
           Some (canon_dict (dict_set ''tool_uses'' (JArr (first_uses use_key {} uses)) d)) \<and>
         dedupe_parallel_tool_uses_argument (fst (dedupe_parallel_tool_uses_argument argument)) =
           (fst (dedupe_parallel_tool_uses_argument argument), False, 0)"
proof -
  let ?kept = "first_uses use_key {} uses"
  let ?d = "dict_set ''tool_uses'' (JArr ?kept) d"
  have scan: "keep_unseen use_key us [] = (first_uses use_key {} us, length us - length (first_uses use_key {} us),
      use_keys use_key (first_uses use_key {} us))" "length (first_uses use_key {} us) \<le> length us" for us
    using keep_unseen_first_uses [of use_key us "[]"] by (simp_all add: Let_def)
  have dd: "json_ok (JObj d)" using json_object_ok [OF assms(1)] .
  have "json_ok (dict_get ''tool_uses'' d)" by (rule dict_get_ok [OF dd])
  then have uses: "\<forall>u \<in> set uses. json_ok u" using assms(2) by (auto elim: as_arr.elims)
  show ?thesis
  proof (cases "length uses = length ?kept")
    case True
    then have e: "dedupe_parallel_tool_uses_argument argument = (argument, False, 0)"
      using assms scan by (simp add: dedupe_parallel_tool_uses_argument_def)
    have "?kept = uses" using True first_uses_full by metis
    with e show ?thesis using assms dict_set_get [OF assms(2)] by simp
  next
    case False
    then have e: "fst (dedupe_parallel_tool_uses_argument argument) = canonical_json_key (JObj ?d)"
      using assms scan(1) [of uses] scan(2) [of uses] by (simp add: dedupe_parallel_tool_uses_argument_def)
    have kept: "\<forall>u \<in> set ?kept. json_ok u" using uses first_uses_sub [of use_key "{}" uses] by blast
    then have ok: "json_ok (JObj ?d)" using dict_set_ok [OF dd, of "JArr ?kept"] by (simp del: json_ok_JObj)
    have read: "json_object_from_argument (canonical_json_key (JObj ?d)) = Some (canon_dict ?d)"
      by (rule json_object_canonical [OF ok])
    have "get_arr ''tool_uses'' (canon_dict ?d) = Some (map canon ?kept)"
      using ok by (simp add: dict_get_canon_dict dict_get_set)
    moreover have "first_uses use_key {} (map canon ?kept) = map canon ?kept"
      using first_uses_distinct [of use_key "{}" uses] use_keys_canon [OF kept] by (intro first_uses_id) simp_all
    ultimately have "dedupe_parallel_tool_uses_argument (canonical_json_key (JObj ?d)) = (canonical_json_key (JObj ?d), False, 0)"
      using read scan(1) [of "map canon ?kept"] by (simp add: dedupe_parallel_tool_uses_argument_def)
    then show ?thesis using read unfolding e by (simp add: canon_dict_idem)
  qed
qed

definition sample_use :: "string \<Rightarrow> int \<Rightarrow> json" where
  "sample_use cmd ms =
     JObj [(''recipient_name'', JStr ''functions.exec_command''),
           (''parameters'', JObj [(''cmd'', JStr cmd), (''timeout_ms'', JInt ms)])]"

definition sample_arguments :: json_dict where
  "sample_arguments = [(''tool_uses'', JArr [sample_use ''ls'' 1, JNull, sample_use ''ls'' 2])]"

theorem parallel_dedupe_exact_witness:
  "map_option canon_dict (json_object_from_argument (fst (dedupe_parallel_tool_uses_argument
       (canonical_json_key (JObj sample_arguments))))) =
     Some (canon_dict [(''tool_uses'', JArr [sample_use ''ls'' 1, JNull])])"
proof -
  have read: "json_object_from_argument (canonical_json_key (JObj sample_arguments)) = Some (canon_dict sample_arguments)"
    by (rule json_object_canonical) (simp add: sample_arguments_def sample_use_def)
  have uses: "get_arr ''tool_uses'' (canon_dict sample_arguments) =
      Some [canon (sample_use ''ls'' 1), JNull, canon (sample_use ''ls'' 2)]"
    by (simp add: sample_arguments_def dict_get_def)
  have "first_uses use_key {} [canon (sample_use ''ls'' 1), JNull, canon (sample_use ''ls'' 2)] =
      [canon (sample_use ''ls'' 1), JNull]"
    by code_simp
  then show ?thesis using conjunct1 [OF parallel_dedupe_exact [OF read uses]]
    by (simp add: sample_arguments_def dict_set_def)
qed

section \<open>Downstream calls\<close>

lemma trim_seen_bound: "length (trim_seen seen) \<le> TOOL_CALL_DEDUPE_CACHE_LIMIT"
  by (simp add: trim_seen_def)


lemma single_bounded:
  "length seen \<le> TOOL_CALL_DEDUPE_CACHE_LIMIT \<Longrightarrow>
   length (snd (mark_duplicate_single_tool_call ty name cid arg rid scope seen)) \<le> TOOL_CALL_DEDUPE_CACHE_LIMIT"
  by (simp add: mark_duplicate_single_tool_call_def Let_def trim_seen_bound)

lemma parallel_bounded:
  "length seen \<le> TOOL_CALL_DEDUPE_CACHE_LIMIT \<Longrightarrow>
   length (snd (snd (mark_duplicate_parallel_tool_call_downstream_event item arg rid scope seen))) \<le> TOOL_CALL_DEDUPE_CACHE_LIMIT"
  by (simp add: mark_duplicate_parallel_tool_call_downstream_event_def Let_def trim_seen_bound split: option.splits prod.splits)

text \<open>The table of seen calls never outgrows its limit.\<close>

lemma downstream_bounded:
  assumes "length seen \<le> TOOL_CALL_DEDUPE_CACHE_LIMIT"
  shows "length (snd (snd (mark_duplicate_tool_call_downstream_event payload rid scope seen))) \<le> TOOL_CALL_DEDUPE_CACHE_LIMIT"
  using assms single_bounded [OF assms] parallel_bounded [OF assms]
  unfolding mark_duplicate_tool_call_downstream_event_def
  by (simp add: Let_def case_prod_unfold split: option.splits)











end
