(* ===== verification/Replay_Laws.thy ===== *)
theory Replay_Laws
  imports Tool_Dedupe
begin

text \<open>
  Cleaning a replayed history, the laws of \<open>dedupe_replayed_side_effect_input_items\<close>: what is removed is
  a call that an earlier kept entry already makes, what is rewritten is a call or an output, and
  everything else stays as it was and where it was.
\<close>

section \<open>The invariant of the scan\<close>

definition call_note :: "json list \<Rightarrow> nat \<Rightarrow> json" where
  "call_note items i = replayed_tool_call_without_output_as_assistant_message (the (as_obj (items ! i)))"

definition output_note :: "json list \<Rightarrow> nat \<Rightarrow> json" where
  "output_note items i = replayed_tool_output_as_assistant_message (the (as_obj (items ! i)))"

definition repeats :: "json list \<Rightarrow> (nat \<Rightarrow> bool) \<Rightarrow> nat \<Rightarrow> bool" where
  "repeats items keep i \<longleftrightarrow>
     call_key_of (items ! i) \<noteq> None \<and> (\<exists>j < i. keep j \<and> call_key_of (items ! j) = call_key_of (items ! i))"

definition noted :: "json list \<Rightarrow> nat \<Rightarrow> json \<Rightarrow> bool" where
  "noted items i v \<longleftrightarrow>
     (call_key_of (items ! i) \<noteq> None \<and> v = call_note items i) \<or>
     (output_call_id_of (items ! i) \<noteq> None \<and> v = output_note items i)"

definition scan_ok :: "json list \<Rightarrow> nat \<Rightarrow> replay_state \<Rightarrow> bool" where
  "scan_ok items n st \<longleftrightarrow>
     length (rp_kept st) = length items \<and>
     (\<forall>i < length items. \<not> rp_kept st ! i \<longrightarrow> i < n \<and> repeats items ((!) (rp_kept st)) i) \<and>
     (\<forall>k c. rp_first_call_id st k = Some c \<longrightarrow> (\<exists>j < n. rp_kept st ! j \<and> call_key_of (items ! j) = Some k)) \<and>
     (\<forall>k j. rp_first_call_index st k = Some j \<longrightarrow> call_key_of (items ! j) = Some k) \<and>
     (\<forall>i v. rp_rewritten st i = Some v \<longrightarrow> noted items i v) \<and>
     rp_removed st = length (filter (\<lambda>b. \<not> b) (rp_kept st))"

lemma scan_okD:
  assumes "scan_ok items n st"
  shows "length (rp_kept st) = length items"
    and "i < length items \<Longrightarrow> \<not> rp_kept st ! i \<Longrightarrow> i < n \<and> repeats items ((!) (rp_kept st)) i"
    and "rp_first_call_id st k = Some c \<Longrightarrow> \<exists>j < n. rp_kept st ! j \<and> call_key_of (items ! j) = Some k"
    and "rp_first_call_index st k = Some j \<Longrightarrow> call_key_of (items ! j) = Some k"
    and "rp_rewritten st i = Some v \<Longrightarrow> noted items i v"
    and "rp_removed st = length (filter (\<lambda>b. \<not> b) (rp_kept st))"
  using assms unfolding scan_ok_def by blast+

lemma scan_ok_init: "scan_ok items 0 (replay_init items)"
  by (simp add: scan_ok_def replay_init_def)

lemma scan_ok_Suc: "scan_ok items n st \<Longrightarrow> scan_ok items (Suc n) st"
  unfolding scan_ok_def by (meson less_SucI)

text \<open>Forgetting calls and the bookkeeping of outputs do not matter for the invariant.\<close>

lemma scan_ok_mono:
  assumes "scan_ok items n st" "rp_kept st' = rp_kept st" "rp_rewritten st' = rp_rewritten st" "rp_removed st' = rp_removed st"
    and "rp_first_call_id st' \<subseteq>\<^sub>m rp_first_call_id st" "rp_first_call_index st' \<subseteq>\<^sub>m rp_first_call_index st"
  shows "scan_ok items n st'"
proof -
  have "rp_first_call_id st' k = Some c \<Longrightarrow> rp_first_call_id st k = Some c" for k c
    using assms(5) by (force simp: map_le_def)
  moreover have "rp_first_call_index st' k = Some j \<Longrightarrow> rp_first_call_index st k = Some j" for k j
    using assms(6) by (force simp: map_le_def)
  ultimately show ?thesis using assms(1) unfolding scan_ok_def assms(2-4) by blast
qed

lemma scan_ok_forget: "scan_ok items n st \<Longrightarrow> scan_ok items n (forget_calls st)"
  by (erule scan_ok_mono) (simp_all add: forget_calls_def)

lemma scan_ok_other: "scan_ok items n st \<Longrightarrow> scan_ok items n (replay_other_item item st)"
  by (simp add: replay_other_item_def Let_def scan_ok_forget)

lemma scan_ok_rewrite:
  assumes "scan_ok items n st" "\<And>d. as_obj (items ! i) = Some d \<Longrightarrow> noted items i (f d)"
  shows "scan_ok items n (rewrite_if_obj i f items st)"
  using assms unfolding scan_ok_def rewrite_if_obj_def by (auto split: option.splits if_splits)

lemma call_key_obj: "call_key_of v = Some k \<Longrightarrow> \<exists>d. as_obj v = Some d"
  by (cases "as_obj v") (simp_all add: call_key_of_def)

lemma output_index_noted:
  assumes "fst (replayed_tool_output_index_for_call (output_indices items) cursors i c) = Some o'"
  shows "output_call_id_of (items ! o') = Some c"
proof -
  have "o' \<in> set (output_indices items c)"
    using assms by (auto simp: replayed_tool_output_index_for_call_def Let_def split: if_splits)
  then show ?thesis by (simp add: output_indices_def)
qed

lemma count_drop:
  assumes "i < length bs" "bs ! i"
  shows "length (filter (\<lambda>b. \<not> b) (bs[i := False])) = Suc (length (filter (\<lambda>b. \<not> b) bs))"
  using assms
proof (induction bs arbitrary: i)
  case (Cons b bs)
  then show ?case by (cases i) simp_all
qed simp

lemma scan_ok_drop:
  assumes ok: "scan_ok items i st" and i: "i < length items" and key: "call_key_of (items ! i) = Some key"
    and first: "rp_first_call_id st key = Some c"
  shows "scan_ok items (Suc i) (st\<lparr> rp_removed := Suc (rp_removed st), rp_kept := (rp_kept st)[i := False] \<rparr>)"
proof -
  note D = scan_okD [OF ok]
  let ?kept = "(rp_kept st)[i := False]"
  have kept_i: "rp_kept st ! i" using D(2) [OF i] by blast
  have same: "?kept ! j = rp_kept st ! j" if "j < i" for j using that by simp
  have "j < Suc i \<and> repeats items ((!) ?kept) j" if j: "j < length items" "\<not> ?kept ! j" for j
  proof (cases "j = i")
    case True
    obtain j' where "j' < i" "rp_kept st ! j'" "call_key_of (items ! j') = Some key" using D(3) [OF first] by blast
    then show ?thesis using True key same by (auto simp: repeats_def)
  next
    case False
    then have "\<not> rp_kept st ! j" using j by simp
    then have "j < i" "repeats items ((!) (rp_kept st)) j" using D(2) [OF j(1)] by blast+
    then show ?thesis using same unfolding repeats_def by (metis less_SucI less_trans)
  qed
  moreover have "\<exists>j < Suc i. ?kept ! j \<and> call_key_of (items ! j) = Some k" if "rp_first_call_id st k = Some c'" for k c'
    using D(3) [OF that] same less_SucI by metis
  moreover have "length (filter (\<lambda>b. \<not> b) ?kept) = Suc (rp_removed st)"
    using count_drop [of i "rp_kept st"] i D(1,6) kept_i by simp
  ultimately show ?thesis using D(1,4,5) unfolding scan_ok_def by simp
qed

lemma scan_ok_repeated:
  assumes ok: "scan_ok items i st" and i: "i < length items" and key: "call_key_of (items ! i) = Some key"
    and first: "rp_first_call_id st key = Some c"
    and out: "\<And>o'. output_index = Some o' \<Longrightarrow> output_call_id_of (items ! o') \<noteq> None"
  shows "scan_ok items (Suc i) (replay_repeated_call items i key output_index st)"
proof -
  define st1 where "st1 = (case rp_first_call_index st key of
      Some j \<Rightarrow> if rp_output_index st j = None \<or> rp_output_index st j = Some None
        then rewrite_if_obj j replayed_tool_call_without_output_as_assistant_message items st else st
    | None \<Rightarrow> st)"
  have "scan_ok items i st1"
  proof (cases "rp_first_call_index st key")
    case (Some j)
    then have "call_key_of (items ! j) = Some key" using scan_okD(4) [OF ok] by blast
    then have "scan_ok items i (rewrite_if_obj j replayed_tool_call_without_output_as_assistant_message items st)"
      by (intro scan_ok_rewrite [OF ok]) (simp add: noted_def call_note_def)
    with Some ok show ?thesis by (simp add: st1_def)
  qed (simp add: st1_def ok)
  moreover have "rp_first_call_id st1 = rp_first_call_id st" "rp_removed st1 = rp_removed st"
    by (simp_all add: st1_def rewrite_if_obj_def split: option.splits)
  ultimately have dropped: "scan_ok items (Suc i) (st1\<lparr> rp_removed := Suc (rp_removed st1), rp_kept := (rp_kept st1)[i := False] \<rparr>)"
    using scan_ok_drop [OF _ i key] first by metis
  show ?thesis
  proof (cases output_index)
    case None
    then show ?thesis using dropped by (simp add: replay_repeated_call_def Let_def st1_def)
  next
    case (Some o')
    then have "noted items o' (replayed_tool_output_as_assistant_message d)" if "as_obj (items ! o') = Some d" for d
      using out [OF Some] that by (simp add: noted_def output_note_def)
    from scan_ok_rewrite [OF dropped this] Some show ?thesis
      by (simp add: replay_repeated_call_def Let_def flip: st1_def)
  qed
qed

lemma scan_ok_call:
  assumes ok: "scan_ok items i st" and i: "i < length items" and key: "call_key_of (items ! i) = Some key"
  shows "scan_ok items (Suc i) (replay_call items i key st)"
proof -
  define st1 where "st1 = (if rp_last_key st \<noteq> None \<and> Some key \<noteq> rp_last_key st
      then st\<lparr> rp_first_call_id := Map.empty \<rparr> else st)"
  define oc where "oc = (case call_id_of (items ! i) of
      Some c \<Rightarrow> replayed_tool_output_index_for_call (output_indices items) (rp_cursors st1) i c
    | None \<Rightarrow> (None, rp_cursors st1))"
  define st2 where "st2 = st1\<lparr> rp_last_key := Some key, rp_cursors := snd oc,
      rp_output_index := (rp_output_index st1)(i \<mapsto> fst oc) \<rparr>"
  have out: "output_call_id_of (items ! o') \<noteq> None" if "fst oc = Some o'" for o'
    using that output_index_noted by (fastforce simp: oc_def split: option.splits)
  have st1: "scan_ok items i st1" using scan_ok_mono [OF ok, of st1] by (simp add: st1_def)
  have st2: "scan_ok items i st2" using scan_ok_mono [OF st1, of st2] by (simp add: st2_def)
  have call: "replay_call items i key st = (if rp_first_call_id st2 key = None
      then st2\<lparr> rp_first_call_id := (rp_first_call_id st2)(key \<mapsto> call_id_of (items ! i)),
                rp_first_call_index := (rp_first_call_index st2)(key \<mapsto> i) \<rparr>
      else replay_repeated_call items i key (fst oc) st2)"
    by (simp only: replay_call_def Let_def case_prod_unfold oc_def st1_def st2_def)
  show ?thesis
  proof (cases "rp_first_call_id st2 key")
    case None
    have "rp_kept st2 ! i" using scan_okD(2) [OF st2 i] by blast
    then show ?thesis using scan_ok_Suc [OF st2] key unfolding call None scan_ok_def by auto
  next
    case (Some c)
    then show ?thesis using scan_ok_repeated [OF st2 i key Some out] unfolding call by simp
  qed
qed

lemma scan_ok_step:
  assumes "scan_ok items i st" "i < length items"
  shows "scan_ok items (Suc i) (replay_step items i st)"
proof -
  define st0 where "st0 = (case as_obj (items ! i) of
      Some d \<Rightarrow> if replayed_input_segment_boundary d then forget_calls st else st | None \<Rightarrow> st)"
  have ok: "scan_ok items i st0" using assms(1) by (simp add: st0_def scan_ok_forget split: option.splits)
  show ?thesis
  proof (cases "call_key_of (items ! i)")
    case None
    then show ?thesis using scan_ok_Suc [OF scan_ok_other [OF ok]] by (simp add: replay_step_def Let_def flip: st0_def)
  next
    case (Some key)
    then show ?thesis using scan_ok_call [OF ok assms(2) Some] by (simp add: replay_step_def Let_def flip: st0_def)
  qed
qed

lemma scan_ok_scan: "scan_ok items (length items) (replay_scan items)"
proof -
  have "n \<le> length items \<Longrightarrow> scan_ok items n (fold (replay_step items) [0..<n] (replay_init items))" for n
    by (induction n) (simp_all add: scan_ok_init scan_ok_step)
  then show ?thesis by (simp add: replay_scan_def)
qed

section \<open>The result\<close>

lemma sanitized_noted:
  assumes "scan_ok items n st" "rp_rewritten (sanitize_missing items st) i = Some v"
  shows "noted items i v"
proof (cases "i < length items \<and> lacks_output items st i")
  case True
  then show ?thesis using assms(2) by (auto simp: sanitize_missing_def noted_def call_note_def lacks_output_def)
next
  case False
  then have "rp_rewritten st i = Some v" using assms(2) by (auto simp: sanitize_missing_def)
  then show ?thesis by (rule scan_okD(5) [OF assms(1)])
qed

text \<open>C38: Cleaning a replayed history is safe. When the history can be read at all, the cleaned history is
  the old one in the same order with some entries left out and some rewritten; every entry left out is a
  call with a side effect for which an equal call stands earlier in the result's history; every entry
  rewritten is such a call or the output of a call, and it is replaced by the note that says so; every
  other entry is unchanged.\<close>

theorem replay_removes_only_repetitions:
  assumes "dedupe_replayed_side_effect_input_items items sanitize = Some (out, n)"
  shows "\<exists>keep f. out = map f (filter keep [0..<length items]) \<and>
    (\<forall>i < length items. \<not> keep i \<longrightarrow> repeats items keep i) \<and>
    (\<forall>i < length items. f i = items ! i \<or> noted items i (f i))"
proof -
  have r: "replay_result items sanitize = (out, n)"
    using assms by (simp add: dedupe_replayed_side_effect_input_items_def split: if_splits)
  show ?thesis
  proof (cases "out = items")
    case True
    then show ?thesis by (intro exI [of _ "\<lambda>_. True"] exI [of _ "(!) items"]) (simp add: map_nth)
  next
    case False
    define st where "st = replay_scan items"
    define st' where "st' = (if sanitize then sanitize_missing items st else st)"
    have ok: "scan_ok items (length items) st" by (simp add: st_def scan_ok_scan)
    have out: "out = map (\<lambda>i. case rp_rewritten st' i of Some v \<Rightarrow> v | None \<Rightarrow> items ! i)
        (filter (\<lambda>i. rp_kept st ! i) [0..<length items])"
      using r False by (auto simp: replay_result_def Let_def st_def st'_def split: if_splits)
    have "noted items i v" if "rp_rewritten st' i = Some v" for i v
      using that scan_okD(5) [OF ok] sanitized_noted [OF ok] by (auto simp: st'_def split: if_splits)
    then show ?thesis using out scan_okD(2) [OF ok]
      by (intro exI [of _ "(!) (rp_kept st)"] exI [of _ "\<lambda>i. case rp_rewritten st' i of Some v \<Rightarrow> v | None \<Rightarrow> items ! i"])
        (auto split: option.splits)
  qed
qed

definition sample_replayed :: "json list" where
  "sample_replayed =
     [JObj [(''type'', JStr ''apply_patch_call''), (''call_id'', JStr ''c1''), (''operation'', JNull)],
      JObj [(''type'', JStr ''apply_patch_call''), (''call_id'', JStr ''c2''), (''operation'', JNull)],
      JObj [(''role'', JStr ''user'')]]"

lemma sample_replayed_result:
  "dedupe_replayed_side_effect_input_items sample_replayed False =
     Some ([call_note sample_replayed 0, sample_replayed ! 2], 1)"
  by code_simp

theorem replay_removes_only_repetitions_witness:
  "\<exists>keep f. [call_note sample_replayed 0, sample_replayed ! 2] = map f (filter keep [0..<length sample_replayed]) \<and>
    (\<forall>i < length sample_replayed. \<not> keep i \<longrightarrow> repeats sample_replayed keep i) \<and>
    (\<forall>i < length sample_replayed. f i = sample_replayed ! i \<or> noted sample_replayed i (f i))"
  by (rule replay_removes_only_repetitions [OF sample_replayed_result])

text \<open>An entry whose type is a list makes the cleaning raise.\<close>

lemma replay_unhashable_type:
  "dedupe_replayed_side_effect_input_items [JObj [(''type'', JArr [])]] sanitize = None"
  by (simp add: dedupe_replayed_side_effect_input_items_def field_unhashable_def dict_get_def)

end
