(* ===== verification/Ws_Events.thy ===== *)
theory Ws_Events
  imports Tool_Dedupe Load_Balancer
begin

text \<open>
  The events an upstream websocket delivers, as the proxy reads them: the parsed event of
  \<open>core/openai/models.py\<close>, the error events of \<open>core/errors.py\<close>, the classification of failures of
  \<open>modules/proxy/helpers.py\<close>, and the helpers of \<open>modules/proxy/service.py\<close> that find the response id,
  the error and the lost predecessor an event names. Whether a payload is a valid event is decided by a
  schema library; its verdict is an argument, a function from payloads to parsed events.
\<close>

section \<open>Parsed events\<close>

record openai_error =
  oe_message :: "string option"
  oe_type :: "string option"
  oe_code :: "string option"
  oe_param :: "string option"
  oe_plan_type :: "string option"
  oe_resets_at :: "rat option"
  oe_resets_in_seconds :: "rat option"

record response_usage_details =
  ud_cached_tokens :: "int option"
  ud_reasoning_tokens :: "int option"

record response_usage =
  ru_input_tokens :: "int option"
  ru_output_tokens :: "int option"
  ru_total_tokens :: "int option"
  ru_input_tokens_details :: "response_usage_details option"
  ru_output_tokens_details :: "response_usage_details option"

record openai_response =
  rsp_id :: "string option"
  rsp_status :: "string option"
  rsp_error :: "openai_error option"
  rsp_usage :: "response_usage option"

record openai_event =
  ev_type :: string
  ev_response :: "openai_response option"
  ev_error :: "openai_error option"

type_synonym validator = "json_dict \<Rightarrow> openai_event option"

section \<open>Error events\<close>

definition openai_error_detail :: "string \<Rightarrow> string \<Rightarrow> string \<Rightarrow> json_dict" where
  "openai_error_detail code message error_type =
     [(''message'', JStr message), (''type'', JStr error_type), (''code'', JStr code)]"

definition openai_error_envelope :: "string \<Rightarrow> string \<Rightarrow> string \<Rightarrow> json_dict" where
  "openai_error_envelope code message error_type = [(''error'', JObj (openai_error_detail code message error_type))]"

definition response_failed_event ::
  "int \<Rightarrow> string \<Rightarrow> string \<Rightarrow> string \<Rightarrow> string option \<Rightarrow> string option \<Rightarrow> json_dict"
where
  "response_failed_event created_at code message error_type response_id error_param =
     (let error0 = openai_error_detail code message error_type;
          error = (if truthy_str error_param then error0 @ [(''param'', JStr (the error_param))] else error0);
          response0 = [(''object'', JStr ''response''), (''status'', JStr ''failed''), (''error'', JObj error),
                       (''incomplete_details'', JNull)];
          response = (if truthy_str response_id then response0 @ [(''id'', JStr (the response_id))] else response0)
      in [(''type'', JStr ''response.failed''),
          (''response'', JObj (response @ [(''created_at'', JInt created_at)]))])"

section \<open>Failures of the upstream\<close>

definition RATE_LIMIT_CODES :: "string list" where
  "RATE_LIMIT_CODES = [''rate_limit_exceeded'', ''usage_limit_reached'']"

definition QUOTA_CODES :: "string list" where
  "QUOTA_CODES = [''insufficient_quota'', ''usage_not_included'', ''quota_exceeded'']"

definition TRANSIENT_CODES :: "string list" where
  "TRANSIENT_CODES = [''server_error'', ''upstream_error'', ''stream_incomplete'', ''overloaded_error'']"

definition classify_upstream_failure :: "string \<Rightarrow> int option \<Rightarrow> failure_class" where
  "classify_upstream_failure error_code http_status =
     (if error_code \<in> set RATE_LIMIT_CODES then Rate_Limit
      else if error_code \<in> set QUOTA_CODES then Quota
      else if error_code \<in> set TRANSIENT_CODES \<or> (case http_status of Some s \<Rightarrow> 500 \<le> s | None \<Rightarrow> False)
      then Retryable_Transient
      else Non_Retryable)"

definition normalize_error_code :: "string option \<Rightarrow> string option \<Rightarrow> string" where
  "normalize_error_code code error_type =
     (let v = (if truthy_str code then code else error_type)
      in if truthy_str v then py_lower (the v) else ''upstream_error'')"

definition upstream_error_from_openai :: "openai_error option \<Rightarrow> upstream_error" where
  "upstream_error_from_openai error =
     (case error of
        None \<Rightarrow> \<lparr> ue_message = None, ue_resets_at = None, ue_resets_in_seconds = None \<rparr>
      | Some e \<Rightarrow> \<lparr> ue_message = oe_message e, ue_resets_at = oe_resets_at e,
                    ue_resets_in_seconds = oe_resets_in_seconds e \<rparr>)"

abbreviation message_only :: "string \<Rightarrow> upstream_error" where
  "message_only m \<equiv> \<lparr> ue_message = Some m, ue_resets_at = None, ue_resets_in_seconds = None \<rparr>"

definition TRANSPARENT_REPLAY_ERROR_CODES :: "string list" where
  "TRANSPARENT_REPLAY_ERROR_CODES =
     [''rate_limit_exceeded'', ''usage_limit_reached'', ''insufficient_quota'', ''usage_not_included'',
      ''quota_exceeded'']"

definition ACCOUNT_RECOVERY_RETRY_CODES :: "string list" where
  "ACCOUNT_RECOVERY_RETRY_CODES =
     [''rate_limit_exceeded'', ''usage_limit_reached'', ''insufficient_quota'', ''usage_not_included'',
      ''quota_exceeded''] @ map fst PERMANENT_FAILURE_CODES"

definition TRANSIENT_RETRY_CODES :: "string list" where
  "TRANSIENT_RETRY_CODES =
     [''server_error'', ''stream_incomplete'', ''stream_idle_timeout'', ''upstream_request_timeout'']"

definition should_penalize_stream_error :: "string option \<Rightarrow> bool" where
  "should_penalize_stream_error code \<longleftrightarrow>
     (case code of
        None \<Rightarrow> False
      | Some c \<Rightarrow> c \<in> set ACCOUNT_RECOVERY_RETRY_CODES \<or> c \<in> set TRANSIENT_RETRY_CODES)"

definition is_account_neutral_error_code :: "string \<Rightarrow> bool" where
  "is_account_neutral_error_code code \<longleftrightarrow> code = ''proxy_overloaded'' \<or> code = ''proxy_unavailable''"

definition handle_stream_error ::
  "seconds \<Rightarrow> rat \<Rightarrow> account \<Rightarrow> upstream_error \<Rightarrow> string \<Rightarrow> int option \<Rightarrow> load_balancer \<Rightarrow> failure_class \<times> load_balancer"
where
  "handle_stream_error now jitter account error code http_status lb =
     (let classified = classify_upstream_failure code http_status
      in (classified,
          if is_account_neutral_error_code code then lb
          else if classified = Rate_Limit then fst (mark_rate_limit now jitter error account lb)
          else if classified = Quota then fst (mark_quota_exceeded now error account lb)
          else if code \<in> set (map fst PERMANENT_FAILURE_CODES) then fst (mark_permanent_failure now code account lb)
          else record_error now account lb))"

section \<open>Reading an event\<close>

definition stripped :: "string option \<Rightarrow> string option" where
  "stripped s = Option.bind s (\<lambda>t. nonempty (py_strip t))"

definition websocket_response_id :: "openai_event option \<Rightarrow> json_dict option \<Rightarrow> string option" where
  "websocket_response_id event payload =
     (case Option.bind event (\<lambda>e. Option.bind (ev_response e) (\<lambda>r. Option.bind (rsp_id r) nonempty)) of
        Some i \<Rightarrow> Some i
      | None \<Rightarrow>
          (case payload of
             None \<Rightarrow> None
           | Some p \<Rightarrow>
               (case stripped (get_str ''response_id'' p) of
                  Some i \<Rightarrow> Some i
                | None \<Rightarrow>
                    (case get_obj ''response'' p of
                       None \<Rightarrow> None
                     | Some response \<Rightarrow> stripped (get_str ''id'' response)))))"

definition websocket_event_error_payload :: "string option \<Rightarrow> json_dict option \<Rightarrow> json_dict option" where
  "websocket_event_error_payload event_type payload =
     (case payload of
        None \<Rightarrow> None
      | Some p \<Rightarrow>
          if event_type = Some ''error'' then get_obj ''error'' p
          else if event_type = Some ''response.failed''
          then Option.bind (get_obj ''response'' p) (get_obj ''error'')
          else None)"

definition websocket_event_error_field ::
  "string \<Rightarrow> string option \<Rightarrow> json_dict option \<Rightarrow> string option"
where
  "websocket_event_error_field field event_type payload =
     stripped (Option.bind (websocket_event_error_payload event_type payload) (get_str field))"

definition websocket_event_error_code :: "string option \<Rightarrow> json_dict option \<Rightarrow> string option" where
  "websocket_event_error_code = websocket_event_error_field ''code''"

definition websocket_event_error_type :: "string option \<Rightarrow> json_dict option \<Rightarrow> string option" where
  "websocket_event_error_type = websocket_event_error_field ''type''"

definition websocket_event_error_param :: "string option \<Rightarrow> json_dict option \<Rightarrow> string option" where
  "websocket_event_error_param = websocket_event_error_field ''param''"

definition websocket_event_error_message :: "string option \<Rightarrow> json_dict option \<Rightarrow> string option" where
  "websocket_event_error_message = websocket_event_error_field ''message''"

definition response_output_item_done_function_call_id :: "json_dict option \<Rightarrow> string option" where
  "response_output_item_done_function_call_id payload =
     (case payload of
        None \<Rightarrow> None
      | Some p \<Rightarrow>
          if dict_get ''type'' p \<noteq> JStr ''response.output_item.done'' then None
          else
            (case get_obj ''item'' p of
               None \<Rightarrow> None
             | Some item \<Rightarrow>
                 if dict_get ''type'' item \<noteq> JStr ''function_call'' then None
                 else Option.bind (get_str ''call_id'' item) nonempty))"

definition normalize_service_tier_value :: "json \<Rightarrow> string option" where
  "normalize_service_tier_value v =
     (case stripped (as_str v) of
        None \<Rightarrow> None
      | Some t \<Rightarrow> if py_lower t = ''fast'' then Some ''priority'' else Some t)"

definition service_tier_from_event_payload :: "json_dict option \<Rightarrow> string option" where
  "service_tier_from_event_payload payload =
     Option.bind payload (\<lambda>p. Option.bind (get_obj ''response'' p)
       (\<lambda>response. normalize_service_tier_value (dict_get ''service_tier'' response)))"

section \<open>Lost predecessors\<close>

text \<open>
  Messages are compared after joining their words by single spaces. The two regular expressions of the
  code search the joined message from the left; after joining, every \<open>\s+\<close> in them stands for one space.
\<close>

function words_of :: "string \<Rightarrow> string list" where
  "words_of s =
     (let t = dropWhile is_space s
      in if t = [] then [] else takeWhile (\<lambda>c. \<not> is_space c) t # words_of (dropWhile (\<lambda>c. \<not> is_space c) t))"
  by pat_completeness auto

termination
proof (relation "measure length")
  fix s t :: string
  assume t: "t = dropWhile is_space s" "t \<noteq> []"
  then have "\<not> is_space (hd t)" using hd_dropWhile [of is_space s] by simp
  then have "length (dropWhile (\<lambda>c. \<not> is_space c) t) < length t"
    using t(2) by (cases t) (simp_all add: length_dropWhile_le le_imp_less_Suc)
  also have "length t \<le> length s" unfolding t(1) by (rule length_dropWhile_le)
  finally show "(dropWhile (\<lambda>c. \<not> is_space c) t, s) \<in> measure length" by simp
qed simp

declare words_of.simps [simp del]

definition joined :: "string \<Rightarrow> string" where
  "joined message = py_join '' '' (words_of message)"

definition is_previous_response_not_found_message :: "string option \<Rightarrow> bool" where
  "is_previous_response_not_found_message message \<longleftrightarrow>
     (case message of
        None \<Rightarrow> False
      | Some m \<Rightarrow>
          (let normalized = joined (py_lower m)
           in py_in ''previous response'' normalized \<and> py_in ''not found'' normalized))"

definition is_quote :: "char \<Rightarrow> bool" where
  "is_quote c \<longleftrightarrow> c = CHR 0x27 \<or> c = CHR 0x22"

definition not_found_at :: "string \<Rightarrow> string option" where
  "not_found_at s =
     (let p = ''previous response with id ''
      in if \<not> startswith (py_lower s) p then None
         else
           (case drop (length p) s of
              [] \<Rightarrow> None
            | q # r \<Rightarrow>
                (let response_id = takeWhile (\<lambda>c. \<not> is_quote c) r; rest = drop (length response_id) r
                 in if is_quote q \<and> response_id \<noteq> [] \<and> rest \<noteq> [] \<and> startswith (py_lower (tl rest)) '' not found''
                    then Some response_id else None)))"

fun first_some :: "(string \<Rightarrow> 'a option) \<Rightarrow> string \<Rightarrow> 'a option" where
  "first_some f [] = f []"
| "first_some f (c # s) = (case f (c # s) of Some v \<Rightarrow> Some v | None \<Rightarrow> first_some f s)"

definition previous_response_id_from_not_found_message :: "string option \<Rightarrow> string option" where
  "previous_response_id_from_not_found_message message =
     stripped (Option.bind message (\<lambda>m. first_some not_found_at (joined m)))"

definition identifier_char :: "char \<Rightarrow> bool" where
  "identifier_char c \<longleftrightarrow>
     (CHR ''A'' \<le> c \<and> c \<le> CHR ''Z'') \<or> (CHR ''a'' \<le> c \<and> c \<le> CHR ''z'') \<or>
     (CHR ''0'' \<le> c \<and> c \<le> CHR ''9'') \<or> c = CHR ''_'' \<or> c = CHR ''-''"

definition mentions_at :: "string \<Rightarrow> string \<Rightarrow> nat \<Rightarrow> bool" where
  "mentions_at ident message k \<longleftrightarrow>
     startswith (drop k message) ident \<and>
     (k = 0 \<or> \<not> identifier_char (message ! (k - 1))) \<and>
     (k + length ident = length message \<or> \<not> identifier_char (message ! (k + length ident)))"

definition message_mentions_previous_response_id :: "string option \<Rightarrow> string option \<Rightarrow> bool" where
  "message_mentions_previous_response_id message previous_response_id \<longleftrightarrow>
     (case message of
        None \<Rightarrow> False
      | Some m \<Rightarrow>
          (case stripped previous_response_id of
             None \<Rightarrow> False
           | Some ident \<Rightarrow> list_ex (mentions_at ident (joined m)) [0..<Suc (length (joined m))]))"

definition is_missing_tool_output_error :: "string option \<Rightarrow> string option \<Rightarrow> string option \<Rightarrow> bool" where
  "is_missing_tool_output_error code param message \<longleftrightarrow>
     (if code \<noteq> Some ''invalid_request_error'' \<or> param \<noteq> Some ''input'' then False
      else
        (case message of
           None \<Rightarrow> False
         | Some m \<Rightarrow> startswith (joined (py_lower m)) ''no tool output found for function call call_''))"

definition is_previous_response_not_found_error :: "string option \<Rightarrow> string option \<Rightarrow> string option \<Rightarrow> bool" where
  "is_previous_response_not_found_error code param message \<longleftrightarrow>
     (if code = Some ''previous_response_not_found'' then True
      else if code \<noteq> Some ''invalid_request_error'' \<or> param \<noteq> Some ''previous_response_id'' then False
      else is_previous_response_not_found_message message)"

end
