(* ===== verification/Ws_Requests.thy ===== *)
theory Ws_Requests
  imports Ws_Events
begin

text \<open>
  The requests pending on one upstream websocket (\<open>modules/proxy/service.py\<close>): the state kept for each
  request, the matching of events to requests, and taking requests off the queue. The queue is a list of
  request states. The functions of the code hand out references to queued states; here a state is a value
  and an update of a queued state goes through the queue. A request id is a fresh identifier, so that
  equal states are one state.
\<close>

section \<open>Request states\<close>

record reservation_data =
  rd_reservation_id :: string
  rd_key_id :: string
  rd_model :: string

text \<open>
  The gate and the admission lease of a request are held or not; the heartbeat of its reservation runs or
  not; its event queue, if it has one, is where the events of a request made over HTTP go.
\<close>

record ws_request =
  wr_request_id :: string
  wr_model :: "string option"
  wr_service_tier :: "string option"
  wr_reasoning_effort :: "string option"
  wr_reservation :: "reservation_data option"
  wr_started_at :: seconds
  wr_latency_first_token_ms :: "int option"
  wr_request_log_id :: "string option"
  wr_requested_service_tier :: "string option"
  wr_actual_service_tier :: "string option"
  wr_response_id :: "string option"
  wr_awaiting_response_created :: bool
  wr_event_queue :: bool
  wr_transport :: string
  wr_request_text :: "string option"
  wr_replay_count :: nat
  wr_skip_request_log :: bool
  wr_previous_response_id :: "string option"
  wr_session_id :: "string option"
  wr_proxy_injected_previous_response_id :: bool
  wr_fresh_upstream_request_text :: "string option"
  wr_fresh_upstream_request_is_retry_safe :: bool
  wr_preferred_account_id :: "string option"
  wr_error_code_override :: "string option"
  wr_error_message_override :: "string option"
  wr_error_type_override :: "string option"
  wr_error_param_override :: "string option"
  wr_error_http_status_override :: "int option"
  wr_response_event_count :: nat
  wr_gate_acquired :: bool
  wr_gate :: bool
  wr_admission :: bool
  wr_suppressed_duplicate_tool_call :: bool
  wr_pending_function_call_ids :: "string list"
  wr_seen_tool_call_keys :: "dedupe_key list"
  wr_input_item_count :: nat
  wr_input_full_fingerprint :: "string option"
  wr_reservation_last_touch_at :: seconds
  wr_heartbeat :: bool
  wr_downstream_visible :: bool
  wr_draining_until_terminal :: bool
  wr_account_health_error_handled :: bool

abbreviation wr_shown_id :: "ws_request \<Rightarrow> string" where
  "wr_shown_id r \<equiv> or_str (wr_response_id r) (wr_request_id r)"

section \<open>Finding requests\<close>

definition find_websocket_request_state_by_response_id :: "ws_request list \<Rightarrow> string \<Rightarrow> ws_request option" where
  "find_websocket_request_state_by_response_id pending response_id =
     find (\<lambda>r. wr_response_id r = Some response_id) pending"

definition http_bridge_request_counts_against_queue :: "ws_request \<Rightarrow> bool" where
  "http_bridge_request_counts_against_queue r \<longleftrightarrow> \<not> wr_draining_until_terminal r"

definition draining_websocket_request_states :: "ws_request list \<Rightarrow> ws_request list" where
  "draining_websocket_request_states pending = filter wr_draining_until_terminal pending"

fun update_first :: "('a \<Rightarrow> bool) \<Rightarrow> ('a \<Rightarrow> 'a) \<Rightarrow> 'a list \<Rightarrow> ('a \<times> 'a list) option" where
  "update_first p f [] = None"
| "update_first p f (x # xs) =
     (if p x then Some (f x, f x # xs)
      else case update_first p f xs of None \<Rightarrow> None | Some (y, ys) \<Rightarrow> Some (y, x # ys))"

definition set_state :: "ws_request \<Rightarrow> ws_request \<Rightarrow> ws_request list \<Rightarrow> ws_request list" where
  "set_state old new pending =
     (case update_first (\<lambda>r. r = old) (\<lambda>_. new) pending of None \<Rightarrow> pending | Some (_, ps) \<Rightarrow> ps)"

definition assign_websocket_response_id ::
  "ws_request list \<Rightarrow> string option \<Rightarrow> ws_request option \<times> ws_request list"
where
  "assign_websocket_response_id pending response_id =
     (case response_id of
        None \<Rightarrow> (None, pending)
      | Some i \<Rightarrow>
          (case find_websocket_request_state_by_response_id pending i of
             Some r \<Rightarrow> (Some r, pending)
           | None \<Rightarrow>
               (let try = (\<lambda>p. update_first (\<lambda>r. wr_response_id r = None \<and> p r)
                                 (\<lambda>r. r\<lparr> wr_response_id := Some i \<rparr>) pending)
                in case try http_bridge_request_counts_against_queue of
                     Some (r, ps) \<Rightarrow> (Some r, ps)
                   | None \<Rightarrow>
                       (case try wr_draining_until_terminal of
                          Some (r, ps) \<Rightarrow> (Some r, ps)
                        | None \<Rightarrow>
                            (case try (\<lambda>_. True) of
                               Some (r, ps) \<Rightarrow> (Some r, ps)
                             | None \<Rightarrow> (None, pending))))))"

definition single :: "'a list \<Rightarrow> 'a option" where
  "single xs = (case xs of [x] \<Rightarrow> Some x | _ \<Rightarrow> None)"

definition distinct_previous_response_ids :: "ws_request list \<Rightarrow> string set" where
  "distinct_previous_response_ids rs =
     set (List.map_filter (\<lambda>r. Option.bind (wr_previous_response_id r) nonempty) rs)"

definition matching_websocket_request_states_for_previous_response_error ::
  "ws_request list \<Rightarrow> string option \<Rightarrow> string option \<Rightarrow> bool \<Rightarrow> ws_request list"
where
  "matching_websocket_request_states_for_previous_response_error pending hint error_message allow_unanchored =
     (let followups = filter (\<lambda>r. wr_previous_response_id r \<noteq> None) pending;
          by_hint = (if hint \<noteq> None then filter (\<lambda>r. wr_previous_response_id r = hint) followups else []);
          by_message =
            (if error_message \<noteq> None
             then filter (\<lambda>r. message_mentions_previous_response_id error_message (wr_previous_response_id r)) followups
             else []);
          unresolved = filter (\<lambda>r. wr_response_id r = None) followups
      in if followups = [] then (if allow_unanchored \<and> length pending = 1 then [hd pending] else [])
         else if by_hint \<noteq> [] then by_hint
         else if by_message \<noteq> [] then by_message
         else if length unresolved = 1 then unresolved
         else if 1 < length unresolved \<and> card (distinct_previous_response_ids unresolved) = 1 then unresolved
         else [])"

definition match_websocket_request_state_for_previous_response_error ::
  "ws_request list \<Rightarrow> string option \<Rightarrow> string option \<Rightarrow> bool \<Rightarrow> ws_request option"
where
  "match_websocket_request_state_for_previous_response_error pending hint error_message allow_unanchored =
     single (matching_websocket_request_states_for_previous_response_error pending hint error_message allow_unanchored)"

definition matching_websocket_request_states_for_missing_tool_output_error :: "ws_request list \<Rightarrow> ws_request list" where
  "matching_websocket_request_states_for_missing_tool_output_error pending =
     (let unresolved = filter (\<lambda>r. wr_response_id r = None \<and> wr_previous_response_id r \<noteq> None) pending
      in if length unresolved \<le> 1 then unresolved
         else if card (distinct_previous_response_ids unresolved) = 1 then unresolved
         else [])"

definition match_websocket_request_state_for_precreated_terminal_event :: "ws_request list \<Rightarrow> ws_request option" where
  "match_websocket_request_state_for_precreated_terminal_event pending =
     single (filter (\<lambda>r. wr_response_id r = None \<and> wr_awaiting_response_created r) pending)"

definition match_websocket_request_state_for_anonymous_event ::
  "ws_request list \<Rightarrow> bool \<Rightarrow> string option \<Rightarrow> string option \<Rightarrow> bool \<Rightarrow> bool \<Rightarrow> ws_request option"
where
  "match_websocket_request_state_for_anonymous_event pending prefer_not_found hint error_message allow_unanchored
     prefer_draining =
     (if prefer_not_found
      then match_websocket_request_state_for_previous_response_error pending hint error_message allow_unanchored
      else
        let visible = filter http_bridge_request_counts_against_queue pending;
            draining = draining_websocket_request_states pending;
            unresolved_draining = filter (\<lambda>r. wr_response_id r = None) draining;
            unresolved_visible = filter (\<lambda>r. wr_response_id r = None) visible
        in if prefer_draining \<and> draining \<noteq> [] \<and> length unresolved_draining = 1 then Some (hd unresolved_draining)
           else if prefer_draining \<and> draining \<noteq> [] \<and> visible = [] then Some (hd draining)
           else if length visible = 1 then Some (hd visible)
           else if length unresolved_visible = 1 then Some (hd unresolved_visible)
           else if visible = [] \<and> draining \<noteq> []
           then (if length unresolved_draining = 1 then Some (hd unresolved_draining) else Some (hd draining))
           else None)"

section \<open>Taking requests off the queue\<close>

fun pop_matching_websocket_request_states ::
  "ws_request list \<Rightarrow> ws_request list \<Rightarrow> ws_request list \<times> ws_request list"
where
  "pop_matching_websocket_request_states pending [] = ([], pending)"
| "pop_matching_websocket_request_states pending (r # rs) =
     (if r \<in> set pending
      then (case pop_matching_websocket_request_states (remove1 r pending) rs of
              (popped, rest) \<Rightarrow> (r # popped, rest))
      else pop_matching_websocket_request_states pending rs)"

definition pop_if_queued :: "ws_request option \<Rightarrow> ws_request list \<Rightarrow> (ws_request \<times> ws_request list) option" where
  "pop_if_queued r pending =
     (case r of
        None \<Rightarrow> None
      | Some s \<Rightarrow> if s \<in> set pending then Some (s, remove1 s pending) else None)"

definition pop_terminal_websocket_request_state ::
  "ws_request list \<Rightarrow> string option \<Rightarrow> ws_request option \<Rightarrow> bool \<Rightarrow> string option \<Rightarrow> string option \<Rightarrow> bool \<Rightarrow> bool \<Rightarrow>
   bool \<Rightarrow> ws_request option \<times> ws_request list"
where
  "pop_terminal_websocket_request_state pending response_id fallback prefer_not_found hint error_message
     allow_unanchored allow_precreated prefer_draining =
     (let attempts =
        [(case response_id of
            None \<Rightarrow> None
          | Some i \<Rightarrow> find_websocket_request_state_by_response_id pending i),
         fallback,
         (if response_id \<noteq> None \<and> allow_precreated
          then match_websocket_request_state_for_precreated_terminal_event pending else None),
         (if response_id \<noteq> None \<and> prefer_not_found
          then match_websocket_request_state_for_previous_response_error pending hint error_message allow_unanchored
          else None),
         (if response_id = None
          then match_websocket_request_state_for_anonymous_event pending prefer_not_found hint error_message
                 allow_unanchored prefer_draining
          else None)]
      in case List.map_filter (\<lambda>r. pop_if_queued r pending) attempts of
           [] \<Rightarrow> (None, pending)
         | (r, rest) # _ \<Rightarrow> (Some r, rest))"

definition fingerprint_input_items :: "(string \<Rightarrow> string) \<Rightarrow> json list \<Rightarrow> string" where
  "fingerprint_input_items sha256_hex items = sha256_hex (dumps True True (JArr items))"

definition refresh_websocket_request_input_fingerprint_from_text ::
  "(string \<Rightarrow> string) \<Rightarrow> ws_request \<Rightarrow> ws_request"
where
  "refresh_websocket_request_input_fingerprint_from_text sha256_hex r =
     (case Option.bind (Option.bind (Option.bind (wr_request_text r) nonempty) loads)
             (\<lambda>v. Option.bind (as_obj v) (get_arr ''input'')) of
        None \<Rightarrow> r\<lparr> wr_input_item_count := 0, wr_input_full_fingerprint := None \<rparr>
      | Some items \<Rightarrow>
          r\<lparr> wr_input_item_count := length items,
             wr_input_full_fingerprint := Some (fingerprint_input_items sha256_hex items) \<rparr>)"

definition replayable_precreated :: "ws_request \<Rightarrow> bool" where
  "replayable_precreated r \<longleftrightarrow>
     wr_response_id r = None \<and> wr_awaiting_response_created r \<and> truthy_str (wr_request_text r) \<and>
     wr_replay_count r < 1 \<and> wr_response_event_count r = 0"

definition pop_replayable_precreated_websocket_request_state ::
  "(string \<Rightarrow> string) \<Rightarrow> ws_request list \<Rightarrow> ws_request option \<times> ws_request list"
where
  "pop_replayable_precreated_websocket_request_state sha256_hex pending =
     (case pending of
        [r] \<Rightarrow>
          if \<not> replayable_precreated r then (None, pending)
          else
            (let r1 = (if wr_proxy_injected_previous_response_id r \<and> wr_fresh_upstream_request_is_retry_safe r \<and>
                          truthy_str (wr_fresh_upstream_request_text r)
                       then refresh_websocket_request_input_fingerprint_from_text sha256_hex
                              (r\<lparr> wr_request_text := wr_fresh_upstream_request_text r,
                                  wr_previous_response_id := None,
                                  wr_proxy_injected_previous_response_id := False,
                                  wr_fresh_upstream_request_is_retry_safe := False \<rparr>)
                       else r)
             in (Some (r1\<lparr> wr_replay_count := Suc (wr_replay_count r1), wr_awaiting_response_created := True,
                           wr_response_id := None \<rparr>), []))
      | _ \<Rightarrow> (None, pending))"

definition record_response_event :: "string option \<Rightarrow> ws_request \<Rightarrow> ws_request" where
  "record_response_event event_type r =
     (case event_type of
        None \<Rightarrow> r
      | Some t \<Rightarrow>
          if \<not> startswith t ''response.'' \<or> t \<in> {''response.failed'', ''response.incomplete''} then r
          else r\<lparr> wr_response_event_count := Suc (wr_response_event_count r) \<rparr>)"

definition websocket_precreated_retry_error_code ::
  "ws_request \<Rightarrow> string option \<Rightarrow> json_dict option \<Rightarrow> bool \<Rightarrow> string option"
where
  "websocket_precreated_retry_error_code r event_type payload has_other_pending =
     (if has_other_pending \<or> wr_response_id r \<noteq> None \<or> 0 < wr_response_event_count r \<or>
         \<not> wr_awaiting_response_created r \<or> \<not> truthy_str (wr_request_text r) \<or> 1 \<le> wr_replay_count r \<or>
         event_type \<notin> {Some ''error'', Some ''response.failed''}
      then None
      else
        let error_code = normalize_error_code (websocket_event_error_code event_type payload)
                           (websocket_event_error_type event_type payload);
            error_param = websocket_event_error_param event_type payload;
            error_message = websocket_event_error_message event_type payload
        in if is_previous_response_not_found_error (Some error_code) error_param error_message
           then Some ''stream_incomplete''
           else if is_missing_tool_output_error (Some error_code) error_param error_message then None
           else if error_code \<notin> set TRANSPARENT_REPLAY_ERROR_CODES then None
           else Some error_code)"

definition websocket_owner_pinned_quota_error_code ::
  "ws_request \<Rightarrow> string option \<Rightarrow> json_dict option \<Rightarrow> string option"
where
  "websocket_owner_pinned_quota_error_code r event_type payload =
     (if wr_previous_response_id r = None \<or> wr_preferred_account_id r = None \<or> wr_response_id r \<noteq> None \<or>
         \<not> wr_awaiting_response_created r \<or> \<not> truthy_str (wr_request_text r) \<or>
         event_type \<notin> {Some ''error'', Some ''response.failed''}
      then None
      else
        let error_code = normalize_error_code (websocket_event_error_code event_type payload)
                           (websocket_event_error_type event_type payload)
        in if error_code \<notin> set TRANSPARENT_REPLAY_ERROR_CODES then None else Some error_code)"

end
