(* ===== verification/Ws_Stream.thy ===== *)
theory Ws_Stream
  imports Ws_Requests
begin

text \<open>
  What the proxy does with the events of an upstream websocket (\<open>modules/proxy/service.py\<close>): finishing a
  request, failing the requests that are left, and the whole handler of an upstream message. The
  handlers work on the queue of pending requests and on a shared state: the control block of the
  upstream connection, the permits of the gate for creating responses, the number of admission leases the
  connection holds, the continuity state, and the calls made to the other components, in order. None of
  these calls returns anything the handlers use.
\<close>

section \<open>Shared state\<close>

record upstream_control =
  uc_reconnect_requested :: bool
  uc_retire_after_drain :: bool
  uc_suppress_downstream_event :: bool
  uc_replay_request_state :: "ws_request option"
  uc_downstream_texts :: "string list option"

record continuity_state =
  ct_last_completed_input_count :: nat
  ct_last_completed_response_id :: "string option"
  ct_last_completed_input_prefix_fingerprint :: "string option"
  ct_last_pending_function_call_ids :: "string list"

record stream_settlement =
  ss_status :: string
  ss_model :: string
  ss_service_tier :: "string option"
  ss_input_tokens :: "int option"
  ss_output_tokens :: "int option"
  ss_cached_input_tokens :: "int option"
  ss_error_code :: "string option"
  ss_error_message :: "string option"
  ss_error :: "upstream_error option"
  ss_account_health_error :: bool
  ss_record_success :: bool

record ws_log =
  wl_request_id :: string
  wl_model :: string
  wl_latency_ms :: int
  wl_status :: string
  wl_error_code :: "string option"
  wl_error_message :: "string option"
  wl_input_tokens :: "int option"
  wl_output_tokens :: "int option"
  wl_cached_input_tokens :: "int option"
  wl_reasoning_tokens :: "int option"
  wl_reasoning_effort :: "string option"
  wl_transport :: string
  wl_service_tier :: "string option"
  wl_requested_service_tier :: "string option"
  wl_actual_service_tier :: "string option"
  wl_latency_first_token_ms :: "int option"
  wl_session_id :: "string option"

datatype reservation_action =
  Finalize_Reservation string string int int int "string option"
| Release_Reservation string

datatype ws_call =
  Close_Reservation reservation_action
| Touch_Reservation string
| Stream_Error upstream_error string
| Record_Success
| Remember_Owner string "string option"
| Write_Log ws_log
| Queue_Event string "string option"
| Send_Text string
| Send_Bytes
| Close_Upstream
| Close_Downstream

record ws_shared =
  sh_control :: upstream_control
  sh_gate :: nat
  sh_admission :: nat
  sh_continuity :: "continuity_state option"
  sh_calls :: "ws_call list"

record ws_env =
  en_now :: seconds
  en_created_at :: int
  en_validate :: validator
  en_sha256_hex :: "string \<Rightarrow> string"
  en_request_id :: "string option"
  en_api_key :: "string option"
  en_touched :: bool

definition call :: "ws_call \<Rightarrow> ws_shared \<Rightarrow> ws_shared" where
  "call c sh = sh\<lparr> sh_calls := sh_calls sh @ [c] \<rparr>"

definition call_if :: "bool \<Rightarrow> ws_call \<Rightarrow> ws_shared \<Rightarrow> ws_shared" where
  "call_if b c sh = (if b then call c sh else sh)"

definition on_control :: "(upstream_control \<Rightarrow> upstream_control) \<Rightarrow> ws_shared \<Rightarrow> ws_shared" where
  "on_control f sh = sh\<lparr> sh_control := f (sh_control sh) \<rparr>"

definition request_reconnect :: "ws_shared \<Rightarrow> ws_shared" where
  "request_reconnect = on_control (\<lambda>c. c\<lparr> uc_reconnect_requested := True \<rparr>)"

definition suppress_event :: "ws_shared \<Rightarrow> ws_shared" where
  "suppress_event = on_control (\<lambda>c. c\<lparr> uc_suppress_downstream_event := True \<rparr>)"

section \<open>Gates and reservations\<close>

definition release_websocket_response_create_gate :: "ws_request \<times> ws_shared \<Rightarrow> ws_request \<times> ws_shared" where
  "release_websocket_response_create_gate rs =
     (let (r, sh) = rs;
          sh1 = (if wr_admission r then sh\<lparr> sh_admission := sh_admission sh - 1 \<rparr> else sh);
          r1 = r\<lparr> wr_admission := False, wr_awaiting_response_created := False, wr_gate := False \<rparr>
      in if \<not> wr_gate_acquired r then (r1, sh1)
         else (r1\<lparr> wr_gate_acquired := False \<rparr>, sh1\<lparr> sh_gate := Suc (sh_gate sh1) \<rparr>))"

definition cancel_reservation_heartbeat :: "ws_request \<Rightarrow> ws_request" where
  "cancel_reservation_heartbeat r = r\<lparr> wr_heartbeat := False \<rparr>"

definition release_websocket_reservation :: "reservation_data option \<Rightarrow> ws_shared \<Rightarrow> ws_shared" where
  "release_websocket_reservation reservation sh =
     (case reservation of
        None \<Rightarrow> sh
      | Some d \<Rightarrow> call (Close_Reservation (Release_Reservation (rd_reservation_id d))) sh)"

definition settle_stream_api_key_usage ::
  "string option \<Rightarrow> reservation_data option \<Rightarrow> stream_settlement \<Rightarrow> ws_shared \<Rightarrow> ws_shared"
where
  "settle_stream_api_key_usage api_key reservation settlement sh =
     (case (api_key, reservation) of
        (Some _, Some d) \<Rightarrow>
          (let model = (if rd_model d \<noteq> [] then rd_model d else ss_model settlement)
           in case (ss_status settlement = ''success'', ss_input_tokens settlement, ss_output_tokens settlement) of
                (True, Some i, Some out) \<Rightarrow>
                  call (Close_Reservation
                          (Finalize_Reservation (rd_reservation_id d) model i out
                             (case ss_cached_input_tokens settlement of Some c \<Rightarrow> c | None \<Rightarrow> 0)
                             (ss_service_tier settlement))) sh
              | _ \<Rightarrow> call (Close_Reservation (Release_Reservation (rd_reservation_id d))) sh)
      | _ \<Rightarrow> sh)"

definition API_KEY_RESERVATION_HEARTBEAT_SECONDS :: seconds where
  "API_KEY_RESERVATION_HEARTBEAT_SECONDS = 300"

text \<open>A touch that finds its reservation and meets no database error moves the time of the last touch.\<close>

definition maybe_touch_request_state_reservation ::
  "seconds \<Rightarrow> bool \<Rightarrow> ws_request \<times> ws_shared \<Rightarrow> ws_request \<times> ws_shared"
where
  "maybe_touch_request_state_reservation now touched rs =
     (let (r, sh) = rs
      in case wr_reservation r of
           None \<Rightarrow> (r, sh)
         | Some d \<Rightarrow>
             if now < wr_reservation_last_touch_at r + API_KEY_RESERVATION_HEARTBEAT_SECONDS then (r, sh)
             else (if touched then r\<lparr> wr_reservation_last_touch_at := now \<rparr> else r,
                   call (Touch_Reservation (rd_reservation_id d)) sh))"

section \<open>Finishing a request\<close>

definition stream_settlement_error_payload :: "stream_settlement \<Rightarrow> upstream_error" where
  "stream_settlement_error_payload settlement =
     (case ss_error settlement of
        Some e \<Rightarrow> e
      | None \<Rightarrow> message_only (or_str (ss_error_message settlement) ''Upstream error''))"

record ws_outcome =
  wo_status :: string
  wo_error_code :: "string option"
  wo_error_message :: "string option"
  wo_usage :: "response_usage option"
  wo_error :: "upstream_error option"
  wo_response_id :: string

definition websocket_outcome ::
  "ws_request \<Rightarrow> openai_event option \<Rightarrow> string option \<Rightarrow> json_dict option \<Rightarrow> ws_outcome"
where
  "websocket_outcome r event event_type payload =
     (let start = \<lparr> wo_status = ''success'', wo_error_code = None, wo_error_message = None, wo_usage = None,
                    wo_error = None, wo_response_id = wr_shown_id r \<rparr>;
          response = Option.bind event ev_response;
          response_id = or_str (Option.bind response rsp_id) (wr_shown_id r);
          usage = Option.bind response rsp_usage
      in if event_type = Some ''error''
         then
           (let error = Option.bind event ev_error
            in start\<lparr> wo_status := ''error'',
                 wo_error_code := Some
                   (case error of
                      Some e \<Rightarrow> normalize_error_code (oe_code e) (oe_type e)
                    | None \<Rightarrow> normalize_error_code (websocket_event_error_code event_type payload)
                                (websocket_event_error_type event_type payload)),
                 wo_error_message :=
                   (case error of Some e \<Rightarrow> oe_message e | None \<Rightarrow> websocket_event_error_message event_type payload),
                 wo_error := Some (upstream_error_from_openai error) \<rparr>)
         else if event_type = Some ''response.failed'' \<or> event_type = Some ''response.incomplete''
         then
           (let error = Option.bind response rsp_error
            in start\<lparr> wo_status := ''error'',
                 wo_error_code := Some (normalize_error_code (Option.bind error oe_code) (Option.bind error oe_type)),
                 wo_error_message := Option.bind error oe_message,
                 wo_error := (if event_type = Some ''response.failed'' then Some (upstream_error_from_openai error)
                              else None),
                 wo_usage := usage, wo_response_id := response_id \<rparr>)
         else if event_type = Some ''response.completed''
         then start\<lparr> wo_usage := usage, wo_response_id := response_id \<rparr>
         else start)"

definition CLOSED_BEFORE_COMPLETED :: string where
  "CLOSED_BEFORE_COMPLETED = ''Upstream websocket closed before response.completed''"

definition websocket_settlement ::
  "ws_request \<Rightarrow> string option \<Rightarrow> string option \<Rightarrow> ws_outcome \<Rightarrow> stream_settlement"
where
  "websocket_settlement r event_type service_tier out =
     (let code = wo_error_code out;
          penalize = event_type \<in> {Some ''response.failed'', Some ''error''} \<and> should_penalize_stream_error code \<and>
                     \<not> wr_account_health_error_handled r;
          excused = code = Some ''stream_incomplete'' \<and>
                    (wr_suppressed_duplicate_tool_call r \<or>
                     wr_previous_response_id r \<noteq> None \<and> wo_error_message out = Some CLOSED_BEFORE_COMPLETED)
      in \<lparr> ss_status = wo_status out, ss_model = or_str (wr_model r) [], ss_service_tier = service_tier,
           ss_input_tokens = Option.bind (wo_usage out) ru_input_tokens,
           ss_output_tokens = Option.bind (wo_usage out) ru_output_tokens,
           ss_cached_input_tokens =
             Option.bind (Option.bind (wo_usage out) ru_input_tokens_details) ud_cached_tokens,
           ss_error_code = code, ss_error_message = wo_error_message out, ss_error = wo_error out,
           ss_account_health_error = penalize \<and> \<not> excused,
           ss_record_success = event_type \<notin> {Some ''response.failed'', Some ''response.incomplete'', Some ''error''} \<rparr>)"

definition latency_ms :: "seconds \<Rightarrow> ws_request \<Rightarrow> int" where
  "latency_ms now r = py_int ((now - wr_started_at r) * 1000)"

definition websocket_log ::
  "ws_env \<Rightarrow> ws_request \<Rightarrow> string option \<Rightarrow> ws_outcome \<Rightarrow> ws_log"
where
  "websocket_log env r service_tier out =
     \<lparr> wl_request_id = wo_response_id out, wl_model = or_str (wr_model r) [], wl_latency_ms = latency_ms (en_now env) r,
       wl_status = wo_status out, wl_error_code = wo_error_code out, wl_error_message = wo_error_message out,
       wl_input_tokens = Option.bind (wo_usage out) ru_input_tokens,
       wl_output_tokens = Option.bind (wo_usage out) ru_output_tokens,
       wl_cached_input_tokens =
         Option.bind (Option.bind (wo_usage out) ru_input_tokens_details) ud_cached_tokens,
       wl_reasoning_tokens =
         Option.bind (Option.bind (wo_usage out) ru_output_tokens_details) ud_reasoning_tokens,
       wl_reasoning_effort = wr_reasoning_effort r, wl_transport = wr_transport r, wl_service_tier = service_tier,
       wl_requested_service_tier = wr_requested_service_tier r, wl_actual_service_tier = wr_actual_service_tier r,
       wl_latency_first_token_ms = wr_latency_first_token_ms r, wl_session_id = wr_session_id r \<rparr>"

definition finalize_websocket_request_state ::
  "ws_env \<Rightarrow> openai_event option \<Rightarrow> string option \<Rightarrow> json_dict option \<Rightarrow> ws_request \<Rightarrow> ws_shared \<Rightarrow>
   ws_request \<times> ws_shared"
where
  "finalize_websocket_request_state env event event_type payload r sh =
     (if wr_draining_until_terminal r
      then
        (let (r1, sh1) = release_websocket_response_create_gate (r, sh)
         in (r1\<lparr> wr_reservation := None \<rparr>, release_websocket_reservation (wr_reservation r1) sh1))
      else
        let out = websocket_outcome r event event_type payload;
            actual = service_tier_from_event_payload payload;
            r1 = (if actual \<noteq> None then r\<lparr> wr_actual_service_tier := actual \<rparr> else r);
            tier = (if actual \<noteq> None then actual else wr_service_tier r);
            settlement = websocket_settlement r1 event_type tier out;
            (r2, sh1) = release_websocket_response_create_gate (cancel_reservation_heartbeat r1, sh);
            sh2 = settle_stream_api_key_usage (en_api_key env) (wr_reservation r2) settlement sh1;
            sh3 = (if ss_account_health_error settlement
                   then request_reconnect
                          (call (Stream_Error (stream_settlement_error_payload settlement)
                                   (or_str (ss_error_code settlement) ''upstream_error'')) sh2)
                   else if ss_record_success settlement
                   then call (Remember_Owner (wo_response_id out) (wr_session_id r2)) (call Record_Success sh2)
                   else sh2)
        in (r2, call_if (\<not> wr_skip_request_log r2) (Write_Log (websocket_log env r2 tier out)) sh3))"

end
