(* ===== verification/Ws_Process.thy ===== *)
theory Ws_Process
  imports Ws_Stream
begin

text \<open>
  The handler of a text message from upstream, \<open>_process_upstream_websocket_text\<close>: which pending request
  the event belongs to, what it changes there, whether a request ends with it, and whether that request
  is finished, answered with a rewritten error or replayed. Next to the text for the client and the
  queue the handler gives the request states it has finished.
\<close>

section \<open>Rewritten events\<close>

type_synonym ws_view = "openai_event option \<times> json_dict option \<times> string option \<times> string"

definition failed_view :: "ws_env \<Rightarrow> string \<Rightarrow> string \<Rightarrow> ws_request \<Rightarrow> ws_view" where
  "failed_view env code message r =
     (let p = response_failed_event (en_created_at env) code message ''server_error'' (Some (wr_shown_id r)) None;
          block = format_sse_event p;
          payload = parse_sse_data_json block;
          event = parse_sse_event (en_validate env) block
      in (event, payload, event_type_from_payload ev_type event payload, dumps True False (JObj p)))"

definition rewrite_websocket_continuity_corruption_event ::
  "ws_env \<Rightarrow> bool \<Rightarrow> ws_request \<Rightarrow> ws_shared \<Rightarrow> ws_view \<times> ws_shared"
where
  "rewrite_websocket_continuity_corruption_event env reconnect r sh =
     (failed_view env ''stream_incomplete'' CLOSED_BEFORE_COMPLETED r, if reconnect then request_reconnect sh else sh)"

definition rewrite_websocket_previous_response_owner_unavailable_event :: "ws_env \<Rightarrow> ws_request \<Rightarrow> ws_view" where
  "rewrite_websocket_previous_response_owner_unavailable_event env r =
     failed_view env ''upstream_unavailable'' ''Previous response owner account is unavailable; retry later.'' r"

definition SUPPRESSED_DUPLICATE_TOOL_CALL_MESSAGE :: string where
  "SUPPRESSED_DUPLICATE_TOOL_CALL_MESSAGE =
     ''Suppressed duplicate side-effect tool call; upstream response cannot be continued safely.''"

definition rewrite_websocket_suppressed_duplicate_tool_call_completion_event :: "ws_env \<Rightarrow> ws_request \<Rightarrow> ws_view" where
  "rewrite_websocket_suppressed_duplicate_tool_call_completion_event env r =
     failed_view env ''stream_incomplete'' SUPPRESSED_DUPLICATE_TOOL_CALL_MESSAGE r"

definition build_stream_incomplete_terminal_event_for_request :: "ws_env \<Rightarrow> ws_request \<Rightarrow> ws_view" where
  "build_stream_incomplete_terminal_event_for_request env r =
     failed_view env ''stream_incomplete'' CLOSED_BEFORE_COMPLETED r"

definition maybe_rewrite_websocket_previous_response_not_found_event ::
  "ws_env \<Rightarrow> ws_request \<Rightarrow> ws_view \<Rightarrow> ws_shared \<Rightarrow> ws_view \<times> ws_shared"
where
  "maybe_rewrite_websocket_previous_response_not_found_event env r view sh =
     (let (event, payload, event_type, text) = view;
          code = websocket_event_error_code event_type payload;
          param = websocket_event_error_param event_type payload;
          message = websocket_event_error_message event_type payload
      in if is_previous_response_not_found_error code param message
         then rewrite_websocket_continuity_corruption_event env (wr_preferred_account_id r \<noteq> None) r sh
         else if wr_previous_response_id r \<noteq> None \<and> is_missing_tool_output_error code param message
         then rewrite_websocket_continuity_corruption_event env True r sh
         else (view, sh))"

section \<open>Reading a message\<close>

record ws_incoming =
  wi_view :: ws_view
  wi_response_id :: "string option"
  wi_error_message :: "string option"
  wi_typeless_error :: bool
  wi_not_found :: bool
  wi_missing_output :: bool
  wi_hint :: "string option"

abbreviation wi_payload :: "ws_incoming \<Rightarrow> json_dict option" where
  "wi_payload inc \<equiv> fst (snd (wi_view inc))"

abbreviation wi_event_type :: "ws_incoming \<Rightarrow> string option" where
  "wi_event_type inc \<equiv> fst (snd (snd (wi_view inc)))"

abbreviation wi_lost :: "ws_incoming \<Rightarrow> bool" where
  "wi_lost inc \<equiv> wi_not_found inc \<or> wi_missing_output inc"

definition data_block :: "string \<Rightarrow> string" where
  "data_block s = ''data: '' @ s @ [CHR 0x0A, CHR 0x0A]"

definition typeless_error :: "json_dict option \<Rightarrow> bool" where
  "typeless_error payload \<longleftrightarrow>
     (case payload of
        None \<Rightarrow> False
      | Some p \<Rightarrow> get_str ''type'' p = None \<and> get_obj ''error'' p \<noteq> None)"

definition read_upstream_text :: "ws_env \<Rightarrow> string \<Rightarrow> ws_incoming" where
  "read_upstream_text env raw =
     (let block = data_block raw;
          payload = parse_sse_data_json block;
          event = parse_sse_event (en_validate env) block;
          event_type = event_type_from_payload ev_type event payload;
          message = websocket_event_error_message event_type payload;
          code = normalize_error_code (websocket_event_error_code event_type payload)
                   (websocket_event_error_type event_type payload);
          param = websocket_event_error_param event_type payload;
          (text', payload', event', event_type', _) =
            rewrite_parallel_tool_call_text (en_validate env) ev_type raw payload
              (case payload of Some p \<Rightarrow> format_sse_event p | None \<Rightarrow> block)
      in \<lparr> wi_view = (event', payload', event_type', text'),
           wi_response_id = websocket_response_id event payload,
           wi_error_message = message,
           wi_typeless_error = typeless_error payload,
           wi_not_found = is_previous_response_not_found_error (Some code) param message,
           wi_missing_output = is_missing_tool_output_error (Some code) param message,
           wi_hint = previous_response_id_from_not_found_message message \<rparr>)"

section \<open>The request an event belongs to\<close>

definition match_upstream_event :: "ws_incoming \<Rightarrow> ws_request list \<Rightarrow> ws_request option \<times> ws_request list" where
  "match_upstream_event inc pending =
     (if wi_event_type inc = Some ''response.created'' then assign_websocket_response_id pending (wi_response_id inc)
      else
        (case wi_response_id inc of
           Some i \<Rightarrow> (find_websocket_request_state_by_response_id pending i, pending)
         | None \<Rightarrow>
             (match_websocket_request_state_for_anonymous_event pending (wi_lost inc) (wi_hint inc)
                (wi_error_message inc) (wi_not_found inc) True, pending)))"

definition TEXT_DELTA_EVENT_TYPES :: "string list" where
  "TEXT_DELTA_EVENT_TYPES = [''response.output_text.delta'', ''response.refusal.delta'']"

definition in_types :: "string option \<Rightarrow> string list \<Rightarrow> bool" where
  "in_types t ts \<longleftrightarrow> (case t of None \<Rightarrow> False | Some s \<Rightarrow> s \<in> set ts)"

definition note_event :: "ws_view \<Rightarrow> ws_request \<Rightarrow> bool \<times> ws_request \<times> ws_view" where
  "note_event view r =
     (let (event, payload, event_type, text) = view;
          tier = service_tier_from_event_payload payload;
          r1 = (if tier \<noteq> None then r\<lparr> wr_actual_service_tier := tier, wr_service_tier := tier \<rparr> else r);
          r2 = (case response_output_item_done_function_call_id payload of
                  None \<Rightarrow> r1
                | Some c \<Rightarrow>
                    if c \<in> set (wr_pending_function_call_ids r1) then r1
                    else r1\<lparr> wr_pending_function_call_ids := wr_pending_function_call_ids r1 @ [c] \<rparr>);
          (dup, payload', seen) =
            mark_duplicate_tool_call_downstream_event payload
              (Some (or_str (response_id_from_payload payload) (wr_request_id r2))) False (wr_seen_tool_call_keys r2);
          r3 = r2\<lparr> wr_seen_tool_call_keys := seen \<rparr>
      in if dup then (True, r3\<lparr> wr_suppressed_duplicate_tool_call := True \<rparr>, view)
         else
           (False,
            (if in_types event_type TEXT_DELTA_EVENT_TYPES then r3\<lparr> wr_downstream_visible := True \<rparr> else r3),
            (event, payload', event_type,
             case payload' of Some p \<Rightarrow> dumps True False (JObj p) | None \<Rightarrow> text)))"

definition TERMINAL_EVENT_TYPES :: "string list" where
  "TERMINAL_EVENT_TYPES = [''response.completed'', ''response.failed'', ''response.incomplete'', ''error'']"

section \<open>The request an event ends\<close>

definition pop_upstream_event ::
  "ws_incoming \<Rightarrow> string option \<Rightarrow> ws_request option \<Rightarrow> ws_request list \<Rightarrow>
   ws_request option \<times> ws_request list \<times> ws_request list"
where
  "pop_upstream_event inc event_type matched pending =
     (let (popped, rest) =
            pop_terminal_websocket_request_state pending (wi_response_id inc) matched (wi_lost inc) (wi_hint inc)
              (wi_error_message inc) (wi_not_found inc)
              (in_types event_type [''response.failed'', ''response.incomplete'', ''error'']) True
      in case popped of
           Some r \<Rightarrow> (Some r, [], rest)
         | None \<Rightarrow>
             (let (group1, rest1) =
                    (if wi_lost inc
                     then pop_matching_websocket_request_states rest
                            (matching_websocket_request_states_for_previous_response_error rest (wi_hint inc)
                               (wi_error_message inc) (wi_not_found inc))
                     else ([], rest));
                  (group2, rest2) =
                    (if wi_lost inc \<and> group1 = [] \<and> wi_missing_output inc
                     then pop_matching_websocket_request_states rest1
                            (matching_websocket_request_states_for_missing_tool_output_error rest1)
                     else (group1, rest1))
              in if event_type = Some ''error'' \<and> wi_typeless_error inc \<and> group2 = []
                 then (None, rest2, [])
                 else (None, group2, rest2)))"

definition rewrite_popped ::
  "ws_env \<Rightarrow> ws_incoming \<Rightarrow> ws_view \<Rightarrow> ws_request option \<Rightarrow> ws_shared \<Rightarrow> ws_view \<times> ws_request option \<times> ws_shared"
where
  "rewrite_popped env inc view popped sh =
     (case popped of
        None \<Rightarrow> (view, None, sh)
      | Some r \<Rightarrow>
          (let duplicate = fst (snd (snd view)) = Some ''response.completed'' \<and> wr_suppressed_duplicate_tool_call r;
               r1 = (if duplicate then r\<lparr> wr_error_http_status_override := Some 502 \<rparr> else r);
               view1 = (if duplicate then rewrite_websocket_suppressed_duplicate_tool_call_completion_event env r1
                        else view);
               sh1 = (if duplicate then request_reconnect sh else sh)
           in if wr_previous_response_id r1 \<noteq> None \<and> wi_missing_output inc
              then
                (let r2 = r1\<lparr> wr_error_http_status_override := Some 502 \<rparr>;
                     (view2, sh2) = rewrite_websocket_continuity_corruption_event env True r2 sh1
                 in (view2, Some r2, sh2))
              else (view1, Some r1, sh1)))"

section \<open>Ending requests\<close>

text \<open>Several requests that an error ends together are each answered with an error of their own.\<close>

fun finish_group ::
  "ws_env \<Rightarrow> ws_request list \<Rightarrow> ws_shared \<Rightarrow> string list \<times> ws_request list \<times> ws_shared"
where
  "finish_group env [] sh = ([], [], sh)"
| "finish_group env (r # rs) sh =
     (let (event, payload, event_type, text) = build_stream_incomplete_terminal_event_for_request env r;
          (r', sh') = finalize_websocket_request_state env event event_type payload r sh;
          (texts, finished, sh'') = finish_group env rs sh'
      in (text # texts, r' # finished, sh''))"

definition record_websocket_continuity_completion ::
  "ws_request \<Rightarrow> string option \<Rightarrow> continuity_state \<Rightarrow> continuity_state"
where
  "record_websocket_continuity_completion r response_id ct =
     (if response_id = None \<or> wr_input_item_count r = 0 \<or> wr_input_full_fingerprint r = None
      then ct\<lparr> ct_last_completed_response_id := None, ct_last_completed_input_count := 0,
               ct_last_completed_input_prefix_fingerprint := None, ct_last_pending_function_call_ids := [] \<rparr>
      else ct\<lparr> ct_last_completed_response_id := response_id,
               ct_last_completed_input_count := wr_input_item_count r,
               ct_last_completed_input_prefix_fingerprint := wr_input_full_fingerprint r,
               ct_last_pending_function_call_ids := wr_pending_function_call_ids r \<rparr>)"

definition replay_request :: "ws_request \<Rightarrow> ws_shared \<Rightarrow> ws_shared" where
  "replay_request r sh =
     suppress_event
       (on_control (\<lambda>c. c\<lparr> uc_replay_request_state :=
            Some (r\<lparr> wr_replay_count := Suc (wr_replay_count r), wr_awaiting_response_created := True,
                     wr_response_id := None \<rparr>) \<rparr>)
          (request_reconnect sh))"

definition event_error :: "string option \<Rightarrow> json_dict option \<Rightarrow> upstream_error" where
  "event_error event_type payload =
     message_only (or_str (websocket_event_error_message event_type payload) ''Upstream error'')"

definition retry_or_finish ::
  "ws_env \<Rightarrow> ws_incoming \<Rightarrow> string option \<Rightarrow> ws_view \<Rightarrow> ws_request \<Rightarrow> ws_shared \<Rightarrow> string \<times> ws_request list \<times> ws_shared"
where
  "retry_or_finish env inc retry_code view r sh =
     (let (event, payload, event_type, text) = view;
          fresh = wr_fresh_upstream_request_is_retry_safe r \<and> truthy_str (wr_fresh_upstream_request_text r)
      in if retry_code \<noteq> None \<and> wi_not_found inc \<and> fresh
         then
           (text, [],
            replay_request
              (r\<lparr> wr_request_text := wr_fresh_upstream_request_text r, wr_previous_response_id := None,
                  wr_proxy_injected_previous_response_id := False,
                  wr_fresh_upstream_request_is_retry_safe := False \<rparr>) sh)
         else if retry_code \<noteq> None \<and> \<not> wi_not_found inc
         then (text, [], call (Stream_Error (event_error event_type payload) (the retry_code)) (replay_request r sh))
         else
           (let sh1 = (if event_type = Some ''response.completed''
                       then sh\<lparr> sh_continuity :=
                              map_option (record_websocket_continuity_completion r (wi_response_id inc))
                                (sh_continuity sh) \<rparr>
                       else sh);
                (r', sh2) = finalize_websocket_request_state env event event_type payload r sh1
            in (text, [r'], sh2)))"

definition finish_request ::
  "ws_env \<Rightarrow> ws_incoming \<Rightarrow> ws_view \<Rightarrow> bool \<Rightarrow> ws_request \<Rightarrow> ws_shared \<Rightarrow> string \<times> ws_request list \<times> ws_shared"
where
  "finish_request env inc view has_other r sh =
     (let (_, payload0, event_type0, _) = view;
          (r1, sh1) =
            (if in_types event_type0 TERMINAL_EVENT_TYPES then (record_response_event event_type0 r, sh)
             else maybe_touch_request_state_reservation (en_now env) (en_touched env)
                    (record_response_event event_type0 r, sh));
          retry0 = websocket_precreated_retry_error_code r1 event_type0 payload0 has_other;
          (view1, sh2) = maybe_rewrite_websocket_previous_response_not_found_event env r1 view sh1;
          (_, payload1, event_type1, _) = view1;
          retry1 = (if retry0 = None then websocket_precreated_retry_error_code r1 event_type1 payload1 has_other
                    else retry0)
      in if in_types retry1 TRANSPARENT_REPLAY_ERROR_CODES \<and> wr_previous_response_id r1 \<noteq> None \<and>
            wr_preferred_account_id r1 \<noteq> None
         then retry_or_finish env inc None (rewrite_websocket_previous_response_owner_unavailable_event env r1) r1
                (call (Stream_Error (event_error event_type1 payload1) (the retry1)) sh2)
         else retry_or_finish env inc retry1 view1 r1 sh2)"

definition lost_response_text :: "ws_env \<Rightarrow> string" where
  "lost_response_text env =
     dumps True False
       (JObj (response_failed_event (en_created_at env) ''stream_incomplete'' CLOSED_BEFORE_COMPLETED ''server_error''
                (en_request_id env) None))"

definition finish_event ::
  "ws_env \<Rightarrow> ws_incoming \<Rightarrow> ws_view \<Rightarrow> ws_request option \<Rightarrow> ws_request list \<Rightarrow> bool \<Rightarrow> ws_shared \<Rightarrow>
   string \<times> ws_request list \<times> ws_shared"
where
  "finish_event env inc view popped grouped has_other sh =
     (if 1 < length grouped
      then
        (let (texts, finished, sh1) = finish_group env grouped (request_reconnect sh)
         in (hd texts, finished,
             on_control (\<lambda>c. c\<lparr> uc_downstream_texts := Some texts \<rparr>) (suppress_event sh1)))
      else
        case (popped, grouped) of
          (None, []) \<Rightarrow>
            (let text = snd (snd (snd view))
             in if wi_not_found inc then (lost_response_text env, [], request_reconnect sh)
                else (text, [], if wi_missing_output inc then suppress_event sh else sh))
        | (Some r, _) \<Rightarrow> finish_request env inc view has_other r sh
        | (None, r # _) \<Rightarrow> finish_request env inc view has_other r sh)"

section \<open>The handler\<close>

definition release_created ::
  "ws_incoming \<Rightarrow> ws_request option \<Rightarrow> ws_request list \<Rightarrow> ws_shared \<Rightarrow> ws_request list \<times> ws_shared"
where
  "release_created inc matched pending sh =
     (case matched of
        Some r \<Rightarrow>
          if wi_event_type inc = Some ''response.created''
          then (let (r', sh') = release_websocket_response_create_gate (r, sh) in (set_state r r' pending, sh'))
          else (pending, sh)
      | None \<Rightarrow> (pending, sh))"

definition note_matched ::
  "ws_view \<Rightarrow> ws_request option \<Rightarrow> ws_request list \<Rightarrow> bool \<times> ws_request option \<times> ws_view \<times> ws_request list"
where
  "note_matched view matched pending =
     (case matched of
        None \<Rightarrow> (False, None, view, pending)
      | Some r \<Rightarrow> (case note_event view r of (dup, r', view') \<Rightarrow> (dup, Some r', view', set_state r r' pending)))"

definition process_upstream_websocket_text ::
  "ws_env \<Rightarrow> string \<Rightarrow> ws_request list \<Rightarrow> ws_shared \<Rightarrow> string \<times> ws_request list \<times> ws_request list \<times> ws_shared"
where
  "process_upstream_websocket_text env raw pending sh =
     (let inc = read_upstream_text env raw;
          (matched, pending1) = match_upstream_event inc pending;
          (dup, noted, view, pending2) = note_matched (wi_view inc) matched pending1
      in if dup then (snd (snd (snd view)), [], pending2, suppress_event sh)
         else if in_types (wi_event_type inc) TERMINAL_EVENT_TYPES \<and> pending2 \<noteq> []
         then
           (let (popped, grouped, rest) = pop_upstream_event inc (wi_event_type inc) noted pending2;
                (view1, popped1, sh1) = rewrite_popped env inc view popped sh;
                (text, finished, sh2) = finish_event env inc view1 popped1 grouped (rest \<noteq> []) sh1
            in (text, finished, rest, sh2))
         else
           (let (pending3, sh1) = release_created inc noted pending2 sh;
                (text, finished, sh2) = finish_event env inc view None [] False sh1
            in (text, finished, pending3, sh2)))"

end
