(* ===== verification/Ws_Relay.thy ===== *)
theory Ws_Relay
  imports Ws_Process
begin

text \<open>
  The task that reads an upstream websocket (\<open>_relay_upstream_websocket_messages\<close>): how long it waits, what
  a message, a timeout, a closed connection and a client that cannot be reached do to the pending
  requests, and the failing of all or of the expired requests. The answers of the environment, namely the message
  received, the clock and how many texts reach the client before a send fails, are arguments.
\<close>

section \<open>Failing requests\<close>

record fail_options =
  fo_account :: bool
  fo_account_id :: bool
  fo_error_code :: string
  fo_error_message :: string
  fo_websocket :: bool
  fo_gate :: bool
  fo_status :: string
  fo_penalize_account :: bool

definition request_error_code :: "fail_options \<Rightarrow> ws_request \<Rightarrow> string" where
  "request_error_code opts r = or_str (wr_error_code_override r) (fo_error_code opts)"

definition request_error_message :: "fail_options \<Rightarrow> ws_request \<Rightarrow> string" where
  "request_error_message opts r = or_str (wr_error_message_override r) (fo_error_message opts)"

definition penalty :: "fail_options \<Rightarrow> ws_request list \<Rightarrow> (string \<times> string) option" where
  "penalty opts rs =
     (if \<not> fo_penalize_account opts then None
      else map_option (\<lambda>r. (request_error_code opts r, request_error_message opts r))
             (find (\<lambda>r. request_error_code opts r \<in> set TRANSIENT_RETRY_CODES \<or>
                        should_penalize_stream_error (Some (request_error_code opts r))) rs))"

definition failed_request_event :: "ws_env \<Rightarrow> fail_options \<Rightarrow> ws_request \<Rightarrow> json_dict" where
  "failed_request_event env opts r =
     response_failed_event (en_created_at env) (request_error_code opts r) (request_error_message opts r)
       (or_str (wr_error_type_override r) ''server_error'') (Some (wr_shown_id r)) (wr_error_param_override r)"

definition emit_websocket_terminal_error :: "json_dict \<Rightarrow> ws_request \<times> ws_shared \<Rightarrow> ws_request \<times> ws_shared" where
  "emit_websocket_terminal_error event rs =
     (let (r1, sh1) = (if wr_gate (fst rs) then release_websocket_response_create_gate rs else rs)
      in (r1, call (Send_Text (dumps True False (JObj event))) sh1))"

definition failure_log :: "ws_env \<Rightarrow> fail_options \<Rightarrow> ws_request \<Rightarrow> ws_log" where
  "failure_log env opts r =
     \<lparr> wl_request_id = or_str (wr_response_id r) (or_str (wr_request_log_id r) (wr_request_id r)),
       wl_model = or_str (wr_model r) [], wl_latency_ms = latency_ms (en_now env) r, wl_status = fo_status opts,
       wl_error_code = Some (request_error_code opts r), wl_error_message = Some (request_error_message opts r),
       wl_input_tokens = None, wl_output_tokens = None, wl_cached_input_tokens = None, wl_reasoning_tokens = None,
       wl_reasoning_effort = wr_reasoning_effort r, wl_transport = wr_transport r,
       wl_service_tier = wr_service_tier r, wl_requested_service_tier = wr_requested_service_tier r,
       wl_actual_service_tier = wr_actual_service_tier r,
       wl_latency_first_token_ms = wr_latency_first_token_ms r, wl_session_id = wr_session_id r \<rparr>"

definition fail_request :: "ws_env \<Rightarrow> fail_options \<Rightarrow> ws_request \<Rightarrow> ws_shared \<Rightarrow> ws_request \<times> ws_shared" where
  "fail_request env opts r sh =
     (let event = failed_request_event env opts r;
          (r1, sh1) = (if fo_gate opts then release_websocket_response_create_gate (cancel_reservation_heartbeat r, sh)
                       else (cancel_reservation_heartbeat r, sh));
          sh2 = (if wr_event_queue r1
                 then call (Queue_Event (wr_request_id r1) None)
                        (call (Queue_Event (wr_request_id r1) (Some (format_sse_event event))) sh1)
                 else sh1);
          (r2, sh3) = (if fo_websocket opts then emit_websocket_terminal_error event (r1, sh2) else (r1, sh2));
          sh4 = release_websocket_reservation (wr_reservation r2) sh3
      in (r2, call_if (fo_account_id opts \<and> \<not> wr_skip_request_log r2) (Write_Log (failure_log env opts r2)) sh4))"

fun fail_requests :: "ws_env \<Rightarrow> fail_options \<Rightarrow> ws_request list \<Rightarrow> ws_shared \<Rightarrow> ws_request list \<times> ws_shared" where
  "fail_requests env opts [] sh = ([], sh)"
| "fail_requests env opts (r # rs) sh =
     (let (r', sh') = fail_request env opts r sh;
          (finished, sh'') = fail_requests env opts rs sh'
      in (r' # finished, sh''))"

definition fail_pending_websocket_requests ::
  "ws_env \<Rightarrow> fail_options \<Rightarrow> ws_request list \<Rightarrow> ws_shared \<Rightarrow> ws_request list \<times> ws_shared"
where
  "fail_pending_websocket_requests env opts pending sh =
     fail_requests env opts pending
       (case penalty opts pending of
          Some (code, message) \<Rightarrow>
            call_if (fo_account opts)
              (Stream_Error (message_only (if message \<noteq> [] then message else fo_error_message opts)) code) sh
        | None \<Rightarrow> sh)"

definition fail_expired_pending_websocket_requests ::
  "ws_env \<Rightarrow> seconds \<Rightarrow> string \<Rightarrow> string \<Rightarrow> ws_request list \<Rightarrow> ws_shared \<Rightarrow>
   ws_request list \<times> ws_request list \<times> ws_shared"
where
  "fail_expired_pending_websocket_requests env budget code message pending sh =
     (let expired = filter (\<lambda>r. wr_started_at r + budget \<le> en_now env) pending;
          rest = fold remove1 expired pending;
          (finished, sh') =
            fail_pending_websocket_requests env
              \<lparr> fo_account = False, fo_account_id = True, fo_error_code = code, fo_error_message = message,
                fo_websocket = True, fo_gate = True, fo_status = ''error'', fo_penalize_account = True \<rparr> expired sh
      in if expired = [] then ([], pending, sh) else (finished, rest, sh'))"

section \<open>Waiting\<close>

record receive_timeout =
  to_timeout_seconds :: seconds
  to_error_code :: string
  to_error_message :: string
  to_fail_all_pending :: bool

definition receive_timeout_of :: "seconds \<Rightarrow> string \<Rightarrow> string \<Rightarrow> bool \<Rightarrow> receive_timeout option" where
  "receive_timeout_of t code message fail_all =
     Some \<lparr> to_timeout_seconds = t, to_error_code = code, to_error_message = message, to_fail_all_pending = fail_all \<rparr>"

definition websocket_receive_timeout_for_pending_requests ::
  "seconds \<Rightarrow> seconds list \<Rightarrow> seconds \<Rightarrow> seconds \<Rightarrow> receive_timeout option"
where
  "websocket_receive_timeout_for_pending_requests now started_ats budget idle_timeout =
     (if started_ats = [] then None
      else
        let idle = max (1 / 1000) idle_timeout;
            remaining = max 0 (Min (set started_ats) + budget - now);
            matches = idle = max (1 / 1000) budget
        in if remaining \<le> 0 \<and> matches
           then receive_timeout_of 0 ''stream_idle_timeout'' ''Upstream stream idle timeout'' False
           else if matches \<and> idle \<le> remaining
           then receive_timeout_of remaining ''stream_idle_timeout'' ''Upstream stream idle timeout'' False
           else if remaining \<le> 0
           then receive_timeout_of 0 ''upstream_request_timeout'' ''Proxy request budget exhausted'' False
           else if idle < remaining
           then receive_timeout_of idle ''stream_idle_timeout'' ''Upstream stream idle timeout'' True
           else receive_timeout_of remaining ''upstream_request_timeout'' ''Proxy request budget exhausted'' False)"

definition next_websocket_receive_timeout ::
  "seconds \<Rightarrow> ws_request list \<Rightarrow> seconds \<Rightarrow> seconds \<Rightarrow> receive_timeout option"
where
  "next_websocket_receive_timeout now pending budget idle_timeout =
     websocket_receive_timeout_for_pending_requests now
       (map wr_started_at (filter http_bridge_request_counts_against_queue pending)) budget idle_timeout"

definition in_progress_event :: "string \<Rightarrow> json_dict" where
  "in_progress_event response_id =
     [(''type'', JStr ''response.in_progress''),
      (''response'', JObj [(''id'', JStr response_id), (''status'', JStr ''in_progress'')])]"

definition pending_websocket_keepalives :: "ws_request list \<Rightarrow> string list" where
  "pending_websocket_keepalives pending =
     map (\<lambda>i. dumps True False (JObj (in_progress_event i))) (List.map_filter wr_response_id pending)"

section \<open>The reader\<close>

text \<open>
  A turn of the reader begins by computing how long it may wait and ends with a message, the end of the
  wait or the loss of the connection. Texts are sent to the client one after the other; a turn is told
  after how many texts sending fails. A reader that stops closes the upstream or has lost it.
\<close>

datatype relay_input =
  Up_Wait
| Up_Text string nat
| Up_Binary nat
| Up_Closed string "int option" "string option"
| Up_Timeout nat
| Up_Crash

record relay_state =
  rl_pending :: "ws_request list"
  rl_finished :: "ws_request list"
  rl_shared :: ws_shared
  rl_wait :: "seconds \<times> receive_timeout option"
  rl_running :: bool

definition stop_reader :: "bool \<Rightarrow> relay_state \<Rightarrow> relay_state" where
  "stop_reader close_upstream st =
     (let sh = call_if close_upstream Close_Upstream (rl_shared st);
          lost = \<not> uc_reconnect_requested (sh_control sh) \<and> rl_pending st \<noteq> []
      in st\<lparr> rl_shared := call_if lost Close_Downstream sh, rl_running := False \<rparr>)"

definition fail_all :: "ws_env \<Rightarrow> fail_options \<Rightarrow> relay_state \<Rightarrow> relay_state" where
  "fail_all env opts st =
     (let (finished, sh) = fail_pending_websocket_requests env opts (rl_pending st) (rl_shared st)
      in st\<lparr> rl_pending := [], rl_finished := rl_finished st @ finished, rl_shared := sh \<rparr>)"

definition client_gone :: fail_options where
  "client_gone =
     \<lparr> fo_account = False, fo_account_id = True, fo_error_code = ''client_disconnected'',
       fo_error_message = ''Downstream websocket disconnected before response.completed'', fo_websocket = False,
       fo_gate = True, fo_status = ''cancelled'', fo_penalize_account = False \<rparr>"

definition upstream_gone :: "string \<Rightarrow> string \<Rightarrow> fail_options" where
  "upstream_gone code message =
     \<lparr> fo_account = True, fo_account_id = True, fo_error_code = code, fo_error_message = message,
       fo_websocket = True, fo_gate = True, fo_status = ''error'', fo_penalize_account = True \<rparr>"

text \<open>The texts that reach the client, and what follows when one of them does not.\<close>

definition send_downstream :: "ws_env \<Rightarrow> string list \<Rightarrow> nat \<Rightarrow> relay_state \<Rightarrow> relay_state" where
  "send_downstream env texts sent st =
     (let st1 = st\<lparr> rl_shared := fold (\<lambda>t. call (Send_Text t)) (take sent texts) (rl_shared st) \<rparr>
      in if length texts \<le> sent then st1 else stop_reader True (fail_all env client_gone st1))"

definition upstream_websocket_disconnect_message :: "string \<Rightarrow> int option \<Rightarrow> string option \<Rightarrow> string" where
  "upstream_websocket_disconnect_message kind close_code error =
     (if kind = ''error'' \<and> truthy_str error then CLOSED_BEFORE_COMPLETED @ '': '' @ the error
      else
        (case close_code of
           Some c \<Rightarrow> CLOSED_BEFORE_COMPLETED @ '' (close_code='' @ int_repr c @ '')''
         | None \<Rightarrow> CLOSED_BEFORE_COMPLETED))"

definition relay_text :: "ws_env \<Rightarrow> string \<Rightarrow> nat \<Rightarrow> relay_state \<Rightarrow> relay_state" where
  "relay_text env raw sent st =
     (let (text', finished, pending, sh) = process_upstream_websocket_text env raw (rl_pending st) (rl_shared st);
          control = sh_control sh;
          texts = (case uc_downstream_texts control of
                     Some ts \<Rightarrow> ts
                   | None \<Rightarrow> if uc_suppress_downstream_event control then [] else [text']);
          st1 = st\<lparr> rl_pending := pending, rl_finished := rl_finished st @ finished,
                    rl_shared := on_control (\<lambda>c. c\<lparr> uc_suppress_downstream_event := False,
                                                     uc_downstream_texts := None \<rparr>) sh \<rparr>;
          st2 = send_downstream env texts sent st1
      in if rl_running st2 \<and> uc_reconnect_requested (sh_control (rl_shared st2)) \<and>
            (uc_replay_request_state (sh_control (rl_shared st2)) \<noteq> None \<or> rl_pending st2 = [])
         then stop_reader True st2 else st2)"

definition relay_closed :: "ws_env \<Rightarrow> string \<Rightarrow> relay_state \<Rightarrow> relay_state" where
  "relay_closed env message st =
     (case pop_replayable_precreated_websocket_request_state (en_sha256_hex env) (rl_pending st) of
        (Some r, pending) \<Rightarrow>
          stop_reader True
            (st\<lparr> rl_pending := pending,
                 rl_shared := on_control (\<lambda>c. c\<lparr> uc_replay_request_state := Some r \<rparr>)
                                (request_reconnect (rl_shared st)) \<rparr>)
      | (None, _) \<Rightarrow> stop_reader False (fail_all env (upstream_gone ''stream_incomplete'' message) st))"

text \<open>A wait that ends without a message: keepalives before the deadline, failures after it.\<close>

definition relay_timeout :: "ws_env \<Rightarrow> seconds \<Rightarrow> nat \<Rightarrow> relay_state \<Rightarrow> relay_state" where
  "relay_timeout env budget sent st =
     (case snd (rl_wait st) of
        None \<Rightarrow> send_downstream env (pending_websocket_keepalives (rl_pending st)) sent st
      | Some t \<Rightarrow>
          if en_now env < fst (rl_wait st) + to_timeout_seconds t
          then send_downstream env (pending_websocket_keepalives (rl_pending st)) sent st
          else if to_fail_all_pending t
          then
            (let st1 = fail_all env (upstream_gone (to_error_code t) (to_error_message t)) st
             in stop_reader True (st1\<lparr> rl_shared := request_reconnect (rl_shared st1) \<rparr>))
          else
            (let (finished, pending, sh) =
                   fail_expired_pending_websocket_requests env budget (to_error_code t) (to_error_message t)
                     (rl_pending st) (rl_shared st)
             in st\<lparr> rl_pending := pending, rl_finished := rl_finished st @ finished, rl_shared := sh \<rparr>))"

definition relay_upstream_websocket_messages ::
  "ws_env \<Rightarrow> seconds \<Rightarrow> seconds \<Rightarrow> relay_input \<Rightarrow> relay_state \<Rightarrow> relay_state"
where
  "relay_upstream_websocket_messages env budget idle_timeout inp st =
     (case inp of
        Up_Wait \<Rightarrow>
          st\<lparr> rl_wait := (en_now env,
                         next_websocket_receive_timeout (en_now env) (rl_pending st) budget idle_timeout) \<rparr>
      | Up_Text raw sent \<Rightarrow> relay_text env raw sent st
      | Up_Binary sent \<Rightarrow>
          if sent = 0 then stop_reader True (fail_all env client_gone st)
          else st\<lparr> rl_shared := call Send_Bytes (rl_shared st) \<rparr>
      | Up_Closed kind close_code error \<Rightarrow>
          relay_closed env (upstream_websocket_disconnect_message kind close_code error) st
      | Up_Timeout sent \<Rightarrow> relay_timeout env budget sent st
      | Up_Crash \<Rightarrow>
          stop_reader False
            (fail_all env (upstream_gone ''stream_incomplete''
                             ''Upstream websocket reader crashed before response.completed'') st))"

end
