(* ===== verification/Ws_Session.thy ===== *)
theory Ws_Session
  imports Ws_Relay
begin

text \<open>
  A client's websocket as a whole (\<open>proxy_responses_websocket\<close>): the loop that takes the client's messages,
  queues its requests, connects to an upstream and restarts requests that are to be replayed, next to the
  reader of the upstream. Both tasks run interleaved; a step relation gives every interleaving. The loop
  waits where the code awaits: for a message of the client, for the reader to end, for the gate that
  lets one request at a time be created.
\<close>

section \<open>Parts of the loop\<close>

definition fresh_control :: upstream_control where
  "fresh_control =
     \<lparr> uc_reconnect_requested = False, uc_retire_after_drain = False, uc_suppress_downstream_event = False,
       uc_replay_request_state = None, uc_downstream_texts = None \<rparr>"

text \<open>
  Where the loop is: at its head, waiting for the client, with a request it has prepared, with one it has
  checked and not queued yet, with a queued request (by its id) that is replayed and to be checked again,
  or to be connected and sent, or ended.
\<close>

datatype loop_point =
  Top
| Waiting
| Got ws_request
| Checked ws_request
| Requeued string
| Registered string
| Sending
| Closed

text \<open>
  The last two fields record the history: the ids of all requests received, and the requests nobody
  holds any more, which were to be replayed when the control block that held them was dropped or in the
  loop's hands when it was interrupted.
\<close>

record ws_session =
  se_relay :: relay_state
  se_upstream :: bool
  se_reader :: bool
  se_replay :: "ws_request option"
  se_point :: loop_point
  se_seen :: "string list"
  se_abandoned :: "ws_request list"

abbreviation se_pending :: "ws_session \<Rightarrow> ws_request list" where
  "se_pending s \<equiv> rl_pending (se_relay s)"

abbreviation se_shared :: "ws_session \<Rightarrow> ws_shared" where
  "se_shared s \<equiv> rl_shared (se_relay s)"

definition reader_done :: "ws_session \<Rightarrow> bool" where
  "reader_done s \<longleftrightarrow> se_reader s \<and> \<not> rl_running (se_relay s)"

definition on_relay :: "(relay_state \<Rightarrow> relay_state) \<Rightarrow> ws_session \<Rightarrow> ws_session" where
  "on_relay f s = s\<lparr> se_relay := f (se_relay s) \<rparr>"

definition on_shared :: "(ws_shared \<Rightarrow> ws_shared) \<Rightarrow> ws_session \<Rightarrow> ws_session" where
  "on_shared f = on_relay (\<lambda>st. st\<lparr> rl_shared := f (rl_shared st) \<rparr>)"

definition drop_control :: "ws_session \<Rightarrow> ws_session" where
  "drop_control s =
     on_shared (on_control (\<lambda>_. fresh_control))
       (s\<lparr> se_abandoned := se_abandoned s @
              (case uc_replay_request_state (sh_control (se_shared s)) of None \<Rightarrow> [] | Some r \<Rightarrow> [r]) \<rparr>)"

definition drop_upstream :: "ws_session \<Rightarrow> ws_session" where
  "drop_upstream s =
     drop_control
       (on_relay (\<lambda>st. st\<lparr> rl_running := False \<rparr>) (s\<lparr> se_reader := False, se_upstream := False \<rparr>))"

definition take_replay :: "ws_session \<Rightarrow> ws_session" where
  "take_replay s =
     (if se_replay s = None
      then on_shared (on_control (\<lambda>c. c\<lparr> uc_replay_request_state := None \<rparr>))
             (s\<lparr> se_replay := uc_replay_request_state (sh_control (se_shared s)) \<rparr>)
      else s)"

definition collect_reader :: "ws_session \<Rightarrow> ws_session" where
  "collect_reader s = drop_upstream (take_replay s)"

definition finish_in_hand :: "ws_request \<times> ws_shared \<Rightarrow> ws_session \<Rightarrow> ws_session" where
  "finish_in_hand rs s =
     on_relay (\<lambda>st. st\<lparr> rl_finished := rl_finished st @ [fst rs], rl_shared := snd rs \<rparr>) s"

definition release_request_state_reservation :: "ws_request \<times> ws_shared \<Rightarrow> ws_request \<times> ws_shared" where
  "release_request_state_reservation rs =
     (let (r, sh) = rs; r' = cancel_reservation_heartbeat r
      in (r', release_websocket_reservation (wr_reservation r') sh))"

definition start_reservation_heartbeat :: "ws_request \<Rightarrow> ws_request" where
  "start_reservation_heartbeat r = (if wr_reservation r = None then r else r\<lparr> wr_heartbeat := True \<rparr>)"

definition terminal_error_event :: "ws_env \<Rightarrow> string \<Rightarrow> string \<Rightarrow> string \<Rightarrow> ws_request \<Rightarrow> json_dict" where
  "terminal_error_event env code message error_type r =
     response_failed_event (en_created_at env) code message error_type (Some (wr_shown_id r)) None"

definition restart_replay :: "ws_env \<Rightarrow> ws_request \<Rightarrow> ws_session \<Rightarrow> ws_session" where
  "restart_replay env r s =
     (let give_up = (\<lambda>code message.
            (finish_in_hand
               (release_websocket_response_create_gate
                  (emit_websocket_terminal_error (terminal_error_event env code message ''server_error'' r)
                     (release_request_state_reservation (r, se_shared s)))) s)\<lparr> se_replay := None \<rparr>)
      in case wr_request_text r of
           None \<Rightarrow> give_up ''stream_incomplete'' CLOSED_BEFORE_COMPLETED
         | Some t \<Rightarrow>
             (case Option.bind (loads t) as_obj of
                None \<Rightarrow> give_up ''upstream_error'' ''Invalid replay request payload''
              | Some _ \<Rightarrow>
                  (on_relay (\<lambda>st. st\<lparr> rl_pending := rl_pending st @ [start_reservation_heartbeat r] \<rparr>) s)
                    \<lparr> se_replay := None, se_point := Requeued (wr_request_id r) \<rparr>))"

definition resolve_owner :: "string option \<Rightarrow> ws_request \<Rightarrow> ws_request" where
  "resolve_owner owner r =
     (if wr_previous_response_id r \<noteq> None \<and> wr_preferred_account_id r = None
      then r\<lparr> wr_preferred_account_id := owner \<rparr> else r)"

definition recheck_replay :: "string option \<Rightarrow> string \<Rightarrow> ws_session \<Rightarrow> ws_session" where
  "recheck_replay owner i s =
     (case find (\<lambda>r. wr_request_id r = i) (se_pending s) of
        None \<Rightarrow> s\<lparr> se_point := Registered i \<rparr>
      | Some r \<Rightarrow>
          (on_relay (\<lambda>st. st\<lparr> rl_pending := set_state r (resolve_owner owner r) (rl_pending st) \<rparr>) s)
            \<lparr> se_point := Registered i \<rparr>)"

definition WEBSOCKET_FULL_REPLAY_WAIT_MIN_ITEMS :: nat where
  "WEBSOCKET_FULL_REPLAY_WAIT_MIN_ITEMS = 20"

definition full_resend_conflicts_with_visible_pending :: "bool \<Rightarrow> ws_request \<Rightarrow> ws_request list \<Rightarrow> bool" where
  "full_resend_conflicts_with_visible_pending codex_session_affinity r pending \<longleftrightarrow>
     codex_session_affinity \<and> wr_previous_response_id r = None \<and>
     WEBSOCKET_FULL_REPLAY_WAIT_MIN_ITEMS \<le> wr_input_item_count r \<and>
     list_ex (\<lambda>p. p \<noteq> r \<and> wr_downstream_visible p) pending"

definition connect_failure_log :: "ws_env \<Rightarrow> string \<Rightarrow> string \<Rightarrow> ws_request \<Rightarrow> ws_log" where
  "connect_failure_log env code message r =
     \<lparr> wl_request_id = or_str (wr_request_log_id r) (wr_request_id r), wl_model = or_str (wr_model r) [],
       wl_latency_ms = latency_ms (en_now env) r, wl_status = ''error'', wl_error_code = Some code,
       wl_error_message = Some message, wl_input_tokens = None, wl_output_tokens = None,
       wl_cached_input_tokens = None, wl_reasoning_tokens = None, wl_reasoning_effort = wr_reasoning_effort r,
       wl_transport = wr_transport r, wl_service_tier = wr_service_tier r,
       wl_requested_service_tier = wr_requested_service_tier r,
       wl_actual_service_tier = wr_actual_service_tier r,
       wl_latency_first_token_ms = wr_latency_first_token_ms r, wl_session_id = wr_session_id r \<rparr>"

definition write_connect_failure :: "ws_env \<Rightarrow> string \<Rightarrow> string \<Rightarrow> ws_request \<times> ws_shared \<Rightarrow> ws_request \<times> ws_shared" where
  "write_connect_failure env code message rs =
     (fst rs, call_if (\<not> wr_skip_request_log (fst rs)) (Write_Log (connect_failure_log env code message (fst rs)))
                (snd rs))"

text \<open>A request that is refused before it is queued: with a log entry after a failed lookup or admission.\<close>

definition refuse_request ::
  "ws_env \<Rightarrow> bool \<Rightarrow> string \<Rightarrow> string \<Rightarrow> string \<Rightarrow> ws_request \<times> ws_shared \<Rightarrow> ws_request \<times> ws_shared"
where
  "refuse_request env logged code message error_type rs =
     (let rs1 = release_request_state_reservation rs;
          rs2 = (if logged then write_connect_failure env code message rs1 else rs1)
      in emit_websocket_terminal_error (terminal_error_event env code message error_type (fst rs2)) rs2)"

definition refuse_replay ::
  "ws_env \<Rightarrow> bool \<Rightarrow> string \<Rightarrow> string \<Rightarrow> string \<Rightarrow> ws_request \<Rightarrow> ws_session \<Rightarrow> ws_session"
where
  "refuse_replay env logged code message error_type r s =
     (let (r', sh') = refuse_request env logged code message error_type (r, se_shared s)
      in (on_relay (\<lambda>st. st\<lparr> rl_pending := set_state r r' (rl_pending st), rl_shared := sh' \<rparr>) s)
           \<lparr> se_point := Top \<rparr>)"

definition acquire_gate :: "ws_request \<times> ws_shared \<Rightarrow> ws_request \<times> ws_shared" where
  "acquire_gate rs =
     (let (r, sh) = rs
      in (r\<lparr> wr_gate := True, wr_gate_acquired := True, wr_awaiting_response_created := True \<rparr>,
          sh\<lparr> sh_gate := sh_gate sh - 1 \<rparr>))"

definition queue_request :: "ws_request \<Rightarrow> ws_session \<Rightarrow> ws_session" where
  "queue_request r s =
     (let (r1, sh1) = acquire_gate (start_reservation_heartbeat r, se_shared s)
      in (on_relay (\<lambda>st. st\<lparr> rl_pending := rl_pending st @ [r1\<lparr> wr_admission := True \<rparr>],
                            rl_shared := sh1\<lparr> sh_admission := Suc (sh_admission sh1) \<rparr> \<rparr>) s)
           \<lparr> se_point := Registered (wr_request_id r) \<rparr>)"

definition refuse_admission :: "ws_env \<Rightarrow> string \<Rightarrow> string \<Rightarrow> string \<Rightarrow> ws_request \<Rightarrow> ws_session \<Rightarrow> ws_session" where
  "refuse_admission env code message error_type r s =
     (finish_in_hand
        (release_websocket_response_create_gate
           (refuse_request env True code message error_type
              (release_websocket_response_create_gate
                 (acquire_gate (start_reservation_heartbeat r, se_shared s))))) s)\<lparr> se_point := Top \<rparr>"

section \<open>Connecting and sending\<close>

definition sanitize_websocket_connect_failure ::
  "(json_dict \<Rightarrow> openai_error option) \<Rightarrow> ws_request \<Rightarrow> int \<times> json_dict \<times> string \<times> string \<Rightarrow>
   int \<times> json_dict \<times> string \<times> string"
where
  "sanitize_websocket_connect_failure parse_error r failure =
     (let (status, payload, code, message) = failure;
          parsed = parse_error payload;
          normalized_code = (case parsed of
                               Some e \<Rightarrow> normalize_error_code (oe_code e) (oe_type e)
                             | None \<Rightarrow> normalize_error_code (Some code) None);
          normalized_message = or_str (Option.bind parsed oe_message) message;
          param = Option.bind parsed oe_param
      in if wr_previous_response_id r = None then failure
         else if is_previous_response_not_found_error (Some normalized_code) param (Some normalized_message) \<or>
                 is_missing_tool_output_error (Some normalized_code) param (Some normalized_message)
         then (502, openai_error_envelope ''stream_incomplete'' CLOSED_BEFORE_COMPLETED ''server_error'',
               ''stream_incomplete'', CLOSED_BEFORE_COMPLETED)
         else failure)"

definition wrapped_websocket_error_event :: "int \<Rightarrow> json_dict \<Rightarrow> json_dict" where
  "wrapped_websocket_error_event status payload =
     [(''type'', JStr ''error''), (''status'', JInt status), (''error'', dict_get ''error'' payload)]"

definition emit_websocket_connect_failure ::
  "ws_env \<Rightarrow> (json_dict \<Rightarrow> openai_error option) \<Rightarrow> int \<times> json_dict \<times> string \<times> string \<Rightarrow> ws_request \<times> ws_shared \<Rightarrow>
   ws_request \<times> ws_shared"
where
  "emit_websocket_connect_failure env parse_error failure rs =
     (let (status, payload, code, message) = sanitize_websocket_connect_failure parse_error (fst rs) failure;
          rs1 = write_connect_failure env code message (release_request_state_reservation rs);
          (r, sh) = (if wr_gate (fst rs1) then release_websocket_response_create_gate rs1 else rs1)
      in (r, call (Send_Text (dumps True False (JObj (wrapped_websocket_error_event status payload)))) sh))"

definition connect_failed ::
  "ws_env \<Rightarrow> (json_dict \<Rightarrow> openai_error option) \<Rightarrow> int \<times> json_dict \<times> string \<times> string \<Rightarrow> string \<Rightarrow> ws_session \<Rightarrow> ws_session"
where
  "connect_failed env parse_error failure request_id s =
     (case find (\<lambda>r. wr_request_id r = request_id) (se_pending s) of
        None \<Rightarrow> s\<lparr> se_point := Top \<rparr>
      | Some r \<Rightarrow>
          (let (r1, sh1) = emit_websocket_connect_failure env parse_error failure (r, se_shared s);
               rs2 = release_websocket_response_create_gate (cancel_reservation_heartbeat r1, sh1)
           in finish_in_hand rs2
                (on_relay (\<lambda>st. st\<lparr> rl_pending := remove1 r (rl_pending st) \<rparr>) s)\<lparr> se_point := Top \<rparr>))"

definition connected :: "ws_session \<Rightarrow> ws_session" where
  "connected s =
     on_shared (on_control (\<lambda>_. fresh_control))
       (on_relay (\<lambda>st. st\<lparr> rl_running := True \<rparr>)
          (s\<lparr> se_upstream := True, se_reader := True, se_point := Sending \<rparr>))"

definition send_failed :: "ws_env \<Rightarrow> ws_session \<Rightarrow> ws_session" where
  "send_failed env s =
     (case pop_replayable_precreated_websocket_request_state (en_sha256_hex env) (se_pending s) of
        (Some r, pending) \<Rightarrow>
          drop_upstream (on_relay (\<lambda>st. st\<lparr> rl_pending := pending \<rparr>) s)\<lparr> se_replay := Some r, se_point := Top \<rparr>
      | (None, _) \<Rightarrow>
          drop_upstream (on_relay (fail_all env (upstream_gone ''stream_incomplete'' CLOSED_BEFORE_COMPLETED)) s)
            \<lparr> se_point := Top \<rparr>)"

text \<open>The end of the connection: a request kept for replay is dropped, all queued requests fail.\<close>

definition close_session :: "ws_env \<Rightarrow> bool \<Rightarrow> ws_session \<Rightarrow> ws_session" where
  "close_session env client_disconnected s =
     (let s1 = on_relay (\<lambda>st. st\<lparr> rl_running := False \<rparr>) (s\<lparr> se_reader := False \<rparr>);
          s2 = (case se_replay s1 of
                  None \<Rightarrow> s1
                | Some r \<Rightarrow>
                    (let (r1, sh1) = release_request_state_reservation (r, se_shared s1)
                     in finish_in_hand
                          (release_websocket_response_create_gate (r1\<lparr> wr_reservation := None \<rparr>, sh1)) s1
                          \<lparr> se_replay := None \<rparr>));
          opts = (if client_disconnected
                  then client_gone\<lparr> fo_account_id := se_upstream s2 \<rparr>
                  else (upstream_gone ''stream_incomplete'' CLOSED_BEFORE_COMPLETED)
                         \<lparr> fo_account := se_upstream s2, fo_account_id := se_upstream s2 \<rparr>)
      in drop_control (on_relay (fail_all env opts) s2)\<lparr> se_point := Closed \<rparr>)"

section \<open>Steps\<close>

text \<open>A prepared request has a fresh id, holds nothing but its reservation and has seen no event.\<close>

definition prepared :: "ws_request \<Rightarrow> bool" where
  "prepared r \<longleftrightarrow>
     wr_response_id r = None \<and> \<not> wr_awaiting_response_created r \<and> \<not> wr_gate_acquired r \<and> \<not> wr_gate r \<and>
     \<not> wr_admission r \<and> wr_replay_count r = 0 \<and> wr_response_event_count r = 0"

text \<open>
  The connection may end at every point of the loop, by the client's leaving, an error that is not handled
  or the cancelling of the task; a request the loop has neither queued nor under its own handler is then
  dropped.
\<close>

fun empty_handed :: "loop_point \<Rightarrow> bool" where
  "empty_handed (Got r) = False"
| "empty_handed (Checked r) = False"
| "empty_handed Closed = False"
| "empty_handed _ = True"

definition initial_session :: "continuity_state option \<Rightarrow> ws_session" where
  "initial_session continuity =
     \<lparr> se_relay = \<lparr> rl_pending = [], rl_finished = [],
                    rl_shared = \<lparr> sh_control = fresh_control, sh_gate = 1, sh_admission = 0,
                                  sh_continuity = continuity, sh_calls = [] \<rparr>,
                    rl_wait = (0, None), rl_running = False \<rparr>,
       se_upstream = False, se_reader = False, se_replay = None, se_point = Top, se_seen = [],
       se_abandoned = [] \<rparr>"

inductive ws_step :: "ws_session \<Rightarrow> ws_session \<Rightarrow> bool" where
  read_upstream:
    "\<lbrakk> se_reader s; rl_running (se_relay s); se_point s \<noteq> Closed \<rbrakk>
     \<Longrightarrow> ws_step s (on_relay (relay_upstream_websocket_messages env budget idle inp) s)"
| top_collect: "\<lbrakk> se_point s = Top; reader_done s \<rbrakk> \<Longrightarrow> ws_step s (collect_reader s)"
| top_replay:
    "\<lbrakk> se_point s = Top; \<not> reader_done s; se_replay s = Some r \<rbrakk> \<Longrightarrow> ws_step s (restart_replay env r s)"
| top_wait:
    "\<lbrakk> se_point s = Top; \<not> reader_done s; se_replay s = None \<rbrakk> \<Longrightarrow> ws_step s (s\<lparr> se_point := Waiting \<rparr>)"
| ignored: "se_point s = Waiting \<Longrightarrow> ws_step s (s\<lparr> se_point := Top \<rparr>)"
| answered:
    "se_point s = Waiting \<Longrightarrow> ws_step s (on_shared (call (Send_Text t)) (s\<lparr> se_point := Top \<rparr>))"
| forwarded:
    "\<lbrakk> se_point s = Waiting; s' = (if reader_done s then collect_reader s else s) \<rbrakk>
     \<Longrightarrow> ws_step s (if se_upstream s' then s'\<lparr> se_point := Sending \<rparr>
                    else on_shared (call (Send_Text t)) (s'\<lparr> se_point := Top \<rparr>))"
| received:
    "\<lbrakk> se_point s = Waiting; prepared r; wr_request_id r \<notin> set (se_seen s) \<rbrakk>
     \<Longrightarrow> ws_step s (s\<lparr> se_point := Got r, se_seen := wr_request_id r # se_seen s \<rparr>)"
| got:
    "\<lbrakk> se_point s = Got r;
       \<not> (se_reader s \<and> rl_running (se_relay s) \<and> uc_reconnect_requested (sh_control (se_shared s)));
       s' = (if reader_done s then collect_reader s else s) \<rbrakk>
     \<Longrightarrow> ws_step s (s'\<lparr> se_point := Checked (resolve_owner owner r) \<rparr>)"
| refused:
    "\<lbrakk> se_point s = Checked r;
       logged \<and> wr_previous_response_id r \<noteq> None \<or>
       \<not> logged \<and> full_resend_conflicts_with_visible_pending affinity r (se_pending s) \<rbrakk>
     \<Longrightarrow> ws_step s ((finish_in_hand (refuse_request env logged code message error_type (r, se_shared s)) s)
                      \<lparr> se_point := Top \<rparr>)"
| queued:
    "\<lbrakk> se_point s = Checked r; 0 < sh_gate (se_shared s) \<rbrakk> \<Longrightarrow> ws_step s (queue_request r s)"
| not_admitted:
    "\<lbrakk> se_point s = Checked r; 0 < sh_gate (se_shared s) \<rbrakk>
     \<Longrightarrow> ws_step s (refuse_admission env code message error_type r s)"
| cancelled:
    "se_point s = Checked r
     \<Longrightarrow> ws_step s (close_session env gone
           (finish_in_hand
              (release_websocket_response_create_gate (release_request_state_reservation (r, se_shared s))) s))"
| requeued:
    "se_point s = Requeued i \<Longrightarrow> ws_step s (recheck_replay owner i s)"
| requeue_refused:
    "\<lbrakk> se_point s = Requeued i; find (\<lambda>r. wr_request_id r = i) (se_pending s) = Some r;
       logged \<and> wr_previous_response_id r \<noteq> None \<and> wr_preferred_account_id r = None \<or>
       \<not> logged \<and> full_resend_conflicts_with_visible_pending affinity r (se_pending s) \<rbrakk>
     \<Longrightarrow> ws_step s (refuse_replay env logged code message error_type r s)"
| connect:
    "\<lbrakk> se_point s = Registered i; \<not> se_upstream s \<rbrakk> \<Longrightarrow> ws_step s (connected s)"
| connect_failure:
    "\<lbrakk> se_point s = Registered i; \<not> se_upstream s \<rbrakk> \<Longrightarrow> ws_step s (connect_failed env parse_error failure i s)"
| has_upstream:
    "\<lbrakk> se_point s = Registered i; se_upstream s \<rbrakk> \<Longrightarrow> ws_step s (s\<lparr> se_point := Sending \<rparr>)"
| sent: "se_point s = Sending \<Longrightarrow> ws_step s (s\<lparr> se_point := Top \<rparr>)"
| send_failure: "se_point s = Sending \<Longrightarrow> ws_step s (send_failed env s)"
| closed: "empty_handed (se_point s) \<Longrightarrow> ws_step s (close_session env gone s)"
| interrupted:
    "se_point s = Got r
     \<Longrightarrow> ws_step s (close_session env gone (s\<lparr> se_point := Waiting, se_abandoned := se_abandoned s @ [r] \<rparr>))"

inductive ws_reachable :: "continuity_state option \<Rightarrow> ws_session \<Rightarrow> bool" for continuity where
  init: "ws_reachable continuity (initial_session continuity)"
| step: "\<lbrakk> ws_reachable continuity s; ws_step s s' \<rbrakk> \<Longrightarrow> ws_reachable continuity s'"

end
