(* ===== verification/Ws_Laws.thy ===== *)
theory Ws_Laws
  imports Ws_Session "HOL-Library.Multiset"
begin

text \<open>
  Laws of the websocket handlers. A ledger over the requests that are alive, wherever they are kept,
  the requests that are finished and the shared state says that no request is lost or finished twice, that
  the gate for creating responses is either free or held by one live request, and that a finished
  request holds nothing. Every part of the handlers keeps the ledger, hence every step of a session.
\<close>

section \<open>The ledger\<close>

definition request_ok :: "ws_request \<Rightarrow> bool" where
  "request_ok r \<longleftrightarrow>
     (wr_awaiting_response_created r \<longrightarrow> wr_gate_acquired r) \<and> (wr_gate r \<longleftrightarrow> wr_gate_acquired r) \<and> wr_replay_count r \<le> 1"

definition released :: "ws_request \<Rightarrow> bool" where
  "released r \<longleftrightarrow> \<not> wr_gate_acquired r \<and> \<not> wr_admission r \<and> \<not> wr_awaiting_response_created r"

definition balanced ::
  "string multiset \<Rightarrow> ws_request multiset \<Rightarrow> ws_request list \<Rightarrow> ws_shared \<Rightarrow> bool"
where
  "balanced I M F sh \<longleftrightarrow>
     image_mset wr_request_id M + mset (map wr_request_id F) = I \<and>
     sh_gate sh + size (filter_mset wr_gate_acquired M) = 1 \<and>
     sh_admission sh = size (filter_mset wr_admission M) \<and>
     (\<forall>r \<in># M. request_ok r) \<and> (\<forall>r \<in> set F. released r)"

definition alike :: "ws_request \<Rightarrow> ws_request \<Rightarrow> bool" where
  "alike r r' \<longleftrightarrow>
     wr_request_id r' = wr_request_id r \<and> wr_gate_acquired r' = wr_gate_acquired r \<and> wr_admission r' = wr_admission r \<and>
     wr_gate r' = wr_gate r \<and> wr_awaiting_response_created r' = wr_awaiting_response_created r \<and>
     wr_replay_count r' = wr_replay_count r"

lemma alike_refl [simp]: "alike r r" by (simp add: alike_def)

lemma alike_trans: "alike r s \<Longrightarrow> alike s t \<Longrightarrow> alike r t" by (simp add: alike_def)

lemma alike_ok: "alike r r' \<Longrightarrow> request_ok r' = request_ok r" by (simp add: alike_def request_ok_def)

lemma balanced_alike: "balanced I (add_mset r M) F sh \<Longrightarrow> alike r r' \<Longrightarrow> balanced I (add_mset r' M) F sh"
  by (auto simp: balanced_def alike_ok) (simp_all add: alike_def)

definition same_gates :: "ws_shared \<Rightarrow> ws_shared \<Rightarrow> bool" where
  "same_gates sh sh' \<longleftrightarrow> sh_gate sh' = sh_gate sh \<and> sh_admission sh' = sh_admission sh"

lemma balanced_shared: "balanced I M F sh \<Longrightarrow> same_gates sh sh' \<Longrightarrow> balanced I M F sh'"
  by (simp add: balanced_def same_gates_def)

lemma same_gates_refl [simp]: "same_gates sh sh" by (simp add: same_gates_def)

lemma same_gates_trans: "same_gates a b \<Longrightarrow> same_gates b c \<Longrightarrow> same_gates a c" by (simp add: same_gates_def)

lemma call_simps [simp]:
  "sh_gate (call c sh) = sh_gate sh" "sh_admission (call c sh) = sh_admission sh"
  "sh_control (call c sh) = sh_control sh"
  by (simp_all add: call_def)

lemma call_if_simps [simp]:
  "sh_gate (call_if b c sh) = sh_gate sh" "sh_admission (call_if b c sh) = sh_admission sh"
  "sh_control (call_if b c sh) = sh_control sh"
  by (simp_all add: call_if_def)

lemma on_control_simps [simp]:
  "sh_gate (on_control f sh) = sh_gate sh" "sh_admission (on_control f sh) = sh_admission sh"
  "sh_control (on_control f sh) = f (sh_control sh)"
  by (simp_all add: on_control_def)

lemma control_simps [simp]:
  "sh_gate (request_reconnect sh) = sh_gate sh" "sh_admission (request_reconnect sh) = sh_admission sh"
  "sh_control (request_reconnect sh) = (sh_control sh)\<lparr> uc_reconnect_requested := True \<rparr>"
  "sh_gate (suppress_event sh) = sh_gate sh" "sh_admission (suppress_event sh) = sh_admission sh"
  "sh_control (suppress_event sh) = (sh_control sh)\<lparr> uc_suppress_downstream_event := True \<rparr>"
  by (simp_all add: request_reconnect_def suppress_event_def)

abbreviation replay_of :: "ws_shared \<Rightarrow> ws_request option" where
  "replay_of sh \<equiv> uc_replay_request_state (sh_control sh)"

lemma release_gate_effect:
  assumes "release_websocket_response_create_gate (r, sh) = (r', sh')"
  shows "released r'" "wr_request_id r' = wr_request_id r" "wr_reservation r' = wr_reservation r"
    "wr_response_id r' = wr_response_id r" "sh_control sh' = sh_control sh" "request_ok r \<Longrightarrow> request_ok r'"
  using assms by (auto simp: release_websocket_response_create_gate_def Let_def released_def request_ok_def
      split: if_splits)

lemma balanced_release:
  assumes "balanced I (add_mset r M) F sh" "release_websocket_response_create_gate (r, sh) = (r', sh')"
  shows "balanced I (add_mset r' M) F sh'"
proof -
  have ok: "request_ok r" using assms(1) by (simp add: balanced_def)
  show ?thesis
    using assms ok by (auto simp: balanced_def release_websocket_response_create_gate_def Let_def request_ok_def
        split: if_splits)
qed

lemma balanced_finish:
  "balanced I (add_mset r M) F sh \<Longrightarrow> released r \<Longrightarrow> balanced I M (F @ [r]) sh"
  by (auto simp: balanced_def released_def)

lemma released_alike: "alike r r' \<Longrightarrow> released r' = released r" by (simp add: alike_def released_def)

lemma release_reservation_simps [simp]:
  "sh_gate (release_websocket_reservation d sh) = sh_gate sh"
  "sh_admission (release_websocket_reservation d sh) = sh_admission sh"
  "sh_control (release_websocket_reservation d sh) = sh_control sh"
  by (simp_all add: release_websocket_reservation_def split: option.split)

lemma settle_simps [simp]:
  "sh_gate (settle_stream_api_key_usage k d st sh) = sh_gate sh"
  "sh_admission (settle_stream_api_key_usage k d st sh) = sh_admission sh"
  "sh_control (settle_stream_api_key_usage k d st sh) = sh_control sh"
  by (simp_all add: settle_stream_api_key_usage_def Let_def split: option.split prod.split bool.split)

lemma cancel_heartbeat_alike [simp]: "alike r (cancel_reservation_heartbeat r)"
  by (simp add: alike_def cancel_reservation_heartbeat_def)

section \<open>Finishing\<close>

lemma finalize_effect:
  assumes "finalize_websocket_request_state env event event_type payload r sh = (r', sh')"
  shows "\<exists>r1 r2 sh1. alike r r1 \<and> release_websocket_response_create_gate (r1, sh) = (r2, sh1) \<and> alike r2 r' \<and>
    same_gates sh1 sh' \<and> replay_of sh' = replay_of sh1"
proof (cases "wr_draining_until_terminal r")
  case True
  obtain r2 sh1 where rel: "release_websocket_response_create_gate (r, sh) = (r2, sh1)" by fastforce
  then have "alike r2 r' \<and> same_gates sh1 sh' \<and> replay_of sh' = replay_of sh1"
    using assms True by (auto simp: finalize_websocket_request_state_def alike_def same_gates_def)
  then show ?thesis using rel alike_refl by blast
next
  case False
  let ?actual = "service_tier_from_event_payload payload"
  define r1 where "r1 = cancel_reservation_heartbeat (if ?actual \<noteq> None then r\<lparr> wr_actual_service_tier := ?actual \<rparr> else r)"
  obtain r2 sh1 where rel: "release_websocket_response_create_gate (r1, sh) = (r2, sh1)" by fastforce
  have "alike r r1" by (simp add: r1_def alike_def cancel_reservation_heartbeat_def)
  moreover have "r' = r2 \<and> same_gates sh1 sh' \<and> replay_of sh' = replay_of sh1"
    using assms False rel unfolding r1_def
    by (auto simp: finalize_websocket_request_state_def Let_def same_gates_def split: if_splits)
  ultimately show ?thesis using rel by auto
qed

lemma balanced_finalize:
  assumes "balanced I (add_mset r M) F sh"
    "finalize_websocket_request_state env event event_type payload r sh = (r', sh')"
  shows "balanced I M (F @ [r']) sh'" "replay_of sh' = replay_of sh"
proof -
  obtain r1 r2 sh1 where e: "alike r r1" "release_websocket_response_create_gate (r1, sh) = (r2, sh1)"
    "alike r2 r'" "same_gates sh1 sh'" "replay_of sh' = replay_of sh1"
    using finalize_effect [OF assms(2)] by blast
  have "balanced I (add_mset r2 M) F sh1"
    using balanced_release [OF balanced_alike [OF assms(1) e(1)] e(2)] .
  then have "balanced I (add_mset r' M) F sh'"
    using balanced_shared [OF balanced_alike e(4)] e(3) by blast
  moreover have "released r'" using release_gate_effect(1) [OF e(2)] released_alike [OF e(3)] by simp
  ultimately show "balanced I M (F @ [r']) sh'" by (rule balanced_finish)
  show "replay_of sh' = replay_of sh" using e(5) release_gate_effect(5) [OF e(2)] by simp
qed

lemma balanced_finish_group:
  assumes "balanced I (mset rs + M) F sh" "finish_group env rs sh = (texts, finished, sh')"
  shows "balanced I M (F @ finished) sh' \<and> replay_of sh' = replay_of sh \<and> length texts = length rs"
  using assms
proof (induction rs arbitrary: F sh texts finished sh')
  case Nil
  then show ?case by simp
next
  case (Cons r rs)
  obtain event payload event_type t where b:
    "build_stream_incomplete_terminal_event_for_request env r = (event, payload, event_type, t)"
    using prod_cases4 by blast
  obtain r1 sh1 where f: "finalize_websocket_request_state env event event_type payload r sh = (r1, sh1)"
    by fastforce
  obtain ts fs sh2 where g: "finish_group env rs sh1 = (ts, fs, sh2)" using prod_cases3 by blast
  have res: "texts = t # ts" "finished = r1 # fs" "sh' = sh2" using Cons.prems(2) b f g by auto
  have "balanced I (mset rs + M) (F @ [r1]) sh1" "replay_of sh1 = replay_of sh"
    using balanced_finalize [OF _ f, of I "mset rs + M" F] Cons.prems(1) by simp_all
  then show ?case using Cons.IH [OF _ g, of "F @ [r1]"] res by simp
qed

section \<open>Ending or replaying\<close>

definition replays :: "ws_shared \<Rightarrow> ws_request multiset" where
  "replays sh = (case replay_of sh of None \<Rightarrow> {#} | Some r \<Rightarrow> {#r#})"

lemma replays_simps [simp]:
  "replay_of sh = None \<Longrightarrow> replays sh = {#}" "replay_of sh = Some r \<Longrightarrow> replays sh = {#r#}"
  by (simp_all add: replays_def)

lemma balanced_replay_request:
  assumes "balanced I (add_mset r M) F sh" "wr_replay_count r = 0" "wr_awaiting_response_created r"
  shows "balanced I (M + replays (replay_request r sh)) F (replay_request r sh)"
  using assms by (auto simp: balanced_def replays_def replay_request_def request_ok_def)

lemma retry_code_needs:
  assumes "websocket_precreated_retry_error_code r event_type payload other = Some c"
  shows "wr_replay_count r = 0" "wr_awaiting_response_created r" "\<not> other"
  using assms by (auto simp: websocket_precreated_retry_error_code_def Let_def split: if_splits)

lemma balanced_retry_or_finish:
  assumes bal: "balanced I (add_mset r M) F sh" and none: "replay_of sh = None"
    and code: "code \<noteq> None \<Longrightarrow> wr_replay_count r = 0 \<and> wr_awaiting_response_created r"
    and res: "retry_or_finish env inc code view r sh = (t, finished, sh')"
  shows "balanced I (M + replays sh') (F @ finished) sh'"
proof -
  obtain event payload event_type t0 where v: "view = (event, payload, event_type, t0)" using prod_cases4 by blast
  let ?fresh = "wr_fresh_upstream_request_is_retry_safe r \<and> truthy_str (wr_fresh_upstream_request_text r)"
  let ?r = "r\<lparr> wr_request_text := wr_fresh_upstream_request_text r, wr_previous_response_id := None,
              wr_proxy_injected_previous_response_id := False, wr_fresh_upstream_request_is_retry_safe := False \<rparr>"
  consider (fresh) "code \<noteq> None" "wi_not_found inc" "?fresh" | (again) "code \<noteq> None" "\<not> wi_not_found inc"
    | (finish) "code = None \<or> wi_not_found inc \<and> \<not> ?fresh" by argo
  then show ?thesis
  proof cases
    case fresh
    then have r: "finished = []" "sh' = replay_request ?r sh"
      using res v by (auto simp: retry_or_finish_def)
    have "balanced I (add_mset ?r M) F sh" by (rule balanced_alike [OF bal]) (simp add: alike_def)
    then show ?thesis using balanced_replay_request [of I ?r M F sh] code [OF fresh(1)] r by simp
  next
    case again
    then have r: "finished = []" "sh' = call (Stream_Error (event_error event_type payload) (the code)) (replay_request r sh)"
      using res v by (auto simp: retry_or_finish_def)
    have "balanced I (M + replays (replay_request r sh)) F (replay_request r sh)"
      using balanced_replay_request [OF bal] code [OF again(1)] by simp
    then show ?thesis using r balanced_shared [of _ _ _ "replay_request r sh" sh']
      by (simp add: replays_def same_gates_def)
  next
    case finish
    define sh1 where "sh1 = (if event_type = Some ''response.completed''
      then sh\<lparr> sh_continuity := map_option (record_websocket_continuity_completion r (wi_response_id inc))
        (sh_continuity sh) \<rparr> else sh)"
    obtain r' sh2 where f: "finalize_websocket_request_state env event event_type payload r sh1 = (r', sh2)"
      by fastforce
    have r: "finished = [r']" "sh' = sh2"
      using res v f finish by (auto simp: retry_or_finish_def sh1_def [symmetric])
    have "balanced I (add_mset r M) F sh1"
      by (rule balanced_shared [OF bal]) (simp add: sh1_def same_gates_def)
    then have "balanced I M (F @ [r']) sh2" "replay_of sh2 = replay_of sh1"
      using balanced_finalize [OF _ f] by blast+
    then show ?thesis using r none by (simp add: sh1_def)
  qed
qed

lemma rewrite_corruption_simps [simp]:
  "sh_gate (snd (rewrite_websocket_continuity_corruption_event env b r sh)) = sh_gate sh"
  "sh_admission (snd (rewrite_websocket_continuity_corruption_event env b r sh)) = sh_admission sh"
  "replay_of (snd (rewrite_websocket_continuity_corruption_event env b r sh)) = replay_of sh"
  by (simp_all add: rewrite_websocket_continuity_corruption_event_def)

lemma maybe_rewrite_effect:
  assumes "maybe_rewrite_websocket_previous_response_not_found_event env r view sh = (view', sh')"
  shows "same_gates sh sh'" "replay_of sh' = replay_of sh"
proof -
  have "sh' = snd (maybe_rewrite_websocket_previous_response_not_found_event env r view sh)" using assms by simp
  moreover obtain a b c d where "view = (a, b, c, d)" using prod_cases4 by blast
  ultimately have "same_gates sh sh' \<and> replay_of sh' = replay_of sh"
    by (simp add: maybe_rewrite_websocket_previous_response_not_found_event_def Let_def same_gates_def)
  then show "same_gates sh sh'" "replay_of sh' = replay_of sh" by simp_all
qed

lemma record_response_event_alike [simp]: "alike r (record_response_event t r)"
  by (simp add: alike_def record_response_event_def split: option.split)

lemma maybe_touch_effect:
  assumes "maybe_touch_request_state_reservation now b (r, sh) = (r', sh')"
  shows "alike r r'" "same_gates sh sh'" "replay_of sh' = replay_of sh"
  using assms
  by (auto simp: maybe_touch_request_state_reservation_def alike_def same_gates_def split: option.splits if_splits)

lemma balanced_finish_request:
  assumes bal: "balanced I (add_mset r M) F sh" and none: "replay_of sh = None"
    and res: "finish_request env inc view other r sh = (t, finished, sh')"
  shows "balanced I (M + replays sh') (F @ finished) sh'"
proof -
  obtain event payload event_type t0 where v: "view = (event, payload, event_type, t0)" using prod_cases4 by blast
  let ?r0 = "record_response_event event_type r"
  define step where "step = (if in_types event_type TERMINAL_EVENT_TYPES then (?r0, sh)
    else maybe_touch_request_state_reservation (en_now env) (en_touched env) (?r0, sh))"
  obtain r1 sh1 where s: "step = (r1, sh1)" by fastforce
  have "alike ?r0 r1 \<and> same_gates sh sh1 \<and> replay_of sh1 = replay_of sh"
  proof (cases "in_types event_type TERMINAL_EVENT_TYPES")
    case False
    then show ?thesis using s maybe_touch_effect [of "en_now env" "en_touched env" ?r0 sh r1 sh1] by (simp add: step_def)
  qed (use s in \<open>simp add: step_def\<close>)
  then have r1: "alike r r1" and sh1: "same_gates sh sh1" "replay_of sh1 = None"
    using alike_trans [OF record_response_event_alike, of event_type r r1] none by simp_all
  obtain view1 sh2 where w: "maybe_rewrite_websocket_previous_response_not_found_event env r1 view sh1 = (view1, sh2)"
    by fastforce
  obtain event1 payload1 event_type1 t1 where v1: "view1 = (event1, payload1, event_type1, t1)" using prod_cases4 by blast
  define retry where "retry = (if websocket_precreated_retry_error_code r1 event_type payload other = None
    then websocket_precreated_retry_error_code r1 event_type1 payload1 other
    else websocket_precreated_retry_error_code r1 event_type payload other)"
  have code: "wr_replay_count r1 = 0 \<and> wr_awaiting_response_created r1" if "retry \<noteq> None"
    using that retry_code_needs(1,2) by (auto simp: retry_def split: if_splits)
  have bal2: "balanced I (add_mset r1 M) F sh2"
    by (rule balanced_shared [OF balanced_shared [OF balanced_alike [OF bal r1] sh1(1)] maybe_rewrite_effect(1) [OF w]])
  have none2: "replay_of sh2 = None" using maybe_rewrite_effect(2) [OF w] sh1(2) by simp
  have unfolded: "finish_request env inc view other r sh =
      (if in_types retry TRANSPARENT_REPLAY_ERROR_CODES \<and> wr_previous_response_id r1 \<noteq> None \<and>
          wr_preferred_account_id r1 \<noteq> None
       then retry_or_finish env inc None (rewrite_websocket_previous_response_owner_unavailable_event env r1) r1
              (call (Stream_Error (event_error event_type1 payload1) (the retry)) sh2)
       else retry_or_finish env inc retry view1 r1 sh2)"
    unfolding finish_request_def Let_def v prod.case step_def [symmetric] s w [unfolded v] v1 retry_def by simp
  show ?thesis
  proof (cases "in_types retry TRANSPARENT_REPLAY_ERROR_CODES \<and> wr_previous_response_id r1 \<noteq> None \<and>
      wr_preferred_account_id r1 \<noteq> None")
    case True
    let ?sh = "call (Stream_Error (event_error event_type1 payload1) (the retry)) sh2"
    have "retry_or_finish env inc None (rewrite_websocket_previous_response_owner_unavailable_event env r1) r1 ?sh =
        (t, finished, sh')"
      using res True unfolding unfolded by simp
    moreover have "balanced I (add_mset r1 M) F ?sh" by (rule balanced_shared [OF bal2]) (simp add: same_gates_def)
    ultimately show ?thesis using balanced_retry_or_finish [of I r1 M F ?sh None] none2 by simp
  next
    case False
    then have "retry_or_finish env inc retry view1 r1 sh2 = (t, finished, sh')"
      using res unfolding unfolded by (simp only: if_False)
    then show ?thesis using balanced_retry_or_finish [OF bal2 none2] code by blast
  qed
qed

definition ended :: "ws_request option \<Rightarrow> ws_request list \<Rightarrow> ws_request multiset" where
  "ended popped grouped = (case popped of None \<Rightarrow> mset grouped | Some r \<Rightarrow> add_mset r (mset grouped))"

lemma balanced_finish_event:
  assumes bal: "balanced I (ended popped grouped + M) F sh" and none: "replay_of sh = None"
    and one: "popped \<noteq> None \<Longrightarrow> grouped = []"
    and res: "finish_event env inc view popped grouped other sh = (t, finished, sh')"
  shows "balanced I (M + replays sh') (F @ finished) sh'"
proof (cases "1 < length grouped")
  case True
  then have p: "popped = None" using one by (cases popped) auto
  obtain texts fs sh1 where g: "finish_group env grouped (request_reconnect sh) = (texts, fs, sh1)"
    using prod_cases3 by blast
  have r: "finished = fs" "sh' = on_control (\<lambda>c. c\<lparr> uc_downstream_texts := Some texts \<rparr>) (suppress_event sh1)"
    using res True g by (auto simp: finish_event_def)
  have "balanced I (mset grouped + M) F (request_reconnect sh)"
    by (rule balanced_shared [of _ _ _ sh]) (use bal p in \<open>simp_all add: ended_def same_gates_def\<close>)
  from balanced_finish_group [OF this g]
  have "balanced I M (F @ fs) sh1" "replay_of sh1 = None" using none by simp_all
  then show ?thesis using r balanced_shared [of I M "F @ fs" sh1 sh'] by (simp add: same_gates_def)
next
  case False
  show ?thesis
  proof (cases popped)
    case (Some r)
    then have "balanced I (add_mset r M) F sh" using bal one by (simp add: ended_def)
    moreover have "finish_request env inc view other r sh = (t, finished, sh')"
      using res False Some by (cases grouped) (simp_all add: finish_event_def)
    ultimately show ?thesis using balanced_finish_request none by blast
  next
    case None
    then consider (no) "grouped = []" | (single) r where "grouped = [r]"
      using False by (cases grouped; cases "tl grouped") auto
    then show ?thesis
    proof cases
      case no
      then have "finished = []" "same_gates sh sh'" "replay_of sh' = None"
        using res None none by (auto simp: finish_event_def same_gates_def Let_def split: if_splits)
      then show ?thesis using bal None no balanced_shared [of I M F sh sh'] by (simp add: ended_def)
    next
      case (single r)
      then have "balanced I (add_mset r M) F sh" using bal None by (simp add: ended_def)
      moreover have "finish_request env inc view other r sh = (t, finished, sh')"
        using res None single by (simp add: finish_event_def)
      ultimately show ?thesis using balanced_finish_request none by blast
    qed
  qed
qed

section \<open>Queues\<close>

lemma update_first_mset:
  "update_first p f xs = Some (y, ys) \<Longrightarrow>
     \<exists>x. x \<in> set xs \<and> p x \<and> y = f x \<and> mset ys = add_mset y (mset xs - {#x#})"
proof (induction xs arbitrary: ys)
  case (Cons x xs)
  show ?case
  proof (cases "p x")
    case False
    then obtain zs where z: "update_first p f xs = Some (y, zs)" "ys = x # zs"
      using Cons.prems by (auto split: option.splits)
    from Cons.IH [OF z(1)] obtain w where "w \<in> set xs" "p w" "y = f w" "mset zs = add_mset y (mset xs - {#w#})" by blast
    then show ?thesis using z(2) by (intro exI [of _ w]) auto
  qed (use Cons.prems in auto)
qed simp

lemma update_first_None: "update_first p f xs = None \<longleftrightarrow> (\<forall>x \<in> set xs. \<not> p x)"
  by (induction xs) (auto split: option.splits)

lemma set_state_mset:
  assumes "old \<in> set ps"
  shows "mset (set_state old new ps) = add_mset new (mset ps - {#old#})"
proof -
  obtain y ys where u: "update_first (\<lambda>r. r = old) (\<lambda>_. new) ps = Some (y, ys)"
    using assms update_first_None [of "\<lambda>r. r = old" "\<lambda>_. new" ps] by fastforce
  then show ?thesis using update_first_mset [OF u] by (auto simp: set_state_def)
qed

lemma unchanged_queue:
  "r \<in> set pending \<Longrightarrow> \<exists>r0 \<in> set pending. alike r0 r \<and> mset pending = add_mset r (mset pending - {#r0#})"
  by (rule bexI [of _ r]) simp_all

lemma find_in_set: "find p xs = Some x \<Longrightarrow> x \<in> set xs \<and> p x"
  by (auto simp: find_Some_iff)

lemma assign_effect:
  assumes "assign_websocket_response_id pending response_id = (matched, ps)"
  shows "(case matched of
            None \<Rightarrow> ps = pending
          | Some r \<Rightarrow> \<exists>r0 \<in> set pending. alike r0 r \<and> mset ps = add_mset r (mset pending - {#r0#}))"
proof (cases response_id)
  case None
  then show ?thesis using assms by (auto simp: assign_websocket_response_id_def)
next
  case (Some i)
  have found: "\<exists>r0 \<in> set pending. alike r0 r \<and> mset qs = add_mset r (mset pending - {#r0#})"
    if "update_first p (\<lambda>r. r\<lparr> wr_response_id := Some i \<rparr>) pending = Some (r, qs)" for p r qs
    using update_first_mset [OF that] by (auto simp: alike_def)
  have here: "\<exists>r0 \<in> set pending. alike r0 r \<and> mset pending = add_mset r (mset pending - {#r0#})"
    if "find_websocket_request_state_by_response_id pending i = Some r" for r
    using that find_in_set unchanged_queue by (metis find_websocket_request_state_by_response_id_def)
  show ?thesis
    using assms Some here
    by (auto simp: assign_websocket_response_id_def Let_def dest: found split: option.splits)
qed

lemma single_in_set: "single xs = Some x \<Longrightarrow> x \<in> set xs"
  by (auto simp: single_def split: list.splits)

lemma matching_previous_subset:
  "set (matching_websocket_request_states_for_previous_response_error pending hint msg allow) \<subseteq> set pending"
  by (cases pending) (auto simp: matching_websocket_request_states_for_previous_response_error_def Let_def)

lemma match_previous_in_set:
  "match_websocket_request_state_for_previous_response_error pending hint msg allow = Some r \<Longrightarrow> r \<in> set pending"
  unfolding match_websocket_request_state_for_previous_response_error_def
  by (drule single_in_set) (rule subsetD [OF matching_previous_subset])

lemma hd_filter_in: "filter p xs \<noteq> [] \<Longrightarrow> hd (filter p xs) \<in> set xs"
  by (metis filter_is_subset hd_in_set subsetD)

lemma match_anonymous_in_set:
  assumes "match_websocket_request_state_for_anonymous_event pending b hint msg allow prefer = Some r"
  shows "r \<in> set pending"
proof (cases b)
  case True
  then show ?thesis
    using assms match_previous_in_set by (simp add: match_websocket_request_state_for_anonymous_event_def)
next
  case False
  have one: "length xs = Suc 0 \<Longrightarrow> xs \<noteq> []" for xs :: "ws_request list" by auto
  have sub: "hd (filter p (filter q pending)) \<in> set pending" if "filter p (filter q pending) \<noteq> []" for p q
    using hd_filter_in [of p "filter q pending"] that by auto
  show ?thesis
    using assms False
    by (auto simp: match_websocket_request_state_for_anonymous_event_def draining_websocket_request_states_def Let_def
        simp del: filter_filter dest!: one intro!: sub hd_filter_in split: if_splits)
qed

lemma match_effect:
  assumes "match_upstream_event inc pending = (matched, ps)"
  shows "(case matched of
            None \<Rightarrow> ps = pending
          | Some r \<Rightarrow> \<exists>r0 \<in> set pending. alike r0 r \<and> mset ps = add_mset r (mset pending - {#r0#}))"
proof (cases "wi_event_type inc = Some ''response.created''")
  case True
  then show ?thesis using assms assign_effect by (simp add: match_upstream_event_def)
next
  case False
  then have ps: "ps = pending" using assms by (auto simp: match_upstream_event_def split: option.splits)
  have "r \<in> set pending" if "matched = Some r" for r
    using that assms False match_anonymous_in_set
    by (auto simp: match_upstream_event_def find_websocket_request_state_by_response_id_def dest: find_in_set
        split: option.splits)
  then show ?thesis using ps unchanged_queue by (simp split: option.split)
qed

lemma note_event_alike:
  assumes "note_event view r = (dup, r', view')"
  shows "alike r r'"
proof -
  obtain event payload event_type t where v: "view = (event, payload, event_type, t)" using prod_cases4 by blast
  show ?thesis
    using assms unfolding v
    by (auto simp: note_event_def alike_def Let_def split: prod.splits option.splits if_splits)
qed

lemma pop_matching_mset:
  "pop_matching_websocket_request_states pending rs = (popped, rest) \<Longrightarrow> mset pending = mset popped + mset rest"
proof (induction rs arbitrary: pending popped)
  case (Cons r rs)
  show ?case
  proof (cases "r \<in> set pending")
    case True
    then obtain ps where ps: "pop_matching_websocket_request_states (remove1 r pending) rs = (ps, rest)" "popped = r # ps"
      using Cons.prems by (auto split: prod.splits)
    have "mset pending = add_mset r (mset (remove1 r pending))" using True by simp
    then show ?thesis using Cons.IH [OF ps(1)] ps(2) by simp
  qed (use Cons in auto)
qed simp

lemma pop_terminal_effect:
  assumes "pop_terminal_websocket_request_state pending i fallback b hint msg allow pre drain = (popped, rest)"
  shows "case popped of None \<Rightarrow> rest = pending | Some r \<Rightarrow> r \<in> set pending \<and> rest = remove1 r pending"
proof -
  have *: "List.map_filter (\<lambda>r. pop_if_queued r pending) xs = (r, qs) # ys \<Longrightarrow> r \<in> set pending \<and> qs = remove1 r pending"
    for xs r qs ys
    by (induction xs) (auto simp: List.map_filter_simps pop_if_queued_def split: option.splits if_splits)
  have "\<exists>xs. (case List.map_filter (\<lambda>r. pop_if_queued r pending) xs of
      [] \<Rightarrow> (None, pending) | (r, rest) # _ \<Rightarrow> (Some r, rest)) = (popped, rest)"
    using assms unfolding pop_terminal_websocket_request_state_def Let_def by (rule exI)
  then obtain xs where xs: "(case List.map_filter (\<lambda>r. pop_if_queued r pending) xs of
      [] \<Rightarrow> (None, pending) | (r, rest) # _ \<Rightarrow> (Some r, rest)) = (popped, rest)" by blast
  show ?thesis
  proof (cases "List.map_filter (\<lambda>r. pop_if_queued r pending) xs")
    case (Cons a ys)
    then show ?thesis using xs * by (cases a) auto
  qed (use xs in auto)
qed

lemma pop_upstream_effect:
  assumes "pop_upstream_event inc event_type matched pending = (popped, grouped, rest)"
  shows "mset pending = ended popped grouped + mset rest" "popped \<noteq> None \<Longrightarrow> grouped = []"
proof -
  obtain p q where pop: "pop_terminal_websocket_request_state pending (wi_response_id inc) matched (wi_lost inc)
      (wi_hint inc) (wi_error_message inc) (wi_not_found inc)
      (in_types event_type [''response.failed'', ''response.incomplete'', ''error'']) True = (p, q)" by fastforce
  have "mset pending = ended popped grouped + mset rest \<and> (popped \<noteq> None \<longrightarrow> grouped = [])"
  proof (cases p)
    case (Some r)
    then have "popped = Some r" "grouped = []" "rest = q" using assms pop by (auto simp: pop_upstream_event_def)
    then show ?thesis using pop_terminal_effect [OF pop] Some by (simp add: ended_def)
  next
    case None
    then have q: "q = pending" using pop_terminal_effect [OF pop] by simp
    obtain g1 r1 where g1: "(if wi_lost inc then pop_matching_websocket_request_states pending
        (matching_websocket_request_states_for_previous_response_error pending (wi_hint inc) (wi_error_message inc)
          (wi_not_found inc)) else ([], pending)) = (g1, r1)" by fastforce
    obtain g2 r2 where g2: "(if wi_lost inc \<and> g1 = [] \<and> wi_missing_output inc
        then pop_matching_websocket_request_states r1
          (matching_websocket_request_states_for_missing_tool_output_error r1) else (g1, r1)) = (g2, r2)" by fastforce
    have m1: "mset pending = mset g1 + mset r1" using g1 by (auto split: if_splits dest: pop_matching_mset)
    have m2: "mset pending = mset g2 + mset r2"
      using g2 m1 by (cases "wi_lost inc \<and> g1 = [] \<and> wi_missing_output inc") (auto dest: pop_matching_mset)
    have "(popped, grouped, rest) = (if event_type = Some ''error'' \<and> wi_typeless_error inc \<and> g2 = []
        then (None, r2, []) else (None, g2, r2))"
      using assms unfolding pop_upstream_event_def Let_def pop prod.case None option.case q g1 g2 by simp
    then show ?thesis using m2 by (auto simp: ended_def split: if_splits)
  qed
  then show "mset pending = ended popped grouped + mset rest" "popped \<noteq> None \<Longrightarrow> grouped = []" by blast+
qed

lemma rewrite_popped_effect:
  assumes "rewrite_popped env inc view popped sh = (view', popped', sh')"
  shows "same_gates sh sh'" "sh_control sh' = sh_control sh \<or> sh_control sh' = (sh_control sh)\<lparr> uc_reconnect_requested := True \<rparr>"
    "case popped of None \<Rightarrow> popped' = None | Some r \<Rightarrow> \<exists>r'. popped' = Some r' \<and> alike r r'"
  using assms
  by (auto simp: rewrite_popped_def Let_def same_gates_def alike_def rewrite_websocket_continuity_corruption_event_def
      split: option.splits if_splits)

lemma balanced_ended:
  assumes "balanced I (ended popped grouped + M) F sh"
    "case popped of None \<Rightarrow> popped' = None | Some r \<Rightarrow> \<exists>r'. popped' = Some r' \<and> alike r r'"
  shows "balanced I (ended popped' grouped + M) F sh"
  using assms balanced_alike by (cases popped) (auto simp: ended_def)

section \<open>The handler\<close>

lemma balanced_set_state:
  assumes "balanced I (mset ps + M) F sh" "r \<in> set ps" "alike r r'"
  shows "balanced I (mset (set_state r r' ps) + M) F sh"
proof -
  have m: "mset ps + M = add_mset r (mset ps - {#r#} + M)" using assms(2) by simp
  have "balanced I (add_mset r' (mset ps - {#r#} + M)) F sh"
    using assms(1) unfolding m by (rule balanced_alike [OF _ assms(3)])
  then show ?thesis using set_state_mset [OF assms(2), of r'] by simp
qed

lemma set_state_in: "r \<in> set ps \<Longrightarrow> r' \<in> set (set_state r r' ps)"
  by (metis set_state_mset set_mset_mset union_single_eq_member add_mset_add_single union_commute)

lemma balanced_match:
  assumes "balanced I (mset pending + M) F sh" "match_upstream_event inc pending = (matched, ps)"
  shows "balanced I (mset ps + M) F sh" "\<And>r. matched = Some r \<Longrightarrow> r \<in> set ps"
proof -
  note e = match_effect [OF assms(2)]
  show "balanced I (mset ps + M) F sh"
  proof (cases matched)
    case None
    then show ?thesis using e assms(1) by simp
  next
    case (Some r)
    then obtain r0 where "r0 \<in> set pending" "alike r0 r" "mset ps = add_mset r (mset pending - {#r0#})" using e by auto
    moreover have "mset pending + M = add_mset r0 (mset pending - {#r0#} + M)" using \<open>r0 \<in> set pending\<close> by simp
    ultimately show ?thesis using assms(1) balanced_alike [of I r0 "mset pending - {#r0#} + M" F sh r] by simp
  qed
  fix r assume "matched = Some r"
  then have "r \<in># mset ps" using e by (auto simp del: set_mset_mset)
  then show "r \<in> set ps" by simp
qed

lemma balanced_release_created:
  assumes "balanced I (mset ps + M) F sh" "\<And>r. matched = Some r \<Longrightarrow> r \<in> set ps"
    "release_created inc matched ps sh = (ps', sh')"
  shows "balanced I (mset ps' + M) F sh'" "sh_control sh' = sh_control sh"
proof -
  have "balanced I (mset ps' + M) F sh' \<and> sh_control sh' = sh_control sh"
  proof (cases "\<exists>r. matched = Some r \<and> wi_event_type inc = Some ''response.created''")
    case True
    then obtain r where r: "matched = Some r" "wi_event_type inc = Some ''response.created''" by blast
    obtain r' sh1 where rel: "release_websocket_response_create_gate (r, sh) = (r', sh1)" by fastforce
    have s: "ps' = set_state r r' ps" "sh' = sh1" using assms(3) r rel by (auto simp: release_created_def)
    have m: "mset ps + M = add_mset r (mset ps - {#r#} + M)" using assms(2) [OF r(1)] by simp
    have "balanced I (add_mset r' (mset ps - {#r#} + M)) F sh1"
      using balanced_release [OF _ rel, of I "mset ps - {#r#} + M" F] assms(1) m by simp
    then show ?thesis using s set_state_mset [OF assms(2) [OF r(1)], of r'] release_gate_effect(5) [OF rel] by simp
  next
    case False
    then show ?thesis using assms(1,3) by (cases matched) (auto simp: release_created_def)
  qed
  then show "balanced I (mset ps' + M) F sh'" "sh_control sh' = sh_control sh" by blast+
qed

lemma balanced_note_matched:
  assumes "balanced I (mset ps + M) F sh" "\<And>r. matched = Some r \<Longrightarrow> r \<in> set ps"
    "note_matched view matched ps = (dup, noted, view', ps')"
  shows "balanced I (mset ps' + M) F sh" "\<And>r. noted = Some r \<Longrightarrow> r \<in> set ps'"
proof -
  have "balanced I (mset ps' + M) F sh \<and> (\<forall>r. noted = Some r \<longrightarrow> r \<in> set ps')"
  proof (cases matched)
    case None
    then show ?thesis using assms(1,3) by (simp add: note_matched_def)
  next
    case (Some r)
    obtain d r' v where n: "note_event view r = (d, r', v)" using prod_cases3 by blast
    have "noted = Some r'" "ps' = set_state r r' ps" using assms(3) Some n by (auto simp: note_matched_def)
    then show ?thesis
      using balanced_set_state [OF assms(1) assms(2) [OF Some] note_event_alike [OF n]] set_state_in [OF assms(2) [OF Some]]
      by simp
  qed
  then show "balanced I (mset ps' + M) F sh" "\<And>r. noted = Some r \<Longrightarrow> r \<in> set ps'" by blast+
qed

lemma finish_nothing:
  assumes "finish_event env inc view None [] other sh = (t, finished, sh')"
  shows "finished = []" "same_gates sh sh'" "replay_of sh' = replay_of sh"
  using assms by (auto simp: finish_event_def Let_def same_gates_def split: if_splits)

lemma balanced_process:
  assumes bal: "balanced I (mset pending + M) F sh" and none: "replay_of sh = None"
    and res: "process_upstream_websocket_text env raw pending sh = (t, finished, ps, sh')"
  shows "balanced I (mset ps + replays sh' + M) (F @ finished) sh'"
proof -
  define inc where "inc = read_upstream_text env raw"
  obtain matched p1 where m: "match_upstream_event inc pending = (matched, p1)" by fastforce
  obtain dup noted view p2 where n: "note_matched (wi_view inc) matched p1 = (dup, noted, view, p2)"
    using prod_cases4 by blast
  note b1 = balanced_match [OF bal m]
  note b2 = balanced_note_matched [OF b1 n]
  note unfolded = res [unfolded process_upstream_websocket_text_def Let_def inc_def [symmetric] m prod.case n]
  consider (dup) dup | (terminal) "\<not> dup" "in_types (wi_event_type inc) TERMINAL_EVENT_TYPES" "p2 \<noteq> []"
    | (other) "\<not> dup" "\<not> (in_types (wi_event_type inc) TERMINAL_EVENT_TYPES \<and> p2 \<noteq> [])" by argo
  then show ?thesis
  proof cases
    case dup
    then have "finished = []" "ps = p2" "sh' = suppress_event sh" using unfolded by auto
    then show ?thesis using b2(1) none balanced_shared [of I "mset p2 + M" F sh sh'] by (simp add: same_gates_def)
  next
    case terminal
    obtain popped grouped rest where p: "pop_upstream_event inc (wi_event_type inc) noted p2 = (popped, grouped, rest)"
      using prod_cases3 by blast
    obtain view1 popped1 sh1 where w: "rewrite_popped env inc view popped sh = (view1, popped1, sh1)"
      using prod_cases3 by blast
    obtain t2 fs sh2 where f: "finish_event env inc view1 popped1 grouped (rest \<noteq> []) sh1 = (t2, fs, sh2)"
      using prod_cases3 by blast
    have r: "finished = fs" "ps = rest" "sh' = sh2" using unfolded terminal p w f by auto
    have "balanced I (ended popped grouped + (mset rest + M)) F sh"
      using b2(1) unfolding pop_upstream_effect(1) [OF p] by (simp add: add.assoc)
    then have "balanced I (ended popped1 grouped + (mset rest + M)) F sh1"
      using balanced_shared [OF balanced_ended [OF _ rewrite_popped_effect(3) [OF w]] rewrite_popped_effect(1) [OF w]] by blast
    moreover have "replay_of sh1 = None" using rewrite_popped_effect(2) [OF w] none by auto
    moreover have "grouped = []" if "popped1 \<noteq> None"
      using that pop_upstream_effect(2) [OF p] rewrite_popped_effect(3) [OF w] by (cases popped) auto
    ultimately have "balanced I (mset rest + M + replays sh2) (F @ fs) sh2"
      using balanced_finish_event f by blast
    then show ?thesis using r by (simp add: ac_simps)
  next
    case other
    obtain p3 sh1 where c: "release_created inc noted p2 sh = (p3, sh1)" by fastforce
    obtain t2 fs sh2 where f: "finish_event env inc view None [] False sh1 = (t2, fs, sh2)"
      using prod_cases3 by blast
    have r: "finished = fs" "ps = p3" "sh' = sh2" using unfolded other c f by auto
    note b3 = balanced_release_created [OF b2 c]
    have "balanced I (mset p3 + M) F sh2" by (rule balanced_shared [OF b3(1) finish_nothing(2) [OF f]])
    then show ?thesis using r finish_nothing(1,3) [OF f] b3(2) none by simp
  qed
qed

end
