(* ===== verification/Ws_Session_Laws.thy ===== *)
theory Ws_Session_Laws
  imports Ws_Laws
begin

text \<open>
  Laws of a whole websocket session: every step of either task keeps the ledger, so a request is at any
  moment in just one place and the gate is held by at most one of them; response ids stay distinct; and what
  a replay that is not picked up in time does to the session.
\<close>

section \<open>What the handler does to the control block\<close>

definition quiet :: "ws_shared \<Rightarrow> ws_shared \<Rightarrow> bool" where
  "quiet sh sh' \<longleftrightarrow>
     sh_control sh' = sh_control sh \<or> sh_control sh' = (sh_control sh)\<lparr> uc_reconnect_requested := True \<rparr>"

lemma quiet_refl [simp]: "quiet sh sh" by (simp add: quiet_def)

lemma quiet_trans: "quiet a b \<Longrightarrow> quiet b c \<Longrightarrow> quiet a c" by (auto simp: quiet_def)

lemma quiet_same: "sh_control sh' = sh_control sh \<Longrightarrow> quiet sh sh'" by (simp add: quiet_def)

lemma quiet_keeps:
  assumes "quiet sh sh'"
  shows "replay_of sh' = replay_of sh" "uc_downstream_texts (sh_control sh') = uc_downstream_texts (sh_control sh)"
  using assms by (auto simp: quiet_def)

lemma finalize_quiet:
  assumes "finalize_websocket_request_state env event event_type payload r sh = (r', sh')"
  shows "quiet sh sh'"
proof (cases "wr_draining_until_terminal r")
  case True
  then show ?thesis
    using assms release_gate_effect(5)
    by (auto simp: finalize_websocket_request_state_def quiet_def split: prod.splits)
next
  case False
  let ?actual = "service_tier_from_event_payload payload"
  define r1 where "r1 = cancel_reservation_heartbeat (if ?actual \<noteq> None then r\<lparr> wr_actual_service_tier := ?actual \<rparr> else r)"
  obtain r2 sh1 where rel: "release_websocket_response_create_gate (r1, sh) = (r2, sh1)" by fastforce
  have "quiet sh1 sh'"
    using assms False rel unfolding r1_def
    by (auto simp: finalize_websocket_request_state_def Let_def quiet_def split: if_splits)
  then show ?thesis using release_gate_effect(5) [OF rel] by (simp add: quiet_def)
qed

definition replay_signalled :: "ws_shared \<Rightarrow> ws_shared \<Rightarrow> bool" where
  "replay_signalled sh sh' \<longleftrightarrow>
     (\<forall>r. replay_of sh' = Some r \<longrightarrow>
        wr_awaiting_response_created r \<and>
        uc_suppress_downstream_event (sh_control sh') \<and> uc_reconnect_requested (sh_control sh') \<and>
        uc_downstream_texts (sh_control sh') = uc_downstream_texts (sh_control sh))"

lemma signalled_quiet: "replay_of sh = None \<Longrightarrow> quiet sh sh' \<Longrightarrow> replay_signalled sh sh'"
  by (auto simp: replay_signalled_def quiet_def)

lemma signalled_after_quiet: "quiet sh sh1 \<Longrightarrow> replay_signalled sh1 sh' \<Longrightarrow> replay_signalled sh sh'"
  by (auto simp: replay_signalled_def quiet_def)

lemma retry_or_finish_signalled:
  assumes "replay_of sh = None" "retry_or_finish env inc code view r sh = (t, finished, sh')"
  shows "replay_signalled sh sh'"
proof -
  obtain event payload event_type t0 where v: "view = (event, payload, event_type, t0)" using prod_cases4 by blast
  let ?fresh = "wr_fresh_upstream_request_is_retry_safe r \<and> truthy_str (wr_fresh_upstream_request_text r)"
  consider (again) "code \<noteq> None" "wi_not_found inc \<longrightarrow> ?fresh" | (finish) "code = None \<or> wi_not_found inc \<and> \<not> ?fresh" by argo
  then show ?thesis
  proof cases
    case again
    then show ?thesis
      using assms v by (auto simp: retry_or_finish_def replay_signalled_def replay_request_def split: if_splits)
  next
    case finish
    define sh1 where "sh1 = (if event_type = Some ''response.completed''
      then sh\<lparr> sh_continuity := map_option (record_websocket_continuity_completion r (wi_response_id inc))
        (sh_continuity sh) \<rparr> else sh)"
    obtain r' sh2 where f: "finalize_websocket_request_state env event event_type payload r sh1 = (r', sh2)"
      by fastforce
    have "sh' = sh2" using assms(2) v f finish by (auto simp: retry_or_finish_def sh1_def [symmetric])
    moreover have "quiet sh sh1" by (simp add: sh1_def quiet_def)
    ultimately show ?thesis using signalled_quiet [OF assms(1)] quiet_trans finalize_quiet [OF f] by blast
  qed
qed

lemma maybe_rewrite_quiet:
  assumes "maybe_rewrite_websocket_previous_response_not_found_event env r view sh = (view', sh')"
  shows "quiet sh sh'"
proof -
  obtain a b c d where "view = (a, b, c, d)" using prod_cases4 by blast
  then show ?thesis
    using assms
    by (auto simp: maybe_rewrite_websocket_previous_response_not_found_event_def Let_def quiet_def
        rewrite_websocket_continuity_corruption_event_def split: if_splits)
qed

lemma finish_request_signalled:
  assumes none: "replay_of sh = None" and res: "finish_request env inc view other r sh = (t, finished, sh')"
  shows "replay_signalled sh sh'"
proof -
  obtain event payload event_type t0 where v: "view = (event, payload, event_type, t0)" using prod_cases4 by blast
  let ?r0 = "record_response_event event_type r"
  define step where "step = (if in_types event_type TERMINAL_EVENT_TYPES then (?r0, sh)
    else maybe_touch_request_state_reservation (en_now env) (en_touched env) (?r0, sh))"
  obtain r1 sh1 where s: "step = (r1, sh1)" by fastforce
  have sh1: "quiet sh sh1"
    using s by (auto simp: step_def maybe_touch_request_state_reservation_def quiet_def split: if_splits option.splits)
  obtain view1 sh2 where w: "maybe_rewrite_websocket_previous_response_not_found_event env r1 view sh1 = (view1, sh2)"
    by fastforce
  obtain event1 payload1 event_type1 t1 where v1: "view1 = (event1, payload1, event_type1, t1)" using prod_cases4 by blast
  have "\<exists>code view2 c. retry_or_finish env inc code view2 r1 (call_if c (Stream_Error (event_error event_type1 payload1)
      (the (if websocket_precreated_retry_error_code r1 event_type payload other = None
        then websocket_precreated_retry_error_code r1 event_type1 payload1 other
        else websocket_precreated_retry_error_code r1 event_type payload other))) sh2) = (t, finished, sh')"
    using res unfolding finish_request_def Let_def v prod.case step_def [symmetric] s w [unfolded v] v1 call_if_def
    by (simp only: split: if_splits) metis+
  then obtain code view2 sh3 where f: "retry_or_finish env inc code view2 r1 sh3 = (t, finished, sh')"
    and sh3: "quiet sh2 sh3" using quiet_same call_if_simps(3) by metis
  have q: "quiet sh sh3" using quiet_trans [OF quiet_trans [OF sh1 maybe_rewrite_quiet [OF w]] sh3] .
  then show ?thesis
    using signalled_after_quiet retry_or_finish_signalled [OF _ f] quiet_keeps(1) [OF q] none by simp
qed

lemma finish_group_quiet:
  "finish_group env rs sh = (texts, finished, sh') \<Longrightarrow> quiet sh sh'"
proof (induction rs arbitrary: sh texts finished sh')
  case (Cons r rs)
  obtain event payload event_type t where b:
    "build_stream_incomplete_terminal_event_for_request env r = (event, payload, event_type, t)"
    using prod_cases4 by blast
  obtain r1 sh1 where f: "finalize_websocket_request_state env event event_type payload r sh = (r1, sh1)"
    by fastforce
  obtain ts fs sh2 where g: "finish_group env rs sh1 = (ts, fs, sh2)" using prod_cases3 by blast
  have "sh' = sh2" using Cons.prems b f g by auto
  then show ?case using quiet_trans [OF finalize_quiet [OF f] Cons.IH [OF g]] by simp
qed simp

lemma finish_event_signalled:
  assumes none: "replay_of sh = None" and res: "finish_event env inc view popped grouped other sh = (t, finished, sh')"
  shows "replay_signalled sh sh'"
proof (cases "1 < length grouped")
  case True
  obtain texts fs sh1 where g: "finish_group env grouped (request_reconnect sh) = (texts, fs, sh1)"
    using prod_cases3 by blast
  have "sh' = on_control (\<lambda>c. c\<lparr> uc_downstream_texts := Some texts \<rparr>) (suppress_event sh1)"
    using res True g by (auto simp: finish_event_def)
  then have "replay_of sh' = None" using quiet_keeps(1) [OF finish_group_quiet [OF g]] none by simp
  then show ?thesis by (simp add: replay_signalled_def)
next
  case False
  show ?thesis
  proof (cases "popped = None \<and> grouped = []")
    case True
    then show ?thesis using finish_nothing(3) res none by (simp add: replay_signalled_def)
  next
    case some: False
    then obtain r where "finish_request env inc view other r sh = (t, finished, sh')"
      using False res by (cases popped; cases grouped) (auto simp: finish_event_def)
    then show ?thesis by (rule finish_request_signalled [OF none])
  qed
qed

lemma process_signalled:
  assumes none: "replay_of sh = None"
    and res: "process_upstream_websocket_text env raw pending sh = (t, finished, ps, sh')"
  shows "replay_signalled sh sh'"
proof -
  define inc where "inc = read_upstream_text env raw"
  obtain matched p1 where m: "match_upstream_event inc pending = (matched, p1)" by fastforce
  obtain dup noted view p2 where n: "note_matched (wi_view inc) matched p1 = (dup, noted, view, p2)"
    using prod_cases4 by blast
  note unfolded = res [unfolded process_upstream_websocket_text_def Let_def inc_def [symmetric] m prod.case n]
  consider (dup) dup | (terminal) "\<not> dup" "in_types (wi_event_type inc) TERMINAL_EVENT_TYPES" "p2 \<noteq> []"
    | (other) "\<not> dup" "\<not> (in_types (wi_event_type inc) TERMINAL_EVENT_TYPES \<and> p2 \<noteq> [])" by argo
  then show ?thesis
  proof cases
    case dup
    then show ?thesis using unfolded none by (auto simp: replay_signalled_def)
  next
    case terminal
    obtain popped grouped rest where p: "pop_upstream_event inc (wi_event_type inc) noted p2 = (popped, grouped, rest)"
      using prod_cases3 by blast
    obtain view1 popped1 sh1 where w: "rewrite_popped env inc view popped sh = (view1, popped1, sh1)"
      using prod_cases3 by blast
    obtain t2 fs sh2 where f: "finish_event env inc view1 popped1 grouped (rest \<noteq> []) sh1 = (t2, fs, sh2)"
      using prod_cases3 by blast
    have "sh' = sh2" using unfolded terminal p w f by auto
    moreover have q: "quiet sh sh1" using rewrite_popped_effect(2) [OF w] by (simp add: quiet_def)
    ultimately show ?thesis
      using signalled_after_quiet finish_event_signalled [OF _ f] quiet_keeps(1) [OF q] none by simp
  next
    case other
    obtain p3 sh1 where c: "release_created inc noted p2 sh = (p3, sh1)" by fastforce
    obtain t2 fs sh2 where f: "finish_event env inc view None [] False sh1 = (t2, fs, sh2)"
      using prod_cases3 by blast
    have "sh' = sh2" using unfolded other c f by auto
    moreover have "sh_control sh1 = sh_control sh"
      using c release_gate_effect(5) by (auto simp: release_created_def split: option.splits if_splits prod.splits)
    ultimately show ?thesis using finish_nothing(3) [OF f] none by (simp add: replay_signalled_def)
  qed
qed

section \<open>The reader\<close>

lemma emit_released:
  assumes "released r" "emit_websocket_terminal_error event (r, sh) = (r', sh')" "request_ok r"
  shows "r' = r" "same_gates sh sh'" "sh_control sh' = sh_control sh"
  using assms by (auto simp: emit_websocket_terminal_error_def request_ok_def released_def same_gates_def)

lemma balanced_fail_request:
  assumes bal: "balanced I (add_mset r M) F sh" and gate: "fo_gate opts"
    and res: "fail_request env opts r sh = (r', sh')"
  shows "balanced I M (F @ [r']) sh'" "sh_control sh' = sh_control sh"
proof -
  let ?r = "cancel_reservation_heartbeat r"
  obtain r1 sh1 where rel: "release_websocket_response_create_gate (?r, sh) = (r1, sh1)" by fastforce
  define sh2 where "sh2 = (if wr_event_queue r1
    then call (Queue_Event (wr_request_id r1) None)
      (call (Queue_Event (wr_request_id r1) (Some (format_sse_event (failed_request_event env opts r)))) sh1)
    else sh1)"
  obtain r2 sh3 where e: "(if fo_websocket opts then emit_websocket_terminal_error (failed_request_event env opts r) (r1, sh2)
    else (r1, sh2)) = (r2, sh3)" by fastforce
  have b1: "balanced I (add_mset r1 M) F sh1"
    by (rule balanced_release [OF balanced_alike [OF bal cancel_heartbeat_alike] rel])
  have ok: "released r1" "request_ok r1" using release_gate_effect(1) [OF rel] b1 by (simp_all add: balanced_def)
  have sh2: "same_gates sh1 sh2" "sh_control sh2 = sh_control sh1" by (simp_all add: sh2_def same_gates_def)
  have e': "r2 = r1 \<and> same_gates sh2 sh3 \<and> sh_control sh3 = sh_control sh2"
    using e emit_released [OF ok(1) _ ok(2)] by (auto split: if_splits)
  have "(r', sh') = (r2, call_if (fo_account_id opts \<and> \<not> wr_skip_request_log r2) (Write_Log (failure_log env opts r2))
      (release_websocket_reservation (wr_reservation r2) sh3))"
    using res unfolding fail_request_def Let_def if_P [OF gate] rel prod.case sh2_def [symmetric] e by (rule sym)
  then have r: "r' = r2" "sh_control sh' = sh_control sh3" "same_gates sh3 sh'" by (simp_all add: same_gates_def)
  have g: "same_gates sh1 sh'" by (rule same_gates_trans [OF same_gates_trans [OF sh2(1)] r(3)]) (use e' in simp)
  have "balanced I M (F @ [r1]) sh'" by (rule balanced_finish [OF balanced_shared [OF b1 g] ok(1)])
  then show "balanced I M (F @ [r']) sh'" using r(1) e' by simp
  show "sh_control sh' = sh_control sh" using r(2) e' sh2(2) release_gate_effect(5) [OF rel] by simp
qed

lemma balanced_fail_requests:
  assumes "balanced I (mset rs + M) F sh" "fo_gate opts" "fail_requests env opts rs sh = (finished, sh')"
  shows "balanced I M (F @ finished) sh' \<and> sh_control sh' = sh_control sh"
  using assms
proof (induction rs arbitrary: F sh finished)
  case (Cons r rs)
  obtain r1 sh1 where f: "fail_request env opts r sh = (r1, sh1)" by fastforce
  obtain fs sh2 where g: "fail_requests env opts rs sh1 = (fs, sh2)" by fastforce
  have res: "finished = r1 # fs" "sh' = sh2" using Cons.prems(3) f g by auto
  have b: "balanced I (add_mset r (mset rs + M)) F sh" using Cons.prems(1) by simp
  show ?case
    using Cons.IH [OF balanced_fail_request(1) [OF b Cons.prems(2) f] Cons.prems(2), of fs]
      balanced_fail_request(2) [OF b Cons.prems(2) f] g res by simp
qed simp

lemma balanced_fail_pending:
  assumes "balanced I (mset rs + M) F sh" "fo_gate opts"
    "fail_pending_websocket_requests env opts rs sh = (finished, sh')"
  shows "balanced I M (F @ finished) sh'" "sh_control sh' = sh_control sh"
proof -
  define sh0 where "sh0 = (case penalty opts rs of
      Some (code, message) \<Rightarrow>
        call_if (fo_account opts)
          (Stream_Error (message_only (if message \<noteq> [] then message else fo_error_message opts)) code) sh
    | None \<Rightarrow> sh)"
  have "same_gates sh sh0" "sh_control sh0 = sh_control sh"
    by (auto simp: sh0_def same_gates_def split: option.split)
  then show "balanced I M (F @ finished) sh'" "sh_control sh' = sh_control sh"
    using balanced_fail_requests [OF balanced_shared [OF assms(1)] assms(2)] assms(3)
    by (simp_all add: fail_pending_websocket_requests_def sh0_def [symmetric])
qed

definition relay_balanced :: "string multiset \<Rightarrow> ws_request multiset \<Rightarrow> relay_state \<Rightarrow> bool" where
  "relay_balanced I M st \<longleftrightarrow>
     balanced I (mset (rl_pending st) + replays (rl_shared st) + M) (rl_finished st) (rl_shared st) \<and>
     uc_downstream_texts (sh_control (rl_shared st)) = None \<and>
     (rl_running st \<longrightarrow> replay_of (rl_shared st) = None) \<and>
     (\<forall>r. replay_of (rl_shared st) = Some r \<longrightarrow> wr_awaiting_response_created r)"

lemma relay_balanced_shared:
  assumes "relay_balanced I M st" "same_gates (rl_shared st) sh" "quiet (rl_shared st) sh"
  shows "relay_balanced I M (st\<lparr> rl_shared := sh \<rparr>)"
  using assms balanced_shared quiet_keeps [OF assms(3)] by (auto simp: relay_balanced_def replays_def)

lemma relay_balanced_stop: "relay_balanced I M st \<Longrightarrow> relay_balanced I M (stop_reader b st)"
  using balanced_shared [of _ _ _ "rl_shared st"]
  by (auto simp: relay_balanced_def stop_reader_def replays_def same_gates_def)

lemma relay_balanced_fail_all:
  assumes "relay_balanced I M st" "fo_gate opts"
  shows "relay_balanced I M (fail_all env opts st)"
proof -
  obtain fs sh where f: "fail_pending_websocket_requests env opts (rl_pending st) (rl_shared st) = (fs, sh)" by fastforce
  have b: "balanced I (mset (rl_pending st) + (replays (rl_shared st) + M)) (rl_finished st) (rl_shared st)"
    using assms(1) by (simp add: relay_balanced_def add.assoc)
  show ?thesis
    using balanced_fail_pending [OF b assms(2) f] assms(1) f
    by (simp add: relay_balanced_def fail_all_def replays_def)
qed

lemma sends_simps [simp]:
  "sh_gate (fold (\<lambda>t. call (Send_Text t)) ts sh) = sh_gate sh"
  "sh_admission (fold (\<lambda>t. call (Send_Text t)) ts sh) = sh_admission sh"
  "sh_control (fold (\<lambda>t. call (Send_Text t)) ts sh) = sh_control sh"
  by (induction ts arbitrary: sh) simp_all

lemma gate_options [simp]: "fo_gate client_gone" "fo_gate (upstream_gone c m)"
  by (simp_all add: client_gone_def upstream_gone_def)

lemma relay_balanced_send:
  assumes "relay_balanced I M st"
  shows "relay_balanced I M (send_downstream env texts sent st)"
proof -
  let ?st = "st\<lparr> rl_shared := fold (\<lambda>t. call (Send_Text t)) (take sent texts) (rl_shared st) \<rparr>"
  have "relay_balanced I M ?st" by (rule relay_balanced_shared [OF assms]) (simp_all add: same_gates_def quiet_def)
  then show ?thesis
    unfolding send_downstream_def Let_def
    by (cases "length texts \<le> sent") (simp_all add: relay_balanced_stop relay_balanced_fail_all del: take_all_iff)
qed

lemma fold_remove1_filter: "mset (fold remove1 (filter p xs) xs) = mset (filter (\<lambda>x. \<not> p x) xs)"
proof -
  have *: "mset (fold remove1 ys zs) = mset zs - mset ys" for ys zs :: "'a list"
    by (induction ys arbitrary: zs) (simp_all add: diff_diff_add_mset)
  show ?thesis
    unfolding * by (metis add_diff_cancel_left' mset_filter multiset_partition)
qed

lemma balanced_fail_expired:
  assumes bal: "balanced I (mset ps + M) F sh"
    and res: "fail_expired_pending_websocket_requests env budget code message ps sh = (finished, rest, sh')"
  shows "balanced I (mset rest + M) (F @ finished) sh' \<and> sh_control sh' = sh_control sh"
proof -
  let ?expired = "filter (\<lambda>r. wr_started_at r + budget \<le> en_now env) ps"
  let ?opts = "\<lparr> fo_account = False, fo_account_id = True, fo_error_code = code, fo_error_message = message,
                fo_websocket = True, fo_gate = True, fo_status = ''error'', fo_penalize_account = True \<rparr>"
  obtain fs sh1 where f: "fail_pending_websocket_requests env ?opts ?expired sh = (fs, sh1)" by fastforce
  have m: "mset ps = mset ?expired + mset (fold remove1 ?expired ps)"
    unfolding fold_remove1_filter mset_filter by (rule multiset_partition)
  have "balanced I (mset ?expired + (mset (fold remove1 ?expired ps) + M)) F sh"
    using bal unfolding m by (simp add: add.assoc)
  from balanced_fail_pending [OF this _ f] show ?thesis
    using bal res f by (auto simp: fail_expired_pending_websocket_requests_def Let_def split: if_splits)
qed

lemma stopped_reader:
  assumes "relay_balanced I M (st\<lparr> rl_running := False \<rparr>)"
  shows "relay_balanced I M (stop_reader b st)"
  using relay_balanced_stop [OF assms, of b] by (simp add: stop_reader_def Let_def)

lemma relay_balanced_text:
  assumes bal: "relay_balanced I M st" and run: "rl_running st"
  shows "relay_balanced I M (relay_text env raw sent st)"
proof -
  obtain t fs ps sh where p: "process_upstream_websocket_text env raw (rl_pending st) (rl_shared st) = (t, fs, ps, sh)"
    using prod_cases4 by blast
  have none: "replay_of (rl_shared st) = None" "uc_downstream_texts (sh_control (rl_shared st)) = None"
    using bal run by (simp_all add: relay_balanced_def)
  have "balanced I (mset (rl_pending st) + M) (rl_finished st) (rl_shared st)"
    using bal none by (simp add: relay_balanced_def)
  from balanced_process [OF this none(1) p]
  have b: "balanced I (mset ps + replays sh + M) (rl_finished st @ fs) sh" .
  let ?sh = "on_control (\<lambda>c. c\<lparr> uc_suppress_downstream_event := False, uc_downstream_texts := None \<rparr>) sh"
  define st1 where "st1 = st\<lparr> rl_pending := ps, rl_finished := rl_finished st @ fs, rl_shared := ?sh \<rparr>"
  define texts where "texts = (case uc_downstream_texts (sh_control sh) of
      Some ts \<Rightarrow> ts | None \<Rightarrow> if uc_suppress_downstream_event (sh_control sh) then [] else [t])"
  have b1: "balanced I (mset ps + replays ?sh + M) (rl_finished st @ fs) ?sh"
    using balanced_shared [OF b, of ?sh] by (simp add: same_gates_def replays_def)
  define st2 where "st2 = send_downstream env texts sent st1"
  have res: "relay_text env raw sent st =
      (if rl_running st2 \<and> uc_reconnect_requested (sh_control (rl_shared st2)) \<and>
          (replay_of (rl_shared st2) \<noteq> None \<or> rl_pending st2 = []) then stop_reader True st2 else st2)"
    unfolding relay_text_def Let_def p prod.case st1_def [symmetric] texts_def [symmetric] st2_def by simp
  show ?thesis
  proof (cases "replay_of sh = None")
    case True
    then have "relay_balanced I M st1" using b1 by (simp add: relay_balanced_def st1_def)
    then have "relay_balanced I M st2" unfolding st2_def by (rule relay_balanced_send)
    then show ?thesis using res relay_balanced_stop by simp
  next
    case False
    then have aw: "\<forall>r. replay_of sh = Some r \<longrightarrow> wr_awaiting_response_created r"
      and "texts = []" "uc_reconnect_requested (sh_control sh)"
      using process_signalled [OF none(1) p] none(2) by (auto simp: replay_signalled_def texts_def)
    then have "st2 = st1" "rl_running st1" "uc_reconnect_requested (sh_control (rl_shared st1))"
      "replay_of (rl_shared st1) \<noteq> None"
      using False run by (simp_all add: st2_def send_downstream_def st1_def)
    then have "relay_text env raw sent st = stop_reader True st1" using res by simp
    moreover have "relay_balanced I M (st1\<lparr> rl_running := False \<rparr>)" using b1 aw by (simp add: relay_balanced_def st1_def)
    ultimately show ?thesis using stopped_reader by simp
  qed
qed

lemma refresh_alike: "alike r (refresh_websocket_request_input_fingerprint_from_text h r)"
  by (simp add: refresh_websocket_request_input_fingerprint_from_text_def alike_def split: option.split)

lemma pop_replayable_effect:
  assumes "pop_replayable_precreated_websocket_request_state h pending = (popped, rest)"
  shows "case popped of
      None \<Rightarrow> rest = pending
    | Some r' \<Rightarrow> rest = [] \<and> (\<exists>r r1. pending = [r] \<and> replayable_precreated r \<and> alike r r1 \<and>
        r' = r1\<lparr> wr_replay_count := Suc (wr_replay_count r1), wr_awaiting_response_created := True,
                 wr_response_id := None \<rparr>)"
proof (cases "\<exists>r. pending = [r] \<and> replayable_precreated r")
  case True
  then obtain r where r: "pending = [r]" "replayable_precreated r" by blast
  define r0 where "r0 = r\<lparr> wr_request_text := wr_fresh_upstream_request_text r, wr_previous_response_id := None,
    wr_proxy_injected_previous_response_id := False, wr_fresh_upstream_request_is_retry_safe := False \<rparr>"
  define r1 where "r1 = (if wr_proxy_injected_previous_response_id r \<and> wr_fresh_upstream_request_is_retry_safe r \<and>
      truthy_str (wr_fresh_upstream_request_text r)
    then refresh_websocket_request_input_fingerprint_from_text h r0 else r)"
  have "alike r r0" by (simp add: r0_def alike_def)
  then have a: "alike r r1" using alike_trans refresh_alike by (auto simp: r1_def)
  have "(popped, rest) = (Some (r1\<lparr> wr_replay_count := Suc (wr_replay_count r1), wr_awaiting_response_created := True,
                 wr_response_id := None \<rparr>), [])"
    using assms r unfolding pop_replayable_precreated_websocket_request_state_def r1_def r0_def Let_def
    by (auto split: if_splits)
  then show ?thesis using r a by auto
next
  case False
  then show ?thesis
    using assms by (auto simp: pop_replayable_precreated_websocket_request_state_def split: list.splits if_splits)
qed

lemma balanced_replayable:
  assumes "balanced I (add_mset r M) F sh" "replayable_precreated r" "alike r r1"
  shows "balanced I (add_mset (r1\<lparr> wr_replay_count := Suc (wr_replay_count r1), wr_awaiting_response_created := True,
                 wr_response_id := None \<rparr>) M) F sh"
  using assms by (auto simp: balanced_def alike_def replayable_precreated_def request_ok_def)

lemma relay_balanced_closed:
  assumes bal: "relay_balanced I M st" and run: "rl_running st"
  shows "relay_balanced I M (relay_closed env message st)"
proof -
  obtain popped rest where p:
    "pop_replayable_precreated_websocket_request_state (en_sha256_hex env) (rl_pending st) = (popped, rest)" by fastforce
  have none: "replay_of (rl_shared st) = None" using bal run by (simp add: relay_balanced_def)
  show ?thesis
  proof (cases popped)
    case None
    then show ?thesis
      using p relay_balanced_stop [OF relay_balanced_fail_all [OF bal gate_options(2)]] by (simp add: relay_closed_def)
  next
    case (Some r')
    then obtain r r1 where r: "rest = []" "rl_pending st = [r]" "replayable_precreated r" "alike r r1"
      "r' = r1\<lparr> wr_replay_count := Suc (wr_replay_count r1), wr_awaiting_response_created := True,
                 wr_response_id := None \<rparr>"
      using pop_replayable_effect [OF p] by auto
    let ?sh = "on_control (\<lambda>c. c\<lparr> uc_replay_request_state := Some r' \<rparr>) (request_reconnect (rl_shared st))"
    have "balanced I (add_mset r M) (rl_finished st) (rl_shared st)"
      using bal none r(2) by (simp add: relay_balanced_def)
    then have "balanced I (add_mset r' M) (rl_finished st) (rl_shared st)"
      using balanced_replayable r(3-5) by blast
    then have "balanced I (add_mset r' M) (rl_finished st) ?sh"
      by (rule balanced_shared) (simp add: same_gates_def)
    then have "relay_balanced I M (st\<lparr> rl_pending := [], rl_shared := ?sh, rl_running := False \<rparr>)"
      using bal r(5) by (simp add: relay_balanced_def replays_def)
    then show ?thesis using p Some r(1) stopped_reader by (simp add: relay_closed_def)
  qed
qed

lemma relay_balanced_timeout:
  assumes bal: "relay_balanced I M st"
  shows "relay_balanced I M (relay_timeout env budget sent st)"
proof (cases "snd (rl_wait st)")
  case None
  then show ?thesis using relay_balanced_send [OF bal] by (simp add: relay_timeout_def)
next
  case (Some t)
  consider (early) "en_now env < fst (rl_wait st) + to_timeout_seconds t"
    | (all) "\<not> en_now env < fst (rl_wait st) + to_timeout_seconds t" "to_fail_all_pending t"
    | (expired) "\<not> en_now env < fst (rl_wait st) + to_timeout_seconds t" "\<not> to_fail_all_pending t" by blast
  then show ?thesis
  proof cases
    case early
    then show ?thesis using Some relay_balanced_send [OF bal] by (simp add: relay_timeout_def)
  next
    case all
    let ?st = "fail_all env (upstream_gone (to_error_code t) (to_error_message t)) st"
    have "relay_balanced I M (?st\<lparr> rl_shared := request_reconnect (rl_shared ?st) \<rparr>)"
      by (rule relay_balanced_shared [OF relay_balanced_fail_all [OF bal gate_options(2)]])
        (simp_all add: same_gates_def quiet_def)
    then show ?thesis using Some all relay_balanced_stop by (simp add: relay_timeout_def Let_def)
  next
    case expired
    obtain fs ps sh where f: "fail_expired_pending_websocket_requests env budget (to_error_code t) (to_error_message t)
        (rl_pending st) (rl_shared st) = (fs, ps, sh)" using prod_cases3 by blast
    have "balanced I (mset (rl_pending st) + (replays (rl_shared st) + M)) (rl_finished st) (rl_shared st)"
      using bal by (simp add: relay_balanced_def add.assoc)
    from balanced_fail_expired [OF this f] show ?thesis
      using Some expired f bal by (simp add: relay_timeout_def relay_balanced_def replays_def add.assoc)
  qed
qed

lemma relay_balanced_step:
  assumes bal: "relay_balanced I M st" and run: "rl_running st"
  shows "relay_balanced I M (relay_upstream_websocket_messages env budget idle inp st)"
proof (cases inp)
  case Up_Wait
  then show ?thesis using bal by (simp add: relay_upstream_websocket_messages_def relay_balanced_def)
next
  case (Up_Text raw sent)
  then show ?thesis using relay_balanced_text [OF assms] by (simp add: relay_upstream_websocket_messages_def)
next
  case (Up_Binary sent)
  have "relay_balanced I M (st\<lparr> rl_shared := call Send_Bytes (rl_shared st) \<rparr>)"
    by (rule relay_balanced_shared [OF bal]) (simp_all add: same_gates_def quiet_def)
  then show ?thesis
    using Up_Binary relay_balanced_stop [OF relay_balanced_fail_all [OF bal gate_options(1)]]
    by (simp add: relay_upstream_websocket_messages_def)
next
  case Up_Closed
  then show ?thesis using relay_balanced_closed [OF assms] by (simp add: relay_upstream_websocket_messages_def)
next
  case Up_Timeout
  then show ?thesis using relay_balanced_timeout [OF bal] by (simp add: relay_upstream_websocket_messages_def)
next
  case Up_Crash
  then show ?thesis
    using relay_balanced_stop [OF relay_balanced_fail_all [OF bal gate_options(2)]]
    by (simp add: relay_upstream_websocket_messages_def)
qed

section \<open>The session\<close>

definition option_mset :: "'a option \<Rightarrow> 'a multiset" where
  "option_mset x = (case x of None \<Rightarrow> {#} | Some y \<Rightarrow> {#y#})"

lemma option_mset_simps [simp]: "option_mset None = {#}" "option_mset (Some y) = {#y#}"
  by (simp_all add: option_mset_def)

lemma replays_option: "replays sh = option_mset (replay_of sh)"
  by (simp add: replays_def option_mset_def)

fun in_hand :: "loop_point \<Rightarrow> ws_request multiset" where
  "in_hand (Got r) = {#r#}"
| "in_hand (Checked r) = {#r#}"
| "in_hand _ = {#}"

definition kept_aside :: "ws_session \<Rightarrow> ws_request multiset" where
  "kept_aside s = option_mset (se_replay s) + in_hand (se_point s) + mset (se_abandoned s)"

definition session_ok :: "ws_session \<Rightarrow> bool" where
  "session_ok s \<longleftrightarrow>
     relay_balanced (mset (se_seen s)) (kept_aside s) (se_relay s) \<and> distinct (se_seen s) \<and>
     (\<forall>r \<in># in_hand (se_point s). released r) \<and>
     (\<forall>r. se_replay s = Some r \<longrightarrow> wr_awaiting_response_created r) \<and>
     (se_replay s \<noteq> None \<longrightarrow> (se_point s = Top \<or> (\<exists>r. se_point s = Checked r)) \<and> \<not> se_reader s) \<and>
     (rl_running (se_relay s) \<longrightarrow> se_reader s) \<and> (se_point s \<noteq> Closed \<longrightarrow> (se_upstream s \<longleftrightarrow> se_reader s)) \<and>
     (\<not> se_reader s \<longrightarrow> replay_of (se_shared s) = None) \<and>
     (se_point s = Closed \<longrightarrow> se_pending s = [] \<and> \<not> se_reader s)"

lemma on_relay_simps [simp]:
  "se_relay (on_relay f s) = f (se_relay s)" "se_upstream (on_relay f s) = se_upstream s"
  "se_reader (on_relay f s) = se_reader s" "se_replay (on_relay f s) = se_replay s"
  "se_point (on_relay f s) = se_point s" "se_seen (on_relay f s) = se_seen s"
  "se_abandoned (on_relay f s) = se_abandoned s"
  by (simp_all add: on_relay_def)

lemma on_shared_simps [simp]:
  "se_shared (on_shared f s) = f (se_shared s)" "se_pending (on_shared f s) = se_pending s"
  "rl_finished (se_relay (on_shared f s)) = rl_finished (se_relay s)"
  "rl_running (se_relay (on_shared f s)) = rl_running (se_relay s)"
  "se_upstream (on_shared f s) = se_upstream s"
  "se_reader (on_shared f s) = se_reader s" "se_replay (on_shared f s) = se_replay s"
  "se_point (on_shared f s) = se_point s" "se_seen (on_shared f s) = se_seen s"
  "se_abandoned (on_shared f s) = se_abandoned s"
  by (simp_all add: on_shared_def)

lemma relay_fields_step:
  "rl_running (relay_upstream_websocket_messages env budget idle inp st) \<Longrightarrow> rl_running st"
  by (auto simp: relay_upstream_websocket_messages_def relay_text_def relay_closed_def relay_timeout_def
      send_downstream_def stop_reader_def fail_all_def Let_def
      split: relay_input.splits prod.splits option.splits if_splits)

lemma session_ok_init: "session_ok (initial_session ct)"
  by (simp add: session_ok_def initial_session_def relay_balanced_def balanced_def kept_aside_def fresh_control_def)

lemma session_ok_read:
  assumes "session_ok s" "rl_running (se_relay s)" "se_point s \<noteq> Closed"
  shows "session_ok (on_relay (relay_upstream_websocket_messages env budget idle inp) s)"
  using assms relay_balanced_step [OF _ assms(2)] by (auto simp: session_ok_def kept_aside_def)

lemma relay_balanced_iff:
  "relay_balanced I M st \<longleftrightarrow>
     balanced I (mset (rl_pending st) + (option_mset (replay_of (rl_shared st)) + M)) (rl_finished st) (rl_shared st) \<and>
     uc_downstream_texts (sh_control (rl_shared st)) = None \<and>
     (rl_running st \<longrightarrow> replay_of (rl_shared st) = None) \<and>
     (\<forall>r. replay_of (rl_shared st) = Some r \<longrightarrow> wr_awaiting_response_created r)"
  by (simp add: relay_balanced_def replays_option add.assoc)

lemma balanced_control: "balanced I M F (on_control f sh) = balanced I M F sh"
  by (simp add: balanced_def)

lemma fresh_control_simps [simp]:
  "uc_replay_request_state fresh_control = None" "uc_downstream_texts fresh_control = None"
  by (simp_all add: fresh_control_def)

text \<open>Dropping the control block moves the request it may hold to the abandoned ones.\<close>

lemma drop_control_simps [simp]:
  "se_pending (drop_control s) = se_pending s" "rl_finished (se_relay (drop_control s)) = rl_finished (se_relay s)"
  "rl_running (se_relay (drop_control s)) = rl_running (se_relay s)"
  "se_shared (drop_control s) = on_control (\<lambda>_. fresh_control) (se_shared s)"
  "se_upstream (drop_control s) = se_upstream s" "se_reader (drop_control s) = se_reader s"
  "se_replay (drop_control s) = se_replay s" "se_point (drop_control s) = se_point s"
  "se_seen (drop_control s) = se_seen s"
  "mset (se_abandoned (drop_control s)) = option_mset (replay_of (se_shared s)) + mset (se_abandoned s)"
  by (simp_all add: drop_control_def option_mset_def split: option.split)

lemma drop_control_balanced:
  assumes "relay_balanced I (M + mset (se_abandoned s)) (se_relay s)"
  shows "relay_balanced I (M + mset (se_abandoned (drop_control s))) (se_relay (drop_control s))"
  using assms by (simp add: relay_balanced_iff balanced_control ac_simps)

lemma drop_upstream_simps [simp]:
  "se_pending (drop_upstream s) = se_pending s" "rl_finished (se_relay (drop_upstream s)) = rl_finished (se_relay s)"
  "\<not> rl_running (se_relay (drop_upstream s))"
  "se_shared (drop_upstream s) = on_control (\<lambda>_. fresh_control) (se_shared s)"
  "\<not> se_upstream (drop_upstream s)" "\<not> se_reader (drop_upstream s)"
  "se_replay (drop_upstream s) = se_replay s" "se_point (drop_upstream s) = se_point s"
  "se_seen (drop_upstream s) = se_seen s"
  by (simp_all add: drop_upstream_def)

lemma drop_upstream_balanced:
  assumes "relay_balanced I (M + mset (se_abandoned s)) (se_relay s)"
  shows "relay_balanced I (M + mset (se_abandoned (drop_upstream s))) (se_relay (drop_upstream s))"
  unfolding drop_upstream_def
  by (rule drop_control_balanced) (use assms in \<open>simp add: relay_balanced_iff\<close>)

lemma collect_simps [simp]:
  "se_pending (collect_reader s) = se_pending s" "\<not> rl_running (se_relay (collect_reader s))"
  "\<not> se_upstream (collect_reader s)" "\<not> se_reader (collect_reader s)"
  "se_point (collect_reader s) = se_point s" "se_seen (collect_reader s) = se_seen s"
  "replay_of (se_shared (collect_reader s)) = None"
  "se_replay (collect_reader s) = (if se_replay s = None then replay_of (se_shared s) else se_replay s)"
  by (simp_all add: collect_reader_def take_replay_def)

lemma collect_balanced:
  assumes "relay_balanced I (option_mset (se_replay s) + H + mset (se_abandoned s)) (se_relay s)"
  shows "relay_balanced I (option_mset (se_replay (collect_reader s)) + H + mset (se_abandoned (collect_reader s)))
    (se_relay (collect_reader s))"
proof -
  have r: "se_replay (collect_reader s) = se_replay (take_replay s)" by (simp add: collect_reader_def)
  have "relay_balanced I (option_mset (se_replay (take_replay s)) + H + mset (se_abandoned (take_replay s)))
      (se_relay (take_replay s))"
    using assms by (cases "se_replay s") (simp_all add: take_replay_def relay_balanced_iff balanced_control ac_simps)
  then show ?thesis unfolding r unfolding collect_reader_def by (rule drop_upstream_balanced)
qed

lemmas session_simps = session_ok_def kept_aside_def

lemma session_ok_collect:
  assumes "session_ok s" "se_point s = Top \<or> se_point s = Waiting"
  shows "session_ok ((collect_reader s)\<lparr> se_point := Top \<rparr>)"
proof -
  have b: "relay_balanced (mset (se_seen s)) (option_mset (se_replay s) + {#} + mset (se_abandoned s)) (se_relay s)"
    using assms by (auto simp: session_simps)
  show ?thesis
    using collect_balanced [OF b] assms by (auto simp: session_simps relay_balanced_def)
qed

lemma collect_top: "se_point s = Top \<Longrightarrow> (collect_reader s)\<lparr> se_point := Top \<rparr> = collect_reader s"
  by (rule ws_session.equality) simp_all

lemma resolve_owner_alike [simp]: "alike r (resolve_owner owner r)"
  by (simp add: resolve_owner_def alike_def)

lemma relay_balanced_alike:
  assumes "relay_balanced I (add_mset r M) st" "alike r r'"
  shows "relay_balanced I (add_mset r' M) st"
  using assms balanced_alike [of I r "mset (rl_pending st) + (option_mset (replay_of (rl_shared st)) + M)"]
  by (simp add: relay_balanced_iff)

lemma session_ok_got:
  assumes ok: "session_ok s" "se_point s = Got r" and s': "s' = (if reader_done s then collect_reader s else s)"
  shows "session_ok (s'\<lparr> se_point := Checked (resolve_owner owner r) \<rparr>)"
proof -
  have b: "relay_balanced (mset (se_seen s)) (option_mset (se_replay s) + {#r#} + mset (se_abandoned s)) (se_relay s)"
    using ok by (auto simp: session_simps)
  have "relay_balanced (mset (se_seen s)) (option_mset (se_replay s') + {#r#} + mset (se_abandoned s')) (se_relay s')"
    using b collect_balanced [OF b] s' by simp
  then have b': "relay_balanced (mset (se_seen s))
      (option_mset (se_replay s') + {#resolve_owner owner r#} + mset (se_abandoned s')) (se_relay s')"
    using relay_balanced_alike resolve_owner_alike by simp
  have rel: "released (resolve_owner owner r)" using ok released_alike [OF resolve_owner_alike] by (simp add: session_simps)
  show ?thesis
    using b' rel ok s' by (auto simp: session_simps relay_balanced_def)
qed

text \<open>A request in hand that ends takes its place among the finished ones.\<close>

lemma finish_in_hand_simps [simp]:
  "se_pending (finish_in_hand rs s) = se_pending s"
  "rl_finished (se_relay (finish_in_hand rs s)) = rl_finished (se_relay s) @ [fst rs]"
  "se_shared (finish_in_hand rs s) = snd rs"
  "rl_running (se_relay (finish_in_hand rs s)) = rl_running (se_relay s)"
  "se_upstream (finish_in_hand rs s) = se_upstream s" "se_reader (finish_in_hand rs s) = se_reader s"
  "se_replay (finish_in_hand rs s) = se_replay s" "se_point (finish_in_hand rs s) = se_point s"
  "se_seen (finish_in_hand rs s) = se_seen s" "se_abandoned (finish_in_hand rs s) = se_abandoned s"
  by (simp_all add: finish_in_hand_def)

definition ends :: "ws_request \<times> ws_shared \<Rightarrow> ws_request \<times> ws_shared \<Rightarrow> bool" where
  "ends rs rs' \<longleftrightarrow>
     sh_control (snd rs') = sh_control (snd rs) \<and>
     (\<forall>I M F. balanced I (add_mset (fst rs) M) F (snd rs) \<longrightarrow> balanced I (add_mset (fst rs') M) F (snd rs'))"

lemma ends_refl [simp]: "ends rs rs" by (simp add: ends_def)

lemma ends_trans: "ends a b \<Longrightarrow> ends b c \<Longrightarrow> ends a c" by (simp add: ends_def)

lemma ends_shared:
  "same_gates sh sh' \<Longrightarrow> sh_control sh' = sh_control sh \<Longrightarrow> alike r r' \<Longrightarrow> ends (r, sh) (r', sh')"
  unfolding ends_def fst_conv snd_conv by (blast intro: balanced_shared [OF balanced_alike])

lemma ends_gate: "ends rs (release_websocket_response_create_gate rs)"
proof -
  obtain r sh r' sh' where e: "rs = (r, sh)" "release_websocket_response_create_gate rs = (r', sh')"
    by (metis surj_pair)
  then show ?thesis using balanced_release release_gate_effect(5) by (auto simp: ends_def)
qed

lemma ends_reservation: "ends rs (release_request_state_reservation rs)"
  by (cases rs) (auto simp: release_request_state_reservation_def Let_def same_gates_def intro!: ends_shared)

lemma ends_log: "ends rs (write_connect_failure env code message rs)"
  by (cases rs) (auto simp: write_connect_failure_def same_gates_def intro!: ends_shared)

lemma ends_emit: "ends rs (emit_websocket_terminal_error event rs)"
proof -
  let ?rs = "if wr_gate (fst rs) then release_websocket_response_create_gate rs else rs"
  obtain r sh where e: "?rs = (r, sh)" by fastforce
  have "ends rs (r, sh)" using ends_gate [of rs] e by (auto split: if_splits)
  moreover have "ends (r, sh) (r, call (Send_Text (dumps True False (JObj event))) sh)"
    by (rule ends_shared) (simp_all add: same_gates_def)
  ultimately show ?thesis using e ends_trans by (simp add: emit_websocket_terminal_error_def)
qed

lemma ends_refuse: "ends rs (refuse_request env logged code message error_type rs)"
  unfolding refuse_request_def Let_def
  by (rule ends_trans [OF _ ends_emit]) (auto intro: ends_trans [OF ends_reservation ends_log] ends_reservation)

lemma gate_released [simp]: "released (fst (release_websocket_response_create_gate rs))"
  using release_gate_effect(1) by (metis prod.collapse)

lemma relay_balanced_finish:
  assumes "relay_balanced I (add_mset r M) (se_relay s)" "ends (r, se_shared s) rs" "released (fst rs)"
  shows "relay_balanced I M (se_relay (finish_in_hand rs s))"
proof -
  let ?M = "mset (se_pending s) + (option_mset (replay_of (se_shared s)) + M)"
  have "balanced I (add_mset (fst rs) ?M) (rl_finished (se_relay s)) (snd rs)"
    using assms(1,2) by (simp add: relay_balanced_iff ends_def)
  then have "balanced I ?M (rl_finished (se_relay s) @ [fst rs]) (snd rs)" using assms(3) by (rule balanced_finish)
  then show ?thesis using assms(1,2) by (simp add: relay_balanced_iff ends_def)
qed

lemma released_emit:
  assumes "released (fst rs)" "\<not> wr_gate (fst rs)"
  shows "fst (emit_websocket_terminal_error event rs) = fst rs"
  using assms by (cases rs) (simp add: emit_websocket_terminal_error_def)

lemma refuse_fst:
  assumes "\<not> wr_gate r"
  shows "fst (refuse_request env logged code message error_type (r, sh)) = cancel_reservation_heartbeat r"
  using assms
  by (simp add: refuse_request_def release_request_state_reservation_def write_connect_failure_def Let_def
      emit_websocket_terminal_error_def cancel_reservation_heartbeat_def)

lemma session_ok_end_checked:
  assumes ok: "session_ok s" "se_point s = Checked r" and rs: "ends (r, se_shared s) rs" "released (fst rs)"
  shows "session_ok ((finish_in_hand rs s)\<lparr> se_point := Top \<rparr>)"
proof -
  have "relay_balanced (mset (se_seen s)) (add_mset r (option_mset (se_replay s) + mset (se_abandoned s))) (se_relay s)"
    using ok by (auto simp: session_simps)
  then have "relay_balanced (mset (se_seen s)) (option_mset (se_replay s) + mset (se_abandoned s))
      (se_relay (finish_in_hand rs s))" using rs by (rule relay_balanced_finish)
  then show ?thesis using ok rs(1) by (auto simp: session_simps ends_def)
qed

lemma session_hand_ok:
  assumes "session_ok s" "se_point s = Checked r"
  shows "request_ok r" "released r" "\<not> wr_gate r"
proof -
  show ok: "request_ok r" "released r" using assms by (auto simp: session_simps relay_balanced_def balanced_def)
  then show "\<not> wr_gate r" by (simp add: request_ok_def released_def)
qed

lemma session_ok_refused:
  assumes "session_ok s" "se_point s = Checked r"
  shows "session_ok ((finish_in_hand (refuse_request env logged code message error_type (r, se_shared s)) s)\<lparr> se_point := Top \<rparr>)"
proof (rule session_ok_end_checked [OF assms ends_refuse])
  show "released (fst (refuse_request env logged code message error_type (r, se_shared s)))"
    unfolding refuse_fst [OF session_hand_ok(3) [OF assms]] released_alike [OF cancel_heartbeat_alike]
    by (rule session_hand_ok(2) [OF assms])
qed

lemma start_heartbeat_alike [simp]: "alike r (start_reservation_heartbeat r)"
  by (simp add: start_reservation_heartbeat_def alike_def)

lemma acquire_gate_balanced:
  assumes "balanced I (add_mset r M) F sh" "released r" "0 < sh_gate sh" "acquire_gate (r, sh) = (r', sh')"
  shows "balanced I (add_mset r' M) F sh'" "sh_control sh' = sh_control sh"
proof -
  have "sh_gate sh + size (filter_mset wr_gate_acquired M) = 1"
    using assms(1,2) by (simp add: balanced_def released_def)
  then have "sh_gate sh = 1" "size (filter_mset wr_gate_acquired M) = 0" using assms(3) by linarith+
  then show "balanced I (add_mset r' M) F sh'" "sh_control sh' = sh_control sh"
    using assms by (auto simp: balanced_def acquire_gate_def released_def request_ok_def)
qed

lemma no_holder:
  assumes "balanced I M F sh" "0 < sh_gate sh" "r \<in># M"
  shows "\<not> wr_gate_acquired r"
proof
  assume "wr_gate_acquired r"
  then have "r \<in># filter_mset wr_gate_acquired M" using assms(3) by simp
  then have "0 < size (filter_mset wr_gate_acquired M)" by (metis nonempty_has_size empty_iff set_mset_empty)
  then show False using assms(1,2) by (simp add: balanced_def)
qed

lemma free_gate_no_replay:
  assumes "session_ok s" "0 < sh_gate (se_shared s)"
  shows "se_replay s = None"
proof (rule ccontr)
  assume "se_replay s \<noteq> None"
  then obtain r where r: "se_replay s = Some r" by blast
  have b: "balanced (mset (se_seen s)) (mset (se_pending s) + (option_mset (replay_of (se_shared s)) + kept_aside s))
      (rl_finished (se_relay s)) (se_shared s)"
    using assms(1) by (simp add: session_ok_def relay_balanced_iff)
  have m: "r \<in># mset (se_pending s) + (option_mset (replay_of (se_shared s)) + kept_aside s)"
    using r by (simp add: kept_aside_def)
  have "wr_awaiting_response_created r" using assms(1) r by (simp add: session_ok_def)
  moreover have "request_ok r" using b m unfolding balanced_def by blast
  ultimately show False using no_holder [OF b assms(2) m] by (simp add: request_ok_def)
qed

lemma checked_balanced:
  assumes "session_ok s" "se_point s = Checked r"
  shows "balanced (mset (se_seen s))
    (add_mset r (mset (se_pending s) + option_mset (replay_of (se_shared s)) + option_mset (se_replay s) + mset (se_abandoned s)))
    (rl_finished (se_relay s)) (se_shared s)"
  using assms by (simp add: session_simps relay_balanced_iff ac_simps)

lemma session_ok_queued:
  assumes ok: "session_ok s" "se_point s = Checked r" and free: "0 < sh_gate (se_shared s)"
  shows "session_ok (queue_request r s)"
proof -
  obtain r1 sh1 where a: "acquire_gate (start_reservation_heartbeat r, se_shared s) = (r1, sh1)" by fastforce
  have rel: "released (start_reservation_heartbeat r)"
    using session_hand_ok(2) [OF ok] released_alike [OF start_heartbeat_alike] by simp
  note b = acquire_gate_balanced [OF balanced_alike [OF checked_balanced [OF ok] start_heartbeat_alike] rel free a]
  have r1: "\<not> wr_admission r1" "sh_gate sh1 + 1 = sh_gate (se_shared s)"
    using a rel free by (auto simp: acquire_gate_def released_def)
  let ?r = "r1\<lparr> wr_admission := True \<rparr>"
  let ?sh = "sh1\<lparr> sh_admission := Suc (sh_admission sh1) \<rparr>"
  have "balanced (mset (se_seen s)) (add_mset ?r (mset (se_pending s) + option_mset (replay_of (se_shared s)) +
      option_mset (se_replay s) + mset (se_abandoned s))) (rl_finished (se_relay s)) ?sh"
    using b(1) r1(1) by (auto simp: balanced_def request_ok_def)
  then show ?thesis
    using ok b(2) a free_gate_no_replay [OF ok(1) free]
    by (auto simp: session_simps relay_balanced_iff queue_request_def ac_simps)
qed

lemma session_ok_not_admitted:
  assumes ok: "session_ok s" "se_point s = Checked r" and free: "0 < sh_gate (se_shared s)"
  shows "session_ok (refuse_admission env code message error_type r s)"
proof -
  obtain r1 sh1 where a: "acquire_gate (start_reservation_heartbeat r, se_shared s) = (r1, sh1)" by fastforce
  have rel: "released (start_reservation_heartbeat r)"
    using session_hand_ok(2) [OF ok] released_alike [OF start_heartbeat_alike] by simp
  have "balanced (mset (se_seen s)) (add_mset r1 (mset (se_pending s) + option_mset (replay_of (se_shared s)) +
      option_mset (se_replay s) + mset (se_abandoned s))) (rl_finished (se_relay s)) sh1"
    using acquire_gate_balanced(1) [OF balanced_alike [OF checked_balanced [OF ok] start_heartbeat_alike] rel free a] .
  define rs where "rs = release_websocket_response_create_gate
    (refuse_request env True code message error_type (release_websocket_response_create_gate (r1, sh1)))"
  have e: "ends (r1, sh1) rs" unfolding rs_def by (rule ends_trans [OF ends_trans [OF ends_gate ends_refuse] ends_gate])
  have b: "balanced (mset (se_seen s)) (mset (se_pending s) + option_mset (replay_of (se_shared s)) +
      option_mset (se_replay s) + mset (se_abandoned s)) (rl_finished (se_relay s) @ [fst rs]) (snd rs)"
    by (rule balanced_finish) (use \<open>balanced _ (add_mset r1 _) _ _\<close> e in \<open>simp add: ends_def\<close>, simp add: rs_def)
  have c: "sh_control (snd rs) = sh_control (se_shared s)" using e a by (auto simp: ends_def acquire_gate_def)
  have "refuse_admission env code message error_type r s = (finish_in_hand rs s)\<lparr> se_point := Top \<rparr>"
    by (simp add: refuse_admission_def rs_def a)
  then show ?thesis
    using ok b c by (auto simp: session_simps relay_balanced_iff ac_simps)
qed

lemma top_balanced:
  assumes "session_ok s" "in_hand (se_point s) = {#}"
  shows "balanced (mset (se_seen s))
    (option_mset (se_replay s) + (mset (se_pending s) + option_mset (replay_of (se_shared s)) + mset (se_abandoned s)))
    (rl_finished (se_relay s)) (se_shared s)"
  using assms by (simp add: session_simps relay_balanced_iff ac_simps)

lemma session_ok_give_up:
  assumes ok: "session_ok s" "se_point s = Top" "se_replay s = Some r"
    and rs: "ends (r, se_shared s) rs" "released (fst rs)"
  shows "session_ok ((finish_in_hand rs s)\<lparr> se_replay := None \<rparr>)"
proof -
  have "relay_balanced (mset (se_seen s)) (add_mset r (mset (se_abandoned s))) (se_relay s)"
    using ok by (auto simp: session_simps)
  then have "relay_balanced (mset (se_seen s)) (mset (se_abandoned s)) (se_relay (finish_in_hand rs s))"
    using rs by (rule relay_balanced_finish)
  then show ?thesis using ok rs(1) by (auto simp: session_simps ends_def)
qed

lemma session_ok_replay:
  assumes ok: "session_ok s" "se_point s = Top" "se_replay s = Some r"
  shows "session_ok (restart_replay env r s)"
proof -
  define give_up where "give_up = (\<lambda>code message.
      (finish_in_hand (release_websocket_response_create_gate
         (emit_websocket_terminal_error (terminal_error_event env code message ''server_error'' r)
            (release_request_state_reservation (r, se_shared s)))) s)\<lparr> se_replay := None \<rparr>)"
  define again where "again =
    (on_relay (\<lambda>st. st\<lparr> rl_pending := rl_pending st @ [start_reservation_heartbeat r] \<rparr>) s)
      \<lparr> se_replay := None, se_point := Requeued (wr_request_id r) \<rparr>"
  have g: "session_ok (give_up code message)" for code message
    unfolding give_up_def
    by (rule session_ok_give_up [OF ok ends_trans [OF ends_trans [OF ends_reservation ends_emit] ends_gate] gate_released])
  have "balanced (mset (se_seen s)) (add_mset (start_reservation_heartbeat r)
      (mset (se_pending s) + option_mset (replay_of (se_shared s)) + mset (se_abandoned s)))
      (rl_finished (se_relay s)) (se_shared s)"
    using balanced_alike [OF _ start_heartbeat_alike] top_balanced [OF ok(1)] ok(2,3) by simp
  then have a: "session_ok again"
    using ok by (auto simp: again_def session_simps relay_balanced_iff ac_simps)
  have "restart_replay env r s = again \<or> (\<exists>code message. restart_replay env r s = give_up code message)"
    unfolding restart_replay_def Let_def give_up_def [symmetric] again_def [symmetric] by (auto split: option.split)
  then show ?thesis using a g by auto
qed

lemma session_ok_point:
  assumes "session_ok s" "in_hand (se_point s) = {#}" "in_hand p = {#}" "se_point s \<noteq> Closed" "p \<noteq> Closed"
    "se_replay s = None \<or> p = Top"
  shows "session_ok (s\<lparr> se_point := p \<rparr>)"
  using assms by (auto simp: session_simps)

lemma session_ok_shared:
  assumes "session_ok s" "same_gates (se_shared s) (f (se_shared s))" "sh_control (f (se_shared s)) = sh_control (se_shared s)"
  shows "session_ok (on_shared f s)"
proof -
  have "relay_balanced (mset (se_seen s)) (kept_aside s) ((se_relay s)\<lparr> rl_shared := f (se_shared s) \<rparr>)"
    using assms relay_balanced_shared quiet_same by (auto simp: session_ok_def)
  then show ?thesis using assms(1,3) by (auto simp: session_simps on_shared_def)
qed

lemma session_ok_received:
  assumes "session_ok s" "se_point s = Waiting" "prepared r" "wr_request_id r \<notin> set (se_seen s)"
  shows "session_ok (s\<lparr> se_point := Got r, se_seen := wr_request_id r # se_seen s \<rparr>)"
proof -
  have none: "se_replay s = None" using assms(1,2) by (auto simp: session_ok_def)
  have "balanced (mset (se_seen s)) (mset (se_pending s) + option_mset (replay_of (se_shared s)) + mset (se_abandoned s))
      (rl_finished (se_relay s)) (se_shared s)"
    using top_balanced [OF assms(1)] assms(2) none by simp
  then have "balanced (add_mset (wr_request_id r) (mset (se_seen s)))
      (add_mset r (mset (se_pending s) + option_mset (replay_of (se_shared s)) + mset (se_abandoned s)))
      (rl_finished (se_relay s)) (se_shared s)"
    using assms(3) by (auto simp: balanced_def prepared_def request_ok_def)
  moreover have "released r" using assms(3) by (simp add: prepared_def released_def)
  ultimately show ?thesis using assms(1,2,4) none by (auto simp: session_simps relay_balanced_iff ac_simps)
qed

lemma session_ok_pending:
  assumes ok: "session_ok s" "in_hand (se_point s) = {#}" "in_hand p = {#}" "se_point s \<noteq> Closed" "p \<noteq> Closed"
      "se_replay s = None \<or> p = Top"
    and r: "r \<in> set (se_pending s)" and e: "ends (r, se_shared s) (r', sh')"
  shows "session_ok ((on_relay (\<lambda>st. st\<lparr> rl_pending := set_state r r' (rl_pending st), rl_shared := sh' \<rparr>) s)\<lparr> se_point := p \<rparr>)"
proof -
  let ?R = "option_mset (se_replay s) + option_mset (replay_of (se_shared s)) + mset (se_abandoned s)"
  have m: "mset (se_pending s) + ?R = add_mset r (mset (se_pending s) - {#r#} + ?R)" using r by simp
  have "balanced (mset (se_seen s)) (mset (se_pending s) + ?R) (rl_finished (se_relay s)) (se_shared s)"
    using top_balanced [OF ok(1,2)] by (simp add: ac_simps)
  then have "balanced (mset (se_seen s)) (add_mset r (mset (se_pending s) - {#r#} + ?R)) (rl_finished (se_relay s)) (se_shared s)"
    unfolding m .
  then have "balanced (mset (se_seen s)) (mset (set_state r r' (se_pending s)) + ?R) (rl_finished (se_relay s)) sh'"
    using e set_state_mset [OF r, of r'] by (simp add: ends_def)
  then show ?thesis
    using ok e by (auto simp: session_simps relay_balanced_iff ends_def ac_simps)
qed

lemma session_ok_recheck:
  assumes ok: "session_ok s" "se_point s = Requeued i"
  shows "session_ok (recheck_replay owner i s)"
proof (cases "find (\<lambda>r. wr_request_id r = i) (se_pending s)")
  case None
  then show ?thesis using ok session_ok_point [OF ok(1), of "Registered i"] by (auto simp: recheck_replay_def session_ok_def)
next
  case (Some r)
  have none: "se_replay s = None" using ok by (auto simp: session_ok_def)
  have "ends (r, se_shared s) (resolve_owner owner r, se_shared s)" by (rule ends_shared) simp_all
  then show ?thesis
    using session_ok_pending [OF ok(1), of "Registered i" r "resolve_owner owner r" "se_shared s"] find_in_set [OF Some] none
      Some ok(2)
    by (simp add: recheck_replay_def on_relay_def)
qed

lemma session_ok_refuse_replay:
  assumes ok: "session_ok s" "se_point s = Requeued i" "find (\<lambda>r. wr_request_id r = i) (se_pending s) = Some r"
  shows "session_ok (refuse_replay env logged code message error_type r s)"
proof -
  obtain r' sh' where e: "refuse_request env logged code message error_type (r, se_shared s) = (r', sh')" by fastforce
  then have "ends (r, se_shared s) (r', sh')" using ends_refuse by metis
  then show ?thesis
    using session_ok_pending [OF ok(1), of Top r r' sh'] find_in_set [OF ok(3)] ok(2) e by (simp add: refuse_replay_def)
qed

lemma session_ok_connected:
  assumes ok: "session_ok s" "se_point s = Registered i" "\<not> se_upstream s"
  shows "session_ok (connected s)"
proof -
  have "se_replay s = None" "replay_of (se_shared s) = None" using ok by (auto simp: session_ok_def)
  then show ?thesis
    using ok by (auto simp: connected_def session_simps relay_balanced_iff on_shared_def balanced_control)
qed

lemma ends_connect_failure: "ends rs (emit_websocket_connect_failure env parse_error failure rs)"
proof -
  obtain status payload code message where f:
    "sanitize_websocket_connect_failure parse_error (fst rs) failure = (status, payload, code, message)"
    using prod_cases4 by blast
  define rs1 where "rs1 = write_connect_failure env code message (release_request_state_reservation rs)"
  obtain r sh where e: "(if wr_gate (fst rs1) then release_websocket_response_create_gate rs1 else rs1) = (r, sh)" by fastforce
  have "ends rs rs1" unfolding rs1_def by (rule ends_trans [OF ends_reservation ends_log])
  moreover have "ends rs1 (r, sh)" using ends_gate [of rs1] e by (auto split: if_splits)
  moreover have "ends (r, sh) (r, call c sh)" for c by (rule ends_shared) (simp_all add: same_gates_def)
  ultimately have "ends rs (r, call (Send_Text (dumps True False (JObj (wrapped_websocket_error_event status payload)))) sh)"
    using ends_trans by blast
  then show ?thesis
    unfolding emit_websocket_connect_failure_def Let_def f prod.case rs1_def [symmetric] e .
qed

lemma session_ok_connect_failed:
  assumes ok: "session_ok s" "se_point s = Registered i"
  shows "session_ok (connect_failed env parse_error failure i s)"
proof (cases "find (\<lambda>r. wr_request_id r = i) (se_pending s)")
  case None
  then show ?thesis using session_ok_point [OF ok(1), of Top] ok(2) by (simp add: connect_failed_def)
next
  case (Some r)
  obtain r1 sh1 where e: "emit_websocket_connect_failure env parse_error failure (r, se_shared s) = (r1, sh1)" by fastforce
  define rs where "rs = release_websocket_response_create_gate (cancel_reservation_heartbeat r1, sh1)"
  have "ends (r1, sh1) (cancel_reservation_heartbeat r1, sh1)" by (rule ends_shared) simp_all
  then have rs: "ends (r, se_shared s) rs"
    using ends_trans [OF ends_trans [OF ends_connect_failure [of "(r, se_shared s)" env parse_error failure, unfolded e]] ends_gate]
    unfolding rs_def by blast
  let ?s = "on_relay (\<lambda>st. st\<lparr> rl_pending := remove1 r (rl_pending st) \<rparr>) s"
  have r: "r \<in> set (se_pending s)" using find_in_set [OF Some] by simp
  have none: "se_replay s = None" using ok by (auto simp: session_ok_def)
  have m: "mset (se_pending s) = add_mset r (mset (remove1 r (se_pending s)))" using r by simp
  have "relay_balanced (mset (se_seen s)) (add_mset r (mset (se_abandoned s))) (se_relay ?s)"
    using ok none by (simp add: session_simps relay_balanced_iff m del: mset_remove1)
  then have "relay_balanced (mset (se_seen s)) (mset (se_abandoned s)) (se_relay (finish_in_hand rs ?s))"
    by (rule relay_balanced_finish) (use rs in \<open>simp_all add: rs_def\<close>)
  then show ?thesis
    using Some e none rs ok by (auto simp: connect_failed_def rs_def [symmetric] session_simps ends_def)
qed

lemma fail_all_simps [simp]:
  "rl_pending (fail_all env opts st) = []" "rl_running (fail_all env opts st) = rl_running st"
  by (simp_all add: fail_all_def split: prod.split)

lemma fail_all_control:
  assumes "relay_balanced I M st" "fo_gate opts"
  shows "sh_control (rl_shared (fail_all env opts st)) = sh_control (rl_shared st)"
proof -
  obtain fs sh where f: "fail_pending_websocket_requests env opts (rl_pending st) (rl_shared st) = (fs, sh)" by fastforce
  have "balanced I (mset (rl_pending st) + (replays (rl_shared st) + M)) (rl_finished st) (rl_shared st)"
    using assms(1) by (simp add: relay_balanced_def add.assoc)
  from balanced_fail_pending(2) [OF this assms(2) f] show ?thesis using f by (simp add: fail_all_def)
qed

lemma session_ok_send_failed:
  assumes ok: "session_ok s" "se_point s = Sending"
  shows "session_ok (send_failed env s)"
proof -
  have none: "se_replay s = None" using ok by (auto simp: session_ok_def)
  have bal: "relay_balanced (mset (se_seen s)) ({#} + mset (se_abandoned s)) (se_relay s)"
    using ok none by (simp add: session_simps)
  obtain popped rest where p:
    "pop_replayable_precreated_websocket_request_state (en_sha256_hex env) (se_pending s) = (popped, rest)" by fastforce
  show ?thesis
  proof (cases popped)
    case None
    let ?s = "on_relay (fail_all env (upstream_gone ''stream_incomplete'' CLOSED_BEFORE_COMPLETED)) s"
    have "relay_balanced (mset (se_seen s)) ({#} + mset (se_abandoned ?s)) (se_relay ?s)"
      using relay_balanced_fail_all [OF bal gate_options(2)] by simp
    from drop_upstream_balanced [OF this] show ?thesis
      using None p none ok by (auto simp: send_failed_def session_simps)
  next
    case (Some r')
    then obtain r r1 where r: "rest = []" "se_pending s = [r]" "replayable_precreated r" "alike r r1"
      "r' = r1\<lparr> wr_replay_count := Suc (wr_replay_count r1), wr_awaiting_response_created := True,
                 wr_response_id := None \<rparr>"
      using pop_replayable_effect [OF p] by auto
    let ?s = "on_relay (\<lambda>st. st\<lparr> rl_pending := [] \<rparr>) s"
    have "balanced (mset (se_seen s)) (add_mset r' (option_mset (replay_of (se_shared s)) + mset (se_abandoned s)))
        (rl_finished (se_relay s)) (se_shared s)"
      using balanced_replayable [OF _ r(3,4)] bal r(2) unfolding r(5) by (simp add: relay_balanced_iff)
    then have "relay_balanced (mset (se_seen s)) ({#r'#} + mset (se_abandoned ?s)) (se_relay ?s)"
      using bal by (simp add: relay_balanced_iff ac_simps)
    from drop_upstream_balanced [OF this]
    have "relay_balanced (mset (se_seen s)) (add_mset r' (mset (se_abandoned (drop_upstream ?s)))) (se_relay (drop_upstream ?s))"
      by simp
    then show ?thesis using Some p r(1,5) none ok by (auto simp: send_failed_def session_simps)
  qed
qed

lemma close_session_point [simp]: "close_session env gone (s\<lparr> se_point := p \<rparr>) = close_session env gone s"
  by (cases "se_replay s")
    (simp_all add: close_session_def on_relay_def finish_in_hand_def drop_control_def on_shared_def Let_def
      split: prod.split option.split)

lemma session_ok_closed:
  assumes ok: "session_ok s" "in_hand (se_point s) = {#}"
  shows "session_ok (close_session env gone s)"
proof -
  let ?I = "mset (se_seen s)"
  define s1 where "s1 = on_relay (\<lambda>st. st\<lparr> rl_running := False \<rparr>) (s\<lparr> se_reader := False \<rparr>)"
  define s2 where "s2 = (case se_replay s1 of
      None \<Rightarrow> s1
    | Some r \<Rightarrow>
        (let (r1, sh1) = release_request_state_reservation (r, se_shared s1)
         in finish_in_hand (release_websocket_response_create_gate (r1\<lparr> wr_reservation := None \<rparr>, sh1)) s1
              \<lparr> se_replay := None \<rparr>))"
  have b1: "relay_balanced ?I (option_mset (se_replay s1) + mset (se_abandoned s1)) (se_relay s1)"
    using ok by (simp add: s1_def session_simps relay_balanced_iff)
  have s2: "relay_balanced ?I (mset (se_abandoned s2)) (se_relay s2) \<and> se_replay s2 = None \<and> se_seen s2 = se_seen s \<and>
      \<not> se_reader s2 \<and> \<not> rl_running (se_relay s2)"
  proof (cases "se_replay s1")
    case None
    then show ?thesis using b1 by (simp add: s2_def s1_def)
  next
    case (Some r)
    obtain r1 sh1 where e: "release_request_state_reservation (r, se_shared s1) = (r1, sh1)" by fastforce
    let ?rs = "release_websocket_response_create_gate (r1\<lparr> wr_reservation := None \<rparr>, sh1)"
    have "ends (r1, sh1) (r1\<lparr> wr_reservation := None \<rparr>, sh1)" by (rule ends_shared) (simp_all add: alike_def)
    then have "ends (r, se_shared s1) ?rs"
      using ends_trans [OF ends_trans [OF ends_reservation [of "(r, se_shared s1)", unfolded e]] ends_gate] by blast
    moreover have "relay_balanced ?I (add_mset r (mset (se_abandoned s1))) (se_relay s1)" using b1 Some by simp
    ultimately have "relay_balanced ?I (mset (se_abandoned s1)) (se_relay (finish_in_hand ?rs s1))"
      by (intro relay_balanced_finish) simp_all
    then show ?thesis using Some e by (simp add: s2_def) (simp add: s1_def)
  qed
  define opts where "opts = (if gone then client_gone\<lparr> fo_account_id := se_upstream s2 \<rparr>
      else (upstream_gone ''stream_incomplete'' CLOSED_BEFORE_COMPLETED)
             \<lparr> fo_account := se_upstream s2, fo_account_id := se_upstream s2 \<rparr>)"
  have "fo_gate opts" by (simp add: opts_def client_gone_def upstream_gone_def)
  let ?s = "on_relay (fail_all env opts) s2"
  have "relay_balanced ?I ({#} + mset (se_abandoned ?s)) (se_relay ?s)"
    using relay_balanced_fail_all [OF _ \<open>fo_gate opts\<close>] s2 by simp
  note b3 = drop_control_balanced [OF this]
  have "close_session env gone s = drop_control ?s\<lparr> se_point := Closed \<rparr>"
    unfolding close_session_def Let_def s1_def [symmetric] s2_def [symmetric, unfolded Let_def] opts_def ..
  moreover have "session_ok (drop_control ?s\<lparr> se_point := Closed \<rparr>)"
    using b3 s2 ok by (auto simp: session_simps)
  ultimately show ?thesis by simp
qed

lemma session_ok_cancelled:
  assumes ok: "session_ok s" "se_point s = Checked r"
  shows "session_ok (close_session env gone
    (finish_in_hand (release_websocket_response_create_gate (release_request_state_reservation (r, se_shared s))) s))"
proof -
  let ?s = "finish_in_hand (release_websocket_response_create_gate (release_request_state_reservation (r, se_shared s))) s"
  have "session_ok (?s\<lparr> se_point := Top \<rparr>)"
    by (rule session_ok_end_checked [OF ok ends_trans [OF ends_reservation ends_gate] gate_released])
  then have "session_ok (close_session env gone (?s\<lparr> se_point := Top \<rparr>))" by (rule session_ok_closed) simp
  then show ?thesis by simp
qed

lemma empty_handed_in_hand: "empty_handed p \<Longrightarrow> in_hand p = {#}"
  by (cases p) simp_all

lemma session_ok_interrupted:
  assumes ok: "session_ok s" "se_point s = Got r"
  shows "session_ok (close_session env gone (s\<lparr> se_point := Waiting, se_abandoned := se_abandoned s @ [r] \<rparr>))"
  by (rule session_ok_closed) (use ok in \<open>auto simp: session_simps\<close>)

lemma session_ok_forwarded:
  assumes ok: "session_ok s" "se_point s = Waiting" and s': "s' = (if reader_done s then collect_reader s else s)"
  shows "session_ok (if se_upstream s' then s'\<lparr> se_point := Sending \<rparr>
    else on_shared (call (Send_Text t)) (s'\<lparr> se_point := Top \<rparr>))"
proof -
  have top: "session_ok (s'\<lparr> se_point := Top \<rparr>)"
    using s' session_ok_collect [OF ok(1)] session_ok_point [OF ok(1), of Top] ok(2) by auto
  have "session_ok (s'\<lparr> se_point := Sending \<rparr>)" if "se_upstream s'"
    using that s' session_ok_point [OF ok(1), of Sending] ok by (auto simp: session_ok_def split: if_splits)
  moreover have "session_ok (on_shared (call (Send_Text t)) (s'\<lparr> se_point := Top \<rparr>))"
    by (rule session_ok_shared [OF top]) (simp_all add: same_gates_def)
  ultimately show ?thesis by simp
qed

lemma session_ok_step:
  assumes "ws_step s s'" "session_ok s"
  shows "session_ok s'"
  using assms
proof (induction rule: ws_step.induct)
  case (read_upstream s env budget idle inp)
  then show ?case using session_ok_read by blast
next
  case (top_collect s)
  then show ?case using session_ok_collect [of s] collect_top by auto
next
  case (top_replay s r env)
  then show ?case using session_ok_replay by blast
next
  case (top_wait s)
  then show ?case by (intro session_ok_point) simp_all
next
  case (ignored s)
  then show ?case by (intro session_ok_point) simp_all
next
  case (answered s t)
  then show ?case by (intro session_ok_shared session_ok_point) (simp_all add: same_gates_def)
next
  case (forwarded s s' t)
  then show ?case using session_ok_forwarded by blast
next
  case (received s r)
  then show ?case using session_ok_received by blast
next
  case (got s r s' owner)
  then show ?case using session_ok_got by blast
next
  case refused
  then show ?case using session_ok_refused by blast
next
  case queued
  then show ?case using session_ok_queued by blast
next
  case not_admitted
  then show ?case using session_ok_not_admitted by blast
next
  case cancelled
  then show ?case using session_ok_cancelled by blast
next
  case requeued
  then show ?case using session_ok_recheck by blast
next
  case requeue_refused
  then show ?case using session_ok_refuse_replay by blast
next
  case connect
  then show ?case using session_ok_connected by blast
next
  case connect_failure
  then show ?case using session_ok_connect_failed by blast
next
  case (has_upstream s i)
  then show ?case by (intro session_ok_point) (auto simp: session_ok_def)
next
  case (sent s)
  then show ?case by (intro session_ok_point) simp_all
next
  case send_failure
  then show ?case using session_ok_send_failed by blast
next
  case (closed s env gone)
  then show ?case by (intro session_ok_closed) (simp_all add: empty_handed_in_hand)
next
  case interrupted
  then show ?case using session_ok_interrupted by blast
qed

lemma session_ok_reachable: "ws_reachable ct s \<Longrightarrow> session_ok s"
  by (induction rule: ws_reachable.induct) (auto intro: session_ok_init session_ok_step)

end
