(* ===== verification/Ws_Runs.thy ===== *)
theory Ws_Runs
  imports Ws_Session_Laws
begin

text \<open>
  What the ledger says about every run of a websocket session, and laws of single handlers: requests are
  conserved, response ids stay distinct, events reach only their request, an expired wait makes progress
  and a request that ends settles its reservation. A sample run shows where the code falls short.
\<close>

section \<open>Where requests are\<close>

definition option_list :: "'a option \<Rightarrow> 'a list" where
  "option_list x = (case x of None \<Rightarrow> [] | Some y \<Rightarrow> [y])"

fun hand_list :: "loop_point \<Rightarrow> ws_request list" where
  "hand_list (Got r) = [r]"
| "hand_list (Checked r) = [r]"
| "hand_list _ = []"

definition live :: "ws_session \<Rightarrow> ws_request list" where
  "live s = se_pending s @ option_list (replay_of (se_shared s)) @ option_list (se_replay s) @
     hand_list (se_point s) @ se_abandoned s"

lemma option_list_simps [simp]: "option_list None = []" "option_list (Some y) = [y]"
  by (simp_all add: option_list_def)

lemma mset_option_list: "mset (option_list x) = option_mset x"
  by (cases x) simp_all

lemma mset_hand_list: "mset (hand_list p) = in_hand p"
  by (cases p) simp_all

lemma reachable_balanced:
  assumes "ws_reachable ct s"
  shows "balanced (mset (se_seen s)) (mset (live s)) (rl_finished (se_relay s)) (se_shared s)" "distinct (se_seen s)"
proof -
  have ok: "session_ok s" by (rule session_ok_reachable [OF assms])
  then show "balanced (mset (se_seen s)) (mset (live s)) (rl_finished (se_relay s)) (se_shared s)"
    by (simp add: session_simps relay_balanced_iff live_def mset_option_list mset_hand_list ac_simps)
  show "distinct (se_seen s)" using ok by (simp add: session_ok_def)
qed

section \<open>A sample run\<close>

definition sample_env :: ws_env where
  "sample_env =
     \<lparr> en_now = 0, en_created_at = 0, en_validate = (\<lambda>_. None), en_sha256_hex = (\<lambda>s. s), en_request_id = None,
       en_api_key = None, en_touched = False \<rparr>"

definition sample_request :: "string \<Rightarrow> ws_request" where
  "sample_request i =
     \<lparr> wr_request_id = i, wr_model = None, wr_service_tier = None, wr_reasoning_effort = None,
       wr_reservation = None, wr_started_at = 0, wr_latency_first_token_ms = None, wr_request_log_id = None,
       wr_requested_service_tier = None, wr_actual_service_tier = None, wr_response_id = None,
       wr_awaiting_response_created = False, wr_event_queue = False, wr_transport = ''websocket'',
       wr_request_text = Some ''{}'', wr_replay_count = 0, wr_skip_request_log = False,
       wr_previous_response_id = None, wr_session_id = None, wr_proxy_injected_previous_response_id = False,
       wr_fresh_upstream_request_text = None, wr_fresh_upstream_request_is_retry_safe = False,
       wr_preferred_account_id = None, wr_error_code_override = None, wr_error_message_override = None,
       wr_error_type_override = None, wr_error_param_override = None, wr_error_http_status_override = None,
       wr_response_event_count = 0, wr_gate_acquired = False, wr_gate = False, wr_admission = False,
       wr_suppressed_duplicate_tool_call = False, wr_pending_function_call_ids = [], wr_seen_tool_call_keys = [],
       wr_input_item_count = 0, wr_input_full_fingerprint = None, wr_reservation_last_touch_at = 0,
       wr_heartbeat = False, wr_downstream_visible = False, wr_draining_until_terminal = False,
       wr_account_health_error_handled = False \<rparr>"

definition receive :: "ws_request \<Rightarrow> ws_session \<Rightarrow> ws_session" where
  "receive r s = s\<lparr> se_seen := wr_request_id r # se_seen s, se_point := Checked r \<rparr>"

definition sample_running :: ws_session where
  "sample_running = (connected (queue_request (sample_request ''a'') (receive (sample_request ''a'') (initial_session None))))
     \<lparr> se_point := Top \<rparr>"

lemma sample_prepared [simp]: "prepared (sample_request i)" "wr_request_id (sample_request i) = i"
  "resolve_owner o' (sample_request i) = sample_request i"
  by (simp_all add: prepared_def sample_request_def resolve_owner_def)

lemma ws_receive:
  assumes "ws_reachable ct s" "se_point s = Top" "\<not> reader_done s" "se_replay s = None"
    "\<not> uc_reconnect_requested (sh_control (se_shared s))" "i \<notin> set (se_seen s)"
  shows "ws_reachable ct (receive (sample_request i) s)"
proof -
  let ?r = "sample_request i"
  have 1: "ws_reachable ct (s\<lparr> se_point := Waiting \<rparr>)" by (rule step [OF assms(1) top_wait [OF assms(2-4)]])
  have "ws_step (s\<lparr> se_point := Waiting \<rparr>) ((s\<lparr> se_point := Waiting \<rparr>)\<lparr> se_point := Got ?r, se_seen := i # se_seen s \<rparr>)"
    using received [of "s\<lparr> se_point := Waiting \<rparr>" ?r] assms(6) by simp
  then have 2: "ws_reachable ct (s\<lparr> se_point := Got ?r, se_seen := i # se_seen s \<rparr>)" using step [OF 1] by simp
  have "ws_step (s\<lparr> se_point := Got ?r, se_seen := i # se_seen s \<rparr>)
      ((s\<lparr> se_point := Got ?r, se_seen := i # se_seen s \<rparr>)\<lparr> se_point := Checked (resolve_owner None ?r) \<rparr>)"
    by (rule got [where r = ?r]) (use assms(3,5) in \<open>auto simp: reader_done_def\<close>)
  then show ?thesis using step [OF 2] by (simp add: receive_def)
qed

lemma sample_running_reachable: "ws_reachable None sample_running"
proof -
  let ?r = "sample_request ''a''"
  have 1: "ws_reachable None (receive ?r (initial_session None))"
    by (rule ws_receive [OF init]) (simp_all add: initial_session_def reader_done_def fresh_control_def)
  have 2: "ws_reachable None (queue_request ?r (receive ?r (initial_session None)))"
    by (rule step [OF 1 queued]) (simp_all add: receive_def initial_session_def)
  have 3: "ws_reachable None (connected (queue_request ?r (receive ?r (initial_session None))))"
    by (rule step [OF 2 connect [where i = "''a''"]])
      (simp_all add: receive_def initial_session_def queue_request_def acquire_gate_def)
  show ?thesis unfolding sample_running_def
    by (rule step [OF 3 sent]) (simp add: connected_def)
qed

lemma sample_running_simps [simp]:
  "se_point sample_running = Top" "se_replay sample_running = None" "se_seen sample_running = [''a'']"
  "rl_running (se_relay sample_running)" "se_reader sample_running" "se_upstream sample_running"
  "sh_gate (se_shared sample_running) = 0" "sh_admission (se_shared sample_running) = 1"
  "sh_control (se_shared sample_running) = fresh_control" "se_abandoned sample_running = []"
  "rl_finished (se_relay sample_running) = []"
  by (simp_all add: sample_running_def connected_def queue_request_def receive_def initial_session_def acquire_gate_def
      on_relay_def on_shared_def on_control_def)

lemma sample_running_pending: "se_pending sample_running = [(sample_request ''a'')\<lparr> wr_gate := True, wr_gate_acquired := True,
    wr_awaiting_response_created := True, wr_admission := True \<rparr>]"
  by (simp add: sample_running_def connected_def queue_request_def receive_def initial_session_def acquire_gate_def
      on_relay_def on_shared_def on_control_def start_reservation_heartbeat_def sample_request_def)

section \<open>Conservation\<close>

text \<open>C4: No request of a websocket client is lost or doubled. In every run of the session, however the
  client's messages, the upstream's events, timeouts and failures interleave, each request received is in
  just one place: in the loop's hands, queued, kept for replay, dropped, or finished; and a request that is not finished has been replayed at most once.\<close>

theorem requests_are_conserved:
  assumes "ws_reachable ct s"
  shows "distinct (map wr_request_id (live s @ rl_finished (se_relay s))) \<and>
    set (map wr_request_id (live s @ rl_finished (se_relay s))) = set (se_seen s) \<and>
    list_all (\<lambda>r. wr_replay_count r \<le> 1) (live s)"
proof -
  note b = reachable_balanced [OF assms]
  have m: "mset (map wr_request_id (live s @ rl_finished (se_relay s))) = mset (se_seen s)"
    using b(1) by (simp add: balanced_def)
  then have "distinct (map wr_request_id (live s @ rl_finished (se_relay s)))"
    using b(2) mset_eq_imp_distinct_iff by blast
  moreover have "set (map wr_request_id (live s @ rl_finished (se_relay s))) = set (se_seen s)"
    using m by (rule mset_eq_setD)
  moreover have "list_all (\<lambda>r. wr_replay_count r \<le> 1) (live s)"
    using b(1) by (simp add: balanced_def request_ok_def list_all_iff)
  ultimately show ?thesis by blast
qed

theorem requests_are_conserved_witness:
  "set (map wr_request_id (live sample_running @ rl_finished (se_relay sample_running))) = {''a''}"
  using requests_are_conserved [OF sample_running_reachable] by simp

text \<open>C5: The gate that lets one request at a time be created is never lost and never held twice. In every
  run it is either free or held by exactly one request that is not finished, the admission leases taken
  are just those such requests hold, and a finished request holds neither.\<close>

theorem gate_has_one_holder:
  assumes "ws_reachable ct s"
  shows "sh_gate (se_shared s) + length (filter wr_gate_acquired (live s)) = 1 \<and>
    sh_admission (se_shared s) = length (filter wr_admission (live s)) \<and>
    list_all (\<lambda>r. \<not> wr_gate_acquired r \<and> \<not> wr_admission r) (rl_finished (se_relay s))"
  using reachable_balanced(1) [OF assms]
  by (simp add: balanced_def mset_filter [symmetric] released_def list_all_iff del: mset_filter)

theorem gate_has_one_holder_witness:
  "sh_gate (se_shared sample_running) + length (filter wr_gate_acquired (live sample_running)) = 1 \<and>
   length (filter wr_admission (live sample_running)) = 1"
  using gate_has_one_holder [OF sample_running_reachable] by simp

text \<open>C6: A session that ends leaves nothing behind unless it dropped a request that was to be replayed or that
  it was preparing when it was interrupted: every request received is finished, the gate is free and no
  admission lease is held.\<close>

theorem closed_session_is_clean:
  assumes "ws_reachable ct s" "se_point s = Closed" "se_abandoned s = []"
  shows "set (map wr_request_id (rl_finished (se_relay s))) = set (se_seen s) \<and>
    sh_gate (se_shared s) = 1 \<and> sh_admission (se_shared s) = 0"
proof -
  have ok: "session_ok s" by (rule session_ok_reachable [OF assms(1)])
  have l: "live s = []" using ok assms(2,3) by (auto simp: session_ok_def live_def)
  have "mset (map wr_request_id (rl_finished (se_relay s))) = mset (se_seen s) \<and>
      sh_gate (se_shared s) = 1 \<and> sh_admission (se_shared s) = 0"
    using reachable_balanced(1) [OF assms(1)] l by (simp add: balanced_def)
  then show ?thesis using mset_eq_setD by blast
qed

text \<open>What a session drops when it ends is the request its control block still holds for replay.\<close>

lemma close_session_drops:
  assumes "session_ok s" "se_replay s = None"
  shows "se_abandoned (close_session env gone s) = se_abandoned s @ option_list (replay_of (se_shared s))"
    "se_seen (close_session env gone s) = se_seen s" "se_point (close_session env gone s) = Closed"
proof -
  define s1 where "s1 = on_relay (\<lambda>st. st\<lparr> rl_running := False \<rparr>) (s\<lparr> se_reader := False \<rparr>)"
  define opts where "opts = (if gone then client_gone\<lparr> fo_account_id := se_upstream s1 \<rparr>
      else (upstream_gone ''stream_incomplete'' CLOSED_BEFORE_COMPLETED)
             \<lparr> fo_account := se_upstream s1, fo_account_id := se_upstream s1 \<rparr>)"
  have c: "close_session env gone s = drop_control (on_relay (fail_all env opts) s1)\<lparr> se_point := Closed \<rparr>"
    using assms(2) by (simp add: close_session_def Let_def s1_def opts_def)
  have "relay_balanced (mset (se_seen s)) (kept_aside s) (se_relay s1)"
    using assms(1) by (simp add: session_ok_def s1_def relay_balanced_iff)
  then have "sh_control (rl_shared (fail_all env opts (se_relay s1))) = sh_control (se_shared s1)"
    by (rule fail_all_control) (simp add: opts_def client_gone_def upstream_gone_def)
  then have "replay_of (rl_shared (fail_all env opts (se_relay s1))) = replay_of (se_shared s)" by (simp add: s1_def)
  then show "se_abandoned (close_session env gone s) = se_abandoned s @ option_list (replay_of (se_shared s))"
    unfolding c by (simp add: drop_control_def option_list_def) (simp add: s1_def)
  show "se_seen (close_session env gone s) = se_seen s" "se_point (close_session env gone s) = Closed"
    unfolding c by (simp_all add: s1_def)
qed

definition sample_closed :: ws_session where
  "sample_closed = close_session sample_env True sample_running"

lemma close_reachable:
  assumes "ws_reachable ct s" "se_point s = Waiting"
  shows "ws_reachable ct (close_session env gone s)"
  by (rule step [OF assms(1) closed]) (simp add: assms(2))

lemma sample_closed_reachable: "ws_reachable None sample_closed"
proof -
  have "ws_reachable None (sample_running\<lparr> se_point := Waiting \<rparr>)"
    by (rule step [OF sample_running_reachable top_wait]) (simp_all add: reader_done_def)
  from close_reachable [OF this, of sample_env True] show ?thesis by (simp add: sample_closed_def)
qed

theorem closed_session_is_clean_witness:
  "set (map wr_request_id (rl_finished (se_relay sample_closed))) = {''a''} \<and>
   sh_gate (se_shared sample_closed) = 1 \<and> sh_admission (se_shared sample_closed) = 0"
proof -
  note d = close_session_drops [OF session_ok_reachable [OF sample_running_reachable], of sample_env True]
  have "se_point sample_closed = Closed" "se_abandoned sample_closed = []" "se_seen sample_closed = [''a'']"
    using d by (simp_all add: sample_closed_def)
  then show ?thesis using closed_session_is_clean [OF sample_closed_reachable] by simp
qed

section \<open>Replays that are not picked up\<close>

text \<open>The upstream closes before it has created the sample request, which is then to be replayed.\<close>

definition upstream_closes :: "ws_session \<Rightarrow> ws_session" where
  "upstream_closes = on_relay (relay_upstream_websocket_messages sample_env 0 0 (Up_Closed ''close'' None None))"

lemma upstream_closes_reachable:
  assumes "ws_reachable ct s" "se_reader s" "rl_running (se_relay s)" "se_point s \<noteq> Closed"
  shows "ws_reachable ct (upstream_closes s)"
  unfolding upstream_closes_def by (rule step [OF assms(1) read_upstream [OF assms(2-4)]])

lemma upstream_closes_replay:
  assumes "se_pending s = [r]" "replayable_precreated r"
  shows "se_pending (upstream_closes s) = []" "\<not> rl_running (se_relay (upstream_closes s))"
    "map_option (\<lambda>q. (wr_request_id q, wr_admission q)) (replay_of (se_shared (upstream_closes s))) =
       Some (wr_request_id r, wr_admission r)"
    "sh_gate (se_shared (upstream_closes s)) = sh_gate (se_shared s)"
    "sh_admission (se_shared (upstream_closes s)) = sh_admission (se_shared s)"
    "se_point (upstream_closes s) = se_point s" "se_replay (upstream_closes s) = se_replay s"
    "se_abandoned (upstream_closes s) = se_abandoned s" "se_reader (upstream_closes s) = se_reader s"
  using assms
  by (auto simp: upstream_closes_def relay_upstream_websocket_messages_def relay_closed_def stop_reader_def Let_def
      pop_replayable_precreated_websocket_request_state_def refresh_websocket_request_input_fingerprint_from_text_def
      split: option.splits)

lemma sample_replayable:
  "replayable_precreated ((sample_request i)\<lparr> wr_gate := True, wr_gate_acquired := True,
    wr_awaiting_response_created := True, wr_admission := True \<rparr>)"
  by (simp add: replayable_precreated_def sample_request_def)

text \<open>
  A client that disconnects in the moment between the end of the reader and the next turn of the loop
  ends the session with the request dropped: it is never finished, and its admission lease, a permit of
  the whole process, is never given back.
\<close>

lemma disconnect_leaks_admission:
  "\<exists>s. ws_reachable None s \<and> se_point s = Closed \<and> rl_finished (se_relay s) = [] \<and>
    map wr_request_id (se_abandoned s) = [''a''] \<and> sh_admission (se_shared s) = 1"
proof -
  let ?s = "upstream_closes (sample_running\<lparr> se_point := Waiting \<rparr>)"
  have w: "ws_reachable None (sample_running\<lparr> se_point := Waiting \<rparr>)"
    by (rule step [OF sample_running_reachable top_wait]) (simp_all add: reader_done_def)
  have r: "ws_reachable None ?s" by (rule upstream_closes_reachable [OF w]) simp_all
  note e = upstream_closes_replay [of "sample_running\<lparr> se_point := Waiting \<rparr>", simplified, OF sample_running_pending sample_replayable]
  note d = close_session_drops [OF session_ok_reachable [OF r], of sample_env True]
  obtain a where a: "replay_of (se_shared ?s) = Some a" "wr_request_id a = ''a''" "wr_admission a" using e by auto
  let ?t = "close_session sample_env True ?s"
  have t: "ws_reachable None ?t" by (rule close_reachable [OF r]) (simp add: e)
  have ab: "se_abandoned ?t = [a]" "se_seen ?t = [''a'']" "se_point ?t = Closed"
    using d a e by (simp_all add: upstream_closes_def)
  have "live ?t = [a]"
    using session_ok_reachable [OF t] ab by (auto simp: session_ok_def live_def)
  then have "rl_finished (se_relay ?t) = [] \<and> sh_admission (se_shared ?t) = 1"
    using reachable_balanced(1) [OF t] ab a by (simp add: balanced_def)
  then show ?thesis using t ab a by (intro exI [of _ ?t]) simp
qed

text \<open>
  A request the client sends meanwhile makes the session hang: the new request waits for the gate, which
  the request to be replayed holds, and only a later turn of the loop would replay that one. Nothing but
  cancelling the task ends the wait.
\<close>

inductive_cases ws_stepE: "ws_step s s'"

lemma replay_behind_request_hangs:
  assumes reach: "ws_reachable ct s" and point: "se_point s = Checked r"
    and replay: "se_replay s \<noteq> None \<or> replay_of (se_shared s) \<noteq> None"
    and not_refused: "wr_previous_response_id r = None" "list_all (\<lambda>p. \<not> wr_downstream_visible p) (se_pending s)"
    and st: "ws_step s s'"
  shows "se_point s' = Closed"
proof -
  have ok: "session_ok s" by (rule session_ok_reachable [OF reach])
  obtain a where ra: "se_replay s = Some a \<or> replay_of (se_shared s) = Some a" using replay by auto
  then have a: "a \<in> set (live s)" by (auto simp: live_def)
  have aw: "wr_awaiting_response_created a" using ok ra by (auto simp: session_ok_def relay_balanced_def)
  have "request_ok a" using reachable_balanced(1) [OF reach] a by (simp add: balanced_def)
  then have g: "sh_gate (se_shared s) = 0"
    using no_holder [OF reachable_balanced(1) [OF reach], of a] a aw by (auto simp: request_ok_def)
  have run: "\<not> rl_running (se_relay s)"
    using replay ok by (auto simp: session_ok_def relay_balanced_def)
  have vis: "\<not> full_resend_conflicts_with_visible_pending affinity r (se_pending s)" for affinity
    using not_refused(2) by (auto simp: full_resend_conflicts_with_visible_pending_def list_all_iff list_ex_iff)
  show ?thesis
    using st by (rule ws_stepE) (use point g run vis not_refused(1) in \<open>auto simp: close_session_def Let_def\<close>)
qed

lemma second_request_hangs:
  "\<exists>s r. ws_reachable None s \<and> se_point s = Checked r \<and> (\<forall>s'. ws_step s s' \<longrightarrow> se_point s' = Closed)"
proof -
  let ?b = "sample_request ''b''"
  let ?s = "upstream_closes (receive ?b sample_running)"
  have 1: "ws_reachable None (receive ?b sample_running)"
    by (rule ws_receive [OF sample_running_reachable]) (simp_all add: reader_done_def fresh_control_def)
  have 2: "ws_reachable None ?s" by (rule upstream_closes_reachable [OF 1]) (simp_all add: receive_def)
  have p: "se_pending (receive ?b sample_running) = se_pending sample_running" by (simp add: receive_def)
  note e = upstream_closes_replay [OF p [unfolded sample_running_pending] sample_replayable]
  have 3: "se_point ?s = Checked ?b" using e by (simp add: receive_def)
  have "se_point s' = Closed" if "ws_step ?s s'" for s'
    by (rule replay_behind_request_hangs [OF 2 3 _ _ _ that]) (use e in \<open>auto simp: sample_request_def\<close>)
  then show ?thesis using 2 3 by blast
qed

text \<open>A replayed request that is refused is answered with an error and stays in the queue.\<close>

lemma refused_replay_stays_queued:
  assumes "r \<in> set (se_pending s)"
  shows "size (mset (se_pending (refuse_replay env logged code message error_type r s))) = size (mset (se_pending s))"
proof -
  obtain r' sh' where e: "refuse_request env logged code message error_type (r, se_shared s) = (r', sh')" by fastforce
  have "mset (set_state r r' (se_pending s)) = add_mset r' (mset (se_pending s) - {#r#})" by (rule set_state_mset [OF assms])
  then have "size (mset (set_state r r' (se_pending s))) = size (mset (se_pending s))"
    using assms by (metis insert_DiffM set_mset_mset size_add_mset)
  then show ?thesis using e by (simp add: refuse_replay_def)
qed

section \<open>Response ids\<close>

definition ids_distinct :: "ws_request list \<Rightarrow> bool" where
  "ids_distinct ps \<longleftrightarrow> distinct (List.map_filter wr_response_id ps)"

lemma mset_map_filter: "mset (List.map_filter f xs) = image_mset (the \<circ> f) (filter_mset (\<lambda>x. f x \<noteq> None) (mset xs))"
  by (induction xs) (auto simp: List.map_filter_simps split: option.split)

lemma distinct_count: "distinct xs \<longleftrightarrow> (\<forall>a. count (mset xs) a \<le> 1)"
proof
  show "distinct xs \<Longrightarrow> \<forall>a. count (mset xs) a \<le> 1" by (simp add: distinct_count_atmost_1)
  show "\<forall>a. count (mset xs) a \<le> 1 \<Longrightarrow> distinct xs"
    by (induction xs) (auto simp: count_eq_zero_iff le_Suc_eq split: if_splits)
qed

lemma ids_distinct_sub:
  assumes "ids_distinct ps" "mset qs \<subseteq># mset ps"
  shows "ids_distinct qs"
proof -
  have "mset (List.map_filter wr_response_id qs) \<subseteq># mset (List.map_filter wr_response_id ps)"
    unfolding mset_map_filter by (intro image_mset_subseteq_mono multiset_filter_mono assms(2))
  then show ?thesis
    using assms(1) unfolding ids_distinct_def distinct_count by (meson mset_subset_eq_count order_trans)
qed

lemma update_first_ids:
  assumes "update_first p f xs = Some (y, ys)" "\<And>x. p x \<Longrightarrow> wr_response_id (f x) = wr_response_id x"
  shows "List.map_filter wr_response_id ys = List.map_filter wr_response_id xs"
  using assms(1)
proof (induction xs arbitrary: ys)
  case (Cons x xs)
  then show ?case using assms(2) by (auto simp: List.map_filter_simps split: if_splits option.splits)
qed simp

lemma ids_distinct_set_state:
  assumes "ids_distinct ps" "wr_response_id r' = wr_response_id r"
  shows "ids_distinct (set_state r r' ps)"
proof (cases "update_first (\<lambda>q. q = r) (\<lambda>_. r') ps")
  case None
  then show ?thesis using assms(1) by (simp add: set_state_def)
next
  case (Some u)
  obtain y ys where "update_first (\<lambda>q. q = r) (\<lambda>_. r') ps = Some (y, ys)" using Some by (cases u) auto
  then show ?thesis
    using update_first_ids [of "\<lambda>q. q = r" "\<lambda>_. r'" ps y ys] assms by (simp add: set_state_def ids_distinct_def)
qed

lemma update_first_new_id:
  assumes "update_first p (\<lambda>r. r\<lparr> wr_response_id := Some i \<rparr>) ps = Some (y, ys)" "ids_distinct ps"
    "\<And>r. p r \<Longrightarrow> wr_response_id r = None" "find (\<lambda>r. wr_response_id r = Some i) ps = None"
  shows "ids_distinct ys"
proof -
  obtain x where x: "x \<in> set ps" "p x" "mset ys = add_mset (x\<lparr> wr_response_id := Some i \<rparr>) (mset ps - {#x#})"
    using update_first_mset [OF assms(1)] by auto
  have "filter_mset (\<lambda>r. wr_response_id r \<noteq> None) (mset ps - {#x#}) = filter_mset (\<lambda>r. wr_response_id r \<noteq> None) (mset ps)"
    using assms(3) [OF x(2)] by (simp add: filter_diff_mset)
  then have m: "mset (List.map_filter wr_response_id ys) = add_mset i (mset (List.map_filter wr_response_id ps))"
    unfolding mset_map_filter x(3) by simp
  have "i \<notin> set (List.map_filter wr_response_id ps)" using assms(4) by (auto simp: find_None_iff List.map_filter_def)
  then show ?thesis
    using assms(2) mset_eq_imp_distinct_iff [of "List.map_filter wr_response_id ys" "i # List.map_filter wr_response_id ps"] m
    by (simp add: ids_distinct_def)
qed

lemma assign_ids_distinct:
  assumes "ids_distinct ps" "assign_websocket_response_id ps i = (matched, qs)"
  shows "ids_distinct qs"
  using assms update_first_new_id [of _ _ ps]
  by (auto simp: assign_websocket_response_id_def find_websocket_request_state_by_response_id_def Let_def
      split: option.splits)

lemma match_ids_distinct:
  assumes "ids_distinct ps" "match_upstream_event inc ps = (matched, qs)"
  shows "ids_distinct qs"
  using assms assign_ids_distinct by (auto simp: match_upstream_event_def split: if_splits option.splits)

lemma note_event_id:
  assumes "note_event view r = (dup, r', view')"
  shows "wr_response_id r' = wr_response_id r"
proof -
  obtain event payload event_type t where v: "view = (event, payload, event_type, t)" using prod_cases4 by blast
  show ?thesis
    using assms unfolding v
    by (auto simp: note_event_def Let_def split: prod.splits option.splits if_splits)
qed

lemma note_matched_ids:
  assumes "ids_distinct ps" "note_matched view matched ps = (dup, noted, view', qs)"
  shows "ids_distinct qs"
proof (cases matched)
  case (Some r)
  obtain d r' v where n: "note_event view r = (d, r', v)" using prod_cases3 by blast
  then have "qs = set_state r r' ps" using assms(2) Some by (simp add: note_matched_def)
  then show ?thesis using ids_distinct_set_state [OF assms(1) note_event_id [OF n]] by simp
qed (use assms in \<open>simp add: note_matched_def\<close>)

text \<open>C13: The queue of a websocket stays well-formed: if no two queued requests carry the same response id,
  no event makes two requests carry the same one, whatever ids the upstream sends.\<close>

theorem response_ids_stay_distinct:
  assumes "ids_distinct pending" "process_upstream_websocket_text env raw pending sh = (t, finished, ps, sh')"
  shows "ids_distinct ps"
proof -
  define inc where "inc = read_upstream_text env raw"
  obtain matched p1 where m: "match_upstream_event inc pending = (matched, p1)" by fastforce
  obtain dup noted view p2 where n: "note_matched (wi_view inc) matched p1 = (dup, noted, view, p2)"
    using prod_cases4 by blast
  have d2: "ids_distinct p2" by (rule note_matched_ids [OF match_ids_distinct [OF assms(1) m] n])
  obtain popped grouped rest where p: "pop_upstream_event inc (wi_event_type inc) noted p2 = (popped, grouped, rest)"
    using prod_cases3 by blast
  have d3: "ids_distinct rest"
    using ids_distinct_sub [OF d2] pop_upstream_effect(1) [OF p] by simp
  obtain p3 sh1 where c: "release_created inc noted p2 sh = (p3, sh1)" by fastforce
  have d4: "ids_distinct p3"
    using c d2 release_gate_effect(4) ids_distinct_set_state
    by (auto simp: release_created_def split: option.splits if_splits prod.splits)
  have "ps = p2 \<or> ps = rest \<or> ps = p3"
    using assms(2) unfolding process_upstream_websocket_text_def Let_def inc_def [symmetric] m prod.case n p c
    by (auto split: prod.splits if_splits)
  then show ?thesis using d2 d3 d4 by blast
qed

theorem response_ids_stay_distinct_witness:
  "ids_distinct (fst (snd (snd (process_upstream_websocket_text sample_env ''x'' (se_pending sample_running)
     (se_shared sample_running)))))"
proof -
  obtain t fs ps sh where "process_upstream_websocket_text sample_env ''x'' (se_pending sample_running)
      (se_shared sample_running) = (t, fs, ps, sh)" using prod_cases4 by blast
  moreover have "ids_distinct (se_pending sample_running)"
    by (simp add: sample_running_pending ids_distinct_def List.map_filter_simps sample_request_def)
  ultimately show ?thesis using response_ids_stay_distinct by simp
qed

section \<open>Routing events\<close>

lemma update_first_filter:
  assumes "update_first p f xs = Some (y, ys)" "\<And>x. p x \<Longrightarrow> \<not> q x \<and> \<not> q (f x)"
  shows "filter q ys = filter q xs"
  using assms(1)
proof (induction xs arbitrary: ys)
  case (Cons x xs)
  then show ?case using assms(2) by (auto split: if_splits option.splits)
qed simp

lemma set_state_filter:
  assumes "\<not> q r" "\<not> q r'"
  shows "filter q (set_state r r' ps) = filter q ps"
  using update_first_filter [of "\<lambda>x. x = r" "\<lambda>_. r'" ps _ _ q] assms
  by (auto simp: set_state_def split: option.splits)

text \<open>C12: Events stay within their response. An event that carries a response id and neither creates nor ends
  a response finishes no request and changes no queued request but the one with that id.\<close>

theorem events_reach_only_their_request:
  assumes "wi_response_id (read_upstream_text env raw) = Some i"
    "wi_event_type (read_upstream_text env raw) \<noteq> Some ''response.created''"
    "\<not> in_types (wi_event_type (read_upstream_text env raw)) TERMINAL_EVENT_TYPES"
    "process_upstream_websocket_text env raw pending sh = (t, finished, ps, sh')"
  shows "finished = [] \<and>
    filter (\<lambda>r. wr_response_id r \<noteq> Some i) ps = filter (\<lambda>r. wr_response_id r \<noteq> Some i) pending"
proof -
  define inc where "inc = read_upstream_text env raw"
  define matched where "matched = find_websocket_request_state_by_response_id pending i"
  have m: "match_upstream_event inc pending = (matched, pending)"
    using assms(1,2) by (simp add: match_upstream_event_def inc_def matched_def)
  obtain dup noted view p2 where n: "note_matched (wi_view inc) matched pending = (dup, noted, view, p2)"
    using prod_cases4 by blast
  have f: "filter (\<lambda>r. wr_response_id r \<noteq> Some i) p2 = filter (\<lambda>r. wr_response_id r \<noteq> Some i) pending"
  proof (cases matched)
    case None
    then show ?thesis using n by (simp add: note_matched_def)
  next
    case (Some r)
    obtain d r' v where e: "note_event (wi_view inc) r = (d, r', v)" using prod_cases3 by blast
    have "wr_response_id r = Some i"
      using Some find_in_set by (fastforce simp: matched_def find_websocket_request_state_by_response_id_def)
    moreover have "p2 = set_state r r' pending" using n e Some by (simp add: note_matched_def)
    ultimately show ?thesis using set_state_filter note_event_id [OF e] by simp
  qed
  have "release_created inc noted p2 sh = (p2, sh)"
    using assms(2) by (simp add: release_created_def inc_def split: option.split)
  moreover obtain t2 fs sh2 where e: "finish_event env inc view None [] False sh = (t2, fs, sh2)" using prod_cases3 by blast
  ultimately have "finished = [] \<and> ps = p2"
    using assms(3,4) finish_nothing(1) [OF e]
    unfolding process_upstream_websocket_text_def Let_def inc_def [symmetric] m prod.case n
    by (auto simp: e split: if_splits)
  then show ?thesis using f by simp
qed

definition sample_delta :: string where
  "sample_delta = dumps True False (JObj [(''type'', JStr ''d''), (''response_id'', JStr ''1'')])"

theorem events_reach_only_their_request_witness:
  "filter (\<lambda>r. wr_response_id r \<noteq> Some ''1'')
     (fst (snd (snd (process_upstream_websocket_text sample_env sample_delta (se_pending sample_running)
       (se_shared sample_running))))) =
   filter (\<lambda>r. wr_response_id r \<noteq> Some ''1'') (se_pending sample_running)"
proof -
  have "wi_response_id (read_upstream_text sample_env sample_delta) = Some ''1'' \<and>
      wi_event_type (read_upstream_text sample_env sample_delta) = Some ''d''"
    by code_simp
  moreover have "\<not> in_types (Some ''d'') TERMINAL_EVENT_TYPES" by code_simp
  moreover obtain t fs ps sh where "process_upstream_websocket_text sample_env sample_delta (se_pending sample_running)
      (se_shared sample_running) = (t, fs, ps, sh)" using prod_cases4 by blast
  ultimately show ?thesis using events_reach_only_their_request [of sample_env sample_delta "''1''"] by simp
qed

section \<open>Waiting\<close>

lemma fail_expired_rest:
  assumes "fail_expired_pending_websocket_requests env budget code message ps sh = (finished, rest, sh')"
    "r \<in> set ps" "wr_started_at r + budget \<le> en_now env"
  shows "length rest < length ps"
proof -
  let ?e = "filter (\<lambda>r. wr_started_at r + budget \<le> en_now env) ps"
  have "?e \<noteq> []" using assms(2,3) by (auto simp: filter_empty_conv)
  then have "rest = fold remove1 ?e ps"
    using assms(1) by (auto simp: fail_expired_pending_websocket_requests_def Let_def split: prod.splits)
  then have "length rest = length (filter (\<lambda>r. \<not> wr_started_at r + budget \<le> en_now env) ps)"
    using fold_remove1_filter by (metis size_mset)
  also have "\<dots> < length ps" using assms(2,3) by (intro length_filter_less) auto
  finally show ?thesis .
qed

text \<open>C14: An expired wait makes progress. When the reader has waited as long as it computed it may for the
  requests in its queue, at least one of them is failed.\<close>

theorem expired_wait_makes_progress:
  assumes "rl_wait st = (t0, next_websocket_receive_timeout t0 (rl_pending st) budget idle)"
    "snd (rl_wait st) = Some w" "t0 + to_timeout_seconds w \<le> en_now env"
  shows "length (rl_pending (relay_timeout env budget sent st)) < length (rl_pending st)"
proof -
  let ?started = "map wr_started_at (filter http_bridge_request_counts_against_queue (rl_pending st))"
  have w: "websocket_receive_timeout_for_pending_requests t0 ?started budget idle = Some w"
    using assms(1,2) by (simp add: next_websocket_receive_timeout_def)
  then have ne: "?started \<noteq> []" by (auto simp: websocket_receive_timeout_for_pending_requests_def)
  then have pos: "0 < length (rl_pending st)" by auto
  have late: "\<not> en_now env < fst (rl_wait st) + to_timeout_seconds w" using assms(1,3) by simp
  show ?thesis
  proof (cases "to_fail_all_pending w")
    case True
    then show ?thesis using assms(2) late pos by (simp add: relay_timeout_def stop_reader_def Let_def)
  next
    case False
    have "Min (set ?started) \<in> set ?started" using ne by (intro Min_in finite_set) (simp only: set_empty not_False_eq_True)
    then obtain r where r: "r \<in> set (rl_pending st)" "wr_started_at r = Min (set ?started)" by auto
    have "to_timeout_seconds w = max 0 (Min (set ?started) + budget - t0)"
      using w ne False
      by (auto simp: websocket_receive_timeout_for_pending_requests_def receive_timeout_of_def Let_def split: if_splits)
    then have e: "wr_started_at r + budget \<le> en_now env" using assms(3) r(2) by (simp add: max_def split: if_splits)
    obtain fs ps sh where f: "fail_expired_pending_websocket_requests env budget (to_error_code w) (to_error_message w)
        (rl_pending st) (rl_shared st) = (fs, ps, sh)" using prod_cases3 by blast
    show ?thesis using fail_expired_rest [OF f r(1) e] assms(2) late False f by (simp add: relay_timeout_def)
  qed
qed

definition sample_waiting :: relay_state where
  "sample_waiting = (se_relay sample_running)
     \<lparr> rl_wait := (0, next_websocket_receive_timeout 0 (se_pending sample_running) 5 7) \<rparr>"

theorem expired_wait_makes_progress_witness:
  "length (rl_pending (relay_timeout (sample_env\<lparr> en_now := 5 \<rparr>) 5 0 sample_waiting)) < length (rl_pending sample_waiting)"
proof -
  have "next_websocket_receive_timeout 0 (se_pending sample_running) 5 7 =
      receive_timeout_of 5 ''upstream_request_timeout'' ''Proxy request budget exhausted'' False"
    by (simp add: sample_running_pending next_websocket_receive_timeout_def http_bridge_request_counts_against_queue_def
        websocket_receive_timeout_for_pending_requests_def sample_request_def Let_def)
  then show ?thesis
    using expired_wait_makes_progress [of sample_waiting 0 5 7 _ "sample_env\<lparr> en_now := 5 \<rparr>" 0]
    by (simp add: sample_waiting_def receive_timeout_of_def sample_env_def)
qed

section \<open>Settling\<close>

definition is_close :: "ws_call \<Rightarrow> bool" where
  "is_close c \<longleftrightarrow> (case c of Close_Reservation _ \<Rightarrow> True | _ \<Rightarrow> False)"

lemma is_close_simps [simp]:
  "is_close (Close_Reservation a)" "\<not> is_close (Touch_Reservation i)" "\<not> is_close (Stream_Error e c)"
  "\<not> is_close Record_Success" "\<not> is_close (Remember_Owner i o')" "\<not> is_close (Write_Log l)"
  by (simp_all add: is_close_def)




lemma calls_simps [simp]:
  "sh_calls (call c sh) = sh_calls sh @ [c]" "sh_calls (call_if b c sh) = sh_calls sh @ (if b then [c] else [])"
  "sh_calls (request_reconnect sh) = sh_calls sh"
  by (simp_all add: call_def call_if_def request_reconnect_def on_control_def)





end
