(* ===== verification/Ip_Address.thy ===== *)
theory Ip_Address
  imports Json_Numbers
begin

text \<open>
  The part of Python's \<open>ipaddress\<close> module the program uses: reading and printing addresses, loopback
  addresses and membership in a network, as in Python 3.13. An address is its number, with the scope of an
  IPv6 address; a network is given by its address and the length of its prefix, as the configured CIDRs
  are parsed. Reading what was printed gives the address back, so two spellings are the same address just if
  they print alike.
\<close>

section \<open>Addresses\<close>

datatype ip_address = IPv4 int | IPv6 int "string option"

definition parse_octet :: "string \<Rightarrow> int option" where
  "parse_octet s =
     (if s = [] \<or> \<not> list_all is_digit s \<or> 3 < length s \<or> s \<noteq> ''0'' \<and> hd s = CHR ''0'' \<or> 255 < digits_value s
      then None else Some (int (digits_value s)))"

definition ipv4_of_string :: "string \<Rightarrow> int option" where
  "ipv4_of_string s =
     (case map parse_octet (py_split (CHR ''.'') s) of
        [Some a, Some b, Some c, Some d] \<Rightarrow> Some (((a * 256 + b) * 256 + c) * 256 + d)
      | _ \<Rightarrow> None)"

fun hex_number :: "string \<Rightarrow> int \<Rightarrow> int option" where
  "hex_number [] n = Some n"
| "hex_number (c # s) n = (case hex_value c of None \<Rightarrow> None | Some d \<Rightarrow> hex_number s (16 * n + int d))"

definition parse_hextet :: "string \<Rightarrow> int option" where
  "parse_hextet s = (if s = [] \<or> 4 < length s then None else hex_number s 0)"

fun add_hextets :: "string list \<Rightarrow> int \<Rightarrow> int option" where
  "add_hextets [] n = Some n"
| "add_hextets (p # ps) n = (case parse_hextet p of None \<Rightarrow> None | Some h \<Rightarrow> add_hextets ps (65536 * n + h))"

text \<open>
  The parts between the colons. An empty part in between stands for the hextets left out; there is at most
  one, and an empty part at an end must be next to it.
\<close>

definition empty_inside :: "string list \<Rightarrow> nat list" where
  "empty_inside parts = filter (\<lambda>i. parts ! i = []) [1..<length parts - 1]"

definition ipv6_of_parts :: "string list \<Rightarrow> int option" where
  "ipv6_of_parts parts =
     (case empty_inside parts of
        [] \<Rightarrow> if length parts = 8 \<and> hd parts \<noteq> [] \<and> last parts \<noteq> [] then add_hextets parts 0 else None
      | [i] \<Rightarrow>
          (let hi = (if hd parts = [] then i - 1 else i);
               lo = (if last parts = [] then length parts - i - 2 else length parts - i - 1)
           in if hd parts = [] \<and> hi \<noteq> 0 \<or> last parts = [] \<and> lo \<noteq> 0 \<or> 8 \<le> hi + lo then None
              else Option.bind (add_hextets (take hi parts) 0)
                     (\<lambda>n. add_hextets (drop (length parts - lo) parts) (n * 65536 ^ (8 - (hi + lo)))))
      | _ \<Rightarrow> None)"

function hexadecimal :: "int \<Rightarrow> string" where
  "hexadecimal n = (if n < 16 then [hex_char (nat n)] else hexadecimal (n div 16) @ [hex_char (nat (n mod 16))])"
  by pat_completeness auto

termination
  by (relation "measure nat") auto

declare hexadecimal.simps [simp del]

definition ipv6_of_string :: "string \<Rightarrow> int option" where
  "ipv6_of_string s =
     (let parts = py_split (CHR '':'') s
      in if s = [] \<or> length parts < 3 then None
         else
           case (if CHR ''.'' \<in> set (last parts)
                 then map_option (\<lambda>n. butlast parts @ [hexadecimal (n div 65536), hexadecimal (n mod 65536)])
                        (ipv4_of_string (last parts))
                 else Some parts) of
             None \<Rightarrow> None
           | Some ps \<Rightarrow> if 9 < length ps then None else ipv6_of_parts ps)"

definition split_scope_id :: "string \<Rightarrow> (string \<times> string option) option" where
  "split_scope_id s =
     (let addr = takeWhile (\<lambda>c. c \<noteq> CHR ''%'') s; rest = dropWhile (\<lambda>c. c \<noteq> CHR ''%'') s
      in case rest of
           [] \<Rightarrow> Some (addr, None)
         | _ # scope \<Rightarrow> if scope = [] \<or> CHR ''%'' \<in> set scope then None else Some (addr, Some scope))"

definition ip_address :: "string \<Rightarrow> ip_address option" where
  "ip_address s =
     (case ipv4_of_string s of
        Some n \<Rightarrow> Some (IPv4 n)
      | None \<Rightarrow>
          if CHR ''/'' \<in> set s then None
          else Option.bind (split_scope_id s) (\<lambda>(addr, scope). map_option (\<lambda>n. IPv6 n scope) (ipv6_of_string addr)))"

section \<open>Printing\<close>

definition string_from_ipv4 :: "int \<Rightarrow> string" where
  "string_from_ipv4 n =
     py_join ''.'' (map (\<lambda>k. decimal (nat k)) [n div 16777216 mod 256, n div 65536 mod 256, n div 256 mod 256, n mod 256])"

definition hextets :: "int \<Rightarrow> int list" where
  "hextets n = map (\<lambda>i. n div 65536 ^ (7 - i) mod 65536) [0..<8]"

text \<open>
  The longest run of zero hextets, the first of several: the state is the start and length of the best
  run, and the start and length of the run that ends before the current hextet.
\<close>

fun best_zeros :: "string list \<Rightarrow> nat \<Rightarrow> nat \<times> nat \<Rightarrow> nat \<times> nat \<Rightarrow> nat \<times> nat" where
  "best_zeros [] index best run = best"
| "best_zeros (h # hs) index best run =
     (if h = ''0''
      then
        (let run' = (if snd run = 0 then index else fst run, Suc (snd run))
         in best_zeros hs (Suc index) (if snd best < snd run' then run' else best) run')
      else best_zeros hs (Suc index) best (0, 0))"

definition compress_hextets :: "string list \<Rightarrow> string list" where
  "compress_hextets hs =
     (let (start, len) = best_zeros hs 0 (0, 0) (0, 0)
      in if 1 < len
         then (if start = 0 then [[]] else []) @ take start hs @ [[]] @ drop (start + len) hs @
              (if start + len = length hs then [[]] else [])
         else hs)"

definition string_from_ipv6 :: "int \<Rightarrow> string" where
  "string_from_ipv6 n = py_join '':'' (compress_hextets (map hexadecimal (hextets n)))"

definition ipv4_mapped :: "int \<Rightarrow> int option" where
  "ipv4_mapped n = (if n div 4294967296 = 65535 then Some (n mod 4294967296) else None)"

definition str_of_ip :: "ip_address \<Rightarrow> string" where
  "str_of_ip a =
     (case a of
        IPv4 n \<Rightarrow> string_from_ipv4 n
      | IPv6 n scope \<Rightarrow>
          (case ipv4_mapped n of
             None \<Rightarrow> string_from_ipv6 n
           | Some m \<Rightarrow> string_from_ipv6 (n div 4294967296) @ '':'' @ string_from_ipv4 m) @
          (case scope of None \<Rightarrow> [] | Some i \<Rightarrow> CHR ''%'' # i))"

section \<open>Loopback addresses and networks\<close>

definition is_loopback :: "ip_address \<Rightarrow> bool" where
  "is_loopback a =
     (case a of
        IPv4 n \<Rightarrow> n div 16777216 = 127
      | IPv6 n _ \<Rightarrow> (case ipv4_mapped n of Some m \<Rightarrow> m div 16777216 = 127 | None \<Rightarrow> n = 1))"

record ip_network =
  nw_version :: nat
  nw_address :: int
  nw_prefixlen :: nat

definition in_network :: "ip_address \<Rightarrow> ip_network \<Rightarrow> bool" where
  "in_network a nw =
     (case a of
        IPv4 n \<Rightarrow> nw_version nw = 4 \<and> n div 2 ^ (32 - nw_prefixlen nw) * 2 ^ (32 - nw_prefixlen nw) = nw_address nw
      | IPv6 n _ \<Rightarrow> nw_version nw = 6 \<and> n div 2 ^ (128 - nw_prefixlen nw) * 2 ^ (128 - nw_prefixlen nw) = nw_address nw)"

section \<open>Reading printed parts\<close>

lemma py_split_plain: "c \<notin> set w \<Longrightarrow> py_split c w = [w]"
  by (induction w) auto

lemma py_split_append: "c \<notin> set w \<Longrightarrow> py_split c (w @ c # s) = w # py_split c s"
  by (induction w) auto

lemma py_split_join:
  assumes "xs \<noteq> []" "list_all (\<lambda>w. c \<notin> set w) xs"
  shows "py_split c (py_join [c] xs) = xs"
  using assms by (induction "[c]" xs rule: py_join.induct) (simp_all add: py_split_plain py_split_append)

lemma decimal_length:
  assumes "n < 256"
  shows "length (decimal n) \<le> 3"
proof -
  have "n div 10 div 10 < 10" using assms by simp
  then show ?thesis by (subst decimal.simps, subst decimal.simps, subst decimal.simps) simp
qed

lemma parse_octet_decimal:
  assumes "0 \<le> k" "k < 256"
  shows "parse_octet (decimal (nat k)) = Some k"
proof -
  have "decimal (nat k) = ''0'' \<or> hd (decimal (nat k)) \<noteq> CHR ''0''"
    using decimal_head [of "nat k"] decimal_0 by (cases "nat k = 0") simp_all
  moreover have "nat k < 256" using assms by linarith
  ultimately show ?thesis
    using decimal_digits [of "nat k"] decimal_length [of "nat k"] assms
    by (auto simp: parse_octet_def list_all_iff)
qed

lemma octets_number:
  fixes n :: int
  shows "((n div 16777216 mod 256 * 256 + n div 65536 mod 256) * 256 + n div 256 mod 256) * 256 + n mod 256 = n mod 4294967296"
proof -
  have step: "m mod (256 * k) = 256 * (m div 256 mod k) + m mod 256" if "0 \<le> k" for m k :: int
    by (rule zmod_zmult2_eq [OF that])
  have d2: "n div 65536 = n div 256 div 256"
    using zdiv_zmult2_eq [of 256 n 256, OF zero_le_numeral] by (simp only: mult_num_simps numeral_times_numeral)
  have d3: "n div 16777216 = n div 256 div 256 div 256"
    using zdiv_zmult2_eq [of 256 n 65536, OF zero_le_numeral] d2 by (simp only: mult_num_simps numeral_times_numeral)
  note d = d2 d3
  have m: "n mod 4294967296 = 256 * (n div 256 mod 16777216) + n mod 256"
    "n div 256 mod 16777216 = 256 * (n div 256 div 256 mod 65536) + n div 256 mod 256"
    "n div 256 div 256 mod 65536 = 256 * (n div 256 div 256 div 256 mod 256) + n div 256 div 256 mod 256"
    using step [of 16777216 n, OF zero_le_numeral] step [of 65536 "n div 256", OF zero_le_numeral]
      step [of 256 "n div 256 div 256", OF zero_le_numeral]
    by (simp_all only: mult_num_simps numeral_times_numeral)
  show ?thesis unfolding d m by (simp only: algebra_simps)
qed

lemma digit_not_special: "is_digit c \<Longrightarrow> c \<noteq> CHR ''.'' \<and> c \<noteq> CHR '':'' \<and> c \<noteq> CHR ''%'' \<and> c \<noteq> CHR ''/''"
  by (auto simp: is_digit_def)

lemma decimal_plain: "list_all is_digit (decimal n)"
  using decimal_digits by (simp add: list_all_iff)

lemma decimal_no_dot: "CHR ''.'' \<notin> set (decimal n)"
  using decimal_digits digit_not_special by blast

lemma ipv4_roundtrip:
  assumes "0 \<le> n" "n < 4294967296"
  shows "ipv4_of_string (string_from_ipv4 n) = Some n"
proof -
  define a b c d where "a = n div 16777216 mod 256" "b = n div 65536 mod 256" "c = n div 256 mod 256" "d = n mod 256"
  note parts = this
  have range: "0 \<le> k \<and> k < 256" if "k \<in> {a, b, c, d}" for k using that by (auto simp: parts)
  have "string_from_ipv4 n = py_join ''.'' (map (\<lambda>k. decimal (nat k)) [a, b, c, d])"
    by (simp only: string_from_ipv4_def parts)
  also have "py_split (CHR ''.'') \<dots> = map (\<lambda>k. decimal (nat k)) [a, b, c, d]"
    by (rule py_split_join) (simp_all add: decimal_no_dot)
  finally have "ipv4_of_string (string_from_ipv4 n) = Some (((a * 256 + b) * 256 + c) * 256 + d)"
    using range by (simp add: ipv4_of_string_def parse_octet_decimal)
  moreover have "((a * 256 + b) * 256 + c) * 256 + d = n"
    unfolding parts octets_number using assms by (rule mod_pos_pos_trivial)
  ultimately show ?thesis by simp
qed

section \<open>Hextets\<close>

lemma hex_number_append: "hex_number (s @ t) n = Option.bind (hex_number s n) (hex_number t)"
  by (induction s arbitrary: n) (simp_all split: option.split)

lemma hex_number_hexadecimal: "0 \<le> n \<Longrightarrow> hex_number (hexadecimal n) 0 = Some n"
proof (induction n rule: hexadecimal.induct)
  case (1 n)
  have "hex_number [hex_char (nat k)] m = Some (16 * m + k)" if "0 \<le> k" "k < 16" for k m
    using hex_value_hex_char [of "nat k"] that by simp
  then show ?case using 1 by (subst hexadecimal.simps) (simp add: hex_number_append)
qed

lemma hexadecimal_length:
  assumes "n < 65536"
  shows "length (hexadecimal n) \<le> 4"
proof -
  have "n div 16 div 16 div 16 < 16" using assms by linarith
  then show ?thesis
    by (subst hexadecimal.simps, subst hexadecimal.simps, subst hexadecimal.simps, subst hexadecimal.simps) simp
qed

lemma hexadecimal_not_Nil [simp]: "hexadecimal n \<noteq> []"
  by (subst hexadecimal.simps) simp

lemma parse_hextet_hexadecimal: "0 \<le> n \<Longrightarrow> n < 65536 \<Longrightarrow> parse_hextet (hexadecimal n) = Some n"
  using hexadecimal_length [of n] by (simp add: parse_hextet_def hex_number_hexadecimal)

lemma hexadecimal_0: "hexadecimal 0 = ''0''"
  by (subst hexadecimal.simps) code_simp

lemma hexadecimal_zero: "0 \<le> n \<Longrightarrow> hexadecimal n = ''0'' \<Longrightarrow> n = 0"
  using hex_number_hexadecimal [of n] hex_number_hexadecimal [of 0] by (simp add: hexadecimal_0)

text \<open>What reads as a hexadecimal number consists of such digits.\<close>

lemma hex_value_special: "hex_value c \<noteq> None \<Longrightarrow> c \<noteq> CHR ''.'' \<and> c \<noteq> CHR '':'' \<and> c \<noteq> CHR ''%'' \<and> c \<noteq> CHR ''/''"
  by (auto simp: hex_value_def)

lemma hex_number_chars: "hex_number s n \<noteq> None \<Longrightarrow> c \<in> set s \<Longrightarrow> hex_value c \<noteq> None"
  by (induction s arbitrary: n) (auto split: option.splits)

lemma hexadecimal_plain:
  assumes "0 \<le> n" "c \<in> {CHR ''.'', CHR '':'', CHR ''%'', CHR ''/''}"
  shows "c \<notin> set (hexadecimal n)"
  using hex_number_chars [of "hexadecimal n" 0 c] hex_number_hexadecimal [OF assms(1)] hex_value_special [of c] assms(2)
  by auto

abbreviation hextet_ok :: "int \<Rightarrow> bool" where
  "hextet_ok h \<equiv> 0 \<le> h \<and> h < 65536"

abbreviation joined_hextets :: "int \<Rightarrow> int list \<Rightarrow> int" where
  "joined_hextets \<equiv> foldl (\<lambda>n h. 65536 * n + h)"

lemma add_hextets_hexadecimal:
  "list_all hextet_ok hs \<Longrightarrow> add_hextets (map hexadecimal hs) n = Some (joined_hextets n hs)"
  by (induction hs arbitrary: n) (simp_all add: parse_hextet_hexadecimal)

lemma joined_zeros: "joined_hextets n (replicate k 0) = n * 65536 ^ k"
  by (induction k arbitrary: n) simp_all

lemma hextets_ok: "list_all hextet_ok (hextets n)" "length (hextets n) = 8"
  by (simp_all add: hextets_def list_all_iff)

lemma joined_hextets_hextets:
  assumes "0 \<le> n" "n < 65536 ^ 8"
  shows "joined_hextets 0 (hextets n) = n"
proof -
  have "joined_hextets 0 (map (\<lambda>i. n div 65536 ^ (7 - i) mod 65536) [0..<k]) = n div 65536 ^ (8 - k)" if "k \<le> 8" for k
    using that
  proof (induction k)
    case 0
    show ?case using assms by simp
  next
    case (Suc k)
    have "n div 65536 ^ (8 - k) = n div 65536 ^ (7 - k) div 65536"
      using zdiv_zmult2_eq [of 65536 n "65536 ^ (7 - k)"] power_Suc2 [of "65536 :: int" "7 - k"] Suc_diff_le [of k 7] Suc.prems
      by (simp add: mult.commute)
    with Suc show ?case by (simp add: ac_simps)
  qed
  from this [of 8] show ?thesis by (simp add: hextets_def)
qed

section \<open>Compressing zeros\<close>

abbreviation zeros :: "string list \<Rightarrow> nat \<times> nat \<Rightarrow> bool" where
  "zeros hs run \<equiv> fst run + snd run \<le> length hs \<and> (\<forall>i. fst run \<le> i \<and> i < fst run + snd run \<longrightarrow> hs ! i = ''0'')"

lemma best_zeros_zeros:
  assumes "zeros pre best" "zeros pre run" "snd run \<noteq> 0 \<longrightarrow> fst run + snd run = length pre"
  shows "zeros (pre @ hs) (best_zeros hs (length pre) best run)"
  using assms
proof (induction hs arbitrary: pre best run)
  case (Cons h hs)
  let ?pre = "pre @ [h]"
  have best: "zeros ?pre best" using Cons.prems(1) by (auto simp: nth_append)
  show ?case
  proof (cases "h = ''0''")
    case True
    define run' where "run' = (if snd run = 0 then length pre else fst run, Suc (snd run))"
    have run': "zeros ?pre run'" "fst run' + snd run' = length ?pre"
      using Cons.prems(2,3) True by (auto simp: run'_def nth_append less_Suc_eq)
    have "zeros ?pre (if snd best < snd run' then run' else best)" using best run'(1) by simp
    from Cons.IH [OF this run'(1)] run'(2)
    have "zeros (?pre @ hs) (best_zeros hs (length ?pre) (if snd best < snd run' then run' else best) run')" by blast
    moreover have "best_zeros (h # hs) (length pre) best run =
        best_zeros hs (length ?pre) (if snd best < snd run' then run' else best) run'"
      using True by (simp add: Let_def run'_def)
    ultimately show ?thesis by simp
  next
    case False
    have "zeros ?pre (0, 0)" by simp
    from Cons.IH [OF best this] False show ?thesis by simp
  qed
qed simp

lemma best_zeros_spec: "zeros hs (best_zeros hs 0 (0, 0) (0, 0))"
  using best_zeros_zeros [where pre = "[]" and best = "(0, 0)" and run = "(0, 0)" and hs = hs] by simp

lemma compress_cases:
  assumes "list_all (\<lambda>h. h \<noteq> []) H" "length H = 8"
  obtains "compress_hextets H = H"
  | s l where "1 < l" "s + l \<le> 8" "\<And>i. s \<le> i \<Longrightarrow> i < s + l \<Longrightarrow> H ! i = ''0''"
      "compress_hextets H = (if s = 0 then [[]] else []) @ take s H @ [[]] @ drop (s + l) H @ (if s + l = 8 then [[]] else [])"
proof -
  obtain s l where b: "best_zeros H 0 (0, 0) (0, 0) = (s, l)" by fastforce
  have z: "s + l \<le> 8" "\<And>i. s \<le> i \<Longrightarrow> i < s + l \<Longrightarrow> H ! i = ''0''"
    using best_zeros_spec [of H] b assms(2) by auto
  show ?thesis
  proof (cases "1 < l")
    case True
    then show ?thesis using that(2) z b assms(2) by (simp add: compress_hextets_def)
  next
    case False
    then show ?thesis using that(1) b by (simp add: compress_hextets_def)
  qed
qed

text \<open>The one empty part inside a compressed address.\<close>

lemma filter_upt_single:
  assumes "a \<le> p" "p < b" "\<And>i. a \<le> i \<Longrightarrow> i < b \<Longrightarrow> P i \<longleftrightarrow> i = p"
  shows "filter P [a..<b] = [p]"
proof -
  have "[a..<b] = [a..<p] @ p # [Suc p..<b]" using assms(1,2) upt_add_eq_append [of a p "b - p"] upt_conv_Cons [of p b] by simp
  moreover have "filter P [a..<p] = []" "filter P [Suc p..<b] = []" "P p"
    using assms by (auto simp: filter_empty_conv)
  ultimately show ?thesis by simp
qed

lemma compressed_empty_inside:
  assumes H: "list_all (\<lambda>h. h \<noteq> []) H" "length H = 8" and sl: "1 < l" "s + l \<le> 8"
  defines "parts \<equiv> (if s = 0 then [[]] else []) @ take s H @ [[]] @ drop (s + l) H @ (if s + l = 8 then [[]] else [])"
  shows "empty_inside parts = [if s = 0 then 1 else s]" "length parts = (if s = 0 then 2 else s + 1) + (if s + l = 8 then 1 else 8 - (s + l))"
    "hd parts = [] \<longleftrightarrow> s = 0" "last parts = [] \<longleftrightarrow> s + l = 8"
proof -
  have ne: "H ! i \<noteq> []" if "i < 8" for i using H that by (simp add: list_all_length)
  show len: "length parts = (if s = 0 then 2 else s + 1) + (if s + l = 8 then 1 else 8 - (s + l))"
    using H(2) sl by (auto simp: parts_def)
  show "hd parts = [] \<longleftrightarrow> s = 0"
    using ne [of 0] H(2) sl by (auto simp: parts_def hd_append hd_conv_nth)
  show "last parts = [] \<longleftrightarrow> s + l = 8"
    using ne [of 7] H(2) sl by (auto simp: parts_def last_append last_conv_nth)
  have at: "parts ! i = [] \<longleftrightarrow> i = (if s = 0 then 1 else s)" if "1 \<le> i" "i < length parts - 1" for i
    using that ne H(2) sl len
    by (auto simp: parts_def nth_append nth_Cons' split: if_splits)
  have r: "1 \<le> (if s = 0 then 1 else s)" "(if s = 0 then 1 else s) < length parts - 1"
    using len sl by (auto split: if_splits)
  show "empty_inside parts = [if s = 0 then 1 else s]"
    unfolding empty_inside_def by (rule filter_upt_single [OF r]) (rule at)
qed

lemma joined_split:
  assumes "list_all hextet_ok hs" "s + l \<le> length hs" "\<And>i. s \<le> i \<Longrightarrow> i < s + l \<Longrightarrow> hexadecimal (hs ! i) = ''0''"
  shows "joined_hextets 0 hs = joined_hextets (joined_hextets 0 (take s hs) * 65536 ^ l) (drop (s + l) hs)"
proof -
  have "hs ! i = 0" if "s \<le> i" "i < s + l" for i
    using assms that by (auto intro!: hexadecimal_zero simp: list_all_length)
  then have "take l (drop s hs) = replicate l 0"
    using assms(2) by (intro nth_equalityI) auto
  then have "hs = take s hs @ replicate l 0 @ drop (s + l) hs"
    by (metis append_take_drop_id drop_drop add.commute)
  then have "joined_hextets 0 hs = joined_hextets 0 (take s hs @ replicate l 0 @ drop (s + l) hs)" by simp
  then show ?thesis by (simp add: joined_zeros)
qed

lemma parts_roundtrip:
  assumes "list_all hextet_ok hs" "length hs = 8"
  shows "ipv6_of_parts (compress_hextets (map hexadecimal hs)) = Some (joined_hextets 0 hs)"
proof -
  let ?H = "map hexadecimal hs"
  have H: "list_all (\<lambda>h. h \<noteq> []) ?H" "length ?H = 8" using assms(2) by (simp_all add: list_all_iff)
  show ?thesis
  proof (rule compress_cases [OF H])
    assume e: "compress_hextets ?H = ?H"
    have "empty_inside ?H = []" using assms(2) by (auto simp: empty_inside_def filter_empty_conv)
    moreover have "hs \<noteq> []" using assms(2) by auto
    ultimately show ?thesis
      using assms add_hextets_hexadecimal by (simp add: e ipv6_of_parts_def hd_map last_map)
  next
    fix s l
    assume sl: "1 < l" "s + l \<le> 8" and z: "\<And>i. s \<le> i \<Longrightarrow> i < s + l \<Longrightarrow> ?H ! i = ''0''"
      and e: "compress_hextets ?H =
        (if s = 0 then [[]] else []) @ take s ?H @ [[]] @ drop (s + l) ?H @ (if s + l = 8 then [[]] else [])"
    note c = compressed_empty_inside [OF H sl, folded e]
    let ?P = "compress_hextets ?H"
    have hi: "take s ?P = map hexadecimal (take s hs)" using assms(2) sl unfolding e by (auto simp: take_map)
    have lo: "drop (length ?P - (8 - (s + l))) ?P = map hexadecimal (drop (s + l) hs)"
      using assms(2) sl c(2) unfolding e by (auto simp: drop_map)
    have "ipv6_of_parts ?P = Option.bind (add_hextets (take s ?P) 0)
        (\<lambda>n. add_hextets (drop (length ?P - (8 - (s + l))) ?P) (n * 65536 ^ l))"
    proof (cases "s + l = 8")
      case True
      then have "l = 8 - s" by simp
      with c sl True show ?thesis by (auto simp: ipv6_of_parts_def Let_def)
    next
      case False
      with c sl show ?thesis by (auto simp: ipv6_of_parts_def Let_def) (simp only: numeral_2_eq_2)
    qed
    also have "\<dots> = Some (joined_hextets 0 hs)"
    proof -
      have ok: "list_all hextet_ok (take s hs)" "list_all hextet_ok (drop (s + l) hs)"
        using assms(1) by (auto simp: list_all_iff dest: in_set_takeD in_set_dropD)
      have "joined_hextets 0 hs = joined_hextets (joined_hextets 0 (take s hs) * 65536 ^ l) (drop (s + l) hs)"
        by (rule joined_split [OF assms(1)]) (use assms(2) sl z in auto)
      then show ?thesis unfolding hi lo by (simp only: add_hextets_hexadecimal [OF ok(1)] add_hextets_hexadecimal [OF ok(2)] bind.bind_lunit)
    qed
    finally show ?thesis .
  qed
qed

section \<open>Round trips\<close>

text \<open>The parts of a printed address are few, and free of separators.\<close>

lemma compress_parts:
  assumes "list_all hextet_ok hs" "length hs = 8"
  shows "3 \<le> length (compress_hextets (map hexadecimal hs))" "length (compress_hextets (map hexadecimal hs)) \<le> 9"
    "c \<in> {CHR ''.'', CHR '':'', CHR ''%'', CHR ''/''} \<Longrightarrow>
       list_all (\<lambda>w. c \<notin> set w) (compress_hextets (map hexadecimal hs))"
proof -
  let ?H = "map hexadecimal hs"
  have H: "list_all (\<lambda>h. h \<noteq> []) ?H" "length ?H = 8" using assms(2) by (simp_all add: list_all_iff)
  have "3 \<le> length (compress_hextets ?H) \<and> length (compress_hextets ?H) \<le> 9 \<and> set (compress_hextets ?H) \<subseteq> insert [] (set ?H)"
  proof (rule compress_cases [OF H])
    assume "compress_hextets ?H = ?H"
    then show ?thesis using assms(2) by auto
  next
    fix s l
    assume sl: "1 < l" "s + l \<le> 8"
      and e: "compress_hextets ?H =
        (if s = 0 then [[]] else []) @ take s ?H @ [[]] @ drop (s + l) ?H @ (if s + l = 8 then [[]] else [])"
    have "set (compress_hextets ?H) \<subseteq> insert [] (set ?H)"
      unfolding e using set_take_subset [of s ?H] set_drop_subset [of "s + l" ?H] by auto
    moreover have "3 \<le> length (compress_hextets ?H) \<and> length (compress_hextets ?H) \<le> 9"
      using compressed_empty_inside(2) [OF H sl, folded e] sl by (auto split: if_splits)
    ultimately show ?thesis by blast
  qed
  note all = this
  show "3 \<le> length (compress_hextets ?H)" "length (compress_hextets ?H) \<le> 9" using all by simp_all
  show "list_all (\<lambda>w. c \<notin> set w) (compress_hextets ?H)" if "c \<in> {CHR ''.'', CHR '':'', CHR ''%'', CHR ''/''}"
    unfolding list_all_iff
  proof
    fix w assume "w \<in> set (compress_hextets ?H)"
    then consider "w = []" | h where "h \<in> set hs" "w = hexadecimal h" using all by auto
    then show "c \<notin> set w" using hexadecimal_plain [OF _ that] assms(1) by cases (auto simp: list_all_iff)
  qed
qed

lemma joined_not_Nil: "2 \<le> length xs \<Longrightarrow> py_join [c] xs \<noteq> []"
  by (cases xs; cases "tl xs") auto

lemma string_from_ipv6_parts:
  "py_split (CHR '':'') (string_from_ipv6 n) = compress_hextets (map hexadecimal (hextets n))"
  "string_from_ipv6 n \<noteq> []"
proof -
  let ?P = "compress_hextets (map hexadecimal (hextets n))"
  note c = compress_parts [OF hextets_ok [of n]]
  have "?P \<noteq> []" using c(1) by auto
  then show "py_split (CHR '':'') (string_from_ipv6 n) = ?P"
    unfolding string_from_ipv6_def by (rule py_split_join) (simp add: c(3))
  show "string_from_ipv6 n \<noteq> []" unfolding string_from_ipv6_def using c(1) by (intro joined_not_Nil) simp
qed

lemma ipv6_roundtrip:
  assumes "0 \<le> n" "n < 65536 ^ 8"
  shows "ipv6_of_string (string_from_ipv6 n) = Some n"
proof -
  let ?P = "compress_hextets (map hexadecimal (hextets n))"
  note c = compress_parts [OF hextets_ok [of n]]
  have "last ?P \<in> set ?P" using c(1) by (intro last_in_set) auto
  then have "CHR ''.'' \<notin> set (last ?P)" using c(3) [of "CHR ''.''"] by (simp add: list_all_iff)
  then show ?thesis
    using c(1,2) parts_roundtrip [OF hextets_ok [of n]] joined_hextets_hextets [OF assms]
    by (simp add: ipv6_of_string_def string_from_ipv6_parts Let_def)
qed

lemma mapped_prefix: "string_from_ipv6 65535 = ''::ffff''"
  by code_simp

lemma string_from_ipv4_chars:
  "CHR ''.'' \<in> set (string_from_ipv4 n)" "c \<in> set (string_from_ipv4 n) \<Longrightarrow> is_digit c \<or> c = CHR ''.''"
  using decimal_digits by (auto simp: string_from_ipv4_def)

lemma mapped_roundtrip:
  assumes "ipv4_mapped n = Some m"
  shows "ipv6_of_string (''::ffff:'' @ string_from_ipv4 m) = Some n"
proof -
  have e: "n div 4294967296 = 65535" "n mod 4294967296 = m" using assms by (auto simp: ipv4_mapped_def split: if_splits)
  have n: "0 \<le> m" "m < 4294967296" using e(2) by auto
  have n3: "n = 65535 * 4294967296 + m"
    using div_mult_mod_eq [of n 4294967296, symmetric] unfolding e .
  have plain: "CHR '':'' \<notin> set (string_from_ipv4 m)"
    using string_from_ipv4_chars(2) [of "CHR '':''" m] digit_not_special by auto
  have parts: "py_split (CHR '':'') (''::ffff:'' @ string_from_ipv4 m) = [[], [], ''ffff'', string_from_ipv4 m]"
    using py_split_plain [OF plain] by simp
  have half: "0 \<le> m div 65536" "m div 65536 < 65536" "0 \<le> m mod 65536" "m mod 65536 < 65536"
    using n(1,2) by auto
  have "ipv6_of_parts [[], [], ''ffff'', hexadecimal (m div 65536), hexadecimal (m mod 65536)] =
      Some ((65535 * 65536 + m div 65536) * 65536 + m mod 65536)"
  proof -
    have "[1..<4::nat] = [1, 2, 3]" by code_simp
    then have "empty_inside [[], [], ''ffff'', hexadecimal (m div 65536), hexadecimal (m mod 65536)] = [1]"
      by (simp add: empty_inside_def)
    moreover have "parse_hextet ''ffff'' = Some 65535" by code_simp
    ultimately show ?thesis using half by (simp add: ipv6_of_parts_def Let_def parse_hextet_hexadecimal algebra_simps)
  qed
  moreover have "(65535 * 65536 + m div 65536) * 65536 + m mod 65536 = n" using n3 by (simp add: algebra_simps)
  ultimately show ?thesis
    unfolding ipv6_of_string_def Let_def parts by (simp add: string_from_ipv4_chars(1) ipv4_roundtrip [OF n(1,2)])
qed

section \<open>Addresses in range\<close>

lemma parse_octet_range: "parse_octet s = Some k \<Longrightarrow> 0 \<le> k \<and> k < 256"
  by (auto simp: parse_octet_def split: if_splits)

lemma ipv4_range: "ipv4_of_string s = Some n \<Longrightarrow> 0 \<le> n \<and> n < 4294967296"
  by (auto simp: ipv4_of_string_def split: list.splits option.splits dest!: parse_octet_range)

lemma parse_octet_digits: "parse_octet s = Some k \<Longrightarrow> list_all is_digit s"
  by (simp add: parse_octet_def split: if_splits)

lemma ipv4_chars:
  assumes "ipv4_of_string s = Some n" "c \<in> set s"
  shows "is_digit c \<or> c = CHR ''.''"
proof -
  have "list_all (list_all is_digit) (py_split (CHR ''.'') s)"
    using assms(1) parse_octet_digits
    by (auto simp: ipv4_of_string_def map_eq_Cons_conv split: list.splits option.splits)
  moreover have "c \<in> insert (CHR ''.'') (\<Union> (set ` set xs))" if "c \<in> set (py_join ''.'' xs)" for xs
    using that by (induction "''.''" xs rule: py_join.induct) auto
  moreover have "c \<in> set (py_join ''.'' (py_split (CHR ''.'') s))" using assms(2) by simp
  ultimately show ?thesis by (fastforce simp: list_all_iff)
qed

lemma hex_value_range: "hex_value c = Some d \<Longrightarrow> d < 16"
  by (auto simp: hex_value_def Let_def split: if_splits)

lemma hex_number_range: "hex_number s n = Some m \<Longrightarrow> 0 \<le> n \<Longrightarrow> 0 \<le> m \<and> m < (n + 1) * 16 ^ length s"
proof (induction s arbitrary: n)
  case (Cons c s)
  then obtain d where d: "hex_value c = Some d" "hex_number s (16 * n + int d) = Some m" by (auto split: option.splits)
  then have m: "0 \<le> m \<and> m < (16 * n + int d + 1) * 16 ^ length s" using Cons.IH Cons.prems(2) by simp
  have "(16 * n + int d + 1) * 16 ^ length s \<le> ((n + 1) * 16) * 16 ^ length s"
    using hex_value_range [OF d(1)] by (intro mult_right_mono) simp_all
  also have "\<dots> = (n + 1) * 16 ^ length (c # s)" by simp
  finally show ?case using m by linarith
qed simp

lemma parse_hextet_range:
  assumes "parse_hextet s = Some h"
  shows "0 \<le> h \<and> h < 65536"
proof -
  have len: "length s \<le> 4" and h: "hex_number s 0 = Some h" using assms by (simp_all add: parse_hextet_def split: if_splits)
  have "(16 :: int) ^ length s \<le> 16 ^ 4" using len by (intro power_increasing) simp_all
  with hex_number_range [OF h] show ?thesis by simp
qed

lemma add_hextets_range:
  "add_hextets ps n = Some m \<Longrightarrow> 0 \<le> n \<Longrightarrow> 0 \<le> m \<and> m < (n + 1) * 65536 ^ length ps"
proof (induction ps arbitrary: n)
  case (Cons p ps)
  then obtain h where h: "parse_hextet p = Some h" "add_hextets ps (65536 * n + h) = Some m" by (auto split: option.splits)
  note r = parse_hextet_range [OF h(1)]
  then have m: "0 \<le> m \<and> m < (65536 * n + h + 1) * 65536 ^ length ps" using Cons.IH [OF h(2)] Cons.prems(2) by simp
  have "(65536 * n + h + 1) * 65536 ^ length ps \<le> ((n + 1) * 65536) * 65536 ^ length ps"
    using r by (intro mult_right_mono) simp_all
  also have "\<dots> = (n + 1) * 65536 ^ length (p # ps)" by simp
  finally show ?case using m by linarith
qed simp

lemma skipped_range:
  assumes "add_hextets ps 0 = Some n" "add_hextets qs (n * 65536 ^ (8 - (hi + lo))) = Some m"
    "length ps \<le> hi" "length qs \<le> lo" "hi + lo < 8"
  shows "0 \<le> m \<and> m < 65536 ^ 8"
proof -
  let ?B = "65536 :: int" and ?k = "8 - (hi + lo)"
  have "?B ^ length ps \<le> ?B ^ hi" using assms(3) by (rule power_increasing) simp
  moreover have "0 \<le> n" "n < ?B ^ length ps" using add_hextets_range [OF assms(1)] by simp_all
  ultimately have n: "0 \<le> n" "n < ?B ^ hi" by linarith+
  have m: "0 \<le> m" "m < (n * ?B ^ ?k + 1) * ?B ^ length qs"
    using add_hextets_range [OF assms(2)] n(1) by simp_all
  have "n * ?B ^ ?k \<le> (?B ^ hi - 1) * ?B ^ ?k" using n(2) by (intro mult_right_mono) simp_all
  also have "\<dots> = ?B ^ (hi + ?k) - ?B ^ ?k" by (simp add: algebra_simps power_add)
  finally have "n * ?B ^ ?k \<le> ?B ^ (hi + ?k) - ?B ^ ?k" .
  moreover have "1 \<le> ?B ^ ?k" by (rule one_le_power) simp
  ultimately have "n * ?B ^ ?k + 1 \<le> ?B ^ (hi + ?k)" by linarith
  then have "(n * ?B ^ ?k + 1) * ?B ^ length qs \<le> ?B ^ (hi + ?k) * ?B ^ lo"
    using power_increasing [OF assms(4), of ?B] n(1) by (intro mult_mono) simp_all
  also have "\<dots> = ?B ^ 8" using assms(5) by (simp flip: power_add)
  finally show ?thesis using m by simp
qed

lemma ipv6_of_parts_range:
  assumes "ipv6_of_parts parts = Some m"
  shows "0 \<le> m \<and> m < 65536 ^ 8"
proof (cases "empty_inside parts")
  case Nil
  then have "add_hextets parts 0 = Some m" "length parts = 8" using assms by (auto simp: ipv6_of_parts_def split: if_splits)
  with add_hextets_range [of parts 0 m] show ?thesis by simp
next
  case (Cons i js)
  define hi where "hi = (if hd parts = [] then i - 1 else i)"
  define lo where "lo = (if last parts = [] then length parts - i - 2 else length parts - i - 1)"
  have "js = []" using assms Cons by (cases js) (auto simp: ipv6_of_parts_def)
  with assms Cons obtain n where "add_hextets (take hi parts) 0 = Some n"
    "add_hextets (drop (length parts - lo) parts) (n * 65536 ^ (8 - (hi + lo))) = Some m" "hi + lo < 8"
    unfolding ipv6_of_parts_def hi_def [symmetric] lo_def [symmetric] Let_def
    by (auto simp: bind_eq_Some_conv hi_def [symmetric] lo_def [symmetric] split: if_splits)
  then show ?thesis using skipped_range [of "take hi parts" n "drop (length parts - lo) parts" hi lo m] by simp
qed

lemma ipv6_range: "ipv6_of_string s = Some n \<Longrightarrow> 0 \<le> n \<and> n < 65536 ^ 8"
  by (auto simp: ipv6_of_string_def Let_def simp del: power_numeral split: if_splits option.splits dest!: ipv6_of_parts_range)

text \<open>What was read prints to a text that reads as the same address.\<close>

lemma split_scope_append:
  assumes "CHR ''%'' \<notin> set s" "case scope of None \<Rightarrow> True | Some i \<Rightarrow> i \<noteq> [] \<and> CHR ''%'' \<notin> set i"
  shows "split_scope_id (s @ (case scope of None \<Rightarrow> [] | Some i \<Rightarrow> CHR ''%'' # i)) = Some (s, scope)"
proof (cases scope)
  case None
  have "takeWhile (\<lambda>c. c \<noteq> CHR ''%'') s = s" "dropWhile (\<lambda>c. c \<noteq> CHR ''%'') s = []"
    using assms(1) by (auto simp: takeWhile_eq_all_conv dropWhile_eq_Nil_conv)
  then show ?thesis using None by (simp only: split_scope_id_def Let_def append_Nil2 list.case option.case)
next
  case (Some i)
  have "takeWhile (\<lambda>c. c \<noteq> CHR ''%'') (s @ CHR ''%'' # i) = s" "dropWhile (\<lambda>c. c \<noteq> CHR ''%'') (s @ CHR ''%'' # i) = CHR ''%'' # i"
    using assms(1) by (auto simp: takeWhile_append dropWhile_append)
  then show ?thesis using Some assms(2) by (simp add: split_scope_id_def)
qed

lemma string_from_ipv6_chars:
  assumes "c \<in> {CHR ''.'', CHR ''%'', CHR ''/''}"
  shows "c \<notin> set (string_from_ipv6 n)"
proof -
  have "c \<notin> set (py_join '':'' xs)" if "list_all (\<lambda>w. c \<notin> set w) xs" for xs
    using that assms by (induction "'':''" xs rule: py_join.induct) auto
  moreover have "c \<in> {CHR ''.'', CHR '':'', CHR ''%'', CHR ''/''}" using assms by blast
  ultimately show ?thesis using compress_parts(3) [OF hextets_ok [of n]] by (simp add: string_from_ipv6_def)
qed

lemma string_from_ipv6_colon: "CHR '':'' \<in> set (string_from_ipv6 n)"
proof (rule ccontr)
  assume "CHR '':'' \<notin> set (string_from_ipv6 n)"
  then have "length (py_split (CHR '':'') (string_from_ipv6 n)) = 1" by (simp add: py_split_plain)
  then show False using compress_parts(1) [OF hextets_ok [of n]] by (simp add: string_from_ipv6_parts)
qed

lemma ip_address_roundtrip:
  assumes "ip_address s = Some a"
  shows "ip_address (str_of_ip a) = Some a"
proof (cases a)
  case (IPv4 n)
  then have "ipv4_of_string s = Some n" using assms by (auto simp: ip_address_def bind_eq_Some_conv split: option.splits if_splits)
  then show ?thesis using IPv4 ipv4_roundtrip ipv4_range by (simp add: ip_address_def str_of_ip_def)
next
  case (IPv6 n scope)
  define body where "body = (case ipv4_mapped n of None \<Rightarrow> string_from_ipv6 n
    | Some m \<Rightarrow> string_from_ipv6 (n div 4294967296) @ '':'' @ string_from_ipv4 m)"
  have a: "str_of_ip a = body @ (case scope of None \<Rightarrow> [] | Some i \<Rightarrow> CHR ''%'' # i)"
    using IPv6 by (simp add: str_of_ip_def body_def)
  obtain addr where slash: "CHR ''/'' \<notin> set s" and sp: "split_scope_id s = Some (addr, scope)" and n: "ipv6_of_string addr = Some n"
    using assms IPv6 by (auto simp: ip_address_def bind_eq_Some_conv split: option.splits if_splits)
  have scope: "i \<noteq> [] \<and> CHR ''%'' \<notin> set i \<and> set i \<subseteq> set s" if "scope = Some i" for i
    using sp that set_dropWhileD [of _ "\<lambda>c. c \<noteq> CHR ''%''" s]
    by (auto simp: split_scope_id_def Let_def split: list.splits if_splits)
  have read: "ipv6_of_string body = Some n"
  proof (cases "ipv4_mapped n")
    case None
    then show ?thesis using ipv6_roundtrip ipv6_range [OF n] by (simp add: body_def)
  next
    case (Some m)
    then have "n div 4294967296 = 65535" by (auto simp: ipv4_mapped_def split: if_splits)
    then show ?thesis using Some mapped_roundtrip [OF Some] by (simp add: body_def mapped_prefix)
  qed
  have chars: "CHR ''%'' \<notin> set body" "CHR ''/'' \<notin> set body" "CHR '':'' \<in> set body"
    using string_from_ipv6_chars string_from_ipv6_colon string_from_ipv4_chars(2) digit_not_special
    by (fastforce simp: body_def split: option.splits)+
  have "ipv4_of_string (str_of_ip a) = None"
    using ipv4_chars [of "str_of_ip a" _ "CHR '':''"] chars(3) digit_not_special by (cases "ipv4_of_string (str_of_ip a)") (auto simp: a)
  moreover have "CHR ''/'' \<notin> set (str_of_ip a)" using chars(2) scope slash by (auto simp: a split: option.splits)
  moreover have "split_scope_id (str_of_ip a) = Some (body, scope)"
    unfolding a by (rule split_scope_append [OF chars(1)]) (use scope in \<open>auto split: option.splits\<close>)
  ultimately show ?thesis using read IPv6 by (simp add: ip_address_def)
qed

lemma str_of_ip_inject:
  assumes "ip_address s = Some a" "ip_address t = Some b"
  shows "str_of_ip a = str_of_ip b \<longleftrightarrow> a = b"
proof
  assume "str_of_ip a = str_of_ip b"
  then have "Some a = Some b"
    using ip_address_roundtrip [OF assms(1)] ip_address_roundtrip [OF assms(2)] by (simp only:)
  then show "a = b" by simp
qed simp

end
