(* ===== verification/Locality.thy ===== *)
theory Locality
  imports Ip_Address Caches
begin

text \<open>
  Who is calling: the address of a client behind trusted proxies and whether a request is local
  (\<open>app/core/request_locality.py\<close>), and the firewall of the proxy interface with its allowlist
  (\<open>app/core/middleware/api_firewall.py\<close>, \<open>app/modules/firewall\<close>). Header names are in lower case, as the server
  passes them; the trusted networks are the parsed settings.
\<close>

section \<open>The client's address\<close>

type_synonym headers = "(string \<times> string) list"

definition header_get :: "string \<Rightarrow> headers \<Rightarrow> string option" where
  "header_get name hs = map_of hs name"

definition LOCAL_HOSTS :: "string list" where
  "LOCAL_HOSTS = [[], ''localhost'', ''127.0.0.1'', ''::1'', ''[::1]'']"

definition TEST_SERVER_HOSTS :: "string list" where
  "TEST_SERVER_HOSTS = [''testserver'', ''testclient'']"

definition FORWARDED_CLIENT_IP_HEADERS :: "string list" where
  "FORWARDED_CLIENT_IP_HEADERS =
     [''x-forwarded-for'', ''forwarded'', ''x-real-ip'', ''true-client-ip'', ''cf-connecting-ip'']"

definition is_local_host :: "string option \<Rightarrow> bool" where
  "is_local_host host = (case host of None \<Rightarrow> False | Some h \<Rightarrow> py_lower (py_strip h) \<in> set LOCAL_HOSTS)"

definition is_valid_ip :: "string \<Rightarrow> bool" where
  "is_valid_ip s \<longleftrightarrow> ip_address s \<noteq> None"

definition is_trusted_proxy_source :: "ip_network list \<Rightarrow> string \<Rightarrow> bool" where
  "is_trusted_proxy_source networks host \<longleftrightarrow>
     (case ip_address host of None \<Rightarrow> False | Some a \<Rightarrow> list_ex (in_network a) networks)"

text \<open>From the socket backwards through the hops, up to the first address that is not a trusted proxy.\<close>

fun walk_chain :: "(string \<Rightarrow> bool) \<Rightarrow> string \<Rightarrow> string list \<Rightarrow> string" where
  "walk_chain trusted current [] = current"
| "walk_chain trusted current (previous # hops) =
     (if \<not> trusted current then current else walk_chain trusted previous hops)"

definition forwarded_hops :: "string \<Rightarrow> string list" where
  "forwarded_hops forwarded_for = map py_strip (py_split (CHR '','') forwarded_for)"

text \<open>A chain with a hop that is no address raises \<open>ValueError\<close>, which is \<open>None\<close> here.\<close>

definition resolve_client_ip_from_xff_chain :: "ip_network list \<Rightarrow> string \<Rightarrow> string \<Rightarrow> string option" where
  "resolve_client_ip_from_xff_chain networks socket_ip forwarded_for =
     (let hops = forwarded_hops forwarded_for
      in if list_all is_valid_ip hops
         then Some (walk_chain (is_trusted_proxy_source networks) socket_ip (rev hops)) else None)"

definition forwarded_items :: "string \<Rightarrow> string list" where
  "forwarded_items forwarded = map py_strip (concat (map (py_split (CHR '';'')) (py_split (CHR '','') forwarded)))"

definition strip_quotes :: "string \<Rightarrow> string" where
  "strip_quotes s = rstrip_by (\<lambda>c. c = CHR 0x22) (lstrip_by (\<lambda>c. c = CHR 0x22) s)"

definition resolve_forwarded_header_ip :: "string \<Rightarrow> string option" where
  "resolve_forwarded_header_ip forwarded =
     (case find (\<lambda>item. startswith (py_lower item) ''for='') (forwarded_items forwarded) of
        None \<Rightarrow> None
      | Some item \<Rightarrow>
          (let quoted = strip_quotes (py_strip (drop 4 item));
               candidate = (if startswith quoted ''['' \<and> endswith quoted '']'' then butlast (tl quoted) else quoted)
           in if startswith candidate ''_'' then None
              else if is_valid_ip candidate then Some candidate else None))"

fun first_header :: "string list \<Rightarrow> headers \<Rightarrow> string option" where
  "first_header [] hs = None"
| "first_header (name # names) hs =
     (if truthy_str (header_get name hs) then header_get name hs else first_header names hs)"

definition resolve_connection_client_ip :: "headers \<Rightarrow> string option \<Rightarrow> bool \<Rightarrow> ip_network list \<Rightarrow> string option" where
  "resolve_connection_client_ip hs socket_ip trust_proxy_headers networks =
     (case socket_ip of
        None \<Rightarrow> None
      | Some peer \<Rightarrow>
          if trust_proxy_headers \<and> peer \<noteq> [] \<and> is_trusted_proxy_source networks peer
          then
            (if truthy_str (header_get ''x-forwarded-for'' hs)
             then resolve_client_ip_from_xff_chain networks peer (the (header_get ''x-forwarded-for'' hs))
             else
               case first_header [''x-real-ip'', ''true-client-ip'', ''cf-connecting-ip''] hs of
                 Some ip \<Rightarrow> if is_valid_ip (py_strip ip) then Some (py_strip ip) else None
               | None \<Rightarrow>
                   if truthy_str (header_get ''forwarded'' hs)
                   then resolve_forwarded_header_ip (the (header_get ''forwarded'' hs)) else None)
          else Some peer)"

section \<open>Local requests\<close>

record http_connection =
  hc_client :: "string option"
  hc_server :: "string option"
  hc_headers :: headers

record proxy_trust =
  pt_trust_proxy_headers :: bool
  pt_networks :: "ip_network list"

definition resolve_request_client_host :: "proxy_trust \<Rightarrow> http_connection \<Rightarrow> string option" where
  "resolve_request_client_host trust rq =
     resolve_connection_client_ip (hc_headers rq) (hc_client rq) (pt_trust_proxy_headers trust) (pt_networks trust)"

definition is_test_server_request :: "http_connection \<Rightarrow> bool" where
  "is_test_server_request rq =
     (case hc_server rq of None \<Rightarrow> False | Some host \<Rightarrow> py_lower (py_strip host) \<in> set TEST_SERVER_HOSTS)"

definition has_forwarded_client_ip_hint :: "headers \<Rightarrow> bool" where
  "has_forwarded_client_ip_hint hs \<longleftrightarrow> list_ex (\<lambda>h. truthy_str (header_get h hs)) FORWARDED_CLIENT_IP_HEADERS"

definition parse_host_header_hostname :: "string option \<Rightarrow> string option" where
  "parse_host_header_hostname host_header =
     (case host_header of
        None \<Rightarrow> None
      | Some h \<Rightarrow>
          (let v = py_strip h
           in if v = [] then None
              else if startswith v ''[''
              then Some (if CHR '']'' \<in> set v then takeWhile (\<lambda>c. c \<noteq> CHR '']'') v @ '']'' else v)
              else if length (filter (\<lambda>c. c = CHR '':'') v) = 1
              then Some (py_strip (takeWhile (\<lambda>c. c \<noteq> CHR '':'') v))
              else Some v))"

definition is_local_request :: "proxy_trust \<Rightarrow> http_connection \<Rightarrow> bool" where
  "is_local_request trust rq \<longleftrightarrow>
     is_test_server_request rq \<or>
     (case resolve_request_client_host trust rq of
        None \<Rightarrow> False
      | Some host \<Rightarrow>
          (case ip_address host of
             None \<Rightarrow> False
           | Some a \<Rightarrow>
               is_loopback a \<and> is_local_host (parse_host_header_hostname (header_get ''host'' (hc_headers rq))) \<and>
               (has_forwarded_client_ip_hint (hc_headers rq) \<longleftrightarrow> pt_trust_proxy_headers trust)))"

section \<open>The firewall\<close>

text \<open>The firewall's own resolution falls back to the socket where a chain does not resolve.\<close>

definition firewall_client_ip :: "headers \<Rightarrow> string option \<Rightarrow> proxy_trust \<Rightarrow> string option" where
  "firewall_client_ip hs socket_ip trust =
     (case socket_ip of
        None \<Rightarrow> None
      | Some peer \<Rightarrow>
          if pt_trust_proxy_headers trust \<and> peer \<noteq> [] \<and> is_trusted_proxy_source (pt_networks trust) peer \<and>
             truthy_str (header_get ''x-forwarded-for'' hs)
          then
            (case resolve_client_ip_from_xff_chain (pt_networks trust) peer (the (header_get ''x-forwarded-for'' hs)) of
               Some ip \<Rightarrow> Some ip
             | None \<Rightarrow> Some peer)
          else Some peer)"

datatype firewall_error = Ip_Required | Invalid_Ip | Ip_Already_Exists

record firewall_row =
  fw_ip_address :: string
  fw_created_at :: datetime

definition normalize_ip_address :: "string \<Rightarrow> firewall_error + string" where
  "normalize_ip_address v =
     (let raw = py_strip v
      in if raw = [] then Inl Ip_Required
         else case ip_address raw of None \<Rightarrow> Inl Invalid_Ip | Some a \<Rightarrow> Inr (str_of_ip a))"

definition list_ip_addresses :: "firewall_row list \<Rightarrow> string set" where
  "list_ip_addresses table = set (map fw_ip_address table)"

definition list_ips :: "firewall_row list \<Rightarrow> string \<times> firewall_row list" where
  "list_ips table =
     (if table = [] then ''allow_all'' else ''allowlist_active'', sort_key (\<lambda>r. (fw_created_at r, fw_ip_address r)) table)"

definition add_ip :: "datetime \<Rightarrow> string \<Rightarrow> firewall_row list \<Rightarrow> firewall_error + firewall_row \<times> firewall_row list" where
  "add_ip now v table =
     (case normalize_ip_address v of
        Inl e \<Rightarrow> Inl e
      | Inr normalized \<Rightarrow>
          if normalized \<in> list_ip_addresses table then Inl Ip_Already_Exists
          else (let row = \<lparr> fw_ip_address = normalized, fw_created_at = now \<rparr> in Inr (row, table @ [row])))"

definition remove_ip :: "string \<Rightarrow> firewall_row list \<Rightarrow> firewall_error + bool \<times> firewall_row list" where
  "remove_ip v table =
     (case normalize_ip_address v of
        Inl e \<Rightarrow> Inl e
      | Inr normalized \<Rightarrow>
          Inr (normalized \<in> list_ip_addresses table, filter (\<lambda>r. fw_ip_address r \<noteq> normalized) table))"

definition is_ip_allowed :: "firewall_row list \<Rightarrow> string option \<Rightarrow> bool" where
  "is_ip_allowed table ip \<longleftrightarrow>
     table = [] \<or>
     (case ip of
        None \<Rightarrow> False
      | Some v \<Rightarrow>
          (case normalize_ip_address v of Inl _ \<Rightarrow> False | Inr normalized \<Rightarrow> normalized \<in> list_ip_addresses table))"

text \<open>The handlers of the allowlist invalidate this process's cache and, if a poller has been set, announce the
  change to the others.\<close>

record firewall_state =
  fs_table :: "firewall_row list"
  fs_cache :: firewall_cache
  fs_poller :: bool
  fs_versions :: "string \<rightharpoonup> int"

definition allowlist_changed :: "firewall_row list \<Rightarrow> firewall_state \<Rightarrow> firewall_state" where
  "allowlist_changed table s =
     s\<lparr> fs_table := table, fs_cache := firewall_cache_invalidate_all (fs_cache s),
       fs_versions := (if fs_poller s then bump ''firewall'' (fs_versions s) else fs_versions s) \<rparr>"

definition add_firewall_ip :: "datetime \<Rightarrow> string \<Rightarrow> firewall_state \<Rightarrow> (string + firewall_row) \<times> firewall_state" where
  "add_firewall_ip now v s =
     (case add_ip now v (fs_table s) of
        Inl Ip_Already_Exists \<Rightarrow> (Inl ''ip_exists'', s)
      | Inl _ \<Rightarrow> (Inl ''invalid_ip'', s)
      | Inr (row, table) \<Rightarrow> (Inr row, allowlist_changed table s))"

definition delete_firewall_ip :: "string \<Rightarrow> firewall_state \<Rightarrow> (string + string) \<times> firewall_state" where
  "delete_firewall_ip v s =
     (case remove_ip v (fs_table s) of
        Inl _ \<Rightarrow> (Inl ''invalid_ip'', s)
      | Inr (deleted, table) \<Rightarrow>
          if deleted then (Inr ''deleted'', allowlist_changed table s) else (Inl ''ip_not_found'', s))"

definition is_protected_api_path :: "string \<Rightarrow> bool" where
  "is_protected_api_path path \<longleftrightarrow>
     path = ''/backend-api/codex'' \<or> startswith path ''/backend-api/codex/'' \<or> path = ''/v1'' \<or> startswith path ''/v1/''"

text \<open>Whether the request is passed on; otherwise it is answered with status 403 and code \<open>ip_forbidden\<close>.\<close>

definition api_firewall_middleware ::
  "seconds \<Rightarrow> proxy_trust \<Rightarrow> string \<Rightarrow> http_connection \<Rightarrow> firewall_row list \<Rightarrow> firewall_cache \<Rightarrow> bool \<times> firewall_cache"
where
  "api_firewall_middleware now trust path rq table cache =
     (if \<not> is_protected_api_path path then (True, cache)
      else
        case firewall_client_ip (hc_headers rq) (hc_client rq) trust of
          None \<Rightarrow> (is_ip_allowed table None, cache)
        | Some ip \<Rightarrow>
            (case firewall_cache_is_allowed now ip cache of
               Some decision \<Rightarrow> (decision, cache)
             | None \<Rightarrow>
                 (let allowed = is_ip_allowed table (Some ip)
                  in (allowed, firewall_cache_set now (Some (fc_version cache)) ip allowed cache))))"

end
