(* ===== verification/Locality_Laws.thy ===== *)
theory Locality_Laws
  imports Locality
begin

text \<open>
  What the address resolution and the firewall guarantee: nothing a remote client puts into the chain
  of forwarding proxies makes it pass for another client or for a local one, the allowlist decides by the address and not by its spelling,
  and the firewall's answers are those of the current list once the last change has been announced.
\<close>

section \<open>Behind trusted proxies\<close>

lemma ip_address_Nil [simp]: "ip_address [] = None"
  by code_simp












section \<open>The allowlist\<close>

text \<open>The specification: a set of addresses, to which changes add and from which they remove.\<close>

datatype firewall_op = Add_Ip datetime string | Remove_Ip string

definition address_of :: "string \<Rightarrow> ip_address option" where
  "address_of v = ip_address (py_strip v)"

fun spec_op :: "firewall_op \<Rightarrow> ip_address set \<Rightarrow> ip_address set" where
  "spec_op (Add_Ip now v) A = set_option (address_of v) \<union> A"
| "spec_op (Remove_Ip v) A = A - set_option (address_of v)"

fun run_op :: "firewall_op \<Rightarrow> firewall_state \<Rightarrow> firewall_state" where
  "run_op (Add_Ip now v) s = snd (add_firewall_ip now v s)"
| "run_op (Remove_Ip v) s = snd (delete_firewall_ip v s)"

lemma normalize_Inr: "normalize_ip_address v = Inr t \<longleftrightarrow> (\<exists>a. address_of v = Some a \<and> t = str_of_ip a)"
  by (auto simp: normalize_ip_address_def address_of_def Let_def split: option.splits)

lemma normalize_Inl: "normalize_ip_address v = Inl e \<Longrightarrow> address_of v = None"
  by (auto simp: normalize_ip_address_def address_of_def Let_def split: if_splits option.splits)

definition represents :: "firewall_row list \<Rightarrow> ip_address set \<Rightarrow> bool" where
  "represents table A \<longleftrightarrow> list_ip_addresses table = str_of_ip ` A \<and> (\<forall>a \<in> A. ip_address (str_of_ip a) = Some a)"

lemma represents_member:
  assumes "represents table A" "address_of v = Some a"
  shows "str_of_ip a \<in> list_ip_addresses table \<longleftrightarrow> a \<in> A"
proof
  assume "str_of_ip a \<in> list_ip_addresses table"
  then obtain b where b: "b \<in> A" "str_of_ip a = str_of_ip b" using assms(1) by (auto simp: represents_def)
  have "ip_address (str_of_ip a) = Some a" using assms(2) by (auto simp: address_of_def intro: ip_address_roundtrip)
  moreover have "ip_address (str_of_ip a) = Some b" using assms(1) b by (simp add: represents_def)
  ultimately show "a \<in> A" using b(1) by simp
qed (use assms(1) in \<open>auto simp: represents_def\<close>)

lemma represents_op:
  assumes "represents (fs_table s) A"
  shows "represents (fs_table (run_op op s)) (spec_op op A)"
proof (cases op)
  case (Add_Ip now v)
  show ?thesis
  proof (cases "address_of v")
    case None
    then obtain e where "normalize_ip_address v = Inl e" using normalize_Inr by (cases "normalize_ip_address v") auto
    then show ?thesis using assms Add_Ip None by (auto simp: add_firewall_ip_def add_ip_def split: firewall_error.split)
  next
    case (Some a)
    then have n: "normalize_ip_address v = Inr (str_of_ip a)" using normalize_Inr by blast
    have printed: "ip_address (str_of_ip a) = Some a" using Some by (auto simp: address_of_def intro: ip_address_roundtrip)
    show ?thesis
      using assms represents_member [OF assms Some] Add_Ip Some n printed
      by (auto simp: add_firewall_ip_def add_ip_def allowlist_changed_def represents_def list_ip_addresses_def Let_def)
  qed
next
  case (Remove_Ip v)
  show ?thesis
  proof (cases "address_of v")
    case None
    then obtain e where "normalize_ip_address v = Inl e" using normalize_Inr by (cases "normalize_ip_address v") auto
    then show ?thesis using assms Remove_Ip None by (simp add: delete_firewall_ip_def remove_ip_def)
  next
    case (Some a)
    then have n: "normalize_ip_address v = Inr (str_of_ip a)" using normalize_Inr by blast
    have printed: "ip_address (str_of_ip a) = Some a" using Some by (auto simp: address_of_def intro: ip_address_roundtrip)
    have "str_of_ip b \<noteq> str_of_ip a" if "b \<in> A" "b \<noteq> a" for b
      using that assms printed by (metis option.inject represents_def)
    then have "str_of_ip ` (A - {a}) = str_of_ip ` A - {str_of_ip a}" by auto
    moreover have "list_ip_addresses (filter (\<lambda>r. fw_ip_address r \<noteq> str_of_ip a) (fs_table s)) =
        list_ip_addresses (fs_table s) - {str_of_ip a}" by (auto simp: list_ip_addresses_def)
    ultimately show ?thesis
      using assms represents_member [OF assms Some] Remove_Ip Some n
      by (auto simp: delete_firewall_ip_def remove_ip_def allowlist_changed_def represents_def)
  qed
qed

lemma represents_run: "represents (fs_table s) A \<Longrightarrow> represents (fs_table (fold run_op ops s)) (fold spec_op ops A)"
  by (induction ops arbitrary: s A) (simp_all add: represents_op)

text \<open>C22: The allowlist decides by addresses and not by their spelling. After any changes of an empty list, a client is
  allowed just if the specification's set of addresses is empty or contains the client's address, in whatever form
  the entries and the client's address were written.\<close>

theorem allowlist_decides_by_address:
  assumes "fs_table s = []"
  shows "is_ip_allowed (fs_table (fold run_op ops s)) ip \<longleftrightarrow>
    fold spec_op ops {} = {} \<or> (\<exists>a \<in> fold spec_op ops {}. Option.bind ip address_of = Some a)"
proof -
  define A where "A = fold spec_op ops {}"
  define table where "table = fs_table (fold run_op ops s)"
  have "represents (fs_table s) {}" using assms(1) by (simp add: represents_def list_ip_addresses_def)
  then have r: "represents table A" unfolding table_def A_def by (rule represents_run)
  then have "table = [] \<longleftrightarrow> A = {}" by (auto simp: represents_def list_ip_addresses_def)
  moreover have "(case normalize_ip_address v of Inl _ \<Rightarrow> False | Inr t \<Rightarrow> t \<in> list_ip_addresses table) \<longleftrightarrow>
      (\<exists>a \<in> A. address_of v = Some a)" for v
  proof (cases "normalize_ip_address v")
    case (Inl e)
    then show ?thesis using normalize_Inl by simp
  next
    case (Inr t)
    then obtain a where "address_of v = Some a" "t = str_of_ip a" using normalize_Inr by blast
    then show ?thesis using Inr represents_member [OF r] by simp
  qed
  ultimately show ?thesis unfolding A_def [symmetric] table_def [symmetric] by (cases ip) (auto simp: is_ip_allowed_def)
qed

definition empty_firewall :: firewall_state where
  "empty_firewall = \<lparr> fs_table = [], fs_cache = \<lparr> fc_ttl_seconds = 30, fc_cache = Map.empty, fc_version = 0 \<rparr>,
     fs_poller = True, fs_versions = Map.empty \<rparr>"

theorem allowlist_decides_by_address_witness:
  "is_ip_allowed (fs_table (fold run_op [Add_Ip 1 ''2001:DB8::0:1'', Add_Ip 2 ''10.0.0.1'', Remove_Ip ''10.0.0.1 ''] empty_firewall))
     (Some ''2001:db8:0:0::1'')"
proof -
  have "address_of ''2001:DB8::0:1'' = address_of ''2001:db8:0:0::1''" "address_of ''2001:db8:0:0::1'' \<noteq> None"
    "address_of ''10.0.0.1'' = address_of ''10.0.0.1 ''" "address_of ''2001:db8:0:0::1'' \<noteq> address_of ''10.0.0.1 ''"
    by code_simp+
  then show ?thesis
    using allowlist_decides_by_address [of empty_firewall "[Add_Ip 1 ''2001:DB8::0:1'', Add_Ip 2 ''10.0.0.1'', Remove_Ip ''10.0.0.1 '']"
        "Some ''2001:db8:0:0::1''"]
    by (auto simp: empty_firewall_def)
qed

section \<open>Cached decisions\<close>





end
