(* ===== verification/Spec2Isabelle.thy ===== *)
theory Spec2Isabelle
  imports Lb_Outcome Rate_Limit Key_Auth Key_Usage Leader Bridge_Laws Tool_Laws Replay_Laws Ws_Runs
    Locality_Laws
begin

text \<open>
  \<^bold>\<open>codex-lb\<close> is a proxy that spreads the requests of API key holders over a pool of upstream
  accounts. A request is authenticated by its key, charged against the key's usage limits, given an
  account by the load balancer, sent upstream, and settled with the usage the upstream reports. The
  accounts' rate limits, failures and health decide who is eligible; session affinity, caches in each
  process and tables shared by all processes make that decision stateful.

  \<^bold>\<open>Reading guide.\<close> Every definition keeps the name of the function, method or class it translates
  where Isabelle allows it; the paths below are relative to \<open>src/app\<close>. State is passed explicitly:
  an object is a \<open>record\<close>, a table is the list of its rows, a dictionary an association list in
  insertion order or a map. A clock reading, a random draw, a fresh id and a cryptographic hash are
  arguments. A \<open>float\<close> is an exact \<^typ>\<open>rat\<close>, a \<open>datetime\<close> an \<^typ>\<open>int\<close> number of microseconds, a
  \<open>str\<close> a \<^typ>\<open>string\<close> of code points below 256. An exception is a value of a sum type.

  \<^bold>\<open>Foundations.\<close>
  \<^item> \<open>Prelude\<close>: truthiness, first minimum and maximum, rounding, string operations, dictionaries.
  \<^item> \<open>Db_Models\<close>: rows of \<open>db/models.py\<close> and the time conversions of \<open>core/utils/time.py\<close>.
  \<^item> \<open>Plan_Types\<close>, \<open>Usage_Core\<close>, \<open>Retry\<close>, \<open>Pricing\<close>: \<open>core/plan_types.py\<close>, \<open>core/usage/__init__.py\<close>,
    \<open>core/utils/retry.py\<close> and \<open>core/usage/pricing.py\<close>; bounds on percentages, delays and costs.

  \<^bold>\<open>Choosing an account.\<close>
  \<^item> \<open>Balancer\<close> models \<open>core/balancer/logic.py\<close> and \<open>rendezvous_hash.py\<close>. \<open>Balancer_Laws\<close> shows that a
    selection is sound (only usable accounts), complete (it fails only when there is none), takes the
    best health tier, and what each strategy optimises; that a failed account is held out, and that a
    draining account recovers through probing only. The strategies are used through the locale
    \<open>pool_chooser\<close>.
  \<^item> \<open>Quota\<close> derives a status from usage windows (\<open>core/usage/quota.py\<close>).
  \<^item> \<open>Caches\<close> models the three caches with a time to live (\<open>account_cache.py\<close>, \<open>firewall_cache.py\<close>,
    \<open>api_key_cache.py\<close>) and \<open>core/cache/invalidation.py\<close>; the locale \<open>versioned_cache\<close>, interpreted by
    all three, proves that a load overtaken by an invalidation is never stored.
  \<^item> \<open>Account_Repo\<close> and \<open>Sticky\<close> are the tables of accounts and of session bindings; the locale
    \<open>cas_store\<close> states that of two writers with the same snapshot one wins.
  \<^item> \<open>Load_Balancer\<close> and \<open>Lb_Selection\<close> model \<open>modules/proxy/load_balancer.py\<close>: runtime state, derived
    states, persistence, stickiness, and the retry loop. \<open>Lb_Laws\<close> and \<open>Lb_Outcome\<close> show what a whole
    call delivers: an active account of the loaded inputs, recorded as such, with the affinity kept.

  \<^bold>\<open>Protecting the service.\<close>
  \<^item> \<open>Resilience\<close>: circuit breaker, bulkhead, backpressure, degradation and work admission; the locale
    \<open>lane_gate\<close> bounds every lane. \<open>Rate_Limit\<close>: retry budget and the login limiters, by the locale
    \<open>window_limiter\<close>: in no window are more attempts admitted than allowed.

  \<^bold>\<open>API keys.\<close>
  \<^item> \<open>Limit_Windows\<close>, \<open>Api_Keys\<close>, \<open>Key_Service\<close>, \<open>Key_Admin\<close>, \<open>Key_Usage\<close> model \<open>modules/api_keys\<close>: the
    windows, the tables, admission and settlement with retries on a busy database, management, and
    usage reports, with \<open>validate_api_key\<close> of \<open>core/auth/dependencies.py\<close>.
  \<^item> \<open>Key_Ledger\<close> and \<open>Key_Laws\<close>: each counter is the sum of the recorded charges, admission is atomic
    and within the limits, a release undoes it, and a reservation is closed once (locale
    \<open>metered_store\<close>). \<open>Key_Auth\<close>: no interleaving of key changes and cached validations lets a revoked
    key in once the change is announced.

  \<^bold>\<open>Who is calling.\<close>
  \<^item> \<open>Ip_Address\<close>: addresses and networks as in Python's \<open>ipaddress\<close>, with the round trip of printing and
    reading. \<open>Locality\<close>: \<open>core/request_locality.py\<close>, \<open>core/middleware/api_firewall.py\<close> and \<open>modules/firewall\<close>.
    \<open>Locality_Laws\<close>: nothing a client puts into the chain of forwarding proxies makes it pass for another
    client or for a local one, the allowlist decides by addresses and not by their spelling, and cached
    decisions follow the current list, by the locale \<open>versioned_cache\<close>.

  \<^bold>\<open>Several instances.\<close>
  \<^item> \<open>Leader\<close>: the lease of the scheduling leader (\<open>core/scheduling/leader_election.py\<close>).
  \<^item> \<open>Bridge\<close> and \<open>Bridge_Laws\<close>: sessions bridged between instances (\<open>durable_bridge_repository.py\<close>,
    \<open>durable_bridge_coordinator.py\<close>, \<open>ring_membership.py\<close>); a former owner is fenced off by its epoch and
    lookups stay within the API key.

  \<^bold>\<open>Events and tool calls.\<close>
  \<^item> \<open>Json_Numbers\<close>, \<open>Json\<close>, \<open>Json_Laws\<close>: JSON values (\<open>core/types.py\<close>) with the reader and the printer of the
    standard library, and that reading what was printed gives the value back. \<open>Sse\<close>: server-sent events and
    keepalives (\<open>core/utils/sse.py\<close>, the event reader of \<open>core/openai/parsing.py\<close>).
  \<^item> \<open>Tool_Dedupe\<close>, \<open>Tool_Laws\<close>, \<open>Replay_Laws\<close>: \<open>modules/proxy/tool_call_dedupe.py\<close>; a call with side
    effects is delivered once, and cleaning a replayed history removes repetitions only.

  \<^bold>\<open>Websocket connections\<close> (\<open>modules/proxy/service.py\<close>).
  \<^item> \<open>Ws_Events\<close>: what an upstream event says of its response and its error, and what an error means for
    the account. \<open>Ws_Requests\<close>: the requests of a connection (\<open>_WebSocketRequestState\<close>), matching events to
    them and taking them out of the queue. \<open>Ws_Stream\<close>: the gate that admits one unanswered request at a
    time, admission leases, reservations and \<open>_finalize_websocket_request_state\<close>. Calls to the other
    components are recorded in order in the shared state.
  \<^item> \<open>Ws_Process\<close>: the handler of an upstream message (\<open>_process_upstream_websocket_text\<close>), split at the
    stages of the code. \<open>Ws_Relay\<close>: failing requests, waiting, and one turn of the reader task.
    \<open>Ws_Session\<close>: the client's loop (\<open>proxy_responses_websocket\<close>) and the reader as a step relation over
    all interleavings.
  \<^item> \<open>Ws_Laws\<close> and \<open>Ws_Session_Laws\<close> keep a ledger of the requests of a connection (\<open>balanced\<close>) through
    every operation and every step. \<open>Ws_Runs\<close> draws the conclusions: no request is lost or doubled, the
    gate has one holder, a session that ends leaves nothing behind, events stay within their response,
    an expired wait makes progress, and a request that ends is settled once. It also exhibits runs in
    which a connection hangs, or drops a request that was to be replayed.

  \<^bold>\<open>Bounds.\<close> No fuel is used for loops that end by themselves: the batched sweeps, the advance of a
  limit's reset time and the purge of bridged sessions have termination proofs. Bounded retries carry
  the number of attempts of the source (four selection attempts, two claims, the busy retries of the
  key service). Locks and the SQLite writer section make each modelled operation one step; where the
  source gives up the lock between steps, the step relations interleave them.

  \<^bold>\<open>Not modelled.\<close> Network input and output (\<open>core/clients\<close>, HTTP streaming and the bridging of HTTP
  sessions in \<open>modules/proxy/service.py\<close>, the route handlers), the preparing of websocket requests and the
  choice of their account, which are choices of the environment in the step relation, schemas of request
  and response payloads, the dashboard views, OAuth and
  token refresh, migrations and sessions of the database, logging, metrics and tracing. What they
  provide to the modelled parts (registries, settings, latest usage rows) appears as arguments. The
  manifest lists every part with the reason.
\<close>

end
